(* ===== verification/Rust_Prelude.thy ===== *)
theory Rust_Prelude
  imports Main "HOL-Library.Word"
begin

text \<open>
  The vocabulary every other theory of the development uses: the machine integers of the
  Rust sources, the part of \<open>std\<close> the sources call (\<open>str\<close>, \<open>Option\<close>, \<open>Result\<close>,
  \<open>Vec\<close>, \<open>std::path::Path::components\<close>) and the lemmas the components share.

  A Rust \<open>str\<close> is modelled by the sequence of its Unicode scalar values, restricted to
  U+0000..U+00FF, the range of HOL's \<open>char\<close>. On that range \<open>char::is_whitespace\<close>,
  \<open>to_lowercase\<close> and \<open>str::len\<close> (UTF-8 bytes) are modelled exactly; the code never treats
  a scalar value beyond it in a way of its own.

  \<open>Result<T, E>\<close> is the sum type, \<open>Inl\<close> for \<open>Err\<close>. The \<open>?\<close> operator is \<open>and_then\<close>.
\<close>

section \<open>Integers, time and identifiers\<close>

type_synonym u8 = "8 word"
type_synonym u16 = "16 word"
type_synonym u32 = "32 word"
type_synonym u64 = "64 word"
type_synonym i32 = "32 word"
type_synonym i64 = "64 word"
type_synonym usize = "64 word"

text \<open>A \<open>uuid::Uuid\<close> is a 128-bit value; its textual forms belong to the \<open>uuid\<close> crate.\<close>

type_synonym uuid = "128 word"

text \<open>A \<open>chrono::DateTime<Utc>\<close>, in nanoseconds since the epoch.\<close>

type_synonym timestamp = int

definition seconds :: "int \<Rightarrow> int" where
  "seconds n = n * 1000000000"

definition days :: "int \<Rightarrow> int" where
  "days n = seconds (n * 86400)"

named_theorems rust_defs "definitions of the modelled standard library, unfolded on demand"

section \<open>Result\<close>

definition and_then :: "'e + 'a \<Rightarrow> ('a \<Rightarrow> 'e + 'b) \<Rightarrow> 'e + 'b" where
  "and_then r f = (case r of Inl e \<Rightarrow> Inl e | Inr x \<Rightarrow> f x)"

lemma and_then_simps [simp]:
  "and_then (Inl e) f = Inl e"
  "and_then (Inr x) f = f x"
  by (simp_all add: and_then_def)

lemma and_then_eq_Inr [simp]:
  "and_then r f = Inr y \<longleftrightarrow> (\<exists>x. r = Inr x \<and> f x = Inr y)"
  by (cases r) auto

lemma Inr_eq_and_then [simp]:
  "Inr y = and_then r f \<longleftrightarrow> (\<exists>x. r = Inr x \<and> f x = Inr y)"
  by (cases r) auto

lemma and_then_eq_InrE:
  assumes "and_then r f = Inr y"
  obtains x where "r = Inr x" "f x = Inr y"
  using assms by auto

definition ok_or :: "'a option \<Rightarrow> 'e \<Rightarrow> 'e + 'a" where
  "ok_or v e = (case v of None \<Rightarrow> Inl e | Some x \<Rightarrow> Inr x)"

lemma ok_or_simps [simp]:
  "ok_or None e = Inl e"
  "ok_or (Some x) e = Inr x"
  by (simp_all add: ok_or_def)

lemma ok_or_eq_Inr [simp]: "ok_or v e = Inr x \<longleftrightarrow> v = Some x"
  by (cases v) auto

definition unwrap_or :: "'a option \<Rightarrow> 'a \<Rightarrow> 'a" where
  "unwrap_or v d = (case v of None \<Rightarrow> d | Some x \<Rightarrow> x)"

lemma unwrap_or_simps [simp]:
  "unwrap_or None d = d"
  "unwrap_or (Some x) d = x"
  by (simp_all add: unwrap_or_def)

definition or_else :: "'a option \<Rightarrow> 'a option \<Rightarrow> 'a option" where
  "or_else v w = (case v of None \<Rightarrow> w | Some x \<Rightarrow> Some x)"

lemma or_else_simps [simp]:
  "or_else None w = w"
  "or_else (Some x) w = Some x"
  by (simp_all add: or_else_def)

lemma or_else_eq_Some:
  "or_else v w = Some x \<longleftrightarrow> v = Some x \<or> v = None \<and> w = Some x"
  by (cases v) auto

lemma or_else_eq_None [simp]: "or_else v w = None \<longleftrightarrow> v = None \<and> w = None"
  by (cases v) auto

definition opt_filter :: "('a \<Rightarrow> bool) \<Rightarrow> 'a option \<Rightarrow> 'a option" where
  "opt_filter P v = (case v of None \<Rightarrow> None | Some x \<Rightarrow> if P x then Some x else None)"

lemma opt_filter_simps [simp]:
  "opt_filter P None = None"
  "opt_filter P (Some x) = (if P x then Some x else None)"
  by (simp_all add: opt_filter_def)

definition is_some_and :: "'a option \<Rightarrow> ('a \<Rightarrow> bool) \<Rightarrow> bool" where
  "is_some_and v P = (case v of None \<Rightarrow> False | Some x \<Rightarrow> P x)"

lemma is_some_and_simps [simp]:
  "\<not> is_some_and None P"
  "is_some_and (Some x) P = P x"
  by (simp_all add: is_some_and_def)

lemma is_some_and_iff: "is_some_and v P \<longleftrightarrow> (\<exists>x. v = Some x \<and> P x)"
  by (cases v) auto

section \<open>Characters\<close>

definition scalar :: "char \<Rightarrow> nat" where
  [rust_defs]: "scalar c = of_char c"

definition is_whitespace :: "char \<Rightarrow> bool" where
  "is_whitespace c =
     (let n = scalar c in 9 \<le> n \<and> n \<le> 13 \<or> n = 32 \<or> n = 133 \<or> n = 160)"

definition is_control :: "char \<Rightarrow> bool" where
  "is_control c = (let n = scalar c in n < 32 \<or> 127 \<le> n \<and> n < 160)"

definition is_ascii_uppercase :: "char \<Rightarrow> bool" where
  "is_ascii_uppercase c = (let n = scalar c in 65 \<le> n \<and> n \<le> 90)"

definition is_ascii_lowercase :: "char \<Rightarrow> bool" where
  "is_ascii_lowercase c = (let n = scalar c in 97 \<le> n \<and> n \<le> 122)"

definition is_ascii_digit :: "char \<Rightarrow> bool" where
  "is_ascii_digit c = (let n = scalar c in 48 \<le> n \<and> n \<le> 57)"

definition is_ascii_alphanumeric :: "char \<Rightarrow> bool" where
  "is_ascii_alphanumeric c =
     (is_ascii_uppercase c \<or> is_ascii_lowercase c \<or> is_ascii_digit c)"

definition is_ascii_hexdigit :: "char \<Rightarrow> bool" where
  "is_ascii_hexdigit c =
     (let n = scalar c in
        is_ascii_digit c \<or> 65 \<le> n \<and> n \<le> 70 \<or> 97 \<le> n \<and> n \<le> 102)"

definition ascii_lower :: "char \<Rightarrow> char" where
  "ascii_lower c = (if is_ascii_uppercase c then char_of (scalar c + 32) else c)"

text \<open>
  \<open>char::to_lowercase\<close> up to U+00FF: ASCII letters and U+00C0..U+00DE without U+00D7
  (the multiplication sign) move up by 32.
\<close>

definition lower :: "char \<Rightarrow> char" where
  "lower c =
     (let n = scalar c in
        if is_ascii_uppercase c \<or> 192 \<le> n \<and> n \<le> 222 \<and> n \<noteq> 215
        then char_of (n + 32) else c)"

lemma scalar_less [simp]: "scalar c < 256"
  by (simp add: scalar_def)

lemma scalar_char_of [simp]: "n < 256 \<Longrightarrow> scalar (char_of n) = n"
  by (simp add: scalar_def)

lemma scalar_inject [simp]: "scalar c = scalar d \<longleftrightarrow> c = d"
  by (simp add: scalar_def)

lemma scalar_lower:
  "scalar (lower c) =
     (let n = scalar c in
        if 65 \<le> n \<and> n \<le> 90 \<or> 192 \<le> n \<and> n \<le> 222 \<and> n \<noteq> 215 then n + 32 else n)"
  using scalar_less [of c]
  by (auto simp: lower_def is_ascii_uppercase_def Let_def)

lemma scalar_ascii_lower:
  "scalar (ascii_lower c) = (let n = scalar c in if 65 \<le> n \<and> n \<le> 90 then n + 32 else n)"
  using scalar_less [of c]
  by (auto simp: ascii_lower_def is_ascii_uppercase_def Let_def)

lemma lower_idem [simp]: "lower (lower c) = lower c"
  unfolding scalar_inject [symmetric] scalar_lower Let_def by auto

lemma ascii_lower_idem [simp]: "ascii_lower (ascii_lower c) = ascii_lower c"
  unfolding scalar_inject [symmetric] scalar_ascii_lower Let_def by auto

lemma is_whitespace_lower [simp]: "is_whitespace (lower c) = is_whitespace c"
  by (auto simp: is_whitespace_def scalar_lower Let_def)

lemma is_whitespace_ascii_lower [simp]: "is_whitespace (ascii_lower c) = is_whitespace c"
  by (auto simp: is_whitespace_def scalar_ascii_lower Let_def)

text \<open>A character that is no letter is the image of itself only.\<close>

lemma lower_eq_nonletter:
  assumes "scalar d < 65" 
  shows "lower c = d \<longleftrightarrow> c = d"
  using assms unfolding scalar_inject [symmetric] scalar_lower Let_def by auto

lemma ascii_lower_eq_nonletter:
  assumes "scalar d < 65"
  shows "ascii_lower c = d \<longleftrightarrow> c = d"
  using assms unfolding scalar_inject [symmetric] scalar_ascii_lower Let_def by auto


section \<open>Strings\<close>


definition trim_start :: "string \<Rightarrow> string" where
  "trim_start s = dropWhile is_whitespace s"

definition trim_end :: "string \<Rightarrow> string" where
  "trim_end s = rev (dropWhile is_whitespace (rev s))"

definition trim :: "string \<Rightarrow> string" where
  "trim s = trim_end (trim_start s)"

definition to_lowercase :: "string \<Rightarrow> string" where
  "to_lowercase s = map lower s"

definition to_ascii_lowercase :: "string \<Rightarrow> string" where
  "to_ascii_lowercase s = map ascii_lower s"

definition eq_ignore_ascii_case :: "string \<Rightarrow> string \<Rightarrow> bool" where
  "eq_ignore_ascii_case s t = (to_ascii_lowercase s = to_ascii_lowercase t)"

text \<open>\<open>str::len\<close>: the length in UTF-8 bytes, two for a scalar value beyond U+007F.\<close>

definition str_len :: "string \<Rightarrow> nat" where
  "str_len s = sum_list (map (\<lambda>c. if scalar c < 128 then 1 else 2) s)"

fun strip_prefix :: "string \<Rightarrow> string \<Rightarrow> string option" where
  "strip_prefix [] s = Some s"
| "strip_prefix (p # ps) [] = None"
| "strip_prefix (p # ps) (c # cs) = (if p = c then strip_prefix ps cs else None)"

definition starts_with :: "string \<Rightarrow> string \<Rightarrow> bool" where
  "starts_with p s = (strip_prefix p s \<noteq> None)"

definition strip_suffix :: "string \<Rightarrow> string \<Rightarrow> string option" where
  "strip_suffix p s = map_option rev (strip_prefix (rev p) (rev s))"

definition ends_with :: "string \<Rightarrow> string \<Rightarrow> bool" where
  "ends_with p s = (strip_suffix p s \<noteq> None)"

lemma strip_prefix_eq_Some: "strip_prefix p s = Some t \<longleftrightarrow> s = p @ t"
  by (induction p s rule: strip_prefix.induct) auto

lemma strip_prefix_append [simp]: "strip_prefix p (p @ s) = Some s"
  by (simp add: strip_prefix_eq_Some)

lemma strip_suffix_eq_Some: "strip_suffix p s = Some t \<longleftrightarrow> s = t @ p"
proof -
  have "strip_suffix p s = Some t \<longleftrightarrow> strip_prefix (rev p) (rev s) = Some (rev t)"
    by (auto simp: strip_suffix_def)
  also have "\<dots> \<longleftrightarrow> rev s = rev (t @ p)"
    by (simp only: strip_prefix_eq_Some rev_append)
  finally show ?thesis by (simp only: rev_is_rev_conv)
qed

lemma starts_with_iff: "starts_with p s \<longleftrightarrow> (\<exists>t. s = p @ t)"
  by (auto simp: starts_with_def strip_prefix_eq_Some)

lemma starts_with_Cons [simp]: "starts_with [c] (d # ds) \<longleftrightarrow> c = d"
  by (simp add: starts_with_def)

lemma starts_with_Nil [simp]: "\<not> starts_with (c # cs) []"
  by (simp add: starts_with_def)

lemma ends_with_iff: "ends_with p s \<longleftrightarrow> (\<exists>t. s = t @ p)"
  by (auto simp: ends_with_def strip_suffix_eq_Some)

text \<open>
  \<open>trim_start_matches\<close> and \<open>trim_end_matches\<close> with a string pattern remove the pattern as
  often as it occurs. The sources use nonempty patterns only.
\<close>

function (sequential) trim_start_matches :: "string \<Rightarrow> string \<Rightarrow> string" where
  "trim_start_matches [] s = s"
| "trim_start_matches (p # ps) s =
     (case strip_prefix (p # ps) s of None \<Rightarrow> s | Some t \<Rightarrow> trim_start_matches (p # ps) t)"
  by pat_completeness auto
termination
  by (relation "measure (\<lambda>(p, s). length s)") (auto simp: strip_prefix_eq_Some)

declare trim_start_matches.simps [simp del]

definition trim_end_matches :: "string \<Rightarrow> string \<Rightarrow> string" where
  "trim_end_matches p s = rev (trim_start_matches (rev p) (rev s))"

definition trim_end_char :: "char \<Rightarrow> string \<Rightarrow> string" where
  "trim_end_char c s = rev (dropWhile (\<lambda>x. x = c) (rev s))"

text \<open>\<open>split(c)\<close> never yields an empty list; \<open>split_once(c)\<close> splits at the first \<open>c\<close>.\<close>

fun split_char :: "char \<Rightarrow> string \<Rightarrow> string list" where
  "split_char c [] = [[]]"
| "split_char c (x # xs) =
     (if x = c then [] # split_char c xs
      else (case split_char c xs of [] \<Rightarrow> [[x]] | w # ws \<Rightarrow> (x # w) # ws))"

fun split_once :: "char \<Rightarrow> string \<Rightarrow> (string \<times> string) option" where
  "split_once c [] = None"
| "split_once c (x # xs) =
     (if x = c then Some ([], xs)
      else map_option (\<lambda>(a, b). (x # a, b)) (split_once c xs))"

text \<open>\<open>split(c).next()\<close>, which is always \<open>Some\<close>.\<close>

definition split_first :: "char \<Rightarrow> string \<Rightarrow> string" where
  "split_first c s = takeWhile (\<lambda>x. x \<noteq> c) s"

fun replace_first :: "char \<Rightarrow> string \<Rightarrow> string \<Rightarrow> string" where
  "replace_first c r [] = []"
| "replace_first c r (x # xs) = (if x = c then r @ xs else x # replace_first c r xs)"

fun contains_str :: "string \<Rightarrow> string \<Rightarrow> bool" where
  "contains_str p [] = (p = [])"
| "contains_str p (c # cs) = (starts_with p (c # cs) \<or> contains_str p cs)"

fun join :: "string \<Rightarrow> string list \<Rightarrow> string" where
  "join sep [] = []"
| "join sep [x] = x"
| "join sep (x # y # ys) = x @ sep @ join sep (y # ys)"

text \<open>\<open>to_string\<close> on an unsigned integer: its decimal digits.\<close>

definition digit_char :: "nat \<Rightarrow> char" where
  "digit_char d = char_of (48 + d)"

fun show_nat :: "nat \<Rightarrow> string" where
  "show_nat n = (if n < 10 then [digit_char n] else show_nat (n div 10) @ [digit_char (n mod 10)])"

declare show_nat.simps [simp del]

definition show_word :: "'a::len word \<Rightarrow> string" where
  "show_word w = show_nat (unat w)"

text \<open>\<open>parse::<u16>()\<close>: decimal digits, at least one, after an optional \<open>+\<close>, without overflow.\<close>

definition digits_value :: "string \<Rightarrow> nat" where
  "digits_value = foldl (\<lambda>n c. 10 * n + (scalar c - 48)) 0"

definition parse_u16 :: "string \<Rightarrow> u16 option" where
  "parse_u16 s =
     (let digits = (case s of [] \<Rightarrow> [] | c # cs \<Rightarrow> if c = CHR ''+'' then cs else s)
      in if digits = [] \<or> \<not> list_all is_ascii_digit digits \<or> digits_value digits \<ge> 2 ^ 16 then None
         else Some (of_nat (digits_value digits)))"

subsection \<open>Facts about trimming and splitting\<close>

lemma dropWhile_idem_hd: "dropWhile P xs = xs \<longleftrightarrow> xs = [] \<or> \<not> P (hd xs)"
  by (cases xs) (auto, metis impossible_Cons length_dropWhile_le)

lemma trim_end_Nil [simp]: "trim_end [] = []"
  by (simp add: trim_end_def)

lemma trim_Nil [simp]: "trim [] = []"
  by (simp add: trim_def trim_start_def)

lemma trim_end_eq_self: "trim_end s = s \<longleftrightarrow> s = [] \<or> \<not> is_whitespace (last s)"
  by (simp add: trim_end_def rev_swap dropWhile_idem_hd hd_rev)

lemma trim_start_eq_self: "trim_start s = s \<longleftrightarrow> s = [] \<or> \<not> is_whitespace (hd s)"
  by (simp add: trim_start_def dropWhile_idem_hd)

lemma trim_end_last: "trim_end s \<noteq> [] \<Longrightarrow> \<not> is_whitespace (last (trim_end s))"
  by (metis hd_dropWhile last_rev rev_is_Nil_conv rev_rev_ident trim_end_def)

lemma trim_start_hd: "trim_start s \<noteq> [] \<Longrightarrow> \<not> is_whitespace (hd (trim_start s))"
  by (simp add: hd_dropWhile trim_start_def)

lemma trim_end_prefix: "\<exists>t. s = trim_end s @ t"
  by (metis rev_append rev_rev_ident takeWhile_dropWhile_id trim_end_def)

lemma trim_end_hd: "trim_end s \<noteq> [] \<Longrightarrow> hd (trim_end s) = hd s"
  by (metis hd_append2 trim_end_prefix)

lemma trim_hd: "trim s \<noteq> [] \<Longrightarrow> \<not> is_whitespace (hd (trim s))"
  unfolding trim_def by (metis trim_end_Nil trim_end_hd trim_start_hd)

lemma trim_last: "trim s \<noteq> [] \<Longrightarrow> \<not> is_whitespace (last (trim s))"
  unfolding trim_def by (rule trim_end_last)

lemma trim_eq_self:
  "trim s = s \<longleftrightarrow> s = [] \<or> \<not> is_whitespace (hd s) \<and> \<not> is_whitespace (last s)"
  by (metis trim_Nil trim_def trim_end_eq_self trim_hd trim_last trim_start_eq_self)

lemma trim_idem [simp]: "trim (trim s) = trim s"
  by (metis trim_eq_self trim_hd trim_last)

lemma trim_map:
  assumes "\<And>c. is_whitespace (f c) = is_whitespace c"
  shows "trim (map f s) = map f (trim s)"
  using assms
  by (simp add: trim_def trim_start_def trim_end_def dropWhile_map rev_map comp_def)

lemma trim_to_lowercase: "trim (to_lowercase s) = to_lowercase (trim s)"
  by (simp add: to_lowercase_def trim_map)

lemma trim_to_ascii_lowercase: "trim (to_ascii_lowercase s) = to_ascii_lowercase (trim s)"
  by (simp add: to_ascii_lowercase_def trim_map)

lemma to_lowercase_idem [simp]: "to_lowercase (to_lowercase s) = to_lowercase s"
  by (simp add: to_lowercase_def)

lemma to_ascii_lowercase_idem [simp]:
  "to_ascii_lowercase (to_ascii_lowercase s) = to_ascii_lowercase s"
  by (simp add: to_ascii_lowercase_def)

lemma to_lowercase_Nil_iff [simp]: "to_lowercase s = [] \<longleftrightarrow> s = []"
  by (simp add: to_lowercase_def)

lemma eq_ignore_ascii_case_refl [simp]: "eq_ignore_ascii_case s s"
  by (simp add: eq_ignore_ascii_case_def)

lemma eq_ignore_ascii_case_lower [simp]:
  "eq_ignore_ascii_case (to_ascii_lowercase s) t = eq_ignore_ascii_case s t"
  by (simp add: eq_ignore_ascii_case_def)

lemma trim_end_char_eq_self: "trim_end_char c s = s \<longleftrightarrow> s = [] \<or> last s \<noteq> c"
  by (simp add: trim_end_char_def rev_swap dropWhile_idem_hd hd_rev)

lemma trim_end_char_last: "trim_end_char c s \<noteq> [] \<Longrightarrow> last (trim_end_char c s) \<noteq> c"
  by (metis (mono_tags, lifting) hd_dropWhile last_rev rev_is_Nil_conv rev_rev_ident trim_end_char_def)

lemma trim_end_char_idem [simp]: "trim_end_char c (trim_end_char c s) = trim_end_char c s"
  by (metis trim_end_char_eq_self trim_end_char_last)

lemma trim_end_char_prefix: "\<exists>n. s = trim_end_char c s @ replicate n c"
proof (induction s rule: rev_induct)
  case Nil
  then show ?case by (simp add: trim_end_char_def)
next
  case (snoc x xs)
  then obtain n where n: "xs = trim_end_char c xs @ replicate n c" by blast
  show ?case
  proof (cases "x = c")
    case True
    then have "trim_end_char c (xs @ [x]) = trim_end_char c xs"
      by (simp add: trim_end_char_def)
    then have "xs @ [x] = trim_end_char c (xs @ [x]) @ replicate (Suc n) c"
      using n True by (simp add: replicate_append_same [symmetric])
    then show ?thesis by blast
  next
    case False
    then have "xs @ [x] = trim_end_char c (xs @ [x]) @ replicate 0 c"
      by (simp add: trim_end_char_def)
    then show ?thesis by blast
  qed
qed

lemma trim_end_char_to_lowercase:
  assumes "scalar c < 65"
  shows "trim_end_char c (to_lowercase s) = to_lowercase (trim_end_char c s)"
  using assms
  by (simp add: trim_end_char_def to_lowercase_def dropWhile_map rev_map comp_def lower_eq_nonletter)

lemma split_once_eq_Some:
  "split_once c s = Some (a, b) \<longleftrightarrow> s = a @ c # b \<and> c \<notin> set a"
proof (induction s arbitrary: a)
  case Nil
  then show ?case by simp
next
  case (Cons x xs)
  show ?case
    using Cons by (cases a) auto
qed

lemma split_once_eq_None: "split_once c s = None \<longleftrightarrow> c \<notin> set s"
  by (induction s) auto

lemma split_char_not_Nil [simp]: "split_char c s \<noteq> []"
  by (cases s) (auto split: list.splits)

lemma split_char_hd: "hd (split_char c s) = split_first c s"
  by (induction s) (auto simp: split_first_def split: list.splits)

lemma split_first_no_sep: "c \<notin> set (split_first c s)"
  by (auto simp: split_first_def dest: set_takeWhileD)

lemma split_char_no_sep: "w \<in> set (split_char c s) \<Longrightarrow> c \<notin> set w"
proof (induction s arbitrary: w)
  case Nil
  then show ?case by simp
next
  case (Cons x xs)
  then show ?case
    by (cases "split_char c xs") (auto split: if_splits)
qed

text \<open>Splitting what was joined: the separators come back off.\<close>

lemma split_char_single: "c \<notin> set w \<Longrightarrow> split_char c w = [w]"
  by (induction w) auto

lemma split_char_append: "c \<notin> set w \<Longrightarrow> split_char c (w @ c # s) = w # split_char c s"
  by (induction w) auto

lemma split_char_Cons_head:
  "d \<noteq> c \<Longrightarrow> split_char c (d # s) = (d # hd (split_char c s)) # tl (split_char c s)"
  by (cases "split_char c s") auto

lemma split_char_snoc:
  "d \<noteq> c \<Longrightarrow> split_char c (s @ [d]) = butlast (split_char c s) @ [last (split_char c s) @ [d]]"
  by (induction s) (auto simp: split_char_Cons_head split: list.splits)

lemma split_char_append_sep: "split_char c (a @ c # b) = split_char c a @ split_char c b"
proof (induction a)
  case (Cons d a)
  then show ?case by (cases "split_char c a") auto
qed simp

lemma trim_Cons_space: "is_whitespace d \<Longrightarrow> trim (d # s) = trim s"
  by (simp add: trim_def trim_start_def)

lemma trim_snoc_space:
  assumes "is_whitespace d"
  shows "trim (s @ [d]) = trim s"
proof -
  have "trim_start (s @ [d]) = (if trim_start s = [] then [] else trim_start s @ [d])"
    using assms by (auto simp: trim_start_def dropWhile_append dropWhile_eq_Nil_conv)
  then show ?thesis
    using assms by (auto simp: trim_def) (simp add: trim_end_def)
qed

lemma trim_split_trim_start:
  assumes "\<not> is_whitespace c"
  shows "map trim (split_char c (trim_start v)) = map trim (split_char c v)"
proof (induction v)
  case (Cons d v)
  show ?case
  proof (cases "is_whitespace d")
    case True
    then have "d \<noteq> c" using assms by auto
    then have "map trim (split_char c (d # v)) = map trim (split_char c v)"
      using True by (cases "split_char c v") (auto simp: trim_Cons_space)
    then show ?thesis using True Cons.IH by (simp add: trim_start_def)
  qed (simp add: trim_start_def)
qed (simp add: trim_start_def)

lemma trim_split_trim_end:
  assumes "\<not> is_whitespace c"
  shows "map trim (split_char c (trim_end v)) = map trim (split_char c v)"
proof (induction v rule: rev_induct)
  case (snoc d v)
  show ?case
  proof (cases "is_whitespace d")
    case True
    then have "d \<noteq> c" using assms by auto
    then have "map trim (split_char c (v @ [d])) =
        map trim (butlast (split_char c v)) @ [trim (last (split_char c v))]"
      using True by (simp add: split_char_snoc trim_snoc_space)
    also have "\<dots> = map trim (butlast (split_char c v) @ [last (split_char c v)])"
      by (simp only: map_append list.map)
    also have "\<dots> = map trim (split_char c v)" by simp
    finally have "map trim (split_char c (v @ [d])) = map trim (split_char c v)" .
    then show ?thesis using True snoc.IH by (simp add: trim_end_def)
  qed (simp add: trim_end_def)
qed simp

lemma trim_split_trim:
  "\<not> is_whitespace c \<Longrightarrow> map trim (split_char c (trim v)) = map trim (split_char c v)"
  by (simp add: trim_def trim_split_trim_end trim_split_trim_start)

lemma trim_split_Cons_space:
  assumes "is_whitespace d" and "\<not> is_whitespace c"
  shows "map trim (split_char c (d # s)) = map trim (split_char c s)"
  using assms by (cases "split_char c s") (auto simp: trim_Cons_space)

lemma join_eq_Nil: "join sep xs = [] \<Longrightarrow> x \<in> set xs \<Longrightarrow> x = []"
  by (induction sep xs rule: join.induct) auto

lemma join_Cons: "ys \<noteq> [] \<Longrightarrow> join sep (x # ys) = x @ sep @ join sep ys"
  by (cases ys) auto

section \<open>Decimal numerals\<close>

lemma digit_char_inject: "d < 10 \<Longrightarrow> e < 10 \<Longrightarrow> digit_char d = digit_char e \<Longrightarrow> d = e"
  unfolding digit_char_def scalar_inject [symmetric] by simp

lemma show_nat_inject: "show_nat m = show_nat n \<Longrightarrow> m = n"
proof (induction m arbitrary: n rule: show_nat.induct)
  case (1 m)
  show ?case
  proof (cases "m < 10")
    case True
    then show ?thesis
      using "1.prems" show_nat.simps [of m] show_nat.simps [of n] show_nat.simps [of "n div 10"]
      by (auto dest: digit_char_inject split: if_splits)
  next
    case False
    with "1.prems" have n: "\<not> n < 10"
      using show_nat.simps [of m] show_nat.simps [of n] show_nat.simps [of "m div 10"]
      by (auto split: if_splits)
    with False "1.prems" have "show_nat (m div 10) = show_nat (n div 10)"
      and "digit_char (m mod 10) = digit_char (n mod 10)"
      using show_nat.simps [of m] show_nat.simps [of n] by auto
    with "1.IH" False have "m div 10 = n div 10" and "m mod 10 = n mod 10"
      using digit_char_inject [of "m mod 10" "n mod 10"] by auto
    then show ?thesis
      by (metis div_mult_mod_eq)
  qed
qed

lemma show_word_inject [simp]: "show_word v = show_word w \<longleftrightarrow> v = w"
  by (auto simp: show_word_def word_unat_eq_iff dest!: show_nat_inject)

lemma show_nat_digits: "c \<in> set (show_nat n) \<Longrightarrow> is_ascii_digit c"
proof (induction n rule: show_nat.induct)
  case (1 n)
  have digit: "is_ascii_digit (digit_char d)" if "d < 10" for d
    using that by (simp add: is_ascii_digit_def digit_char_def)
  show ?case
    using 1 digit show_nat.simps [of n] by (auto split: if_splits)
qed

section \<open>Paths\<close>

text \<open>
  \<open>std::path::Path::components\<close> on Unix: repeated and trailing separators and \<open>.\<close> are
  dropped, except for a leading \<open>.\<close> of a relative path.
\<close>

datatype path_component = RootDir | CurDir | ParentDir | Normal string

definition body_component :: "string \<Rightarrow> path_component option" where
  "body_component w =
     (if w = [] \<or> w = ''.'' then None
      else if w = ''..'' then Some ParentDir
      else Some (Normal w))"

definition components :: "string \<Rightarrow> path_component list" where
  "components s =
     (if starts_with ''/'' s then RootDir # List.map_filter body_component (split_char CHR ''/'' s)
      else (if split_first CHR ''/'' s = ''.'' then [CurDir] else [])
           @ List.map_filter body_component (split_char CHR ''/'' s))"

definition is_absolute :: "string \<Rightarrow> bool" where
  "is_absolute s = starts_with ''/'' s"

text \<open>\<open>Path::join\<close>.\<close>

definition path_join :: "string \<Rightarrow> string \<Rightarrow> string" where
  "path_join a b =
     (if is_absolute b then b
      else if a = [] \<or> ends_with ''/'' a then a @ b
      else a @ ''/'' @ b)"

lemma ParentDir_in_components:
  "ParentDir \<in> set (components s) \<longleftrightarrow> ''..'' \<in> set (split_char CHR ''/'' s)"
  by (auto simp: components_def List.map_filter_def body_component_def split: if_splits)

section \<open>Association of keys and list scans\<close>

text \<open>
  \<open>iter().map(|x| (key(x), x)).collect::<HashMap>()\<close>: a later element with the same key
  replaces an earlier one.
\<close>

definition collect_map :: "('a \<Rightarrow> 'k) \<Rightarrow> 'a list \<Rightarrow> ('k \<rightharpoonup> 'a)" where
  "collect_map key xs = map_of (rev (map (\<lambda>x. (key x, x)) xs))"

lemma collect_map_SomeD: "collect_map key xs k = Some x \<Longrightarrow> x \<in> set xs \<and> key x = k"
  by (auto simp: collect_map_def dest: map_of_SomeD)

lemma collect_map_None: "collect_map key xs k = None \<longleftrightarrow> k \<notin> key ` set xs"
  by (force simp: collect_map_def map_of_eq_None_iff)

lemma collect_map_distinct:
  assumes "distinct (map key xs)" and "x \<in> set xs"
  shows "collect_map key xs (key x) = Some x"
proof -
  have "distinct (map fst (rev (map (\<lambda>x. (key x, x)) xs)))"
    using assms(1) by (simp add: rev_map comp_def) (metis distinct_rev rev_map)
  with assms(2) show ?thesis
    by (simp add: collect_map_def)
qed

text \<open>
  The loop \<open>for x in xs { if !out.contains(x) { out.push(x) } }\<close>, which keeps the first
  occurrence of every element.
\<close>

definition push_new :: "'a list \<Rightarrow> 'a \<Rightarrow> 'a list" where
  "push_new out x = (if x \<in> set out then out else out @ [x])"

lemma set_push_new [simp]: "set (push_new out x) = insert x (set out)"
  by (auto simp: push_new_def)

lemma distinct_push_new [simp]: "distinct (push_new out x) = distinct out"
  by (auto simp: push_new_def)

lemma set_foldl_push_new: "set (foldl push_new out xs) = set out \<union> set xs"
  by (induction xs arbitrary: out) auto

lemma distinct_foldl_push_new: "distinct (foldl push_new out xs) = distinct out"
  by (induction xs arbitrary: out) auto

section \<open>Validating loops\<close>

text \<open>
  A loop that checks and converts the elements of a request one by one and pushes each result, leaving
  with the first error. The step sees the results so far: a \<open>HashSet\<close> of the keys seen is the set of
  their keys.
\<close>

fun try_loop :: "('b list \<Rightarrow> 'a \<Rightarrow> 'e + 'b) \<Rightarrow> 'b list \<Rightarrow> 'a list \<Rightarrow> 'e + 'b list" where
  "try_loop f acc [] = Inr acc"
| "try_loop f acc (x # xs) = and_then (f acc x) (\<lambda>y. try_loop f (acc @ [y]) xs)"

text \<open>What every step establishes of the results so far holds of the result.\<close>

lemma try_loop_invariant:
  assumes "try_loop f acc xs = Inr ys" and "I acc"
    and "\<And>acc x y. x \<in> set xs \<Longrightarrow> I acc \<Longrightarrow> f acc x = Inr y \<Longrightarrow> I (acc @ [y])"
  shows "I ys"
  using assms
proof (induction xs arbitrary: acc)
  case (Cons x xs)
  then obtain y where "f acc x = Inr y" and "try_loop f (acc @ [y]) xs = Inr ys"
    by auto
  with Cons show ?case
    by (metis list.set_intros)
qed simp

lemma try_loop_length: "try_loop f acc xs = Inr ys \<Longrightarrow> length ys = length acc + length xs"
  by (induction xs arbitrary: acc) auto

lemma try_loop_all:
  assumes "try_loop f [] xs = Inr ys" and "\<And>acc x y. x \<in> set xs \<Longrightarrow> f acc x = Inr y \<Longrightarrow> P y"
  shows "\<forall>y \<in> set ys. P y"
  by (rule try_loop_invariant [OF assms(1)]) (auto intro: assms(2))

lemma try_loop_distinct:
  assumes "try_loop f [] xs = Inr ys" and "\<And>acc x y. f acc x = Inr y \<Longrightarrow> key y \<notin> key ` set acc"
  shows "distinct (map key ys)"
  by (rule try_loop_invariant [OF assms(1)]) (auto dest: assms(2))

text \<open>Each element of the result is the step's value after the elements before it, and conversely.\<close>

lemma try_loop_prefix: "try_loop f acc xs = Inr ys \<Longrightarrow> take (length acc) ys = acc"
proof (induction xs arbitrary: acc)
  case (Cons x xs)
  then obtain y where "try_loop f (acc @ [y]) xs = Inr ys"
    by auto
  from Cons.IH [OF this] have "take (length acc) (take (Suc (length acc)) ys) = acc"
    by simp
  then show ?case
    by simp
qed simp

lemma try_loop_nthD:
  assumes "try_loop f acc xs = Inr ys" and "i < length xs"
  shows "f (take (length acc + i) ys) (xs ! i) = Inr (ys ! (length acc + i))"
  using assms
proof (induction xs arbitrary: acc i)
  case (Cons x xs)
  then obtain y where y: "f acc x = Inr y" "try_loop f (acc @ [y]) xs = Inr ys"
    by auto
  have acc: "take (Suc (length acc)) ys = acc @ [y]"
    using try_loop_prefix [OF y(2)] by simp
  have "length acc < length ys"
    using try_loop_length [OF y(2)] by simp
  with acc have "take (length acc) ys = acc" and "ys ! length acc = y"
    by (simp_all add: take_Suc_conv_app_nth)
  then show ?case
    using y Cons.IH [OF y(2)] Cons.prems(2) by (cases i) auto
qed simp

lemma try_loop_nthI:
  assumes "length ys = length xs"
    and "\<And>i. i < length xs \<Longrightarrow> f (take i ys) (xs ! i) = Inr (ys ! i)"
  shows "try_loop f [] xs = Inr ys"
proof -
  have "try_loop f (take n ys) (drop n xs) = Inr ys" if "n \<le> length xs" for n
    using that
  proof (induction "length xs - n" arbitrary: n)
    case (Suc k)
    then have n: "n < length xs"
      by simp
    have "try_loop f (take (Suc n) ys) (drop (Suc n) xs) = Inr ys"
      using Suc.hyps n by simp
    then show ?case
      using n assms by (simp add: Cons_nth_drop_Suc [symmetric] take_Suc_conv_app_nth)
  qed (simp add: assms)
  from this [of 0] show ?thesis
    by simp
qed

text \<open>A step that gives back the elements of a list, in order, makes the loop give back the list.\<close>

lemma try_loop_map:
  assumes "\<And>us x vs. xs = us @ x # vs \<Longrightarrow> f us (g x) = Inr x"
  shows "try_loop f [] (map g xs) = Inr xs"
  by (rule try_loop_nthI) (simp_all add: assms [OF id_take_nth_drop])

end
