(* ===== verification/Effects.thy ===== *)
theory Effects
  imports Rust_Prelude
begin

text \<open>
  Effectful Rust code as state passing: an \<open>async fn\<close> that returns \<open>anyhow::Result<A>\<close> is a
  function from the state of the world to a result and the next state, and errors are their texts (\<open>io\<close>); the
  API's handlers have errors of their own type (\<open>eio\<close>).
  \<open>io_bind\<close> is the \<open>?\<close> operator, \<open>io_ignore\<close> the \<open>let _ = ...\<close> of a call whose error is dropped, and
  \<open>io_for\<close> a \<open>for\<close> loop whose body may leave the function with \<open>?\<close>. The locale \<open>io_relation\<close>
  carries a reflexive and transitive relation between states through these combinators.
\<close>

type_synonym ('w, 'e, 'a) eio = "'w \<Rightarrow> ('e + 'a) \<times> 'w"

type_synonym ('w, 'a) io = "('w, string, 'a) eio"

definition io_return :: "'a \<Rightarrow> ('w, 'e, 'a) eio" where
  "io_return x w = (Inr x, w)"

definition io_fail :: "'e \<Rightarrow> ('w, 'e, 'a) eio" where
  "io_fail e w = (Inl e, w)"

definition io_bind :: "('w, 'e, 'a) eio \<Rightarrow> ('a \<Rightarrow> ('w, 'e, 'b) eio) \<Rightarrow> ('w, 'e, 'b) eio" where
  "io_bind m f w = (case m w of (Inl e, w') \<Rightarrow> (Inl e, w') | (Inr x, w') \<Rightarrow> f x w')"

text \<open>Two statements in a row.\<close>

definition io_then :: "('w, 'e, 'a) eio \<Rightarrow> ('w, 'e, 'b) eio \<Rightarrow> ('w, 'e, 'b) eio" where
  "io_then m n = io_bind m (\<lambda>_. n)"

definition io_ignore :: "('w, 'e, 'a) eio \<Rightarrow> ('w, 'f, unit) eio" where
  "io_ignore m w = (Inr (), snd (m w))"

text \<open>\<open>map_err\<close>.\<close>

definition io_map_err :: "('e \<Rightarrow> 'f) \<Rightarrow> ('w, 'e, 'a) eio \<Rightarrow> ('w, 'f, 'a) eio" where
  "io_map_err f m w = (map_sum f id (fst (m w)), snd (m w))"

text \<open>A \<open>match\<close> on the result of a call.\<close>

definition io_match :: "('w, 'e, 'a) eio \<Rightarrow> ('e \<Rightarrow> ('w, 'f, 'b) eio) \<Rightarrow> ('a \<Rightarrow> ('w, 'f, 'b) eio) \<Rightarrow> ('w, 'f, 'b) eio" where
  "io_match m f g w = (case m w of (Inl e, w') \<Rightarrow> f e w' | (Inr x, w') \<Rightarrow> g x w')"

text \<open>The result of \<open>m\<close>, after \<open>n\<close> has run for its effect: \<open>let r = m; let _ = n; r\<close>.\<close>

definition io_finally :: "('w, 'e, 'a) eio \<Rightarrow> ('w, 'f, 'b) eio \<Rightarrow> ('w, 'e, 'a) eio" where
  "io_finally m n w = (case m w of (r, w') \<Rightarrow> (r, snd (n w')))"

definition io_read :: "('w \<Rightarrow> 'a) \<Rightarrow> ('w, 'e, 'a) eio" where
  "io_read f w = (Inr (f w), w)"

definition io_modify :: "('w \<Rightarrow> 'w) \<Rightarrow> ('w, 'e, unit) eio" where
  "io_modify f w = (Inr (), f w)"

definition io_lift :: "'e + 'a \<Rightarrow> ('w, 'e, 'a) eio" where
  "io_lift r w = (r, w)"

fun io_for :: "'a list \<Rightarrow> ('a \<Rightarrow> ('w, 'e, unit) eio) \<Rightarrow> ('w, 'e, unit) eio" where
  "io_for [] f = io_return ()"
| "io_for (x # xs) f = io_then (f x) (io_for xs f)"

text \<open>A loop that collects a value per element.\<close>

fun io_collect :: "'a list \<Rightarrow> ('a \<Rightarrow> ('w, 'e, 'b) eio) \<Rightarrow> ('w, 'e, 'b list) eio" where
  "io_collect [] f = io_return []"
| "io_collect (x # xs) f = io_bind (f x) (\<lambda>y. io_bind (io_collect xs f) (\<lambda>ys. io_return (y # ys)))"

named_theorems io_defs "the combinators as functions of the state"

lemma io_apply [io_defs]:
  "io_return x w = (Inr x, w)" "io_fail e w = (Inl e, w)" "io_read f w = (Inr (f w), w)"
  "io_modify g w = (Inr (), g w)" "io_lift r w = (r, w)" "io_ignore m w = (Inr (), snd (m w))"
  by (simp_all add: io_return_def io_fail_def io_read_def io_modify_def io_lift_def io_ignore_def)

lemma io_bind_apply [io_defs]:
  "io_bind m f w = (case fst (m w) of Inl e \<Rightarrow> (Inl e, snd (m w)) | Inr x \<Rightarrow> f x (snd (m w)))"
  "io_then m n w = (case fst (m w) of Inl e \<Rightarrow> (Inl e, snd (m w)) | Inr _ \<Rightarrow> n (snd (m w)))"
  "io_match m g h w = (case fst (m w) of Inl e \<Rightarrow> g e (snd (m w)) | Inr x \<Rightarrow> h x (snd (m w)))"
  "io_map_err k m w = (map_sum k id (fst (m w)), snd (m w))"
  "io_finally m l w = (fst (m w), snd (l (snd (m w))))"
  by (simp_all add: io_bind_def io_then_def io_match_def io_map_err_def io_finally_def split: prod.splits sum.splits)

lemma map_sum_id [simp]:
  "map_sum k id r = Inr x \<longleftrightarrow> r = Inr x" "isl (map_sum k id r) = isl r"
  by (cases r; simp)+

lemma io_ignore_then [simp]: "io_then (io_ignore m) n w = n (snd (m w))"
  by (simp add: io_defs)

text \<open>
  When a sequence succeeds, its parts did, one after the other.
\<close>

lemma io_then_Inr: "io_then m n w = (Inr y, w') \<longleftrightarrow> (\<exists>x w1. m w = (Inr x, w1) \<and> n w1 = (Inr y, w'))"
  by (auto simp: io_then_def io_bind_def split: prod.splits sum.splits)

lemma io_bind_Inr: "io_bind m f w = (Inr y, w') \<longleftrightarrow> (\<exists>x w1. m w = (Inr x, w1) \<and> f x w1 = (Inr y, w'))"
  by (auto simp: io_bind_def split: prod.splits sum.splits)

lemma io_lift_Inr [simp]: "io_lift r w = (Inr y, w') \<longleftrightarrow> r = Inr y \<and> w' = w"
  by (auto simp: io_lift_def)

lemma io_for_append: "io_for (xs @ ys) f = io_then (io_for xs f) (io_for ys f)"
  by (induction xs) (auto simp: fun_eq_iff io_defs split: sum.splits)

section \<open>Relations kept by a computation\<close>

definition io_keeps :: "('w \<Rightarrow> 'w \<Rightarrow> bool) \<Rightarrow> ('w, 'e, 'a) eio \<Rightarrow> bool" where
  "io_keeps R m \<longleftrightarrow> (\<forall>w. R w (snd (m w)))"

lemma io_keepsD: "io_keeps R m \<Longrightarrow> R w (snd (m w))"
  by (simp add: io_keeps_def)

locale io_relation =
  fixes R :: "'w \<Rightarrow> 'w \<Rightarrow> bool"
  assumes R_refl: "R w w"
    and R_trans: "R u v \<Longrightarrow> R v w \<Longrightarrow> R u w"
begin

lemma keeps_return: "io_keeps R (io_return x)"
  by (simp add: io_keeps_def io_defs R_refl)

lemma keeps_fail: "io_keeps R (io_fail e)"
  by (simp add: io_keeps_def io_defs R_refl)

lemma keeps_read: "io_keeps R (io_read f)"
  by (simp add: io_keeps_def io_defs R_refl)

lemma keeps_lift: "io_keeps R (io_lift r)"
  by (simp add: io_keeps_def io_defs R_refl)

lemma keeps_bind: "io_keeps R m \<Longrightarrow> (\<And>x. io_keeps R (f x)) \<Longrightarrow> io_keeps R (io_bind m f)"
  by (auto simp: io_keeps_def io_defs split: sum.splits intro: R_trans)

lemma keeps_then: "io_keeps R m \<Longrightarrow> io_keeps R n \<Longrightarrow> io_keeps R (io_then m n)"
  by (simp add: io_then_def keeps_bind)

lemma keeps_ignore: "io_keeps R m \<Longrightarrow> io_keeps R (io_ignore m)"
  by (simp add: io_keeps_def io_defs)

lemma keeps_map_err: "io_keeps R m \<Longrightarrow> io_keeps R (io_map_err k m)"
  by (simp add: io_keeps_def io_defs)

lemma keeps_match:
  "io_keeps R m \<Longrightarrow> (\<And>e. io_keeps R (g e)) \<Longrightarrow> (\<And>x. io_keeps R (h x)) \<Longrightarrow> io_keeps R (io_match m g h)"
  by (auto simp: io_keeps_def io_defs split: sum.splits intro: R_trans)

lemma keeps_finally: "io_keeps R m \<Longrightarrow> io_keeps R n \<Longrightarrow> io_keeps R (io_finally m n)"
  by (auto simp: io_keeps_def io_defs intro: R_trans)

lemma keeps_for: "(\<And>x. x \<in> set xs \<Longrightarrow> io_keeps R (f x)) \<Longrightarrow> io_keeps R (io_for xs f)"
  by (induction xs) (auto intro: keeps_return keeps_then)

lemma keeps_collect: "(\<And>x. x \<in> set xs \<Longrightarrow> io_keeps R (f x)) \<Longrightarrow> io_keeps R (io_collect xs f)"
  by (induction xs) (auto intro!: keeps_return keeps_bind)

lemma keeps_if: "(b \<Longrightarrow> io_keeps R m) \<Longrightarrow> (\<not> b \<Longrightarrow> io_keeps R n) \<Longrightarrow> io_keeps R (if b then m else n)"
  by simp

lemma keeps_option:
  "(v = None \<Longrightarrow> io_keeps R m) \<Longrightarrow> (\<And>x. v = Some x \<Longrightarrow> io_keeps R (f x)) \<Longrightarrow>
     io_keeps R (case v of None \<Rightarrow> m | Some x \<Rightarrow> f x)"
  by (cases v) auto

lemmas keeps_intros =
  keeps_return keeps_fail keeps_read keeps_lift keeps_bind keeps_then keeps_ignore keeps_map_err
  keeps_match keeps_finally keeps_for keeps_collect keeps_if keeps_option

end

text \<open>A computation that does not change what \<open>f\<close> sees of the state.\<close>

definition same :: "('w \<Rightarrow> 'v) \<Rightarrow> 'w \<Rightarrow> 'w \<Rightarrow> bool" where
  "same f w w' \<longleftrightarrow> f w' = f w"

interpretation same: io_relation "same f" for f
  by unfold_locales (auto simp: same_def)

end
