(* ===== verification/Models.thy ===== *)
theory Models
  imports Rust_Prelude
begin

text \<open>
  The data model of \<open>crates/containr-common/src/models.rs\<close>: every struct as a record, every
  enum as a datatype, and the functions of the file. What a function takes from its
  environment (\<open>Uuid::new_v4()\<close>, \<open>Utc::now()\<close>) is an argument; the textual form of a uuid is
  the argument \<open>show_uuid\<close>.

  An \<open>f64\<close> is only passed through by this file; it is carried as its 64-bit pattern.
\<close>

unbundle bit_operations_syntax

type_synonym f64 = "64 word"

section \<open>Enums and plain structs\<close>

record env_var =
  ev_key :: string
  ev_value :: string
  ev_secret :: bool

record build_arg =
  ba_key :: string
  ba_value :: string
  ba_secret :: bool

datatype restart_policy = Never | Always | OnFailure | UnlessStopped

datatype rollout_strategy = StopFirst | StartFirst

record health_check =
  hc_path :: string
  hc_interval_secs :: u32
  hc_timeout_secs :: u32
  hc_retries :: u32

record service_mount =
  m_name :: string
  m_target :: string
  m_read_only :: bool
  m_host_path :: "string option"
  m_shared :: bool

record config_file =
  cf_path :: string
  cf_content :: string

record basic_auth =
  bau_username :: string
  bau_password_hash :: string

datatype login_gate_scope = OwnerScope | AllUsers

record login_gate =
  lg_scope :: login_gate_scope

datatype port_protocol = Tcp | Udp

record port_mapping =
  pm_host_port :: u16
  pm_container_port :: u16
  pm_protocol :: port_protocol

definition port_protocol_as_str :: "port_protocol \<Rightarrow> string" where
  "port_protocol_as_str p = (case p of Tcp \<Rightarrow> ''tcp'' | Udp \<Rightarrow> ''udp'')"

definition port_protocol_parse :: "string \<Rightarrow> port_protocol option" where
  "port_protocol_parse value =
     (let v = to_ascii_lowercase (trim value) in
        if v = ''tcp'' then Some Tcp
        else if v = ''udp'' then Some Udp
        else None)"

datatype service_type =
    WebService | PrivateService | BackgroundWorker | CronJob
  | Postgres | Redis | Mariadb | Qdrant | RabbitMq

datatype service_health = HealthUnknown | Healthy | Unhealthy | HealthStarting

datatype deployment_status =
    Pending | Cloning | Building | Pushing | Starting | Running | Failed | Stopped

record service_registry_auth =
  ra_server :: "string option"
  ra_username :: string
  ra_password :: string

section \<open>Container services\<close>

record container_service =
  s_id :: uuid
  s_app_id :: uuid
  s_name :: string
  s_image :: string
  s_service_type :: service_type
  s_port :: u16
  s_expose_http :: bool
  s_additional_ports :: "u16 list"
  s_replicas :: u32
  s_memory_limit :: "u64 option"
  s_cpu_limit :: "f64 option"
  s_depends_on :: "string list"
  s_health_check :: "health_check option"
  s_restart_policy :: restart_policy
  s_registry_auth :: "service_registry_auth option"
  s_env_vars :: "env_var list"
  s_domains :: "string list"
  s_http_only_domains :: "string list"
  s_build_context :: "string option"
  s_dockerfile_path :: "string option"
  s_build_target :: "string option"
  s_build_args :: "build_arg list"
  s_command :: "string list option"
  s_entrypoint :: "string list option"
  s_working_dir :: "string option"
  s_schedule :: "string option"
  s_mounts :: "service_mount list"
  s_notes :: "string option"
  s_basic_auth :: "basic_auth option"
  s_login_gate :: "login_gate option"
  s_port_mappings :: "port_mapping list"
  s_files :: "config_file list"
  s_created_at :: timestamp
  s_updated_at :: timestamp

definition container_service_new ::
  "uuid \<Rightarrow> timestamp \<Rightarrow> uuid \<Rightarrow> string \<Rightarrow> string \<Rightarrow> u16 \<Rightarrow> container_service" where
  "container_service_new new_id now app_id name img port =
     \<lparr> s_id = new_id, s_app_id = app_id, s_name = name, s_image = img,
       s_service_type = PrivateService, s_port = port, s_expose_http = False,
       s_additional_ports = [], s_replicas = 1, s_memory_limit = None, s_cpu_limit = None,
       s_depends_on = [], s_health_check = None, s_restart_policy = Always,
       s_registry_auth = None, s_env_vars = [], s_domains = [], s_http_only_domains = [],
       s_build_context = None, s_dockerfile_path = None, s_build_target = None,
       s_build_args = [], s_command = None, s_entrypoint = None, s_working_dir = None,
       s_schedule = None, s_mounts = [], s_notes = None, s_basic_auth = None,
       s_login_gate = None, s_port_mappings = [], s_files = [],
       s_created_at = now, s_updated_at = now \<rparr>"

definition service_type_name :: "service_type \<Rightarrow> string" where
  "service_type_name t =
     (case t of
        WebService \<Rightarrow> ''web_service''
      | PrivateService \<Rightarrow> ''private_service''
      | BackgroundWorker \<Rightarrow> ''background_worker''
      | CronJob \<Rightarrow> ''cron_job''
      | Postgres \<Rightarrow> ''postgres''
      | Redis \<Rightarrow> ''redis''
      | Mariadb \<Rightarrow> ''mariadb''
      | Qdrant \<Rightarrow> ''qdrant''
      | RabbitMq \<Rightarrow> ''rabbitmq'')"

definition expects_inbound_port :: "container_service \<Rightarrow> bool" where
  "expects_inbound_port s = (s_service_type s \<notin> {BackgroundWorker, CronJob})"

definition is_public_http :: "container_service \<Rightarrow> bool" where
  "is_public_http s = (s_service_type s = WebService)"

definition is_cron_job :: "container_service \<Rightarrow> bool" where
  "is_cron_job s = (s_service_type s = CronJob)"

definition service_requires_source_checkout :: "container_service \<Rightarrow> bool" where
  "service_requires_source_checkout s = (trim (s_image s) = [])"

definition service_custom_domains :: "container_service \<Rightarrow> string list" where
  "service_custom_domains s =
     foldl (\<lambda>out d. if trim d \<noteq> [] \<and> d \<notin> set out then out @ [d] else out) [] (s_domains s)"

definition service_http_only_domains :: "container_service \<Rightarrow> string list" where
  "service_http_only_domains s =
     (let custom = service_custom_domains s in
        foldl (\<lambda>out d. if d \<in> set custom \<and> d \<notin> set out then out @ [d] else out) []
          (s_http_only_domains s))"

definition https_domains :: "container_service \<Rightarrow> string list" where
  "https_domains s =
     (let http_only = service_http_only_domains s in
        filter (\<lambda>d. d \<notin> set http_only) (service_custom_domains s))"

definition domain_https_enabled :: "container_service \<Rightarrow> string \<Rightarrow> bool" where
  "domain_https_enabled s domain = (domain \<in> set (https_domains s))"

definition infer_service_type :: "bool \<Rightarrow> u16 \<Rightarrow> service_type" where
  "infer_service_type expose_http port =
     (if expose_http then WebService
      else if port = 0 then BackgroundWorker
      else PrivateService)"

section \<open>Projects\<close>

record project =
  p_id :: uuid
  p_name :: string
  p_github_url :: string
  p_branch :: string
  p_domains :: "string list"
  p_domain :: "string option"
  p_env_vars :: "env_var list"
  p_auto_deploy_enabled :: bool
  p_auto_deploy_watch_paths :: "string list"
  p_auto_deploy_cleanup_stale_deployments :: bool
  p_deploy_webhook_token :: "string option"
  p_port :: u16
  p_services :: "container_service list"
  p_rollout_strategy :: rollout_strategy
  p_owner_id :: uuid
  p_created_at :: timestamp
  p_updated_at :: timestamp

definition default_port :: u16 where
  "default_port = 8080"

definition default_branch_name :: string where
  "default_branch_name = ''main''"

text \<open>\<open>token\<close> is the freshly generated \<open>new_deploy_webhook_token()\<close>.\<close>

definition project_new ::
  "uuid \<Rightarrow> timestamp \<Rightarrow> string \<Rightarrow> string \<Rightarrow> string \<Rightarrow> uuid \<Rightarrow> project" where
  "project_new new_id now token name github_url owner_id =
     \<lparr> p_id = new_id, p_name = name, p_github_url = github_url,
       p_branch = default_branch_name, p_domains = [], p_domain = None, p_env_vars = [],
       p_auto_deploy_enabled = True, p_auto_deploy_watch_paths = [],
       p_auto_deploy_cleanup_stale_deployments = True,
       p_deploy_webhook_token = Some token, p_port = 8080, p_services = [],
       p_rollout_strategy = StopFirst, p_owner_id = owner_id,
       p_created_at = now, p_updated_at = now \<rparr>"

definition has_services :: "project \<Rightarrow> bool" where
  "has_services p = (p_services p \<noteq> [])"

definition project_requires_source_checkout :: "project \<Rightarrow> bool" where
  "project_requires_source_checkout p = list_ex service_requires_source_checkout (p_services p)"

definition project_custom_domains :: "project \<Rightarrow> string list" where
  "project_custom_domains p =
     foldl (\<lambda>out s. foldl push_new out (s_domains s)) [] (p_services p)"

definition managed_certificate_domains :: "project \<Rightarrow> string list" where
  "managed_certificate_domains p =
     foldl (\<lambda>out s. foldl push_new out (https_domains s)) [] (p_services p)"

definition network_name :: "(uuid \<Rightarrow> string) \<Rightarrow> project \<Rightarrow> string" where
  "network_name show_uuid p = ''containr-'' @ show_uuid (p_id p)"

text \<open>Returns the updated project and the token.\<close>

definition ensure_deploy_webhook_token :: "string \<Rightarrow> project \<Rightarrow> project \<times> string" where
  "ensure_deploy_webhook_token fresh p =
     (let p' =
        (if unwrap_or (map_option trim (p_deploy_webhook_token p)) [] = []
         then p\<lparr>p_deploy_webhook_token := Some fresh\<rparr> else p)
      in (p', the (p_deploy_webhook_token p')))"

section \<open>Deployments\<close>

record service_deployment =
  sd_id :: uuid
  sd_service_id :: uuid
  sd_deployment_id :: uuid
  sd_replica_index :: u32
  sd_status :: deployment_status
  sd_container_id :: "string option"
  sd_image_id :: "string option"
  sd_health :: service_health
  sd_logs :: "string list"
  sd_started_at :: "timestamp option"
  sd_finished_at :: "timestamp option"
  sd_created_at :: timestamp

definition service_deployment_new ::
  "uuid \<Rightarrow> timestamp \<Rightarrow> uuid \<Rightarrow> uuid \<Rightarrow> u32 \<Rightarrow> service_deployment" where
  "service_deployment_new new_id now service_id deployment_id replica_index =
     \<lparr> sd_id = new_id, sd_service_id = service_id, sd_deployment_id = deployment_id,
       sd_replica_index = replica_index, sd_status = Pending, sd_container_id = None,
       sd_image_id = None, sd_health = HealthUnknown, sd_logs = [], sd_started_at = None,
       sd_finished_at = None, sd_created_at = now \<rparr>"

record deployment =
  d_id :: uuid
  d_app_id :: uuid
  d_commit_sha :: string
  d_commit_message :: "string option"
  d_branch :: string
  d_source_url :: "string option"
  d_rollout_strategy :: rollout_strategy
  d_rollback_from_deployment_id :: "uuid option"
  d_app_snapshot :: "project option"
  d_status :: deployment_status
  d_container_id :: "string option"
  d_image_id :: "string option"
  d_service_deployments :: "service_deployment list"
  d_logs :: "string list"
  d_started_at :: "timestamp option"
  d_finished_at :: "timestamp option"
  d_created_at :: timestamp

definition deployment_new :: "uuid \<Rightarrow> timestamp \<Rightarrow> uuid \<Rightarrow> string \<Rightarrow> deployment" where
  "deployment_new new_id now app_id commit_sha =
     \<lparr> d_id = new_id, d_app_id = app_id, d_commit_sha = commit_sha, d_commit_message = None,
       d_branch = default_branch_name, d_source_url = None, d_rollout_strategy = StopFirst,
       d_rollback_from_deployment_id = None, d_app_snapshot = None, d_status = Pending,
       d_container_id = None, d_image_id = None, d_service_deployments = [], d_logs = [],
       d_started_at = None, d_finished_at = None, d_created_at = now \<rparr>"

datatype deployment_source =
    RemoteGit string "string option"
  | LocalPath string
  | NoSource

record deployment_job =
  j_deployment_id :: uuid
  j_app_id :: uuid
  j_commit_sha :: string
  j_commit_message :: "string option"
  j_branch :: string
  j_source :: deployment_source
  j_rollout_strategy :: rollout_strategy
  j_rollback_from_deployment_id :: "uuid option"
  j_local_build_service_id :: "uuid option"

record http_request_log =
  hl_service_id :: uuid
  hl_app_id :: uuid
  hl_domain :: string
  hl_method :: string
  hl_path :: string
  hl_status :: u16
  hl_upstream :: string
  hl_protocol :: string
  hl_created_at :: timestamp

section \<open>Certificates\<close>

record certificate =
  c_id :: uuid
  c_domain :: string
  c_cert_pem :: string
  c_key_pem :: string
  c_expires_at :: timestamp
  c_created_at :: timestamp

datatype certificate_status =
  CertNone | CertPending | CertValid | CertExpiringSoon | CertExpired | CertFailed

definition certificate_new ::
  "uuid \<Rightarrow> timestamp \<Rightarrow> string \<Rightarrow> string \<Rightarrow> string \<Rightarrow> timestamp \<Rightarrow> certificate" where
  "certificate_new new_id now domain cert_pem key_pem expires_at =
     \<lparr> c_id = new_id, c_domain = domain, c_cert_pem = cert_pem, c_key_pem = key_pem,
       c_expires_at = expires_at, c_created_at = now \<rparr>"

definition certificate_status_at :: "timestamp \<Rightarrow> certificate \<Rightarrow> certificate_status" where
  "certificate_status_at now c =
     (if c_expires_at c < now then CertExpired
      else if c_expires_at c < now + days 30 then CertExpiringSoon
      else CertValid)"

section \<open>Users and registries\<close>

record user =
  u_id :: uuid
  u_email :: string
  u_password_hash :: "string option"
  u_github_id :: "i64 option"
  u_github_username :: "string option"
  u_github_access_token :: "string option"
  u_is_admin :: bool
  u_created_at :: timestamp
  u_updated_at :: timestamp

definition user_new_with_password ::
  "uuid \<Rightarrow> timestamp \<Rightarrow> string \<Rightarrow> string \<Rightarrow> user" where
  "user_new_with_password new_id now email password_hash =
     \<lparr> u_id = new_id, u_email = email, u_password_hash = Some password_hash,
       u_github_id = None, u_github_username = None, u_github_access_token = None,
       u_is_admin = False, u_created_at = now, u_updated_at = now \<rparr>"

definition user_new_with_github ::
  "uuid \<Rightarrow> timestamp \<Rightarrow> string \<Rightarrow> i64 \<Rightarrow> string \<Rightarrow> user" where
  "user_new_with_github new_id now email github_id github_username =
     \<lparr> u_id = new_id, u_email = email, u_password_hash = None,
       u_github_id = Some github_id, u_github_username = Some github_username,
       u_github_access_token = None, u_is_admin = False,
       u_created_at = now, u_updated_at = now \<rparr>"

record container_registry =
  r_id :: uuid
  r_owner_id :: uuid
  r_server :: string
  r_username :: string
  r_password_enc :: string
  r_created_at :: timestamp

definition DOCKER_HUB_HOST :: string where
  "DOCKER_HUB_HOST = ''docker.io''"

definition docker_hub_aliases :: "string list" where
  "docker_hub_aliases =
     [[], ''docker.io'', ''index.docker.io'', ''registry-1.docker.io'',
      ''registry.hub.docker.com'']"

definition normalize_registry_host :: "string \<Rightarrow> string" where
  "normalize_registry_host server =
     (let trimmed = trim server;
          without_scheme =
            unwrap_or (or_else (strip_prefix ''https://'' trimmed)
                               (strip_prefix ''http://'' trimmed)) trimmed;
          host = to_ascii_lowercase (split_first CHR ''/'' without_scheme)
      in if host \<in> set docker_hub_aliases then DOCKER_HUB_HOST else host)"

definition image_registry_host :: "string \<Rightarrow> string" where
  "image_registry_host img =
     (case split_once CHR ''/'' (trim img) of
        None \<Rightarrow> DOCKER_HUB_HOST
      | Some (first, _) \<Rightarrow>
          if CHR ''.'' \<in> set first \<or> CHR '':'' \<in> set first \<or> first = ''localhost''
          then normalize_registry_host first
          else DOCKER_HUB_HOST)"

definition is_docker_hub_host :: "string \<Rightarrow> bool" where
  "is_docker_hub_host host = (normalize_registry_host host = DOCKER_HUB_HOST)"

definition matches_image :: "container_registry \<Rightarrow> string \<Rightarrow> bool" where
  "matches_image r img = (normalize_registry_host (r_server r) = image_registry_host img)"

definition normalize_repo_url :: "string \<Rightarrow> string" where
  "normalize_repo_url url =
     (let u = to_ascii_lowercase (trim url);
          u = unwrap_or (map_option (\<lambda>rest. replace_first CHR '':'' ''/'' rest)
                           (strip_prefix ''git@'' u)) u;
          u = trim_start_matches ''https://'' u;
          u = trim_start_matches ''http://'' u;
          u = trim_start_matches ''ssh://'' u;
          u = trim_start_matches ''git@'' u;
          u = trim_start_matches ''www.'' u
      in trim_end_matches ''.git'' (trim_end_char CHR ''/'' u))"

definition same_repo_url :: "string \<Rightarrow> string \<Rightarrow> bool" where
  "same_repo_url left right =
     (let l = normalize_repo_url left in l \<noteq> [] \<and> l = normalize_repo_url right)"

section \<open>Generated service domains\<close>

text \<open>\<open>Uuid::as_bytes()[i]\<close>: the bytes in big-endian order.\<close>

definition uuid_byte :: "uuid \<Rightarrow> nat \<Rightarrow> u8" where
  "uuid_byte u i = ucast (drop_bit (8 * (15 - i)) u)"

definition default_service_domain_label :: "uuid \<Rightarrow> string" where
  "default_service_domain_label service_id =
     ''service-'' @
     map (\<lambda>i. let mixed = uuid_byte service_id i XOR uuid_byte service_id (i + 11)
              in char_of (unat (97 + (mixed mod 26))))
       [0..<5]"

definition default_service_domain :: "uuid \<Rightarrow> string \<Rightarrow> string option" where
  "default_service_domain service_id base_domain =
     (let base = trim_end_char CHR ''.'' (trim base_domain) in
        if base = [] then None
        else Some (default_service_domain_label service_id @ ''.'' @ base))"

definition default_service_domain_pattern :: "string \<Rightarrow> string option" where
  "default_service_domain_pattern base_domain =
     (let base = trim_end_char CHR ''.'' (trim base_domain) in
        if base = [] then None
        else Some (''service-{random 5 lowercase letters}.'' @ base))"

section \<open>Domains of a service and of a project\<close>

text \<open>The loops that push a domain once, if a condition holds, are filtered \<open>push_new\<close> folds.\<close>

lemma foldl_push_if:
  "foldl (\<lambda>out d. if P d \<and> d \<notin> set out then out @ [d] else out) out xs =
     foldl push_new out (filter P xs)"
proof (induction xs arbitrary: out)
  case Nil
  then show ?case by simp
next
  case (Cons x xs)
  then show ?case by (cases "P x"; cases "x \<in> set out") (simp_all add: push_new_def)
qed

lemma service_custom_domains_eq:
  "service_custom_domains s = foldl push_new [] (filter (\<lambda>d. trim d \<noteq> []) (s_domains s))"
  by (simp add: service_custom_domains_def foldl_push_if)

lemma service_http_only_domains_eq:
  "service_http_only_domains s =
     foldl push_new [] (filter (\<lambda>d. d \<in> set (service_custom_domains s)) (s_http_only_domains s))"
  by (simp add: service_http_only_domains_def foldl_push_if Let_def)

lemma set_service_custom_domains:
  "set (service_custom_domains s) = {d. d \<in> set (s_domains s) \<and> trim d \<noteq> []}"
  by (auto simp: service_custom_domains_eq set_foldl_push_new)

lemma set_service_http_only_domains:
  "set (service_http_only_domains s) = set (service_custom_domains s) \<inter> set (s_http_only_domains s)"
  by (auto simp: service_http_only_domains_eq set_foldl_push_new)

lemma set_https_domains:
  "set (https_domains s) = set (service_custom_domains s) - set (s_http_only_domains s)"
  by (auto simp: https_domains_def Let_def set_service_http_only_domains)

lemma distinct_service_domains [simp]:
  "distinct (service_custom_domains s)"
  "distinct (service_http_only_domains s)"
  "distinct (https_domains s)"
  by (simp_all add: service_custom_domains_eq service_http_only_domains_eq https_domains_def Let_def
      distinct_foldl_push_new)

lemma set_nested_push_new:
  "set (foldl (\<lambda>out s. foldl push_new out (f s)) out xs) = set out \<union> (\<Union>s\<in>set xs. set (f s))"
  by (induction xs arbitrary: out) (auto simp: set_foldl_push_new)

lemma distinct_nested_push_new:
  "distinct (foldl (\<lambda>out s. foldl push_new out (f s)) out xs) = distinct out"
  by (induction xs arbitrary: out) (auto simp: distinct_foldl_push_new)

text \<open>
  The custom domains of a service are its non-blank configured domains, and every one of
  them is either served with managed https or explicitly http-only, never both; none of the
  three lists has a duplicate.
\<close>

theorem domains_https_partition:
  "set (service_custom_domains s) = {d. d \<in> set (s_domains s) \<and> trim d \<noteq> []} \<and>
   set (https_domains s) \<union> set (service_http_only_domains s) = set (service_custom_domains s) \<and>
   set (https_domains s) \<inter> set (service_http_only_domains s) = {} \<and>
   distinct (https_domains s @ service_http_only_domains s) \<and>
   (domain_https_enabled s d \<longleftrightarrow>
      d \<in> set (service_custom_domains s) \<and> d \<notin> set (service_http_only_domains s))"
  by (auto simp: set_service_custom_domains set_https_domains set_service_http_only_domains
      domain_https_enabled_def)

text \<open>
  The domains a project asks managed certificates for are exactly the https domains of its
  services, each once, and all of them are custom domains of the project.
\<close>

theorem managed_certificates_are_https_domains:
  "distinct (managed_certificate_domains p) \<and>
   set (managed_certificate_domains p) = (\<Union>s\<in>set (p_services p). set (https_domains s)) \<and>
   set (managed_certificate_domains p) \<subseteq> set (project_custom_domains p) \<and>
   distinct (project_custom_domains p)"
  unfolding managed_certificate_domains_def project_custom_domains_def
  by (auto simp: set_nested_push_new distinct_nested_push_new set_https_domains
      set_service_custom_domains)

section \<open>Generated names\<close>

lemma letter_bounds: "unat (97 + (m mod 26) :: u8) = 97 + unat m mod 26"
proof -
  have "unat (m mod 26) < 26"
    by (simp add: unat_mod)
  then show ?thesis
    by (simp add: unat_word_ariths unat_mod)
qed

text \<open>
  The generated label of a service is \<open>service-\<close> and five lowercase ASCII letters for every
  uuid: the byte arithmetic never leaves that range. It is therefore not changed by the
  normalisation the proxy applies to host names, and it holds no dot.
\<close>

theorem default_label_shape:
  "\<exists>suffix. default_service_domain_label u = ''service-'' @ suffix \<and> length suffix = 5 \<and>
     list_all is_ascii_lowercase suffix \<and>
     to_lowercase (default_service_domain_label u) = default_service_domain_label u \<and>
     CHR ''.'' \<notin> set (default_service_domain_label u)"
proof -
  define letter where
    "letter i = (char_of (unat (97 + ((uuid_byte u i XOR uuid_byte u (i + 11)) mod 26))) :: char)" for i
  have scalar: "97 \<le> scalar (letter i) \<and> scalar (letter i) \<le> 122" for i
  proof -
    have "unat (uuid_byte u i XOR uuid_byte u (i + 11)) mod 26 < 26" by simp
    then show ?thesis unfolding letter_def letter_bounds by simp
  qed
  have label: "default_service_domain_label u = ''service-'' @ map letter [0..<5]"
    by (simp add: default_service_domain_label_def letter_def Let_def)
  have fixed: "lower (letter i) = letter i" for i
    unfolding scalar_inject [symmetric] scalar_lower using scalar [of i] by (auto simp: Let_def)
  have nodot: "letter i \<noteq> CHR ''.''" for i
  proof
    assume "letter i = CHR ''.''"
    then have "scalar (letter i) = 46" by (simp add: scalar_def)
    with scalar [of i] show False by simp
  qed
  have lower_label: "to_lowercase (default_service_domain_label u) = default_service_domain_label u"
    unfolding label to_lowercase_def
    by (simp add: fixed) (simp add: lower_def is_ascii_uppercase_def scalar_def)
  have "CHR ''.'' \<notin> set (default_service_domain_label u)"
    unfolding label using nodot by auto metis
  with label lower_label scalar show ?thesis
    by (intro exI [of _ "map letter [0..<5]"])
      (simp add: list_all_iff is_ascii_lowercase_def)
qed

section \<open>Registries\<close>

lemma strip_prefix_no_slash:
  assumes "CHR ''/'' \<notin> set h" and "CHR ''/'' \<in> set p"
  shows "strip_prefix p h = None"
proof (cases "strip_prefix p h")
  case (Some t)
  then have "h = p @ t" by (simp add: strip_prefix_eq_Some)
  with assms show ?thesis by simp
qed

lemma split_first_id: "c \<notin> set s \<Longrightarrow> split_first c s = s"
  unfolding split_first_def by (rule takeWhile_eq_all_conv [THEN iffD2]) auto

lemma split_first_append: "c \<notin> set s \<Longrightarrow> split_first c (s @ c # t) = s"
  unfolding split_first_def by (induction s) auto

lemma scalar_slash: "scalar CHR ''/'' < 65"
  by (simp add: scalar_def)

lemma slash_ascii_lower: "CHR ''/'' \<in> set (to_ascii_lowercase s) \<longleftrightarrow> CHR ''/'' \<in> set s"
proof -
  have "CHR ''/'' = ascii_lower c \<longleftrightarrow> CHR ''/'' = c" for c
    using ascii_lower_eq_nonletter [of "CHR ''/''" c] by (metis scalar_slash)
  then show ?thesis
    by (induction s) (simp_all add: to_ascii_lowercase_def)
qed

text \<open>The common tail of \<open>normalize_registry_host\<close>, once the scheme is off.\<close>

definition registry_alias :: "string \<Rightarrow> string" where
  "registry_alias h =
     (let host = to_ascii_lowercase h
      in if host \<in> set docker_hub_aliases then DOCKER_HUB_HOST else host)"

lemma normalize_registry_host_alias:
  "\<exists>h. CHR ''/'' \<notin> set h \<and> normalize_registry_host server = registry_alias h"
  by (rule exI [of _ "split_first CHR ''/'' (let t = trim server in
        unwrap_or (or_else (strip_prefix ''https://'' t) (strip_prefix ''http://'' t)) t)"])
    (simp add: normalize_registry_host_def registry_alias_def Let_def split_first_no_sep)

lemma DOCKER_HUB_HOST_fixed:
  "to_ascii_lowercase DOCKER_HUB_HOST = DOCKER_HUB_HOST" "CHR ''/'' \<notin> set DOCKER_HUB_HOST"
  by code_simp+

text \<open>
  A normalised registry host is never blank, holds no slash and no upper-case letter, and
  Docker Hub has one name only: none of its aliases survives.
\<close>

theorem normalize_registry_host_canonical:
  "normalize_registry_host server \<noteq> [] \<and>
   CHR ''/'' \<notin> set (normalize_registry_host server) \<and>
   to_ascii_lowercase (normalize_registry_host server) = normalize_registry_host server \<and>
   normalize_registry_host server \<notin>
     {''index.docker.io'', ''registry-1.docker.io'', ''registry.hub.docker.com''}"
proof -
  obtain h where h: "CHR ''/'' \<notin> set h" "normalize_registry_host server = registry_alias h"
    using normalize_registry_host_alias by blast
  show ?thesis
  proof (cases "to_ascii_lowercase h \<in> set docker_hub_aliases")
    case True
    then have "normalize_registry_host server = DOCKER_HUB_HOST"
      by (simp add: h registry_alias_def)
    then show ?thesis
      using DOCKER_HUB_HOST_fixed by (simp add: DOCKER_HUB_HOST_def)
  next
    case False
    then have "normalize_registry_host server = to_ascii_lowercase h"
      by (simp add: h registry_alias_def)
    with False h(1) show ?thesis
      by (auto simp: docker_hub_aliases_def slash_ascii_lower)
  qed
qed

definition registry_server_forms :: "string \<Rightarrow> string \<Rightarrow> string list" where
  "registry_server_forms h path =
     [h, h @ ''/'' @ path, ''https://'' @ h, ''http://'' @ h, ''https://'' @ h @ ''/'' @ path]"

lemma trim_no_whitespace:
  assumes "list_all (\<lambda>c. \<not> is_whitespace c) s"
  shows "trim s = s"
  using assms by (cases "s = []") (auto simp: trim_eq_self list_all_iff)

lemma trim_prefix_kept:
  assumes "p \<noteq> []" and "list_all (\<lambda>c. \<not> is_whitespace c) p"
  shows "\<exists>r. trim (p @ s) = p @ r"
proof -
  have start: "trim_start (p @ s) = p @ s"
    using assms by (cases p) (auto simp: trim_start_def)
  have whole: "dropWhile is_whitespace (rev p) = rev p"
    using assms by (simp add: dropWhile_idem_hd hd_rev list_all_iff)
  have "trim_end (p @ s) = p @ trim_end s"
    using whole by (auto simp: trim_end_def dropWhile_append)
  with start show ?thesis by (auto simp: trim_def)
qed

text \<open>
  A registry stored under any of the usual spellings of its host serves the images of that
  host: \<open>host/repository\<close> matches the registry entered as \<open>host\<close>, \<open>https://host\<close> or
  \<open>https://host/path\<close>, when the host part is recognisable as one (a dot or a port).
\<close>

theorem registry_matches_own_images:
  assumes slash: "CHR ''/'' \<notin> set h"
    and scheme: "h \<notin> {''https:'', ''http:''}"
    and nw: "list_all (\<lambda>c. \<not> is_whitespace c) (h @ path)"
    and host: "CHR ''.'' \<in> set h \<or> CHR '':'' \<in> set h"
    and server: "r_server r \<in> set (registry_server_forms h path)"
  shows "matches_image r (h @ ''/'' @ repository)"
proof -
  have ne: "h \<noteq> []" using host by auto
  have nwh: "list_all (\<lambda>c. \<not> is_whitespace c) (h @ ''/'')"
    using nw by (auto simp: list_all_iff is_whitespace_def scalar_def)
  obtain rest where rest: "trim (h @ ''/'' @ repository) = h @ ''/'' @ rest"
    using trim_prefix_kept [OF _ nwh, of repository] by auto
  have no_scheme: "strip_prefix ''https://'' (h @ CHR ''/'' # path) = None"
    "strip_prefix ''http://'' (h @ CHR ''/'' # path) = None"
  proof -
    have "h = takeWhile (\<lambda>x. x \<noteq> CHR ''/'') (h @ CHR ''/'' # path)"
      using split_first_append [OF slash] by (simp add: split_first_def)
    with scheme show "strip_prefix ''https://'' (h @ CHR ''/'' # path) = None"
      "strip_prefix ''http://'' (h @ CHR ''/'' # path) = None"
      by (auto simp: strip_prefix_eq_Some simp flip: not_Some_eq)
  qed
  have own: "normalize_registry_host s = registry_alias h"
    if "s \<in> set (registry_server_forms h path)" for s
  proof -
    have "list_all (\<lambda>c. \<not> is_whitespace c) s"
      using that nw
      by (auto simp: registry_server_forms_def list_all_iff is_whitespace_def scalar_def)
    then have "trim s = s" by (rule trim_no_whitespace)
    with that slash no_scheme show ?thesis
      by (auto simp: registry_server_forms_def normalize_registry_host_def registry_alias_def
          Let_def strip_prefix_no_slash split_first_id split_first_append)
  qed
  have "split_once CHR ''/'' (trim (h @ ''/'' @ repository)) = Some (h, rest)"
    using rest slash by (simp add: split_once_eq_Some)
  then have "image_registry_host (h @ ''/'' @ repository) = normalize_registry_host h"
    using host by (auto simp: image_registry_host_def)
  then show ?thesis
    using own [OF server] own [of h] by (simp add: matches_image_def registry_server_forms_def)
qed

theorem registry_matches_own_images_witness:
  "matches_image
     \<lparr> r_id = 1, r_owner_id = 2, r_server = ''https://ghcr.io/v2'', r_username = ''u'',
       r_password_enc = ''p'', r_created_at = 0 \<rparr>
     (''ghcr.io'' @ ''/'' @ ''org/app:1'')"
  by (rule registry_matches_own_images [where path = "''v2''"])
    (simp_all add: registry_server_forms_def is_whitespace_def scalar_def)

section \<open>Repository urls\<close>

lemma trim_start_matches_skip: "\<not> starts_with p s \<Longrightarrow> trim_start_matches p s = s"
  by (cases p) (auto simp: trim_start_matches.simps starts_with_def)

lemma trim_start_matches_step: "p \<noteq> [] \<Longrightarrow> trim_start_matches p (p @ s) = trim_start_matches p s"
  by (cases p) (simp_all add: trim_start_matches.simps)

lemma trim_end_matches_skip: "\<not> ends_with p s \<Longrightarrow> trim_end_matches p s = s"
  by (auto simp: trim_end_matches_def ends_with_def strip_suffix_def trim_start_matches_skip starts_with_def)

lemma trim_end_matches_step: "p \<noteq> [] \<Longrightarrow> trim_end_matches p (s @ p) = trim_end_matches p s"
  by (simp add: trim_end_matches_def trim_start_matches_step)

text \<open>
  What \<open>normalize_repo_url\<close> does after lower-casing, and the hosts and paths on which each of
  its steps has one reading: the host holds no separator and does not itself begin with one of
  the removed prefixes, the path does not end in one of the removed suffixes.
\<close>

definition strip_repo_prefixes :: "string \<Rightarrow> string" where
  "strip_repo_prefixes u =
     trim_start_matches ''www.'' (trim_start_matches ''git@'' (trim_start_matches ''ssh://''
       (trim_start_matches ''http://'' (trim_start_matches ''https://'' u))))"

definition repo_host_ok :: "string \<Rightarrow> bool" where
  "repo_host_ok h \<longleftrightarrow>
     h \<noteq> [] \<and> CHR ''/'' \<notin> set h \<and> CHR '':'' \<notin> set h \<and>
     \<not> starts_with ''git@'' h \<and> \<not> starts_with ''www.'' h"

definition repo_path_ok :: "string \<Rightarrow> bool" where
  "repo_path_ok p \<longleftrightarrow> p \<noteq> [] \<and> last p \<noteq> CHR ''/'' \<and> \<not> ends_with ''.git'' p"

definition repo_url_forms :: "string \<Rightarrow> string \<Rightarrow> string list" where
  "repo_url_forms h p =
     (let n = h @ ''/'' @ p in
      [n, n @ ''/'', n @ ''.git'', ''https://'' @ n, ''https://'' @ n @ ''.git'',
       ''https://'' @ ''www.'' @ n, ''http://'' @ n @ ''/'', ''ssh://'' @ ''git@'' @ n @ ''.git'',
       ''git@'' @ h @ '':'' @ p @ ''.git''])"

lemma starts_with_host:
  assumes "CHR ''/'' \<notin> set h" and "CHR '':'' \<notin> set h"
  shows "\<not> starts_with ''https://'' (h @ CHR ''/'' # x)"
    and "\<not> starts_with ''http://'' (h @ CHR ''/'' # x)"
    and "\<not> starts_with ''ssh://'' (h @ CHR ''/'' # x)"
proof -
  have colon: "CHR '':'' \<notin> set (takeWhile (\<lambda>c. c \<noteq> CHR ''/'') (h @ CHR ''/'' # x))"
    using split_first_append [OF assms(1)] assms(2) by (simp add: split_first_def)
  then show "\<not> starts_with ''https://'' (h @ CHR ''/'' # x)"
    and "\<not> starts_with ''http://'' (h @ CHR ''/'' # x)"
    and "\<not> starts_with ''ssh://'' (h @ CHR ''/'' # x)"
    by (auto simp: starts_with_iff)
qed

lemma starts_with_no_slash:
  assumes "CHR ''/'' \<notin> set q" and "\<not> starts_with q h"
  shows "\<not> starts_with q (h @ CHR ''/'' # x)"
  using assms by (auto simp: starts_with_iff append_eq_append_conv2 Cons_eq_append_conv)

lemma strip_repo_prefixes_host:
  assumes "repo_host_ok h"
  shows "strip_repo_prefixes (h @ CHR ''/'' # x) = h @ CHR ''/'' # x"
    and "strip_repo_prefixes (''https://'' @ h @ CHR ''/'' # x) = h @ CHR ''/'' # x"
    and "strip_repo_prefixes (''https://'' @ ''www.'' @ h @ CHR ''/'' # x) = h @ CHR ''/'' # x"
    and "strip_repo_prefixes (''http://'' @ h @ CHR ''/'' # x) = h @ CHR ''/'' # x"
    and "strip_repo_prefixes (''ssh://'' @ ''git@'' @ h @ CHR ''/'' # x) = h @ CHR ''/'' # x"
proof -
  have h: "CHR ''/'' \<notin> set h" "CHR '':'' \<notin> set h" "\<not> starts_with ''git@'' h" "\<not> starts_with ''www.'' h"
    using assms by (auto simp: repo_host_ok_def)
  let ?n = "h @ CHR ''/'' # x"
  have skip: "trim_start_matches ''https://'' ?n = ?n" "trim_start_matches ''http://'' ?n = ?n"
    "trim_start_matches ''ssh://'' ?n = ?n" "trim_start_matches ''git@'' ?n = ?n"
    "trim_start_matches ''www.'' ?n = ?n"
    using h by (simp_all add: trim_start_matches_skip starts_with_host starts_with_no_slash)
  note step = trim_start_matches_step [of "''https://''"] trim_start_matches_step [of "''http://''"]
    trim_start_matches_step [of "''ssh://''"] trim_start_matches_step [of "''git@''"]
    trim_start_matches_step [of "''www.''"]
  have lit: "trim_start_matches ''https://'' (''www.'' @ s) = ''www.'' @ s"
    "trim_start_matches ''http://'' (''www.'' @ s) = ''www.'' @ s"
    "trim_start_matches ''ssh://'' (''www.'' @ s) = ''www.'' @ s"
    "trim_start_matches ''git@'' (''www.'' @ s) = ''www.'' @ s"
    "trim_start_matches ''https://'' (''http://'' @ s) = ''http://'' @ s"
    "trim_start_matches ''https://'' (''ssh://'' @ s) = ''ssh://'' @ s"
    "trim_start_matches ''http://'' (''ssh://'' @ s) = ''ssh://'' @ s"
    "trim_start_matches ''ssh://'' (''git@'' @ s) = ''git@'' @ s" for s
    by (rule trim_start_matches_skip; simp add: starts_with_def)+
  show "strip_repo_prefixes ?n = ?n"
    by (simp add: strip_repo_prefixes_def skip)
  show "strip_repo_prefixes (''https://'' @ ?n) = ?n"
    unfolding strip_repo_prefixes_def using step(1) skip by simp
  show "strip_repo_prefixes (''https://'' @ ''www.'' @ ?n) = ?n"
    unfolding strip_repo_prefixes_def using step(1) step(5) skip lit(1-4) by (simp del: append.simps)
  show "strip_repo_prefixes (''http://'' @ ?n) = ?n"
    unfolding strip_repo_prefixes_def using step(2) skip lit(5) by (simp del: append.simps)
  show "strip_repo_prefixes (''ssh://'' @ ''git@'' @ ?n) = ?n"
    unfolding strip_repo_prefixes_def using step(3) step(4) skip lit(6-8) by (simp del: append.simps)
qed

lemma to_ascii_lowercase_append [simp]:
  "to_ascii_lowercase (s @ t) = to_ascii_lowercase s @ to_ascii_lowercase t"
  by (simp add: to_ascii_lowercase_def)

lemma repo_suffixes_off:
  assumes "repo_path_ok p"
  shows "trim_end_matches ''.git'' (trim_end_char CHR ''/'' (n @ CHR ''/'' # p)) = n @ CHR ''/'' # p"
    and "trim_end_matches ''.git'' (trim_end_char CHR ''/'' (n @ CHR ''/'' # p @ ''/'')) = n @ CHR ''/'' # p"
    and "trim_end_matches ''.git'' (trim_end_char CHR ''/'' (n @ CHR ''/'' # p @ ''.git'')) = n @ CHR ''/'' # p"
proof -
  have p: "p \<noteq> []" "last p \<noteq> CHR ''/''" "\<not> ends_with ''.git'' p"
    using assms by (auto simp: repo_path_ok_def)
  have keep: "trim_end_char CHR ''/'' (n @ CHR ''/'' # p) = n @ CHR ''/'' # p"
    using p by (simp add: trim_end_char_eq_self)
  have "\<not> ends_with ''.git'' (n @ CHR ''/'' # p)"
  proof
    assume "ends_with ''.git'' (n @ CHR ''/'' # p)"
    then obtain t where t: "n @ CHR ''/'' # p = t @ ''.git''" by (auto simp: ends_with_iff)
    have "CHR ''/'' \<notin> set ''.git''" by simp
    with t have "\<exists>q. p = q @ ''.git''"
      by (auto simp: append_eq_append_conv2 Cons_eq_append_conv append_eq_Cons_conv)
    with p(3) show False by (auto simp: ends_with_iff)
  qed
  then have skip: "trim_end_matches ''.git'' (n @ CHR ''/'' # p) = n @ CHR ''/'' # p"
    by (rule trim_end_matches_skip)
  show "trim_end_matches ''.git'' (trim_end_char CHR ''/'' (n @ CHR ''/'' # p)) = n @ CHR ''/'' # p"
    by (simp add: keep skip)
  have "trim_end_char CHR ''/'' (n @ CHR ''/'' # p @ ''/'') = trim_end_char CHR ''/'' (n @ CHR ''/'' # p)"
    by (simp add: trim_end_char_def)
  then show "trim_end_matches ''.git'' (trim_end_char CHR ''/'' (n @ CHR ''/'' # p @ ''/'')) = n @ CHR ''/'' # p"
    by (simp add: keep skip)
  have "trim_end_char CHR ''/'' (n @ CHR ''/'' # p @ ''.git'') = n @ CHR ''/'' # p @ ''.git''"
    by (simp add: trim_end_char_eq_self)
  then show "trim_end_matches ''.git'' (trim_end_char CHR ''/'' (n @ CHR ''/'' # p @ ''.git'')) = n @ CHR ''/'' # p"
    using trim_end_matches_step [of "''.git''" "n @ CHR ''/'' # p"] skip by simp
qed

lemma normalize_repo_url_steps:
  assumes "list_all (\<lambda>c. \<not> is_whitespace c) u" and "\<not> starts_with ''git@'' (to_ascii_lowercase u)"
  shows "normalize_repo_url u =
           trim_end_matches ''.git'' (trim_end_char CHR ''/'' (strip_repo_prefixes (to_ascii_lowercase u)))"
  using assms
  by (simp add: normalize_repo_url_def strip_repo_prefixes_def Let_def trim_no_whitespace starts_with_def)

lemma normalize_repo_url_git:
  assumes "list_all (\<lambda>c. \<not> is_whitespace c) (h @ p)" and "CHR '':'' \<notin> set (to_ascii_lowercase h)"
  shows "normalize_repo_url (''git@'' @ h @ '':'' @ p) =
           trim_end_matches ''.git'' (trim_end_char CHR ''/''
             (strip_repo_prefixes (to_ascii_lowercase h @ CHR ''/'' # to_ascii_lowercase p)))"
proof -
  have replace: "replace_first CHR '':'' ''/'' (a @ CHR '':'' # b) = a @ CHR ''/'' # b"
    if "CHR '':'' \<notin> set a" for a b
    using that by (induction a) auto
  have "list_all (\<lambda>c. \<not> is_whitespace c) (''git@'' @ h @ '':'' @ p)"
    using assms(1) by (auto simp: list_all_iff is_whitespace_def scalar_def)
  then have t: "trim (''git@'' @ h @ '':'' @ p) = ''git@'' @ h @ '':'' @ p"
    by (rule trim_no_whitespace)
  have l: "to_ascii_lowercase (''git@'' @ h @ '':'' @ p) =
      ''git@'' @ to_ascii_lowercase h @ CHR '':'' # to_ascii_lowercase p"
    by (simp add: to_ascii_lowercase_def ascii_lower_def is_ascii_uppercase_def scalar_def)
  show ?thesis
    unfolding normalize_repo_url_def t l Let_def strip_prefix_append
    using replace [OF assms(2)] by (simp add: strip_repo_prefixes_def)
qed

lemma lowercase_literals:
  "to_ascii_lowercase ''https://'' = ''https://''" "to_ascii_lowercase ''http://'' = ''http://''"
  "to_ascii_lowercase ''ssh://'' = ''ssh://''" "to_ascii_lowercase ''git@'' = ''git@''"
  "to_ascii_lowercase ''www.'' = ''www.''" "to_ascii_lowercase ''.git'' = ''.git''"
  "to_ascii_lowercase ''/'' = ''/''"
  by code_simp+

lemma normalize_repo_url_forms:
  assumes h: "repo_host_ok (to_ascii_lowercase h)" and p: "repo_path_ok (to_ascii_lowercase p)"
    and nw: "list_all (\<lambda>c. \<not> is_whitespace c) (h @ p)"
    and url: "url \<in> set (repo_url_forms h p)"
  shows "normalize_repo_url url = to_ascii_lowercase h @ ''/'' @ to_ascii_lowercase p"
proof -
  let ?h = "to_ascii_lowercase h" and ?p = "to_ascii_lowercase p"
  have no_git: "\<not> starts_with ''git@'' (?h @ ''/'' @ x)" for x
    using starts_with_no_slash [of "''git@''" ?h x] h by (auto simp: repo_host_ok_def)
  have colon: "CHR '':'' \<notin> set ?h"
    using h by (simp add: repo_host_ok_def)
  have ws: "list_all (\<lambda>c. \<not> is_whitespace c) url"
    using url nw
    by (auto simp: repo_url_forms_def Let_def list_all_iff is_whitespace_def scalar_def)
  note lits = lowercase_literals
  have pre: "strip_repo_prefixes (?h @ ''/'' @ x) = ?h @ ''/'' @ x"
    "strip_repo_prefixes (''https://'' @ ?h @ ''/'' @ x) = ?h @ ''/'' @ x"
    "strip_repo_prefixes (''https://'' @ ''www.'' @ ?h @ ''/'' @ x) = ?h @ ''/'' @ x"
    "strip_repo_prefixes (''http://'' @ ?h @ ''/'' @ x) = ?h @ ''/'' @ x"
    "strip_repo_prefixes (''ssh://'' @ ''git@'' @ ?h @ ''/'' @ x) = ?h @ ''/'' @ x" for x
    using strip_repo_prefixes_host [OF h, of x] by simp_all
  have suf: "trim_end_matches ''.git'' (trim_end_char CHR ''/'' (?h @ ''/'' @ ?p)) = ?h @ ''/'' @ ?p"
    "trim_end_matches ''.git'' (trim_end_char CHR ''/'' (?h @ ''/'' @ ?p @ ''/'')) = ?h @ ''/'' @ ?p"
    "trim_end_matches ''.git'' (trim_end_char CHR ''/'' (?h @ ''/'' @ ?p @ ''.git'')) = ?h @ ''/'' @ ?p"
    using repo_suffixes_off [OF p, of ?h] by simp_all
  have lit_git: "\<not> starts_with ''git@'' (''https://'' @ x)" "\<not> starts_with ''git@'' (''http://'' @ x)"
    "\<not> starts_with ''git@'' (''ssh://'' @ x)" for x
    by (simp_all add: starts_with_def)
  have plain: "normalize_repo_url url = ?h @ ''/'' @ ?p"
    if "url \<noteq> ''git@'' @ h @ '':'' @ p @ ''.git''"
  proof -
    from url that have "\<not> starts_with ''git@'' (to_ascii_lowercase url) \<and>
      trim_end_matches ''.git'' (trim_end_char CHR ''/'' (strip_repo_prefixes (to_ascii_lowercase url)))
        = ?h @ ''/'' @ ?p"
      unfolding repo_url_forms_def Let_def list.set insert_iff empty_iff
      by (elim disjE)
        (simp_all only: to_ascii_lowercase_append lits lit_git no_git pre suf append_assoc
          not_False_eq_True simp_thms)
    then show ?thesis
      using normalize_repo_url_steps [OF ws] by simp
  qed
  have git: "normalize_repo_url (''git@'' @ h @ '':'' @ p @ ''.git'') = ?h @ ''/'' @ ?p"
    using normalize_repo_url_git [of h "p @ ''.git''"] nw colon pre(1) suf(3) lits(6)
    by (simp add: is_whitespace_def scalar_def)
  show ?thesis
    using plain git by (cases "url = ''git@'' @ h @ '':'' @ p @ ''.git''") auto
qed

text \<open>
  All the usual ways of writing a repository's url (https, http, ssh, the scp form of git,
  with or without \<open>www.\<close>, \<open>.git\<close> or a final slash, and in any case of the letters) are
  recognised as the same repository.
\<close>

theorem repo_url_forms_same:
  assumes "repo_host_ok (to_ascii_lowercase h)" and "repo_path_ok (to_ascii_lowercase p)"
    and "list_all (\<lambda>c. \<not> is_whitespace c) (h @ p)"
    and "to_ascii_lowercase h' = to_ascii_lowercase h"
    and "to_ascii_lowercase p' = to_ascii_lowercase p"
    and "list_all (\<lambda>c. \<not> is_whitespace c) (h' @ p')"
    and "u \<in> set (repo_url_forms h p)" and "v \<in> set (repo_url_forms h' p')"
  shows "same_repo_url u v"
  using normalize_repo_url_forms [of h p u] normalize_repo_url_forms [of h' p' v] assms
  by (simp add: same_repo_url_def Let_def)

theorem repo_url_forms_same_witness:
  "same_repo_url (''https://'' @ ''github.com'' @ ''/'' @ ''org/repo'')
     (''git@'' @ ''GitHub.com'' @ '':'' @ ''Org/Repo'' @ ''.git'')"
proof (rule repo_url_forms_same [of "''github.com''" "''org/repo''" "''GitHub.com''" "''Org/Repo''"])
  show "repo_host_ok (to_ascii_lowercase ''github.com'')"
    "repo_path_ok (to_ascii_lowercase ''org/repo'')"
    "list_all (\<lambda>c. \<not> is_whitespace c) (''github.com'' @ ''org/repo'')"
    "to_ascii_lowercase ''GitHub.com'' = to_ascii_lowercase ''github.com''"
    "to_ascii_lowercase ''Org/Repo'' = to_ascii_lowercase ''org/repo''"
    "list_all (\<lambda>c. \<not> is_whitespace c) (''GitHub.com'' @ ''Org/Repo'')"
    by code_simp+
qed (simp_all add: repo_url_forms_def Let_def)

section \<open>Deploy tokens and certificates\<close>

text \<open>
  \<open>ensure_deploy_webhook_token\<close> returns the token the project then stores, changes nothing
  else, keeps an existing token that is not blank, and a second call changes nothing.
\<close>

theorem ensure_deploy_webhook_token_spec:
  assumes "trim fresh \<noteq> []" and "ensure_deploy_webhook_token fresh p = (p', t)"
  shows "p_deploy_webhook_token p' = Some t \<and> trim t \<noteq> [] \<and>
    p' = p\<lparr>p_deploy_webhook_token := Some t\<rparr> \<and>
    t = (case p_deploy_webhook_token p of None \<Rightarrow> fresh
         | Some old \<Rightarrow> if trim old = [] then fresh else old) \<and>
    ensure_deploy_webhook_token fresh' p' = (p', t)"
proof -
  have cases: "ensure_deploy_webhook_token f q =
      (case p_deploy_webhook_token q of
         None \<Rightarrow> (q\<lparr>p_deploy_webhook_token := Some f\<rparr>, f)
       | Some old \<Rightarrow> if trim old = [] then (q\<lparr>p_deploy_webhook_token := Some f\<rparr>, f) else (q, old))"
    for f q
    by (simp add: ensure_deploy_webhook_token_def Let_def split: option.split)
  show ?thesis
  proof (cases "\<exists>old. p_deploy_webhook_token p = Some old \<and> trim old \<noteq> []")
    case True
    then obtain old where "p_deploy_webhook_token p = Some old" "trim old \<noteq> []" by blast
    with assms(2) show ?thesis by (simp add: cases)
  next
    case False
    with assms(2) have "p' = p\<lparr>p_deploy_webhook_token := Some fresh\<rparr>" and "t = fresh"
      by (auto simp: cases split: option.splits if_splits)
    with False assms(1) show ?thesis
      by (cases "p_deploy_webhook_token p") (simp_all add: cases)
  qed
qed

theorem ensure_deploy_webhook_token_spec_witness:
  "\<exists>p' t. ensure_deploy_webhook_token ''fresh'' (project_new 1 0 ''  '' ''n'' ''u'' 2) = (p', t) \<and>
     t = ''fresh'' \<and> p_deploy_webhook_token p' = Some ''fresh''"
proof -
  obtain p' t where e: "ensure_deploy_webhook_token ''fresh'' (project_new 1 0 ''  '' ''n'' ''u'' 2) = (p', t)"
    by (cases "ensure_deploy_webhook_token ''fresh'' (project_new 1 0 ''  '' ''n'' ''u'' 2)")
  have f: "trim ''fresh'' \<noteq> []" and b: "trim ''  '' = []" by code_simp+
  show ?thesis
    using ensure_deploy_webhook_token_spec [OF f e, of "[]"] e b
    by (auto simp: project_new_def)
qed

end
