(* ===== verification/Managed_Services.thy ===== *)
theory Managed_Services
  imports Models
begin

text \<open>
  The managed services, \<open>crates/containr-common/src/managed_services.rs\<close>: the databases, queues and
  storage buckets containr runs for a user, their defaults, where their data lives on the host, and
  the hosts, networks and connection strings under which services reach them; and the configuration
  of a GitHub app (\<open>models.rs\<close>). A \<open>Path\<close> is the list of its components, as which paths compare.
  The draws of the random generator are a parameter.
\<close>

section \<open>Kinds of services\<close>

datatype database_type = Postgresql | MariadbDb | Valkey | QdrantDb

definition database_api_name :: "database_type \<Rightarrow> string" where
  "database_api_name t =
     (case t of Postgresql \<Rightarrow> ''postgres'' | MariadbDb \<Rightarrow> ''mariadb'' | Valkey \<Rightarrow> ''redis'' | QdrantDb \<Rightarrow> ''qdrant'')"

definition database_service_type :: "database_type \<Rightarrow> service_type" where
  "database_service_type t =
     (case t of Postgresql \<Rightarrow> Postgres | MariadbDb \<Rightarrow> Mariadb | Valkey \<Rightarrow> Redis | QdrantDb \<Rightarrow> Qdrant)"

definition database_type_image :: "database_type \<Rightarrow> string \<Rightarrow> string" where
  "database_type_image t version =
     (case t of Postgresql \<Rightarrow> ''postgres:'' | MariadbDb \<Rightarrow> ''mariadb:'' | Valkey \<Rightarrow> ''valkey/valkey:'' | QdrantDb \<Rightarrow> ''qdrant/qdrant:'')
       @ version"

definition database_default_port :: "database_type \<Rightarrow> u16" where
  "database_default_port t = (case t of Postgresql \<Rightarrow> 5432 | MariadbDb \<Rightarrow> 3306 | Valkey \<Rightarrow> 6379 | QdrantDb \<Rightarrow> 6333)"

definition database_volume_path :: "database_type \<Rightarrow> string" where
  "database_volume_path t =
     (case t of Postgresql \<Rightarrow> ''/var/lib/postgresql/data'' | MariadbDb \<Rightarrow> ''/var/lib/mysql'' | Valkey \<Rightarrow> ''/data''
      | QdrantDb \<Rightarrow> ''/qdrant/storage'')"

definition database_default_memory_limit :: "database_type \<Rightarrow> u64" where
  "database_default_memory_limit t =
     (case t of Postgresql \<Rightarrow> 512 * 1024 * 1024 | MariadbDb \<Rightarrow> 512 * 1024 * 1024 | Valkey \<Rightarrow> 256 * 1024 * 1024
      | QdrantDb \<Rightarrow> 1024 * 1024 * 1024)"

text \<open>The bit patterns of 1.0 and 0.5.\<close>

definition f64_one :: f64 where
  "f64_one = 0x3FF0000000000000"

definition f64_half :: f64 where
  "f64_half = 0x3FE0000000000000"

definition database_default_cpu_limit :: "database_type \<Rightarrow> f64" where
  "database_default_cpu_limit t =
     (case t of Postgresql \<Rightarrow> f64_one | MariadbDb \<Rightarrow> f64_one | Valkey \<Rightarrow> f64_half | QdrantDb \<Rightarrow> f64_one)"

definition database_default_version :: "database_type \<Rightarrow> string" where
  "database_default_version t =
     (case t of Postgresql \<Rightarrow> ''16'' | MariadbDb \<Rightarrow> ''11'' | Valkey \<Rightarrow> ''8'' | QdrantDb \<Rightarrow> ''latest'')"

record database_credentials =
  dc_username :: string
  dc_password :: string
  dc_database_name :: string

definition database_env_vars :: "database_type \<Rightarrow> database_credentials \<Rightarrow> (string \<times> string) list" where
  "database_env_vars t creds =
     (case t of
        Postgresql \<Rightarrow> [(''POSTGRES_USER'', dc_username creds), (''POSTGRES_PASSWORD'', dc_password creds),
                       (''POSTGRES_DB'', dc_database_name creds)]
      | MariadbDb \<Rightarrow> [(''MARIADB_USER'', dc_username creds), (''MARIADB_PASSWORD'', dc_password creds),
                    (''MARIADB_DATABASE'', dc_database_name creds), (''MARIADB_ROOT_PASSWORD'', dc_password creds)]
      | Valkey \<Rightarrow> [(''VALKEY_PASSWORD'', dc_password creds)]
      | QdrantDb \<Rightarrow> [(''QDRANT__SERVICE__API_KEY'', dc_password creds)])"

datatype managed_status = MPending | MStarting | MRunning | MStopped | MFailed

datatype queue_type = Rabbitmq | Nats

definition queue_api_name :: "queue_type \<Rightarrow> string" where
  "queue_api_name t = (case t of Rabbitmq \<Rightarrow> ''rabbitmq'' | Nats \<Rightarrow> ''nats'')"

definition queue_service_type :: "queue_type \<Rightarrow> service_type" where
  "queue_service_type t = (case t of Rabbitmq \<Rightarrow> RabbitMq | Nats \<Rightarrow> PrivateService)"

definition queue_type_image :: "queue_type \<Rightarrow> string \<Rightarrow> string" where
  "queue_type_image t version = (case t of Rabbitmq \<Rightarrow> ''rabbitmq:'' | Nats \<Rightarrow> ''nats:'') @ version"

definition queue_default_port :: "queue_type \<Rightarrow> u16" where
  "queue_default_port t = (case t of Rabbitmq \<Rightarrow> 5672 | Nats \<Rightarrow> 4222)"

definition queue_volume_path :: "queue_type \<Rightarrow> string" where
  "queue_volume_path t = (case t of Rabbitmq \<Rightarrow> ''/var/lib/rabbitmq'' | Nats \<Rightarrow> ''/data'')"

definition queue_default_memory_limit :: "queue_type \<Rightarrow> u64" where
  "queue_default_memory_limit t = (case t of Rabbitmq \<Rightarrow> 512 * 1024 * 1024 | Nats \<Rightarrow> 256 * 1024 * 1024)"

definition queue_default_cpu_limit :: "queue_type \<Rightarrow> f64" where
  "queue_default_cpu_limit t = (case t of Rabbitmq \<Rightarrow> f64_one | Nats \<Rightarrow> f64_half)"

definition queue_default_version :: "queue_type \<Rightarrow> string" where
  "queue_default_version t = (case t of Rabbitmq \<Rightarrow> ''3-management'' | Nats \<Rightarrow> ''2'')"

record queue_credentials =
  qc_username :: string
  qc_password :: string

section \<open>Credentials\<close>

definition CHARSET :: string where
  "CHARSET = ''ABCDEFGHIJKLMNOPQRSTUVWXYZabcdefghijklmnopqrstuvwxyz0123456789''"

text \<open>\<open>draws k\<close> is the \<open>k\<close>-th value of \<open>random_range(0..CHARSET.len())\<close>.\<close>

definition generate_random_password :: "(nat \<Rightarrow> nat) \<Rightarrow> nat \<Rightarrow> string" where
  "generate_random_password draws len = map (\<lambda>k. CHARSET ! draws k) [0..<len]"

definition generate_queue_credentials :: "(nat \<Rightarrow> nat) \<Rightarrow> queue_type \<Rightarrow> queue_credentials" where
  "generate_queue_credentials draws t =
     \<lparr> qc_username = (case t of Rabbitmq \<Rightarrow> ''rabbitmq'' | Nats \<Rightarrow> ''nats''),
       qc_password = generate_random_password draws 24 \<rparr>"

definition generate_database_credentials :: "(nat \<Rightarrow> nat) \<Rightarrow> database_type \<Rightarrow> database_credentials" where
  "generate_database_credentials draws t =
     \<lparr> dc_username =
         (case t of Postgresql \<Rightarrow> ''postgres'' | MariadbDb \<Rightarrow> ''mariadb'' | Valkey \<Rightarrow> ''default'' | QdrantDb \<Rightarrow> ''qdrant''),
       dc_password = generate_random_password draws 24, dc_database_name = ''main'' \<rparr>"

section \<open>Databases\<close>

record managed_database =
  md_id :: uuid
  md_owner_id :: uuid
  md_group_id :: "uuid option"
  md_name :: string
  md_db_type :: database_type
  md_version :: string
  md_container_id :: "string option"
  md_volume_name :: string
  md_host_data_path :: string
  md_internal_host :: string
  md_port :: u16
  md_external_port :: "u16 option"
  md_pitr_enabled :: bool
  md_pitr_last_base_backup_at :: "timestamp option"
  md_pitr_last_base_backup_label :: "string option"
  md_proxy_enabled :: bool
  md_proxy_external_port :: "u16 option"
  md_credentials :: database_credentials
  md_memory_limit :: u64
  md_cpu_limit :: f64
  md_status :: managed_status
  md_created_at :: timestamp
  md_updated_at :: timestamp

definition managed_database_new ::
  "(uuid \<Rightarrow> string) \<Rightarrow> (nat \<Rightarrow> nat) \<Rightarrow> uuid \<Rightarrow> timestamp \<Rightarrow> uuid \<Rightarrow> string \<Rightarrow> database_type \<Rightarrow> managed_database" where
  "managed_database_new show_uuid draws i now owner_id name t =
     \<lparr> md_id = i, md_owner_id = owner_id, md_group_id = None, md_name = name, md_db_type = t,
       md_version = database_default_version t, md_container_id = None,
       md_volume_name = ''containr-db-'' @ show_uuid i,
       md_host_data_path = ''/data/containr/databases/'' @ show_uuid i @ ''/data'',
       md_internal_host = ''db-'' @ show_uuid i, md_port = database_default_port t, md_external_port = None,
       md_pitr_enabled = False, md_pitr_last_base_backup_at = None, md_pitr_last_base_backup_label = None,
       md_proxy_enabled = False, md_proxy_external_port = None,
       md_credentials = generate_database_credentials draws t,
       md_memory_limit = database_default_memory_limit t, md_cpu_limit = database_default_cpu_limit t,
       md_status = MPending, md_created_at = now, md_updated_at = now \<rparr>"

definition managed_database_new_with_path ::
  "(uuid \<Rightarrow> string) \<Rightarrow> (nat \<Rightarrow> nat) \<Rightarrow> uuid \<Rightarrow> timestamp \<Rightarrow> uuid \<Rightarrow> string \<Rightarrow> database_type \<Rightarrow> string \<Rightarrow> managed_database" where
  "managed_database_new_with_path show_uuid draws i now owner_id name t data_dir =
     (managed_database_new show_uuid draws i now owner_id name t)
       \<lparr> md_host_data_path := path_join (path_join (path_join data_dir ''databases'') (show_uuid i)) ''data'' \<rparr>"

definition database_postgres_major_version :: "managed_database \<Rightarrow> u16 option" where
  "database_postgres_major_version d =
     (if md_db_type d \<noteq> Postgresql then None
      else parse_u16 (takeWhile (\<lambda>c. c \<noteq> CHR ''.'' \<and> c \<noteq> CHR ''-'') (trim (md_version d))))"

definition uses_versioned_postgres_layout :: "managed_database \<Rightarrow> bool" where
  "uses_versioned_postgres_layout d = is_some_and (database_postgres_major_version d) (\<lambda>major. major \<ge> 18)"

definition container_mount_target :: "managed_database \<Rightarrow> string" where
  "container_mount_target d =
     (if uses_versioned_postgres_layout d then ''/var/lib/postgresql'' else database_volume_path (md_db_type d))"

definition database_bind_mount_arg :: "managed_database \<Rightarrow> string" where
  "database_bind_mount_arg d = md_host_data_path d @ '':'' @ container_mount_target d"

definition container_data_dir :: "managed_database \<Rightarrow> string" where
  "container_data_dir d =
     (if md_db_type d \<noteq> Postgresql then database_volume_path (md_db_type d)
      else case database_postgres_major_version d of
             Some major \<Rightarrow>
               if major \<ge> 18 then ''/var/lib/postgresql/'' @ show_word major @ ''/docker''
               else database_volume_path (md_db_type d)
           | None \<Rightarrow> database_volume_path (md_db_type d))"

definition host_runtime_data_path :: "managed_database \<Rightarrow> string" where
  "host_runtime_data_path d =
     (if md_db_type d \<noteq> Postgresql then md_host_data_path d
      else case database_postgres_major_version d of
             Some major \<Rightarrow>
               if major \<ge> 18 then path_join (path_join (md_host_data_path d) (show_word major)) ''docker''
               else md_host_data_path d
           | None \<Rightarrow> md_host_data_path d)"

definition container_env_vars :: "managed_database \<Rightarrow> (string \<times> string) list" where
  "container_env_vars d =
     database_env_vars (md_db_type d) (md_credentials d)
       @ (if uses_versioned_postgres_layout d then [(''PGDATA'', container_data_dir d)] else [])"

definition managed_network_name :: "(uuid \<Rightarrow> string) \<Rightarrow> uuid option \<Rightarrow> uuid \<Rightarrow> string" where
  "managed_network_name show_uuid group_id i =
     (case group_id of Some group_id \<Rightarrow> ''containr-'' @ show_uuid group_id | None \<Rightarrow> ''containr-svc-'' @ show_uuid i)"

definition normalize_internal_host :: "string \<Rightarrow> string" where
  "normalize_internal_host host = trim_end_matches ''.internal'' (trim host)"

definition managed_network_aliases :: "string \<Rightarrow> string list" where
  "managed_network_aliases internal_host =
     (let normalized = normalize_internal_host internal_host;
          original = trim internal_host
      in normalized # (if original \<noteq> [] \<and> original \<noteq> normalized then [original] else []))"

definition database_connection_string :: "managed_database \<Rightarrow> string" where
  "database_connection_string d =
     (let host = normalize_internal_host (md_internal_host d);
          creds = md_credentials d;
          login = dc_username creds @ '':'' @ dc_password creds @ ''@'' @ host @ '':'' @ show_word (md_port d) @ ''/''
                    @ dc_database_name creds
      in case md_db_type d of
           Postgresql \<Rightarrow> ''postgresql://'' @ login
         | MariadbDb \<Rightarrow> ''mysql://'' @ login
         | Valkey \<Rightarrow> ''redis://:'' @ dc_password creds @ ''@'' @ host @ '':'' @ show_word (md_port d)
         | QdrantDb \<Rightarrow> ''http://'' @ host @ '':'' @ show_word (md_port d))"

definition database_docker_image :: "managed_database \<Rightarrow> string" where
  "database_docker_image d = database_type_image (md_db_type d) (md_version d)"

text \<open>The directory a data path lies in; a path without a parent is its own root.\<close>

definition path_parent :: "path_component list \<Rightarrow> path_component list option" where
  "path_parent p = (if p = [] \<or> last p = RootDir then None else Some (butlast p))"

definition managed_root_path :: "string \<Rightarrow> path_component list" where
  "managed_root_path host_data_path =
     unwrap_or (path_parent (components host_data_path)) (components host_data_path)"

definition pitr_root_path :: "managed_database \<Rightarrow> path_component list" where
  "pitr_root_path d = managed_root_path (md_host_data_path d) @ [Normal ''pitr'']"

definition pitr_archive_path :: "managed_database \<Rightarrow> path_component list" where
  "pitr_archive_path d = pitr_root_path d @ [Normal ''wal'']"

definition pitr_backups_path :: "managed_database \<Rightarrow> path_component list" where
  "pitr_backups_path d = pitr_root_path d @ [Normal ''basebackups'']"

definition proxy_config_path :: "managed_database \<Rightarrow> path_component list" where
  "proxy_config_path d = managed_root_path (md_host_data_path d) @ [Normal ''pgdog'']"

definition POSTGRES_PROXY_PORT :: u16 where
  "POSTGRES_PROXY_PORT = 6432"

definition proxy_internal_host :: "managed_database \<Rightarrow> string option" where
  "proxy_internal_host d =
     (if md_db_type d = Postgresql \<and> md_proxy_enabled d
      then Some (normalize_internal_host (md_internal_host d) @ ''-proxy'') else None)"

definition proxy_port :: "managed_database \<Rightarrow> u16 option" where
  "proxy_port d = (if md_db_type d = Postgresql \<and> md_proxy_enabled d then Some POSTGRES_PROXY_PORT else None)"

definition proxy_connection_string :: "managed_database \<Rightarrow> string option" where
  "proxy_connection_string d =
     Option.bind (proxy_internal_host d) (\<lambda>host. map_option (\<lambda>port.
       ''postgresql://'' @ dc_username (md_credentials d) @ '':'' @ dc_password (md_credentials d) @ ''@'' @ host @ '':''
         @ show_word port @ ''/'' @ dc_database_name (md_credentials d)) (proxy_port d))"

section \<open>Queues\<close>

record managed_queue =
  mq_id :: uuid
  mq_owner_id :: uuid
  mq_group_id :: "uuid option"
  mq_name :: string
  mq_queue_type :: queue_type
  mq_version :: string
  mq_container_id :: "string option"
  mq_volume_name :: string
  mq_host_data_path :: string
  mq_internal_host :: string
  mq_port :: u16
  mq_external_port :: "u16 option"
  mq_credentials :: queue_credentials
  mq_memory_limit :: u64
  mq_cpu_limit :: f64
  mq_status :: managed_status
  mq_created_at :: timestamp
  mq_updated_at :: timestamp

definition managed_queue_new ::
  "(uuid \<Rightarrow> string) \<Rightarrow> (nat \<Rightarrow> nat) \<Rightarrow> uuid \<Rightarrow> timestamp \<Rightarrow> uuid \<Rightarrow> string \<Rightarrow> queue_type \<Rightarrow> managed_queue" where
  "managed_queue_new show_uuid draws i now owner_id name t =
     \<lparr> mq_id = i, mq_owner_id = owner_id, mq_group_id = None, mq_name = name, mq_queue_type = t,
       mq_version = queue_default_version t, mq_container_id = None,
       mq_volume_name = ''containr-queue-'' @ show_uuid i,
       mq_host_data_path = ''/data/containr/queues/'' @ show_uuid i @ ''/data'',
       mq_internal_host = ''queue-'' @ show_uuid i, mq_port = queue_default_port t, mq_external_port = None,
       mq_credentials = generate_queue_credentials draws t,
       mq_memory_limit = queue_default_memory_limit t, mq_cpu_limit = queue_default_cpu_limit t,
       mq_status = MPending, mq_created_at = now, mq_updated_at = now \<rparr>"

definition managed_queue_new_with_path ::
  "(uuid \<Rightarrow> string) \<Rightarrow> (nat \<Rightarrow> nat) \<Rightarrow> uuid \<Rightarrow> timestamp \<Rightarrow> uuid \<Rightarrow> string \<Rightarrow> queue_type \<Rightarrow> string \<Rightarrow> managed_queue" where
  "managed_queue_new_with_path show_uuid draws i now owner_id name t data_dir =
     (managed_queue_new show_uuid draws i now owner_id name t)
       \<lparr> mq_host_data_path := path_join (path_join (path_join data_dir ''queues'') (show_uuid i)) ''data'' \<rparr>"

definition queue_bind_mount_arg :: "managed_queue \<Rightarrow> string" where
  "queue_bind_mount_arg q = mq_host_data_path q @ '':'' @ queue_volume_path (mq_queue_type q)"

definition queue_connection_string :: "managed_queue \<Rightarrow> string" where
  "queue_connection_string q =
     (case mq_queue_type q of Rabbitmq \<Rightarrow> ''amqp://'' | Nats \<Rightarrow> ''nats://'')
       @ qc_username (mq_credentials q) @ '':'' @ qc_password (mq_credentials q) @ ''@''
       @ normalize_internal_host (mq_internal_host q) @ '':'' @ show_word (mq_port q)"

definition queue_docker_image :: "managed_queue \<Rightarrow> string" where
  "queue_docker_image q = queue_type_image (mq_queue_type q) (mq_version q)"

section \<open>Buckets and GitHub apps\<close>

record storage_bucket =
  sb_id :: uuid
  sb_owner_id :: uuid
  sb_name :: string
  sb_access_key :: string
  sb_secret_key :: string
  sb_size_bytes :: u64
  sb_endpoint :: string
  sb_created_at :: timestamp

definition storage_bucket_new :: "uuid \<Rightarrow> timestamp \<Rightarrow> uuid \<Rightarrow> string \<Rightarrow> string \<Rightarrow> storage_bucket" where
  "storage_bucket_new i now owner_id name endpoint =
     \<lparr> sb_id = i, sb_owner_id = owner_id, sb_name = name, sb_access_key = [], sb_secret_key = [],
       sb_size_bytes = 0, sb_endpoint = endpoint, sb_created_at = now \<rparr>"

record github_installation =
  gi_id :: i64
  gi_account_login :: string
  gi_account_type :: string
  gi_repository_count :: "i32 option"
  gi_created_at :: timestamp

record github_app_config =
  ga_id :: uuid
  ga_app_id :: i64
  ga_app_name :: string
  ga_client_id :: string
  ga_client_secret :: string
  ga_private_key :: string
  ga_webhook_secret :: string
  ga_html_url :: string
  ga_owner_id :: uuid
  ga_installations :: "github_installation list"
  ga_created_at :: timestamp
  ga_updated_at :: timestamp

end
