(* ===== verification/Routes.thy ===== *)
theory Routes
  imports Models "HOL-Library.Multiset"
begin

text \<open>
  The route table of the proxy, \<open>crates/containr-proxy/src/routes.rs\<close>: adding, removing and
  looking up routes, upstream selection with round robin and least connections, and HTTP basic
  auth with its cache of verified headers.

  A \<open>RouteState\<close> is shared: the \<open>DashMap\<close>, every \<open>SelectedUpstream\<close> and every
  \<open>PendingBasicAuth\<close> hold an \<open>Arc\<close> to it and mutate its counters and its cache. The model
  keeps the states in a store (\<open>rm_heap\<close>) and an \<open>Arc\<close> is an address, so that a request that
  finishes after its route was replaced updates the old state, as in the code. The counters are
  64-bit and wrap as \<open>fetch_add\<close> does. A \<open>HashSet\<close> is a set. An \<open>Arc\<close> never dangles: the
  branch for an address outside the store is unreachable (\<open>rm_ok\<close>, \<open>traffic_inv\<close>).

  Not under \<open>src/\<close> and therefore arguments of the definitions: \<open>b64\<close>, base64 \<open>STANDARD\<close> decoding
  followed by \<open>String::from_utf8\<close>, and \<open>argon2\<close>, the verification of a password against a
  stored hash.
\<close>

section \<open>State\<close>

datatype load_balance_algorithm = RoundRobin | LeastConnections

record upstream =
  up_host :: string
  up_port :: u16

record route_login_gate =
  rlg_owner_id :: uuid
  rlg_scope :: login_gate_scope

record route =
  rt_domain :: string
  rt_app_id :: "uuid option"
  rt_service_id :: "uuid option"
  rt_upstreams :: "upstream list"
  rt_ssl_enabled :: bool
  rt_algorithm :: load_balance_algorithm
  rt_basic_auth :: "basic_auth option"
  rt_login_gate :: "route_login_gate option"

record upstream_state =
  us_host :: string
  us_port :: u16
  us_inflight :: usize

record route_state =
  rs_domain :: string
  rs_app_id :: "uuid option"
  rs_service_id :: "uuid option"
  rs_upstreams :: "upstream_state list"
  rs_ssl_enabled :: bool
  rs_algorithm :: load_balance_algorithm
  rs_rr_cursor :: usize
  rs_basic_auth :: "basic_auth option"
  rs_login_gate :: "route_login_gate option"
  rs_auth_cache :: "string set"

type_synonym arc = nat

record route_manager =
  rm_routes :: "string \<rightharpoonup> arc"
  rm_heap :: "arc \<rightharpoonup> route_state"
  rm_next :: arc

definition MAX_AUTH_CACHE_ENTRIES :: nat where
  "MAX_AUTH_CACHE_ENTRIES = 64"

section \<open>The table\<close>

definition route_normalize_domain :: "string \<Rightarrow> string" where
  "route_normalize_domain domain = to_lowercase (trim_end_char CHR ''.'' (trim domain))"

definition to_route :: "route_state \<Rightarrow> route" where
  "to_route st =
     \<lparr> rt_domain = rs_domain st, rt_app_id = rs_app_id st, rt_service_id = rs_service_id st,
       rt_upstreams = map (\<lambda>u. \<lparr> up_host = us_host u, up_port = us_port u \<rparr>) (rs_upstreams st),
       rt_ssl_enabled = rs_ssl_enabled st, rt_algorithm = rs_algorithm st,
       rt_basic_auth = rs_basic_auth st, rt_login_gate = rs_login_gate st \<rparr>"

definition route_manager_new :: route_manager where
  "route_manager_new = \<lparr> rm_routes = Map.empty, rm_heap = Map.empty, rm_next = 0 \<rparr>"

definition new_route_state :: "route \<Rightarrow> route_state" where
  "new_route_state r =
     \<lparr> rs_domain = route_normalize_domain (rt_domain r), rs_app_id = rt_app_id r,
       rs_service_id = rt_service_id r,
       rs_upstreams =
         map (\<lambda>u. \<lparr> us_host = up_host u, us_port = up_port u, us_inflight = 0 \<rparr>) (rt_upstreams r),
       rs_ssl_enabled = rt_ssl_enabled r, rs_algorithm = rt_algorithm r, rs_rr_cursor = 0,
       rs_basic_auth = rt_basic_auth r, rs_login_gate = rt_login_gate r, rs_auth_cache = {} \<rparr>"

definition add_route :: "route_manager \<Rightarrow> route \<Rightarrow> route_manager" where
  "add_route m r =
     m\<lparr> rm_routes := (rm_routes m)(route_normalize_domain (rt_domain r) \<mapsto> rm_next m),
        rm_heap := (rm_heap m)(rm_next m \<mapsto> new_route_state r),
        rm_next := Suc (rm_next m) \<rparr>"

definition remove_route :: "route_manager \<Rightarrow> string \<Rightarrow> route_manager" where
  "remove_route m domain =
     m\<lparr> rm_routes := (rm_routes m)(route_normalize_domain domain := None) \<rparr>"

text \<open>\<open>self.routes.get(&normalize_domain(domain))\<close>: the shared state, if any.\<close>

definition lookup_state :: "route_manager \<Rightarrow> string \<Rightarrow> (arc \<times> route_state) option" where
  "lookup_state m domain =
     (case rm_routes m (route_normalize_domain domain) of
        None \<Rightarrow> None
      | Some a \<Rightarrow> map_option (\<lambda>st. (a, st)) (rm_heap m a))"

definition get_route :: "route_manager \<Rightarrow> string \<Rightarrow> route option" where
  "get_route m domain = map_option (\<lambda>(a, st). to_route st) (lookup_state m domain)"

definition has_route :: "route_manager \<Rightarrow> string \<Rightarrow> bool" where
  "has_route m domain = (rm_routes m (route_normalize_domain domain) \<noteq> None)"

text \<open>\<open>list_routes\<close> walks the \<open>DashMap\<close> in no particular order.\<close>

definition list_routes :: "route_manager \<Rightarrow> route set" where
  "list_routes m = {to_route st | st. \<exists>d a. rm_routes m d = Some a \<and> rm_heap m a = Some st}"

section \<open>Load balancing\<close>

record selected_upstream =
  su_route :: arc
  su_index :: nat

text \<open>The loop of the least-connections branch, from index \<open>idx\<close> on.\<close>

fun least_loop :: "nat \<Rightarrow> upstream_state list \<Rightarrow> nat \<Rightarrow> usize \<Rightarrow> nat" where
  "least_loop idx [] selected lowest = selected"
| "least_loop idx (u # us) selected lowest =
     (if us_inflight u < lowest then least_loop (Suc idx) us idx (us_inflight u)
      else least_loop (Suc idx) us selected lowest)"

definition least_connections :: "upstream_state list \<Rightarrow> nat" where
  "least_connections us = least_loop 1 (tl us) 0 (us_inflight (hd us))"

definition bump_inflight :: "route_state \<Rightarrow> nat \<Rightarrow> route_state" where
  "bump_inflight st i =
     st\<lparr> rs_upstreams := (rs_upstreams st)
           [i := (rs_upstreams st ! i)\<lparr> us_inflight := us_inflight (rs_upstreams st ! i) + 1 \<rparr>] \<rparr>"

definition select_upstream ::
  "route_manager \<Rightarrow> string \<Rightarrow> route_manager \<times> selected_upstream option" where
  "select_upstream m domain =
     (case lookup_state m domain of
        None \<Rightarrow> (m, None)
      | Some (a, st) \<Rightarrow>
          if rs_upstreams st = [] then (m, None)
          else
            let n = length (rs_upstreams st);
                (st', index) =
                  (case rs_algorithm st of
                     RoundRobin \<Rightarrow>
                       (st\<lparr> rs_rr_cursor := rs_rr_cursor st + 1 \<rparr>, unat (rs_rr_cursor st) mod n)
                   | LeastConnections \<Rightarrow> (st, least_connections (rs_upstreams st)))
            in (m\<lparr> rm_heap := (rm_heap m)(a \<mapsto> bump_inflight st' index) \<rparr>,
                Some \<lparr> su_route = a, su_index = index \<rparr>))"

definition address :: "route_manager \<Rightarrow> selected_upstream \<Rightarrow> string option" where
  "address m sel =
     map_option (\<lambda>st. us_host (rs_upstreams st ! su_index sel) @ '':'' @
                      show_word (us_port (rs_upstreams st ! su_index sel)))
       (rm_heap m (su_route sel))"

text \<open>\<open>fetch_update\<close> with \<open>checked_sub(1)\<close>: a counter at 0 stays at 0.\<close>

definition drop_inflight :: "route_state \<Rightarrow> nat \<Rightarrow> route_state" where
  "drop_inflight st i =
     (let u = rs_upstreams st ! i in
        if us_inflight u = 0 then st
        else st\<lparr> rs_upstreams := (rs_upstreams st)[i := u\<lparr> us_inflight := us_inflight u - 1 \<rparr>] \<rparr>)"

definition complete :: "route_manager \<Rightarrow> selected_upstream \<Rightarrow> route_manager" where
  "complete m sel =
     (case rm_heap m (su_route sel) of
        None \<Rightarrow> m
      | Some st \<Rightarrow> m\<lparr> rm_heap := (rm_heap m)(su_route sel \<mapsto> drop_inflight st (su_index sel)) \<rparr>)"

section \<open>Basic auth\<close>

record pending_basic_auth =
  pb_route :: arc
  pb_header :: string
  pb_username :: string
  pb_password :: string

datatype basic_auth_check = NotRequired | Allowed | Denied | Verify pending_basic_auth

definition parse_basic_authorization ::
  "(string \<Rightarrow> string option) \<Rightarrow> string \<Rightarrow> (string \<times> string) option" where
  "parse_basic_authorization b64 header =
     (case split_once CHR '' '' (trim header) of
        None \<Rightarrow> None
      | Some (scheme, encoded) \<Rightarrow>
          if \<not> eq_ignore_ascii_case scheme ''basic'' then None
          else (case b64 (trim encoded) of
                  None \<Rightarrow> None
                | Some decoded \<Rightarrow> split_once CHR '':'' decoded))"

definition verify_basic_credentials ::
  "(string \<Rightarrow> string \<Rightarrow> bool) \<Rightarrow> string \<Rightarrow> string \<Rightarrow> basic_auth \<Rightarrow> bool" where
  "verify_basic_credentials argon2 username password expected =
     (if username \<noteq> bau_username expected then False
      else argon2 password (bau_password_hash expected))"

definition check_basic_auth ::
  "(string \<Rightarrow> string option) \<Rightarrow> route_manager \<Rightarrow> string \<Rightarrow> string option \<Rightarrow> basic_auth_check" where
  "check_basic_auth b64 m domain authorization =
     (case lookup_state m domain of
        None \<Rightarrow> NotRequired
      | Some (a, st) \<Rightarrow>
          if rs_basic_auth st = None then NotRequired
          else (case map_option trim authorization of
                  None \<Rightarrow> Denied
                | Some header \<Rightarrow>
                    if header \<in> rs_auth_cache st then Allowed
                    else (case parse_basic_authorization b64 header of
                            None \<Rightarrow> Denied
                          | Some (username, password) \<Rightarrow>
                              Verify \<lparr> pb_route = a, pb_header = header,
                                       pb_username = username, pb_password = password \<rparr>)))"

definition verify_pending ::
  "(string \<Rightarrow> string \<Rightarrow> bool) \<Rightarrow> route_manager \<Rightarrow> pending_basic_auth \<Rightarrow> route_manager \<times> bool" where
  "verify_pending argon2 m p =
     (case rm_heap m (pb_route p) of
        None \<Rightarrow> (m, False)
      | Some st \<Rightarrow>
          (case rs_basic_auth st of
             None \<Rightarrow> (m, True)
           | Some expected \<Rightarrow>
               if \<not> verify_basic_credentials argon2 (pb_username p) (pb_password p) expected
               then (m, False)
               else
                 let cache = (if card (rs_auth_cache st) \<ge> MAX_AUTH_CACHE_ENTRIES then {}
                              else rs_auth_cache st)
                 in (m\<lparr> rm_heap := (rm_heap m)
                          (pb_route p \<mapsto> st\<lparr> rs_auth_cache := insert (pb_header p) cache \<rparr>) \<rparr>,
                     True)))"

text \<open>
  \<open>ContainrProxy::basic_auth_allowed\<close> of \<open>pingora_proxy.rs\<close>: the check and, where it is
  needed, the verification.
\<close>

definition basic_auth_allowed ::
  "(string \<Rightarrow> string option) \<Rightarrow> (string \<Rightarrow> string \<Rightarrow> bool) \<Rightarrow> route_manager \<Rightarrow> string \<Rightarrow> string option
     \<Rightarrow> route_manager \<times> bool" where
  "basic_auth_allowed b64 argon2 m host authorization =
     (case check_basic_auth b64 m host authorization of
        NotRequired \<Rightarrow> (m, True)
      | Allowed \<Rightarrow> (m, True)
      | Denied \<Rightarrow> (m, False)
      | Verify p \<Rightarrow> verify_pending argon2 m p)"

section \<open>The table as a map\<close>

definition rm_ok :: "route_manager \<Rightarrow> bool" where
  "rm_ok m \<longleftrightarrow> ran (rm_routes m) \<subseteq> dom (rm_heap m) \<and> (\<forall>a \<in> dom (rm_heap m). a < rm_next m)"

lemma rm_ok_new: "rm_ok route_manager_new"
  by (simp add: rm_ok_def route_manager_new_def)

lemma rm_ok_fresh: "rm_ok m \<Longrightarrow> rm_heap m (rm_next m) = None"
  by (force simp: rm_ok_def)

lemma rm_ok_add: "rm_ok m \<Longrightarrow> rm_ok (add_route m r)"
  unfolding rm_ok_def add_route_def ran_def dom_def by (auto split: if_splits intro: less_SucI)

lemma rm_ok_remove: "rm_ok m \<Longrightarrow> rm_ok (remove_route m d)"
  unfolding rm_ok_def remove_route_def ran_def dom_def by (auto split: if_splits)

lemma lookup_state_eq:
  "lookup_state m d = Some (a, st) \<longleftrightarrow>
     rm_routes m (route_normalize_domain d) = Some a \<and> rm_heap m a = Some st"
  by (auto simp: lookup_state_def split: option.splits)

lemma lookup_state_None:
  "rm_ok m \<Longrightarrow> lookup_state m d = None \<longleftrightarrow> rm_routes m (route_normalize_domain d) = None"
  by (auto simp: lookup_state_def rm_ok_def ran_def split: option.splits)

lemma get_route_has_route: "rm_ok m \<Longrightarrow> has_route m d \<longleftrightarrow> get_route m d \<noteq> None"
  by (simp add: has_route_def get_route_def lookup_state_None)

definition stored_route :: "route \<Rightarrow> route" where
  "stored_route r = r\<lparr> rt_domain := route_normalize_domain (rt_domain r) \<rparr>"

lemma to_route_new: "to_route (new_route_state r) = stored_route r"
proof -
  have "(\<lambda>u. \<lparr> up_host = up_host u, up_port = up_port u \<rparr>) = (\<lambda>u :: upstream. u)"
    by (rule ext) simp
  then show ?thesis
    by (cases r) (simp add: to_route_def new_route_state_def stored_route_def comp_def)
qed

lemma get_route_add:
  assumes "rm_ok m"
  shows "get_route (add_route m r) d =
    (if route_normalize_domain d = route_normalize_domain (rt_domain r) then Some (stored_route r)
     else get_route m d)"
  using assms
  by (auto simp: get_route_def lookup_state_def add_route_def to_route_new rm_ok_def ran_def dom_def
      split: option.splits)

lemma get_route_remove:
  "get_route (remove_route m x) d =
    (if route_normalize_domain d = route_normalize_domain x then None else get_route m d)"
  by (auto simp: get_route_def lookup_state_def remove_route_def split: option.splits)

text \<open>
  The contract of a table whose keys are normalised names: what \<open>get\<close> returns after an
  update. Its client, the code that replays route updates, needs nothing else.
\<close>

locale keyed_table =
  fixes empty :: 'm
    and add :: "'m \<Rightarrow> 'r \<Rightarrow> 'm"
    and remove :: "'m \<Rightarrow> 'k \<Rightarrow> 'm"
    and get :: "'m \<Rightarrow> 'k \<Rightarrow> 'r option"
    and norm :: "'k \<Rightarrow> 'n"
    and key :: "'r \<Rightarrow> 'k"
    and stored :: "'r \<Rightarrow> 'r"
    and invar :: "'m \<Rightarrow> bool"
  assumes invar_empty: "invar empty"
    and invar_add: "invar m \<Longrightarrow> invar (add m r)"
    and invar_remove: "invar m \<Longrightarrow> invar (remove m k)"
    and get_empty: "get empty k = None"
    and get_add: "invar m \<Longrightarrow> get (add m r) k = (if norm k = norm (key r) then Some (stored r) else get m k)"
    and get_remove: "invar m \<Longrightarrow> get (remove m k') k = (if norm k = norm k' then None else get m k)"
begin

lemma invar_run:
  "invar m \<Longrightarrow> invar (foldl (\<lambda>m u. case u of Inl k \<Rightarrow> remove m k | Inr r \<Rightarrow> add m r) m us)"
  by (induction us arbitrary: m) (auto simp: invar_add invar_remove split: sum.splits)

lemma get_run:
  assumes "invar m"
  shows "get (foldl (\<lambda>m u. case u of Inl k' \<Rightarrow> remove m k' | Inr r \<Rightarrow> add m r) m us) k =
    foldl (\<lambda>v u. case u of
        Inl k' \<Rightarrow> if norm k = norm k' then None else v
      | Inr r \<Rightarrow> if norm k = norm (key r) then Some (stored r) else v) (get m k) us"
  using assms
proof (induction us arbitrary: m)
  case Nil
  then show ?case by simp
next
  case (Cons u us)
  then show ?case
    by (cases u) (simp_all add: invar_add invar_remove get_add get_remove)
qed

lemma get_add_remove:
  assumes "invar m" and "norm k' = norm (key r)"
  shows "get (remove (add m r) k') k = get (remove m k') k"
  using assms by (simp add: get_remove get_add invar_add)

end

interpretation rt: keyed_table route_manager_new add_route remove_route get_route
  route_normalize_domain rt_domain stored_route rm_ok
  by unfold_locales
    (simp_all add: rm_ok_new rm_ok_add rm_ok_remove get_route_add get_route_remove,
     simp add: get_route_def lookup_state_def route_manager_new_def)

text \<open>A sequence of updates of the table: \<open>Inr\<close> adds a route, \<open>Inl\<close> removes a domain.\<close>

definition run_updates :: "route_manager \<Rightarrow> (string + route) list \<Rightarrow> route_manager" where
  "run_updates m us =
     foldl (\<lambda>m u. case u of Inl d \<Rightarrow> remove_route m d | Inr r \<Rightarrow> add_route m r) m us"

text \<open>The abstract table: what a list of updates says about one normalised name.\<close>

definition table_spec :: "(string + route) list \<Rightarrow> string \<Rightarrow> route option" where
  "table_spec us name =
     foldl (\<lambda>v u. case u of
         Inl d \<Rightarrow> if name = route_normalize_domain d then None else v
       | Inr r \<Rightarrow> if name = route_normalize_domain (rt_domain r) then Some (stored_route r) else v)
       None us"

text \<open>
  C39. The route table refines a map keyed by normalised domains: after any sequence of updates a
  lookup, however the domain is written, returns what the last update of that name says.
\<close>

theorem route_table_refines_map:
  "get_route (run_updates route_manager_new us) domain = table_spec us (route_normalize_domain domain)"
  unfolding run_updates_def table_spec_def
  using rt.get_run [OF rt.invar_empty, of us domain] by (simp add: rt.get_empty)

section \<open>Selection\<close>

lemma least_loop_min:
  assumes "\<forall>j < length pre. lowest \<le> us_inflight (pre ! j)"
    and "sel < length pre" and "us_inflight (pre ! sel) = lowest"
  shows "least_loop (length pre) us sel lowest < length (pre @ us) \<and>
    (\<forall>j < length (pre @ us).
       us_inflight ((pre @ us) ! least_loop (length pre) us sel lowest) \<le> us_inflight ((pre @ us) ! j))"
  using assms
proof (induction us arbitrary: pre sel lowest)
  case Nil
  then show ?case by simp
next
  case (Cons u us)
  show ?case
  proof (cases "us_inflight u < lowest")
    case True
    have "\<forall>j < length (pre @ [u]). us_inflight u \<le> us_inflight ((pre @ [u]) ! j)"
      using Cons.prems True by (auto simp: nth_append less_Suc_eq)
    with Cons.IH [of "pre @ [u]" "us_inflight u" "length pre"] True show ?thesis by simp
  next
    case False
    have "\<forall>j < length (pre @ [u]). lowest \<le> us_inflight ((pre @ [u]) ! j)"
      using Cons.prems False by (auto simp: nth_append less_Suc_eq)
    with Cons.IH [of "pre @ [u]" lowest sel] Cons.prems False show ?thesis by (simp add: nth_append)
  qed
qed

lemma least_connections_min:
  assumes "us \<noteq> []"
  shows "least_connections us < length us"
    and "\<And>j. j < length us \<Longrightarrow> us_inflight (us ! least_connections us) \<le> us_inflight (us ! j)"
  using least_loop_min [of "[hd us]" "us_inflight (hd us)" 0 "tl us"] assms
  by (simp_all add: least_connections_def)

lemma select_upstream_SomeE:
  assumes "select_upstream m d = (m', Some sel)"
  obtains a st c where "lookup_state m d = Some (a, st)" "su_route sel = a"
    "su_index sel < length (rs_upstreams st)"
    "m' = m\<lparr> rm_heap := (rm_heap m)(a \<mapsto> bump_inflight (st\<lparr> rs_rr_cursor := c \<rparr>) (su_index sel)) \<rparr>"
    "rs_algorithm st = RoundRobin \<Longrightarrow>
       su_index sel = unat (rs_rr_cursor st) mod length (rs_upstreams st) \<and> c = rs_rr_cursor st + 1"
    "rs_algorithm st = LeastConnections \<Longrightarrow>
       su_index sel = least_connections (rs_upstreams st) \<and> c = rs_rr_cursor st"
proof -
  obtain a st where l: "lookup_state m d = Some (a, st)" and ne: "rs_upstreams st \<noteq> []"
    using assms by (auto simp: select_upstream_def split: option.splits if_splits)
  show thesis
  proof (cases "rs_algorithm st")
    case RoundRobin
    with assms l ne show thesis
      by (intro that [of a st "rs_rr_cursor st + 1"]) (auto simp: select_upstream_def Let_def)
  next
    case LeastConnections
    with assms l ne show thesis
      by (intro that [of a st "rs_rr_cursor st"])
        (auto simp: select_upstream_def Let_def least_connections_min(1))
  qed
qed

lemma select_upstream_None: "select_upstream m d = (m', None) \<Longrightarrow> m' = m"
  by (auto simp: select_upstream_def Let_def split: option.splits if_splits load_balance_algorithm.splits)

lemma length_upstreams_bump [simp]:
  "length (rs_upstreams (bump_inflight st i)) = length (rs_upstreams st)"
  by (simp add: bump_inflight_def)

lemma length_upstreams_drop [simp]:
  "length (rs_upstreams (drop_inflight st i)) = length (rs_upstreams st)"
  by (simp add: drop_inflight_def Let_def)

lemma to_route_traffic [simp]:
  "to_route (bump_inflight (st\<lparr> rs_rr_cursor := c \<rparr>) i) = to_route st"
  "to_route (drop_inflight st i) = to_route st"
  "to_route (st\<lparr> rs_auth_cache := h \<rparr>) = to_route st"
proof -
  have upd: "map f (us[i := u]) = map f us" if "f u = f (us ! i)"
    for f :: "upstream_state \<Rightarrow> upstream" and us u
    using that by (metis list_update_id map_update)
  show "to_route (bump_inflight (st\<lparr> rs_rr_cursor := c \<rparr>) i) = to_route st"
    and "to_route (drop_inflight st i) = to_route st"
    and "to_route (st\<lparr> rs_auth_cache := h \<rparr>) = to_route st"
    by (simp_all add: to_route_def bump_inflight_def drop_inflight_def Let_def upd)
qed

section \<open>Traffic\<close>

text \<open>
  Requests in flight and route updates, interleaved in any order. \<open>tr_open\<close> are the selections
  not completed yet, \<open>tr_pending\<close> the credentials still to be verified (off the proxy's event
  loop). The guard of \<open>select\<close> is the one thing assumed of the environment: fewer than
  \<open>2 ^ 64\<close> requests are in flight at once, so that the counters do not wrap.
\<close>

record traffic =
  tr_rm :: route_manager
  tr_open :: "selected_upstream multiset"
  tr_pending :: "pending_basic_auth set"

definition traffic_init :: traffic where
  "traffic_init = \<lparr> tr_rm = route_manager_new, tr_open = {#}, tr_pending = {} \<rparr>"

inductive traffic_step ::
  "(string \<Rightarrow> string option) \<Rightarrow> (string \<Rightarrow> string \<Rightarrow> bool) \<Rightarrow> traffic \<Rightarrow> traffic \<Rightarrow> bool"
  for b64 argon2 where
  step_add: "traffic_step b64 argon2 s (s\<lparr> tr_rm := add_route (tr_rm s) r \<rparr>)"
| step_remove: "traffic_step b64 argon2 s (s\<lparr> tr_rm := remove_route (tr_rm s) d \<rparr>)"
| step_select:
    "select_upstream (tr_rm s) d = (m', Some sel) \<Longrightarrow> size (tr_open s) + 1 < 2 ^ 64 \<Longrightarrow>
     traffic_step b64 argon2 s (s\<lparr> tr_rm := m', tr_open := add_mset sel (tr_open s) \<rparr>)"
| step_complete:
    "sel \<in># tr_open s \<Longrightarrow>
     traffic_step b64 argon2 s
       (s\<lparr> tr_rm := complete (tr_rm s) sel, tr_open := tr_open s - {#sel#} \<rparr>)"
| step_check:
    "check_basic_auth b64 (tr_rm s) d h = Verify p \<Longrightarrow>
     traffic_step b64 argon2 s (s\<lparr> tr_pending := insert p (tr_pending s) \<rparr>)"
| step_verify:
    "p \<in> tr_pending s \<Longrightarrow> verify_pending argon2 (tr_rm s) p = (m', ok) \<Longrightarrow>
     traffic_step b64 argon2 s (s\<lparr> tr_rm := m', tr_pending := tr_pending s - {p} \<rparr>)"

inductive traffic_reachable ::
  "(string \<Rightarrow> string option) \<Rightarrow> (string \<Rightarrow> string \<Rightarrow> bool) \<Rightarrow> traffic \<Rightarrow> bool"
  for b64 argon2 where
  reach_init: "traffic_reachable b64 argon2 traffic_init"
| reach_step: "traffic_reachable b64 argon2 s \<Longrightarrow> traffic_step b64 argon2 s t \<Longrightarrow>
    traffic_reachable b64 argon2 t"

definition valid_credentials ::
  "(string \<Rightarrow> string option) \<Rightarrow> (string \<Rightarrow> string \<Rightarrow> bool) \<Rightarrow> basic_auth \<Rightarrow> string \<Rightarrow> bool" where
  "valid_credentials b64 argon2 expected header \<longleftrightarrow>
     (\<exists>u p. parse_basic_authorization b64 header = Some (u, p) \<and>
            verify_basic_credentials argon2 u p expected)"

definition counters_ok :: "route_manager \<Rightarrow> selected_upstream multiset \<Rightarrow> bool" where
  "counters_ok m opens \<longleftrightarrow>
     (\<forall>a st i. rm_heap m a = Some st \<longrightarrow> i < length (rs_upstreams st) \<longrightarrow>
        unat (us_inflight (rs_upstreams st ! i)) = count opens \<lparr> su_route = a, su_index = i \<rparr>)"

definition handles_ok :: "route_manager \<Rightarrow> selected_upstream multiset \<Rightarrow> bool" where
  "handles_ok m opens \<longleftrightarrow>
     (\<forall>sel. sel \<in># opens \<longrightarrow>
        (\<exists>st. rm_heap m (su_route sel) = Some st \<and> su_index sel < length (rs_upstreams st)))"

definition caches_ok ::
  "(string \<Rightarrow> string option) \<Rightarrow> (string \<Rightarrow> string \<Rightarrow> bool) \<Rightarrow> route_manager \<Rightarrow> bool" where
  "caches_ok b64 argon2 m \<longleftrightarrow>
     (\<forall>a st. rm_heap m a = Some st \<longrightarrow>
        finite (rs_auth_cache st) \<and> card (rs_auth_cache st) \<le> MAX_AUTH_CACHE_ENTRIES \<and>
        (\<forall>h \<in> rs_auth_cache st. \<exists>expected. rs_basic_auth st = Some expected \<and>
           valid_credentials b64 argon2 expected h))"

definition pending_ok ::
  "(string \<Rightarrow> string option) \<Rightarrow> route_manager \<Rightarrow> pending_basic_auth \<Rightarrow> bool" where
  "pending_ok b64 m p \<longleftrightarrow>
     rm_heap m (pb_route p) \<noteq> None \<and>
     parse_basic_authorization b64 (pb_header p) = Some (pb_username p, pb_password p)"

definition traffic_inv ::
  "(string \<Rightarrow> string option) \<Rightarrow> (string \<Rightarrow> string \<Rightarrow> bool) \<Rightarrow> traffic \<Rightarrow> bool" where
  "traffic_inv b64 argon2 s \<longleftrightarrow>
     rm_ok (tr_rm s) \<and> size (tr_open s) < 2 ^ 64 \<and>
     counters_ok (tr_rm s) (tr_open s) \<and> handles_ok (tr_rm s) (tr_open s) \<and>
     caches_ok b64 argon2 (tr_rm s) \<and> (\<forall>p \<in> tr_pending s. pending_ok b64 (tr_rm s) p)"

section \<open>The invariant of the traffic\<close>

lemmas traffic_inv_defs = traffic_inv_def counters_ok_def handles_ok_def caches_ok_def pending_ok_def

lemma heap_upd_ok: "rm_ok m \<Longrightarrow> rm_heap m a = Some st \<Longrightarrow> rm_ok (m\<lparr> rm_heap := (rm_heap m)(a \<mapsto> st') \<rparr>)"
  by (auto simp: rm_ok_def)

text \<open>
  An update of one shared state that keeps its basic auth, its cache and the number of its
  upstreams keeps everything but the counters of that state.
\<close>

lemma traffic_inv_upd:
  assumes inv: "traffic_inv b64 argon2 s" and a: "rm_heap (tr_rm s) a = Some st"
    and len: "length (rs_upstreams st') = length (rs_upstreams st)"
    and same: "rs_basic_auth st' = rs_basic_auth st" "rs_auth_cache st' = rs_auth_cache st"
    and sub: "\<And>sel. sel \<in># opens \<Longrightarrow> sel \<in># tr_open s \<or> su_route sel = a \<and> su_index sel < length (rs_upstreams st)"
    and sz: "size opens < 2 ^ 64"
    and cnt: "\<And>i. i < length (rs_upstreams st) \<Longrightarrow>
        unat (us_inflight (rs_upstreams st' ! i)) = count opens \<lparr> su_route = a, su_index = i \<rparr>"
    and other: "\<And>b i. b \<noteq> a \<Longrightarrow>
        count opens \<lparr> su_route = b, su_index = i \<rparr> = count (tr_open s) \<lparr> su_route = b, su_index = i \<rparr>"
  shows "traffic_inv b64 argon2
    (s\<lparr> tr_rm := (tr_rm s)\<lparr> rm_heap := (rm_heap (tr_rm s))(a \<mapsto> st') \<rparr>, tr_open := opens \<rparr>)"
proof -
  let ?m = "(tr_rm s)\<lparr> rm_heap := (rm_heap (tr_rm s))(a \<mapsto> st') \<rparr>"
  have inv': "rm_ok (tr_rm s)" "counters_ok (tr_rm s) (tr_open s)" "handles_ok (tr_rm s) (tr_open s)"
    "caches_ok b64 argon2 (tr_rm s)" "\<forall>p \<in> tr_pending s. pending_ok b64 (tr_rm s) p"
    using inv by (auto simp: traffic_inv_def)
  have "rm_ok ?m" by (rule heap_upd_ok [OF inv'(1) a])
  moreover have "counters_ok ?m opens"
    using inv'(2) cnt other len by (auto simp: counters_ok_def)
  moreover have "handles_ok ?m opens"
    unfolding handles_ok_def
  proof (intro allI impI)
    fix sel assume "sel \<in># opens"
    from sub [OF this] consider "sel \<in># tr_open s" | "su_route sel = a" "su_index sel < length (rs_upstreams st)"
      by blast
    then show "\<exists>st. rm_heap ?m (su_route sel) = Some st \<and> su_index sel < length (rs_upstreams st)"
    proof cases
      case 1
      with inv'(3) obtain t where "rm_heap (tr_rm s) (su_route sel) = Some t"
        "su_index sel < length (rs_upstreams t)"
        by (auto simp: handles_ok_def)
      with a len show ?thesis by (cases "su_route sel = a") auto
    qed (simp add: len)
  qed
  moreover have "caches_ok b64 argon2 ?m"
    using inv'(4) a same by (auto simp: caches_ok_def)
  moreover have "\<forall>p \<in> tr_pending s. pending_ok b64 ?m p"
    using inv'(5) by (auto simp: pending_ok_def)
  ultimately show ?thesis
    using sz by (simp add: traffic_inv_def)
qed

lemma unat_bump: "unat (x :: usize) + 1 < 2 ^ 64 \<Longrightarrow> unat (x + 1) = unat x + 1"
  by (simp add: unat_word_ariths)

lemma unat_drop: "(x :: usize) \<noteq> 0 \<Longrightarrow> unat (x - 1) = unat x - 1"
  by (simp add: unat_minus_one)

lemma inv_select:
  assumes inv: "traffic_inv b64 argon2 s"
    and sel: "select_upstream (tr_rm s) d = (m', Some sel)" and room: "size (tr_open s) + 1 < 2 ^ 64"
  shows "traffic_inv b64 argon2 (s\<lparr> tr_rm := m', tr_open := add_mset sel (tr_open s) \<rparr>)"
proof -
  from sel obtain a st c where a: "lookup_state (tr_rm s) d = Some (a, st)" "su_route sel = a"
    and i: "su_index sel < length (rs_upstreams st)"
    and m': "m' = (tr_rm s)\<lparr> rm_heap := (rm_heap (tr_rm s))
               (a \<mapsto> bump_inflight (st\<lparr> rs_rr_cursor := c \<rparr>) (su_index sel)) \<rparr>"
    by (elim select_upstream_SomeE)
  have heap: "rm_heap (tr_rm s) a = Some st" using a(1) by (simp add: lookup_state_eq)
  have cnt: "unat (us_inflight (rs_upstreams st ! j)) = count (tr_open s) \<lparr> su_route = a, su_index = j \<rparr>"
    if "j < length (rs_upstreams st)" for j
    using inv heap that by (auto simp: traffic_inv_def counters_ok_def)
  have le: "count (tr_open s) x \<le> size (tr_open s)" for x
    by (rule count_le_size)
  have sel_eq: "sel = \<lparr> su_route = a, su_index = j \<rparr> \<longleftrightarrow> su_index sel = j" for j
    using a(2) by (cases sel) auto
  show ?thesis
    unfolding m'
  proof (rule traffic_inv_upd [OF inv heap])
    fix j assume j: "j < length (rs_upstreams st)"
    then have "unat (us_inflight (rs_upstreams st ! j)) + 1 < 2 ^ 64"
      using cnt [OF j] le [of "\<lparr> su_route = a, su_index = j \<rparr>"] room by linarith
    then show "unat (us_inflight (rs_upstreams (bump_inflight (st\<lparr> rs_rr_cursor := c \<rparr>) (su_index sel)) ! j)) =
        count (add_mset sel (tr_open s)) \<lparr> su_route = a, su_index = j \<rparr>"
      using j cnt [OF j] sel_eq [of j] unat_bump
      by (cases "su_index sel = j") (auto simp: bump_inflight_def)
  next
    show "\<And>b j. b \<noteq> a \<Longrightarrow> count (add_mset sel (tr_open s)) \<lparr> su_route = b, su_index = j \<rparr> =
        count (tr_open s) \<lparr> su_route = b, su_index = j \<rparr>"
      using a(2) by auto
  qed (use i a(2) room in \<open>auto simp: bump_inflight_def\<close>)
qed

lemma inv_complete:
  assumes inv: "traffic_inv b64 argon2 s" and sel: "sel \<in># tr_open s"
  shows "traffic_inv b64 argon2 (s\<lparr> tr_rm := complete (tr_rm s) sel, tr_open := tr_open s - {#sel#} \<rparr>)"
proof -
  obtain st where heap: "rm_heap (tr_rm s) (su_route sel) = Some st"
    and i: "su_index sel < length (rs_upstreams st)"
    using inv sel by (auto simp: traffic_inv_def handles_ok_def)
  let ?a = "su_route sel"
  have cnt: "unat (us_inflight (rs_upstreams st ! j)) = count (tr_open s) \<lparr> su_route = ?a, su_index = j \<rparr>"
    if "j < length (rs_upstreams st)" for j
    using inv heap that by (auto simp: traffic_inv_def counters_ok_def)
  have self: "\<lparr> su_route = ?a, su_index = su_index sel \<rparr> = sel" by simp
  have "0 < count (tr_open s) sel" using sel by simp
  then have pos: "us_inflight (rs_upstreams st ! su_index sel) \<noteq> 0"
    using cnt [OF i] unfolding self by (metis less_numeral_extra(3) unat_0)
  have sel_eq: "sel = \<lparr> su_route = ?a, su_index = j \<rparr> \<longleftrightarrow> su_index sel = j" for j
    by (cases sel) auto
  have m': "complete (tr_rm s) sel =
      (tr_rm s)\<lparr> rm_heap := (rm_heap (tr_rm s))(?a \<mapsto> drop_inflight st (su_index sel)) \<rparr>"
    by (simp add: complete_def heap)
  show ?thesis
    unfolding m'
  proof (rule traffic_inv_upd [OF inv heap])
    fix j assume j: "j < length (rs_upstreams st)"
    show "unat (us_inflight (rs_upstreams (drop_inflight st (su_index sel)) ! j)) =
        count (tr_open s - {#sel#}) \<lparr> su_route = ?a, su_index = j \<rparr>"
      using j cnt [OF j] sel_eq [of j] pos unat_drop
      by (cases "su_index sel = j") (auto simp: drop_inflight_def Let_def)
  next
    show "\<And>b j. b \<noteq> ?a \<Longrightarrow> count (tr_open s - {#sel#}) \<lparr> su_route = b, su_index = j \<rparr> =
        count (tr_open s) \<lparr> su_route = b, su_index = j \<rparr>"
      by auto
  next
    show "size (tr_open s - {#sel#}) < 2 ^ 64"
      using inv sel by (auto simp: traffic_inv_def size_Diff_singleton)
  qed (use i in \<open>auto simp: drop_inflight_def Let_def dest: in_diffD\<close>)
qed

lemma inv_add:
  assumes inv: "traffic_inv b64 argon2 s"
  shows "traffic_inv b64 argon2 (s\<lparr> tr_rm := add_route (tr_rm s) r \<rparr>)"
proof -
  let ?m = "tr_rm s"
  have ok: "rm_ok ?m" using inv by (simp add: traffic_inv_def)
  have fresh: "rm_heap ?m (rm_next ?m) = None" by (rule rm_ok_fresh [OF ok])
  have none: "count (tr_open s) \<lparr> su_route = rm_next ?m, su_index = i \<rparr> = 0" for i
    using inv fresh by (force simp: traffic_inv_def handles_ok_def simp flip: not_in_iff)
  have heap: "rm_heap (add_route ?m r) = (rm_heap ?m)(rm_next ?m \<mapsto> new_route_state r)"
    by (simp add: add_route_def)
  have "counters_ok (add_route ?m r) (tr_open s)"
    using inv none by (auto simp: heap traffic_inv_def counters_ok_def new_route_state_def)
  moreover have "handles_ok (add_route ?m r) (tr_open s)"
    using inv fresh by (fastforce simp: heap traffic_inv_def handles_ok_def)
  moreover have "caches_ok b64 argon2 (add_route ?m r)"
    using inv by (auto simp: heap traffic_inv_def caches_ok_def new_route_state_def)
  moreover have "\<forall>p \<in> tr_pending s. pending_ok b64 (add_route ?m r) p"
    using inv by (auto simp: heap traffic_inv_def pending_ok_def)
  ultimately show ?thesis
    using inv rm_ok_add [OF ok] by (simp add: traffic_inv_def)
qed

lemma inv_remove:
  "traffic_inv b64 argon2 s \<Longrightarrow> traffic_inv b64 argon2 (s\<lparr> tr_rm := remove_route (tr_rm s) d \<rparr>)"
  using rm_ok_remove [of "tr_rm s" d]
  by (simp add: traffic_inv_defs) (simp add: remove_route_def)

lemma check_basic_auth_VerifyD:
  assumes "check_basic_auth b64 m d h = Verify p"
  shows "pending_ok b64 m p" and "\<exists>st. lookup_state m d = Some (pb_route p, st)"
  using assms
  by (auto simp: check_basic_auth_def pending_ok_def lookup_state_eq
      split: option.splits if_splits prod.splits)

lemma inv_verify:
  assumes inv: "traffic_inv b64 argon2 s" and p: "pending_ok b64 (tr_rm s) p"
    and v: "verify_pending argon2 (tr_rm s) p = (m', ok)"
  shows "traffic_inv b64 argon2 (s\<lparr> tr_rm := m' \<rparr>)"
proof (cases "m' = tr_rm s")
  case True
  then show ?thesis using inv by simp
next
  case False
  let ?a = "pb_route p"
  obtain st expected where heap: "rm_heap (tr_rm s) ?a = Some st"
    and auth: "rs_basic_auth st = Some expected"
    and good: "verify_basic_credentials argon2 (pb_username p) (pb_password p) expected"
    using v False by (auto simp: verify_pending_def split: option.splits if_splits)
  define c where "c = (if card (rs_auth_cache st) \<ge> MAX_AUTH_CACHE_ENTRIES then {} else rs_auth_cache st)"
  have c: "c \<subseteq> rs_auth_cache st" "card c < MAX_AUTH_CACHE_ENTRIES"
    by (auto simp: c_def MAX_AUTH_CACHE_ENTRIES_def)
  have m': "m' = (tr_rm s)\<lparr> rm_heap := (rm_heap (tr_rm s))(?a \<mapsto> st\<lparr> rs_auth_cache := insert (pb_header p) c \<rparr>) \<rparr>"
    using v heap auth good by (simp add: verify_pending_def c_def Let_def)
  have inv': "rm_ok (tr_rm s)" "counters_ok (tr_rm s) (tr_open s)" "handles_ok (tr_rm s) (tr_open s)"
    "caches_ok b64 argon2 (tr_rm s)" "\<forall>p \<in> tr_pending s. pending_ok b64 (tr_rm s) p"
    "size (tr_open s) < 2 ^ 64"
    using inv by (auto simp: traffic_inv_def)
  have "valid_credentials b64 argon2 expected (pb_header p)"
    using p good by (auto simp: pending_ok_def valid_credentials_def)
  moreover have fin: "finite c"
    using c(1) inv'(4) heap by (meson caches_ok_def finite_subset)
  moreover have "card (insert (pb_header p) c) \<le> MAX_AUTH_CACHE_ENTRIES"
    using c(2) fin by (simp add: card_insert_if)
  moreover have "valid_credentials b64 argon2 expected h" if "h \<in> c" for h
    using that c(1) inv'(4) heap auth by (fastforce simp: caches_ok_def)
  ultimately have "caches_ok b64 argon2 m'"
    using inv'(4) auth by (auto simp: m' caches_ok_def)
  moreover have "counters_ok m' (tr_open s)"
    using inv'(2) heap by (auto simp: m' counters_ok_def)
  moreover have "handles_ok m' (tr_open s)"
    using inv'(3) heap by (fastforce simp: m' handles_ok_def)
  moreover have "rm_ok m'" unfolding m' by (rule heap_upd_ok [OF inv'(1) heap])
  moreover have "\<forall>p \<in> tr_pending s. pending_ok b64 m' p"
    using inv'(5) by (auto simp: m' pending_ok_def)
  ultimately show ?thesis
    using inv'(6) by (simp add: traffic_inv_def)
qed

lemma traffic_step_inv:
  assumes "traffic_step b64 argon2 s t" and inv: "traffic_inv b64 argon2 s"
  shows "traffic_inv b64 argon2 t"
  using assms(1)
proof cases
  case (step_check d h p)
  then show ?thesis
    using inv check_basic_auth_VerifyD(1) by (auto simp: traffic_inv_def)
next
  case (step_verify p m' ok)
  then have "traffic_inv b64 argon2 (s\<lparr> tr_rm := m' \<rparr>)"
    using inv by (intro inv_verify) (auto simp: traffic_inv_def)
  with step_verify show ?thesis by (auto simp: traffic_inv_def)
qed (use inv inv_add inv_remove inv_select inv_complete in auto)

lemma traffic_reachable_inv: "traffic_reachable b64 argon2 s \<Longrightarrow> traffic_inv b64 argon2 s"
proof (induction rule: traffic_reachable.induct)
  case reach_init
  show ?case
    by (simp add: traffic_inv_defs traffic_init_def rm_ok_new) (simp add: route_manager_new_def)
next
  case (reach_step s t)
  then show ?case by (blast intro: traffic_step_inv)
qed

section \<open>What the load balancer and the login promise\<close>

text \<open>
  C38. In every reachable state, whatever the order of requests, completions, route updates and
  logins, the counter of every upstream is exactly the number of requests forwarded to it and
  not finished: no request is lost, counted twice, or charged to the upstream of a route that
  replaced the one it was sent to.
\<close>

theorem inflight_counts_open_requests:
  assumes "traffic_reachable b64 argon2 s"
    and "rm_heap (tr_rm s) a = Some st" and "i < length (rs_upstreams st)"
  shows "unat (us_inflight (rs_upstreams st ! i)) = count (tr_open s) \<lparr> su_route = a, su_index = i \<rparr>"
  using traffic_reachable_inv [OF assms(1)] assms(2,3) by (simp add: traffic_inv_def counters_ok_def)

definition demo_route :: route where
  "demo_route =
     \<lparr> rt_domain = ''App.example.com.'', rt_app_id = None, rt_service_id = None,
       rt_upstreams = [\<lparr> up_host = ''a'', up_port = 80 \<rparr>, \<lparr> up_host = ''b'', up_port = 81 \<rparr>],
       rt_ssl_enabled = False, rt_algorithm = LeastConnections,
       rt_basic_auth = Some \<lparr> bau_username = ''admin'', bau_password_hash = ''h'' \<rparr>,
       rt_login_gate = None \<rparr>"

lemma demo_norm:
  "route_normalize_domain ''App.example.com.'' = ''app.example.com''"
  "route_normalize_domain ''app.example.com'' = ''app.example.com''"
  by code_simp+

lemma demo_reachable:
  "traffic_reachable b64 argon2 (traffic_init\<lparr> tr_rm := add_route route_manager_new demo_route \<rparr>)"
  using traffic_reachable.reach_step [OF traffic_reachable.reach_init traffic_step.step_add, of b64 argon2 demo_route]
  by (simp add: traffic_init_def)

theorem inflight_counts_open_requests_witness:
  "\<exists>s. traffic_reachable (\<lambda>_. None) (\<lambda>_ _. False) s \<and>
     count (tr_open s) \<lparr> su_route = 0, su_index = 0 \<rparr> = 1 \<and>
     (\<forall>st. rm_heap (tr_rm s) 0 = Some st \<longrightarrow> unat (us_inflight (rs_upstreams st ! 0)) = 1)"
proof -
  let ?m = "add_route route_manager_new demo_route"
  let ?s = "traffic_init\<lparr> tr_rm := ?m \<rparr>"
  let ?sel = "\<lparr> su_route = 0, su_index = 0 \<rparr>"
  obtain m' where m': "select_upstream ?m ''app.example.com'' = (m', Some ?sel)"
    and heap: "\<And>st. rm_heap m' 0 = Some st \<Longrightarrow> 0 < length (rs_upstreams st)"
    by (simp add: select_upstream_def lookup_state_def add_route_def route_manager_new_def
        new_route_state_def demo_route_def demo_norm least_connections_def bump_inflight_def)
  let ?t = "?s\<lparr> tr_rm := m', tr_open := add_mset ?sel (tr_open ?s) \<rparr>"
  have step: "traffic_step (\<lambda>_. None) (\<lambda>_ _. False) ?s ?t"
    using m' by (intro step_select) (simp_all add: traffic_init_def)
  have reach: "traffic_reachable (\<lambda>_. None) (\<lambda>_ _. False) ?t"
    by (rule reach_step [OF demo_reachable step])
  have cnt: "count (tr_open ?t) ?sel = 1"
    by (simp add: traffic_init_def)
  have "\<forall>st. rm_heap (tr_rm ?t) 0 = Some st \<longrightarrow> unat (us_inflight (rs_upstreams st ! 0)) = 1"
    using inflight_counts_open_requests [OF reach, of 0 _ 0] heap cnt by simp
  with reach cnt show ?thesis by blast
qed

text \<open>
  A least-connections route forwards the next request to an upstream with the fewest
  unfinished requests.
\<close>

theorem least_connections_picks_least_loaded:
  assumes "traffic_reachable b64 argon2 s"
    and "lookup_state (tr_rm s) d = Some (a, st)" and "rs_algorithm st = LeastConnections"
    and "select_upstream (tr_rm s) d = (m', Some sel)" and "j < length (rs_upstreams st)"
  shows "su_route sel = a \<and> su_index sel < length (rs_upstreams st) \<and>
    count (tr_open s) sel \<le> count (tr_open s) \<lparr> su_route = a, su_index = j \<rparr>"
proof -
  have heap: "rm_heap (tr_rm s) a = Some st" using assms(2) by (simp add: lookup_state_eq)
  have sel: "su_route sel = a" "su_index sel = least_connections (rs_upstreams st)"
    "su_index sel < length (rs_upstreams st)"
    using assms(2,3,4) by (auto elim!: select_upstream_SomeE)
  have cnt: "unat (us_inflight (rs_upstreams st ! i)) = count (tr_open s) \<lparr> su_route = a, su_index = i \<rparr>"
    if "i < length (rs_upstreams st)" for i
    using traffic_reachable_inv [OF assms(1)] heap that by (simp add: traffic_inv_def counters_ok_def)
  have "us_inflight (rs_upstreams st ! su_index sel) \<le> us_inflight (rs_upstreams st ! j)"
    using least_connections_min(2) [of "rs_upstreams st" j] assms(5) sel(2) by fastforce
  then have "count (tr_open s) \<lparr> su_route = a, su_index = su_index sel \<rparr> \<le>
      count (tr_open s) \<lparr> su_route = a, su_index = j \<rparr>"
    using cnt [OF sel(3)] cnt [OF assms(5)] by (simp add: word_le_nat_alt)
  moreover have "\<lparr> su_route = a, su_index = su_index sel \<rparr> = sel" using sel(1) by (cases sel) simp
  ultimately show ?thesis using sel(1,3) by simp
qed

theorem least_connections_picks_least_loaded_witness:
  "\<exists>m' sel. select_upstream (add_route route_manager_new demo_route) ''app.example.com'' = (m', Some sel) \<and>
     su_route sel = 0 \<and> su_index sel < 2"
proof -
  let ?m = "add_route route_manager_new demo_route"
  obtain m' sel where sel: "select_upstream ?m ''app.example.com'' = (m', Some sel)"
    by (simp add: select_upstream_def lookup_state_def add_route_def route_manager_new_def
        new_route_state_def demo_route_def demo_norm)
  have l: "lookup_state ?m ''app.example.com'' = Some (0, new_route_state demo_route)"
    by (simp add: lookup_state_eq add_route_def route_manager_new_def demo_route_def demo_norm)
  show ?thesis
    using least_connections_picks_least_loaded [OF demo_reachable, of "''app.example.com''" 0
        "new_route_state demo_route" m' sel 0] l sel
    by (auto simp: traffic_init_def new_route_state_def demo_route_def)
qed

text \<open>Selecting \<open>k\<close> times in a row; the indices that were picked.\<close>

fun select_many :: "nat \<Rightarrow> route_manager \<Rightarrow> string \<Rightarrow> nat list" where
  "select_many 0 m d = []"
| "select_many (Suc k) m d =
     (case select_upstream m d of
        (m', None) \<Rightarrow> []
      | (m', Some sel) \<Rightarrow> su_index sel # select_many k m' d)"

lemma select_many_round_robin:
  assumes "lookup_state m d = Some (a, st)" and "rs_algorithm st = RoundRobin"
    and "rs_upstreams st \<noteq> []" and "unat (rs_rr_cursor st) + k \<le> 2 ^ 64"
  shows "select_many k m d =
    map (\<lambda>j. (unat (rs_rr_cursor st) + j) mod length (rs_upstreams st)) [0..<k]"
  using assms
proof (induction k arbitrary: m st)
  case 0
  then show ?case by simp
next
  case (Suc k)
  let ?c = "rs_rr_cursor st" and ?n = "length (rs_upstreams st)"
  let ?st = "bump_inflight (st\<lparr> rs_rr_cursor := ?c + 1 \<rparr>) (unat ?c mod ?n)"
  let ?m = "m\<lparr> rm_heap := (rm_heap m)(a \<mapsto> ?st) \<rparr>"
  have sel: "select_upstream m d = (?m, Some \<lparr> su_route = a, su_index = unat ?c mod ?n \<rparr>)"
    using Suc.prems by (simp add: select_upstream_def Let_def)
  have st: "lookup_state ?m d = Some (a, ?st)" "rs_algorithm ?st = RoundRobin" "rs_upstreams ?st \<noteq> []"
    "length (rs_upstreams ?st) = ?n" "rs_rr_cursor ?st = ?c + 1"
    using Suc.prems by (auto simp: lookup_state_eq bump_inflight_def)
  show ?case
  proof (cases k)
    case 0
    with sel show ?thesis by simp
  next
    case (Suc k')
    then have c: "unat (?c + 1) = unat ?c + 1"
      using Suc.prems by (intro unat_bump) simp
    have "select_many k ?m d = map (\<lambda>j. (unat ?c + 1 + j) mod ?n) [0..<k]"
      using Suc.IH [OF st(1-3)] Suc.prems st(4,5) c by simp
    then show ?thesis
      using sel by (simp add: upt_conv_Cons map_Suc_upt [symmetric] del: upt_Suc)
  qed
qed

lemma shift_mod_inj:
  assumes "((c::nat) + x) mod n = (c + y) mod n" and "x < n" and "y < n"
  shows "x = y"
  using assms
proof (induction x y rule: linorder_wlog)
  case (le x y)
  then have "n dvd (c + y) - (c + x)"
    by (metis add_le_cancel_left mod_eq_dvd_iff_nat)
  with le show ?case by (simp add: nat_dvd_not_less) (metis diff_le_self le_neq_implies_less
      less_imp_diff_less nat_dvd_not_less zero_less_diff)
next
  case (sym x y)
  then show ?case by simp
qed

text \<open>
  Round robin is fair: as many selections in a row as the route has upstreams hit every
  upstream exactly once, until the 64-bit cursor wraps.
\<close>

theorem round_robin_fair:
  assumes "lookup_state m d = Some (a, st)" and "rs_algorithm st = RoundRobin"
    and "rs_upstreams st \<noteq> []" and "unat (rs_rr_cursor st) + length (rs_upstreams st) \<le> 2 ^ 64"
  shows "distinct (select_many (length (rs_upstreams st)) m d) \<and>
    set (select_many (length (rs_upstreams st)) m d) = {0..<length (rs_upstreams st)}"
proof -
  let ?n = "length (rs_upstreams st)" and ?c = "unat (rs_rr_cursor st)"
  let ?f = "\<lambda>j. (?c + j) mod ?n"
  have eq: "select_many ?n m d = map ?f [0..<?n]"
    by (rule select_many_round_robin [OF assms])
  have inj: "inj_on ?f {0..<?n}"
    by (rule inj_onI) (auto dest: shift_mod_inj)
  moreover have "?f ` {0..<?n} = {0..<?n}"
    using assms(3) by (intro endo_inj_surj [OF _ _ inj]) auto
  ultimately show ?thesis
    unfolding eq by (simp add: distinct_map)
qed

theorem round_robin_fair_witness:
  "set (select_many 2 (add_route route_manager_new (demo_route\<lparr> rt_algorithm := RoundRobin \<rparr>))
        ''app.example.com'') = {0..<2}"
proof -
  let ?r = "demo_route\<lparr> rt_algorithm := RoundRobin \<rparr>"
  have l: "lookup_state (add_route route_manager_new ?r) ''app.example.com'' = Some (0, new_route_state ?r)"
    by (simp add: lookup_state_eq add_route_def route_manager_new_def demo_route_def demo_norm)
  have n: "length (rs_upstreams (new_route_state ?r)) = 2" "rs_algorithm (new_route_state ?r) = RoundRobin"
    "rs_upstreams (new_route_state ?r) \<noteq> []" "rs_rr_cursor (new_route_state ?r) = 0"
    by (simp_all add: new_route_state_def demo_route_def)
  show ?thesis
    using round_robin_fair [OF l n(2,3)] unfolding n(1,4) by simp
qed

text \<open>
  The login without its cache: what basic auth means for a request to \<open>host\<close>.
\<close>

definition basic_auth_spec ::
  "(string \<Rightarrow> string option) \<Rightarrow> (string \<Rightarrow> string \<Rightarrow> bool) \<Rightarrow> route option \<Rightarrow> string option \<Rightarrow> bool" where
  "basic_auth_spec b64 argon2 r authorization =
     (case r of
        None \<Rightarrow> True
      | Some r \<Rightarrow>
          (case rt_basic_auth r of
             None \<Rightarrow> True
           | Some expected \<Rightarrow>
               (case authorization of
                  None \<Rightarrow> False
                | Some header \<Rightarrow>
                    (case parse_basic_authorization b64 header of
                       None \<Rightarrow> False
                     | Some (u, p) \<Rightarrow> verify_basic_credentials argon2 u p expected))))"

lemma parse_basic_authorization_trim [simp]:
  "parse_basic_authorization b64 (trim h) = parse_basic_authorization b64 h"
  by (simp add: parse_basic_authorization_def)

lemma valid_credentials_spec:
  "valid_credentials b64 argon2 expected h \<longleftrightarrow>
     (case parse_basic_authorization b64 h of
        None \<Rightarrow> False | Some (u, p) \<Rightarrow> verify_basic_credentials argon2 u p expected)"
  by (auto simp: valid_credentials_def split: option.splits)

lemma verify_pending_result:
  assumes "rm_heap m (pb_route p) = Some st" and "rs_basic_auth st = Some expected"
  shows "snd (verify_pending argon2 m p) =
    verify_basic_credentials argon2 (pb_username p) (pb_password p) expected"
  using assms by (simp add: verify_pending_def Let_def)

lemma basic_auth_allowed_inv:
  assumes inv: "traffic_inv b64 argon2 s"
  shows "snd (basic_auth_allowed b64 argon2 (tr_rm s) host authorization) =
    basic_auth_spec b64 argon2 (get_route (tr_rm s) host) authorization"
proof (cases "lookup_state (tr_rm s) host")
  case None
  then show ?thesis
    by (simp add: basic_auth_allowed_def check_basic_auth_def basic_auth_spec_def get_route_def)
next
  case (Some as)
  then obtain a st where l: "lookup_state (tr_rm s) host = Some (a, st)" by (cases as) auto
  have heap: "rm_heap (tr_rm s) a = Some st" using l by (simp add: lookup_state_eq)
  have g: "get_route (tr_rm s) host = Some (to_route st)" and ba: "rt_basic_auth (to_route st) = rs_basic_auth st"
    using l by (simp_all add: get_route_def to_route_def)
  have cached: "\<exists>expected. rs_basic_auth st = Some expected \<and> valid_credentials b64 argon2 expected h"
    if "h \<in> rs_auth_cache st" for h
    using inv heap that by (auto simp: traffic_inv_def caches_ok_def)
  show ?thesis
  proof (cases "rs_basic_auth st = None \<or> authorization = None")
    case True
    then show ?thesis
      using l g ba by (auto simp: basic_auth_allowed_def check_basic_auth_def basic_auth_spec_def
          split: option.splits)
  next
    case False
    then obtain expected h where e: "rs_basic_auth st = Some expected" and h: "authorization = Some h"
      by auto
    have spec: "basic_auth_spec b64 argon2 (get_route (tr_rm s) host) authorization =
        valid_credentials b64 argon2 expected (trim h)"
      using g ba e h by (simp add: basic_auth_spec_def valid_credentials_spec)
    show ?thesis
    proof (cases "trim h \<in> rs_auth_cache st")
      case True
      then have "valid_credentials b64 argon2 expected (trim h)"
        using cached e by fastforce
      with True show ?thesis
        using l e h spec by (simp add: basic_auth_allowed_def check_basic_auth_def)
    next
      case False
      then show ?thesis
        using l e h spec heap
        by (auto simp: basic_auth_allowed_def check_basic_auth_def valid_credentials_spec
            verify_pending_result split: option.splits)
    qed
  qed
qed

text \<open>
  C37. The cache of verified headers is invisible: in every reachable state the cached login
  check lets a request pass exactly when the uncached specification does, that is, when the
  host has no route, its route has no basic auth, or the header carries the user name and a
  password that verifies against the hash stored for that route.
\<close>

theorem basic_auth_cache_correct:
  assumes "traffic_reachable b64 argon2 s"
  shows "snd (basic_auth_allowed b64 argon2 (tr_rm s) host authorization) =
    basic_auth_spec b64 argon2 (get_route (tr_rm s) host) authorization"
  by (rule basic_auth_allowed_inv [OF traffic_reachable_inv [OF assms]])

theorem basic_auth_cache_correct_witness:
  "\<not> snd (basic_auth_allowed (\<lambda>_. Some ''admin:wrong'') (\<lambda>pw h. pw = ''s3cret'' \<and> h = ''h'')
       (add_route route_manager_new demo_route) ''app.example.com'' (Some ''Basic x''))"
proof -
  have g: "get_route (add_route route_manager_new demo_route) ''app.example.com'' = Some (stored_route demo_route)"
    by (simp add: get_route_add rm_ok_new demo_route_def demo_norm)
  have p: "parse_basic_authorization (\<lambda>_. Some ''admin:wrong'') ''Basic x'' = Some (''admin'', ''wrong'')"
    by code_simp
  show ?thesis
    using basic_auth_cache_correct [OF demo_reachable,
        of "\<lambda>_. Some ''admin:wrong''" "\<lambda>pw h. pw = ''s3cret'' \<and> h = ''h''" "''app.example.com''" "Some ''Basic x''"] g p
    by (simp add: basic_auth_spec_def stored_route_def demo_route_def traffic_init_def
        verify_basic_credentials_def)
qed

text \<open>
  The cache of a route never holds more than 64 headers, is empty after the route is
  refreshed, and a header is only ever in it if it carries valid credentials for that route.
\<close>

theorem auth_cache_bounded_and_valid:
  assumes "traffic_reachable b64 argon2 s" and "rm_heap (tr_rm s) a = Some st"
  shows "finite (rs_auth_cache st) \<and> card (rs_auth_cache st) \<le> 64 \<and>
    (h \<in> rs_auth_cache st \<longrightarrow>
       (\<exists>expected. rs_basic_auth st = Some expected \<and> valid_credentials b64 argon2 expected h)) \<and>
    (\<exists>st'. lookup_state (add_route (tr_rm s) r) (rt_domain r) = Some (rm_next (tr_rm s), st') \<and>
       rs_auth_cache st' = {})"
proof -
  have "caches_ok b64 argon2 (tr_rm s)"
    using traffic_reachable_inv [OF assms(1)] by (simp add: traffic_inv_def)
  with assms(2) have "finite (rs_auth_cache st) \<and> card (rs_auth_cache st) \<le> 64 \<and>
      (h \<in> rs_auth_cache st \<longrightarrow>
        (\<exists>expected. rs_basic_auth st = Some expected \<and> valid_credentials b64 argon2 expected h))"
    by (auto simp: caches_ok_def MAX_AUTH_CACHE_ENTRIES_def)
  then show ?thesis
    by (simp add: lookup_state_eq add_route_def new_route_state_def)
qed

theorem auth_cache_bounded_and_valid_witness:
  "card (rs_auth_cache (new_route_state demo_route)) \<le> 64"
  using auth_cache_bounded_and_valid [OF demo_reachable, of 0 "new_route_state demo_route"]
  by (simp add: add_route_def route_manager_new_def)

lemma get_route_upd_heap:
  assumes "rm_heap m a = Some st" and "to_route st' = to_route st"
  shows "get_route (m\<lparr> rm_heap := (rm_heap m)(a \<mapsto> st') \<rparr>) d = get_route m d"
  using assms by (auto simp: get_route_def lookup_state_def split: option.splits)

lemma get_route_complete: "get_route (complete m sel) d = get_route m d"
  by (auto simp: complete_def get_route_upd_heap split: option.splits)

lemma get_route_verify: "get_route (fst (verify_pending argon2 m p)) d = get_route m d"
  by (auto simp: verify_pending_def Let_def get_route_upd_heap split: option.splits)

lemma get_route_select: "get_route (fst (select_upstream m x)) d = get_route m d"
proof (cases "snd (select_upstream m x)")
  case None
  then show ?thesis by (metis prod.collapse select_upstream_None)
next
  case (Some sel)
  then have "select_upstream m x = (fst (select_upstream m x), Some sel)" by (metis prod.collapse)
  then show ?thesis
    by (elim select_upstream_SomeE) (auto simp: lookup_state_eq get_route_upd_heap)
qed

text \<open>
  Traffic does not change the routing table: selecting an upstream, finishing a request and
  verifying a login leave every lookup as it was.
\<close>

theorem traffic_keeps_routes:
  "get_route (fst (select_upstream m x)) d = get_route m d \<and>
   get_route (complete m sel) d = get_route m d \<and>
   get_route (fst (basic_auth_allowed b64 argon2 m host authorization)) d = get_route m d"
  by (auto simp: get_route_select get_route_complete get_route_verify basic_auth_allowed_def
      split: basic_auth_check.splits)

end
