(* ===== verification/Access_Gate.thy ===== *)
theory Access_Gate
  imports Models
begin

text \<open>
  The tokens of the login gate, \<open>crates/containr-common/src/access_gate.rs\<close>, and the dashboard
  handler that issues a pass, \<open>crates/containr-api/src/handlers/gate.rs\<close>.

  Signing and checking belong to the \<open>jsonwebtoken\<close> crate: they are the fields of \<open>jwt_api\<close>.
  \<open>jwt_roundtrip\<close> states what the code relies on: a signed token decodes under the same secret
  to the claims it was made from as long as its expiry, plus the leeway, has not passed.
  \<open>jwt_secret_bound\<close> states that it does not decode under another secret.
\<close>

section \<open>Tokens\<close>

definition GATE_COOKIE :: string where
  "GATE_COOKIE = ''containr_gate''"

definition GATE_CALLBACK_PATH :: string where
  "GATE_CALLBACK_PATH = ''/__containr/gate''"

definition PASS_TTL_SECONDS :: int where
  "PASS_TTL_SECONDS = 60"

definition SESSION_TTL_SECONDS :: int where
  "SESSION_TTL_SECONDS = 12 * 60 * 60"

datatype gate_token_kind = Pass | Session

definition gate_token_kind_as_str :: "gate_token_kind \<Rightarrow> string" where
  "gate_token_kind_as_str k = (case k of Pass \<Rightarrow> ''gate_pass'' | Session \<Rightarrow> ''gate_session'')"

definition gate_token_ttl :: "gate_token_kind \<Rightarrow> int" where
  "gate_token_ttl k =
     (case k of Pass \<Rightarrow> seconds PASS_TTL_SECONDS | Session \<Rightarrow> seconds SESSION_TTL_SECONDS)"

record gate_claims =
  gc_sub :: uuid
  gc_host :: string
  gc_kind :: string
  gc_iat :: int
  gc_exp :: int

record jwt_api =
  jwt_encode :: "string \<Rightarrow> gate_claims \<Rightarrow> string option"
  jwt_decode :: "string \<Rightarrow> int \<Rightarrow> int \<Rightarrow> string \<Rightarrow> gate_claims option"

text \<open>\<open>DateTime::timestamp\<close>: whole seconds since the epoch.\<close>

definition timestamp_secs :: "timestamp \<Rightarrow> int" where
  "timestamp_secs t = t div 1000000000"

definition issue_gate_token ::
  "jwt_api \<Rightarrow> timestamp \<Rightarrow> string \<Rightarrow> uuid \<Rightarrow> string \<Rightarrow> gate_token_kind \<Rightarrow> string option" where
  "issue_gate_token jwt now secret user_id host kind =
     jwt_encode jwt secret
       \<lparr> gc_sub = user_id, gc_host = to_ascii_lowercase host, gc_kind = gate_token_kind_as_str kind,
         gc_iat = timestamp_secs now, gc_exp = timestamp_secs (now + gate_token_ttl kind) \<rparr>"

definition GATE_LEEWAY :: int where
  "GATE_LEEWAY = 5"

definition verify_gate_token ::
  "jwt_api \<Rightarrow> timestamp \<Rightarrow> string \<Rightarrow> string \<Rightarrow> string \<Rightarrow> gate_token_kind \<Rightarrow> uuid option" where
  "verify_gate_token jwt now secret token host kind =
     (case jwt_decode jwt secret GATE_LEEWAY (timestamp_secs now) token of
        None \<Rightarrow> None
      | Some claims \<Rightarrow>
          if gc_kind claims \<noteq> gate_token_kind_as_str kind
             \<or> \<not> eq_ignore_ascii_case (gc_host claims) host
          then None
          else Some (gc_sub claims))"

definition jwt_roundtrip :: "jwt_api \<Rightarrow> bool" where
  "jwt_roundtrip jwt \<longleftrightarrow>
     (\<forall>secret leeway now token claims.
        jwt_encode jwt secret claims = Some token \<longrightarrow>
        jwt_decode jwt secret leeway now token =
          (if now - leeway \<le> gc_exp claims then Some claims else None))"

definition jwt_secret_bound :: "jwt_api \<Rightarrow> bool" where
  "jwt_secret_bound jwt \<longleftrightarrow>
     (\<forall>secret secret' leeway now token claims.
        jwt_encode jwt secret claims = Some token \<longrightarrow> secret' \<noteq> secret \<longrightarrow>
        jwt_decode jwt secret' leeway now token = None)"

section \<open>The dashboard's side\<close>

text \<open>The part of \<open>ProxyConfig\<close> this handler reads.\<close>

record proxy_ports =
  pp_base_domain :: string
  pp_http_port :: u16
  pp_https_port :: u16

record gated_target =
  gt_owner_id :: uuid
  gt_scope :: login_gate_scope
  gt_origin :: string

definition gate_normalize_host :: "string \<Rightarrow> string" where
  "gate_normalize_host host = to_ascii_lowercase (trim_end_char CHR ''.'' (trim host))"

text \<open>The body of the inner loop: the target this service offers for \<open>host\<close>, if any.\<close>

definition service_gated_target ::
  "proxy_ports \<Rightarrow> string \<Rightarrow> project \<Rightarrow> container_service \<Rightarrow> gated_target option" where
  "service_gated_target proxy host app s =
     (case s_login_gate s of
        None \<Rightarrow> None
      | Some gate \<Rightarrow>
          if \<not> is_public_http s then None
          else
            let custom = find (\<lambda>d. gate_normalize_host d = host) (service_custom_domains s);
                https =
                  (case custom of
                     Some d \<Rightarrow> Some (domain_https_enabled s d)
                   | None \<Rightarrow>
                       if is_some_and (default_service_domain (s_id s) (pp_base_domain proxy))
                            (\<lambda>d. gate_normalize_host d = host)
                       then Some False else None)
            in (case https of
                  None \<Rightarrow> None
                | Some https \<Rightarrow>
                    let port =
                          (if https \<and> pp_https_port proxy = 443 \<or> \<not> https \<and> pp_http_port proxy = 80
                           then []
                           else '':'' @ show_word (if https then pp_https_port proxy
                                                   else pp_http_port proxy));
                        scheme = (if https then ''https'' else ''http'')
                    in Some \<lparr> gt_owner_id = p_owner_id app, gt_scope = lg_scope gate,
                              gt_origin = scheme @ ''://'' @ host @ port \<rparr>))"

fun first_some :: "('a \<Rightarrow> 'b option) \<Rightarrow> 'a list \<Rightarrow> 'b option" where
  "first_some f [] = None"
| "first_some f (x # xs) = (case f x of None \<Rightarrow> first_some f xs | Some y \<Rightarrow> Some y)"

definition find_gated_target ::
  "project list \<Rightarrow> proxy_ports \<Rightarrow> string \<Rightarrow> gated_target option" where
  "find_gated_target apps proxy host =
     first_some (\<lambda>app. first_some (service_gated_target proxy host app) (p_services app)) apps"

definition gate_safe_return_path :: "string option \<Rightarrow> string" where
  "gate_safe_return_path path =
     (case map_option trim path of
        Some path \<Rightarrow>
          if starts_with ''/'' path \<and> \<not> starts_with ''//'' path
             \<and> \<not> starts_with [CHR ''/'', CHR 0x5C] path
             \<and> str_len path \<le> 2048 \<and> \<not> list_ex is_control path
          then path else ''/''
      | None \<Rightarrow> ''/'')"

datatype gate_error = GateUnauthorized | GateNotFound | GateForbidden | GateInternal

text \<open>
  \<open>create_gate_pass\<close> after the caller's session was checked (\<open>user_id\<close>): the pass and the
  sanitised return path, from which the redirect url is put together by the \<open>url\<close> crate.
  \<open>get_user\<close> is the database lookup, \<open>Inl ()\<close> when it fails.
\<close>

definition create_gate_pass ::
  "jwt_api \<Rightarrow> timestamp \<Rightarrow> string \<Rightarrow> proxy_ports \<Rightarrow> project list \<Rightarrow> (uuid \<Rightarrow> unit + user option)
     \<Rightarrow> uuid \<Rightarrow> string \<Rightarrow> string option \<Rightarrow> gate_error + (string \<times> string \<times> string)" where
  "create_gate_pass jwt now secret proxy apps get_user user_id req_host return_to =
     (let host = gate_normalize_host req_host in
      and_then (ok_or (find_gated_target apps proxy host) GateNotFound) (\<lambda>target.
      and_then
        (case gt_scope target of
           OwnerScope \<Rightarrow> Inr (gt_owner_id target = user_id)
         | AllUsers \<Rightarrow>
             (case get_user user_id of Inl _ \<Rightarrow> Inl GateInternal | Inr u \<Rightarrow> Inr (u \<noteq> None))) (\<lambda>allowed.
      if \<not> allowed then Inl GateForbidden
      else
        and_then (ok_or (issue_gate_token jwt now secret user_id host Pass) GateInternal) (\<lambda>pass.
        Inr (gt_origin target @ GATE_CALLBACK_PATH, pass, gate_safe_return_path return_to)))))"

section \<open>What a token is good for\<close>

lemma gate_token_kind_as_str_inject [simp]:
  "gate_token_kind_as_str k = gate_token_kind_as_str k' \<longleftrightarrow> k = k'"
  by (cases k; cases k') (simp_all add: gate_token_kind_as_str_def)

lemma timestamp_secs_add_seconds: "timestamp_secs (t + seconds n) = timestamp_secs t + n"
  by (simp add: timestamp_secs_def seconds_def)

definition gate_ttl_secs :: "gate_token_kind \<Rightarrow> int" where
  "gate_ttl_secs k = (case k of Pass \<Rightarrow> 60 | Session \<Rightarrow> 43200)"

text \<open>
  A gate token is good for exactly one user, one host (up to ASCII case), one kind and one
  secret, until its lifetime plus five seconds of leeway is over: a pass for 60 seconds, a
  session for 12 hours. In particular a pass is not a session, and neither works on another
  domain.
\<close>

theorem gate_token_binding:
  assumes "jwt_roundtrip jwt" and "jwt_secret_bound jwt"
    and "issue_gate_token jwt t0 secret user host kind = Some token"
  shows "verify_gate_token jwt t secret' token host' kind' =
    (if secret' = secret \<and> kind' = kind \<and> eq_ignore_ascii_case host host' \<and>
        timestamp_secs t \<le> timestamp_secs t0 + gate_ttl_secs kind + 5
     then Some user else None)"
proof -
  let ?c = "\<lparr> gc_sub = user, gc_host = to_ascii_lowercase host, gc_kind = gate_token_kind_as_str kind,
      gc_iat = timestamp_secs t0, gc_exp = timestamp_secs t0 + gate_ttl_secs kind \<rparr>"
  have "timestamp_secs (t0 + gate_token_ttl kind) = timestamp_secs t0 + gate_ttl_secs kind"
    by (cases kind) (simp_all add: gate_token_ttl_def gate_ttl_secs_def timestamp_secs_add_seconds
        PASS_TTL_SECONDS_def SESSION_TTL_SECONDS_def)
  then have enc: "jwt_encode jwt secret ?c = Some token"
    using assms(3) by (simp add: issue_gate_token_def)
  have dec: "jwt_decode jwt secret GATE_LEEWAY (timestamp_secs t) token =
      (if timestamp_secs t - 5 \<le> gc_exp ?c then Some ?c else None)"
    using assms(1) enc by (simp add: jwt_roundtrip_def GATE_LEEWAY_def)
  have other: "jwt_decode jwt secret' GATE_LEEWAY (timestamp_secs t) token = None" if "secret' \<noteq> secret"
    using assms(2) enc that unfolding jwt_secret_bound_def by blast
  show ?thesis
    using dec other by (cases "secret' = secret") (auto simp: verify_gate_token_def)
qed

text \<open>
  A concrete signer, to show that the two laws can hold together: it signs one set of claims
  under one secret.
\<close>

definition demo_claims :: gate_claims where
  "demo_claims =
     \<lparr> gc_sub = 7, gc_host = ''adminer.example.com'', gc_kind = ''gate_pass'', gc_iat = 100, gc_exp = 160 \<rparr>"

definition demo_jwt :: jwt_api where
  "demo_jwt =
     \<lparr> jwt_encode = (\<lambda>secret claims.
         if secret = ''s3cret'' \<and> claims = demo_claims then Some ''token'' else None),
       jwt_decode = (\<lambda>secret leeway now token.
         if secret = ''s3cret'' \<and> token = ''token'' \<and> now - leeway \<le> gc_exp demo_claims
         then Some demo_claims else None) \<rparr>"

lemma demo_jwt_laws: "jwt_roundtrip demo_jwt" "jwt_secret_bound demo_jwt"
  by (auto simp: jwt_roundtrip_def jwt_secret_bound_def demo_jwt_def split: if_splits)

lemma demo_issue:
  "issue_gate_token demo_jwt (seconds 100) ''s3cret'' 7 ''Adminer.Example.com'' Pass = Some ''token''"
  by code_simp

theorem gate_token_binding_witness:
  "verify_gate_token demo_jwt (seconds 165) ''s3cret'' ''token'' ''adminer.EXAMPLE.com'' Pass = Some 7 \<and>
   verify_gate_token demo_jwt (seconds 165) ''s3cret'' ''token'' ''adminer.EXAMPLE.com'' Session = None \<and>
   verify_gate_token demo_jwt (seconds 166) ''s3cret'' ''token'' ''adminer.EXAMPLE.com'' Pass = None"
proof -
  have e: "eq_ignore_ascii_case ''Adminer.Example.com'' ''adminer.EXAMPLE.com''" by code_simp
  show ?thesis
    using e unfolding gate_token_binding [OF demo_jwt_laws demo_issue]
    by (simp add: gate_ttl_secs_def timestamp_secs_def seconds_def)
qed

section \<open>Who gets a pass\<close>

lemma first_some_SomeD: "first_some f xs = Some y \<Longrightarrow> \<exists>x \<in> set xs. f x = Some y"
  by (induction xs) (auto split: option.splits)

definition service_serves_host :: "proxy_ports \<Rightarrow> container_service \<Rightarrow> string \<Rightarrow> bool" where
  "service_serves_host proxy s host \<longleftrightarrow>
     (\<exists>d. gate_normalize_host d = host \<and>
        (d \<in> set (service_custom_domains s) \<or>
         default_service_domain (s_id s) (pp_base_domain proxy) = Some d))"

lemma service_gated_targetD:
  assumes "service_gated_target proxy host app s = Some t"
  shows "\<exists>gate. s_login_gate s = Some gate \<and> gt_scope t = lg_scope gate \<and> gt_owner_id t = p_owner_id app \<and>
    is_public_http s \<and> service_serves_host proxy s host"
  using assms
  by (auto simp: service_gated_target_def service_serves_host_def Let_def is_some_and_iff find_Some_iff
      set_conv_nth split: option.splits if_splits)

lemma find_gated_targetD:
  assumes "find_gated_target apps proxy host = Some t"
  shows "\<exists>app \<in> set apps. \<exists>s \<in> set (p_services app). \<exists>gate. s_login_gate s = Some gate \<and>
    gt_scope t = lg_scope gate \<and> gt_owner_id t = p_owner_id app \<and> is_public_http s \<and>
    service_serves_host proxy s host"
  using assms unfolding find_gated_target_def
  by (blast dest!: first_some_SomeD service_gated_targetD)

text \<open>
  The dashboard issues a pass only to a user the gate admits: for the domain of a public web
  service with a login gate, to the owner of its project or, if the gate is open to all users, to
  a user that still exists. The pass verifies for that user and that domain.
\<close>

theorem create_gate_pass_sound:
  assumes "jwt_roundtrip jwt" and "jwt_secret_bound jwt"
    and "create_gate_pass jwt now secret proxy apps get_user user_id req_host return_to =
      Inr (url, pass, return_path)"
  shows "(\<exists>app \<in> set apps. \<exists>s \<in> set (p_services app). \<exists>gate. s_login_gate s = Some gate \<and>
      is_public_http s \<and> service_serves_host proxy s (gate_normalize_host req_host) \<and>
      (case lg_scope gate of OwnerScope \<Rightarrow> user_id = p_owner_id app
       | AllUsers \<Rightarrow> \<exists>u. get_user user_id = Inr (Some u))) \<and>
    verify_gate_token jwt now secret pass (gate_normalize_host req_host) Pass = Some user_id"
proof -
  let ?host = "gate_normalize_host req_host"
  from assms(3) obtain target allowed where t: "find_gated_target apps proxy ?host = Some target"
    and a: "(case gt_scope target of
           OwnerScope \<Rightarrow> Inr (gt_owner_id target = user_id)
         | AllUsers \<Rightarrow>
             (case get_user user_id of Inl _ \<Rightarrow> Inl GateInternal | Inr u \<Rightarrow> Inr (u \<noteq> None))) = Inr allowed"
      "allowed"
    and pass: "issue_gate_token jwt now secret user_id ?host Pass = Some pass"
    unfolding create_gate_pass_def Let_def by (auto split: if_splits)
  have "verify_gate_token jwt now secret pass ?host Pass = Some user_id"
  proof -
    have exp: "timestamp_secs (now + gate_token_ttl Pass) = timestamp_secs now + 60"
      by (simp add: gate_token_ttl_def PASS_TTL_SECONDS_def timestamp_secs_add_seconds)
    let ?c = "\<lparr> gc_sub = user_id, gc_host = to_ascii_lowercase ?host, gc_kind = gate_token_kind_as_str Pass,
      gc_iat = timestamp_secs now, gc_exp = timestamp_secs now + 60 \<rparr>"
    have "jwt_encode jwt secret ?c = Some pass"
      using pass exp by (simp add: issue_gate_token_def)
    then have "jwt_decode jwt secret GATE_LEEWAY (timestamp_secs now) pass = Some ?c"
      using assms(1) by (simp add: jwt_roundtrip_def GATE_LEEWAY_def)
    then show ?thesis by (simp add: verify_gate_token_def)
  qed
  moreover have "case gt_scope target of OwnerScope \<Rightarrow> user_id = gt_owner_id target
       | AllUsers \<Rightarrow> \<exists>u. get_user user_id = Inr (Some u)"
    using a by (auto split: login_gate_scope.splits sum.splits)
  ultimately show ?thesis
    using find_gated_targetD [OF t] by metis
qed

definition demo_gated_app :: project where
  "demo_gated_app =
     (project_new 1 0 ''t'' ''app'' [] 7)\<lparr> p_services :=
        [(container_service_new 2 0 1 ''adminer'' ''adminer'' 8080)\<lparr>
           s_service_type := WebService, s_domains := [''Adminer.example.com''],
           s_login_gate := Some \<lparr> lg_scope = OwnerScope \<rparr> \<rparr>] \<rparr>"

definition demo_ports :: proxy_ports where
  "demo_ports = \<lparr> pp_base_domain = ''example.com'', pp_http_port = 80, pp_https_port = 443 \<rparr>"

theorem create_gate_pass_sound_witness:
  "\<exists>url ret. create_gate_pass demo_jwt (seconds 100) ''s3cret'' demo_ports [demo_gated_app]
       (\<lambda>_. Inr None) 7 ''adminer.example.com'' None = Inr (url, ''token'', ret) \<and>
     verify_gate_token demo_jwt (seconds 100) ''s3cret'' ''token'' (gate_normalize_host ''adminer.example.com'') Pass = Some 7"
proof -
  have c: "create_gate_pass demo_jwt (seconds 100) ''s3cret'' demo_ports [demo_gated_app]
       (\<lambda>_. Inr None) 7 ''adminer.example.com'' None =
     Inr (''https://adminer.example.com/__containr/gate'', ''token'', ''/'')"
    by code_simp
  show ?thesis
    using create_gate_pass_sound [OF demo_jwt_laws c] c by blast
qed

definition same_site_path :: "string \<Rightarrow> bool" where
  "same_site_path p \<longleftrightarrow>
     (case p of
        c # rest \<Rightarrow> c = CHR ''/'' \<and> (rest = [] \<or> hd rest \<notin> {CHR ''/'', CHR 0x5C})
      | [] \<Rightarrow> False) \<and>
     list_all (\<lambda>c. \<not> is_control c) p"

lemma same_site_pathI:
  assumes "starts_with ''/'' p" "\<not> starts_with ''//'' p" "\<not> starts_with [CHR ''/'', CHR 0x5C] p"
    "\<not> list_ex is_control p"
  shows "same_site_path p"
proof -
  obtain rest where "p = CHR ''/'' # rest" using assms(1) by (auto simp: starts_with_iff)
  with assms(2-4) show ?thesis
    by (cases rest) (auto simp: same_site_path_def starts_with_def list_ex_iff list_all_iff)
qed

lemma same_site_root: "same_site_path ''/''"
  by code_simp

text \<open>
  The return path handed back after the login is always a path on the same site: it begins
  with a single slash, not followed by a slash or a backslash, holds no control character, and
  is the submitted path, trimmed, or the root.
\<close>

theorem gate_return_path_same_site:
  "same_site_path (gate_safe_return_path path) \<and>
   gate_safe_return_path path \<in> {''/''} \<union> trim ` set_option path \<and>
   str_len (gate_safe_return_path path) \<le> 2048"
proof -
  have root: "str_len ''/'' \<le> 2048" by code_simp
  show ?thesis
    using same_site_root root
    by (auto simp: gate_safe_return_path_def same_site_pathI split: option.splits)
qed

end
