(* ===== verification/Proxy.thy ===== *)
theory Proxy
  imports Routes Access_Gate
begin

text \<open>
  The request path of the proxy, \<open>crates/containr-proxy/src/pingora_proxy.rs\<close>: which requests
  are answered by the proxy itself and which are forwarded where (\<open>request_filter\<close>), the login
  gate on a domain (\<open>enforce_login_gate\<close>), what the app behind the proxy gets to see
  (\<open>upstream_request_filter\<close>), and the end of a request (\<open>logging\<close>).

  The header map, url parsing and token signing are code of other crates: they are the fields of
  \<open>proxy_api\<close>, an argument of the definitions, and \<open>header_laws\<close> states what the code relies on
  of the header map. The database reads of the request path (\<open>get_user\<close>,
  \<open>get_certificate_by_domain\<close>) are fields of the proxy's state. An I/O error while a response is
  written ends the request with an error; it is not modelled apart, since it forwards nothing.
  Building a response header out of the strings below is taken to succeed. \<open>request_filter\<close> reads
  the route table several times; the model takes these reads as one, with no route update between.
\<close>

section \<open>What the proxy is given\<close>

text \<open>
  \<open>'h\<close> is the type of header maps. \<open>x_get\<close> is \<open>HeaderMap::get\<close>, \<open>x_to_str\<close> is
  \<open>HeaderValue::to_str\<close>, \<open>x_insert\<close> is \<open>insert_header\<close>, which fails on an invalid value.
  \<open>x_form_parse\<close> is \<open>url::form_urlencoded::parse\<close>; \<open>x_gate_url\<close> builds the dashboard url with
  its two query pairs (\<open>Url::parse\<close> and \<open>append_pair\<close>).
\<close>

record 'h proxy_api =
  x_get :: "'h \<Rightarrow> string \<Rightarrow> string option"
  x_get_all :: "'h \<Rightarrow> string \<Rightarrow> string list"
  x_remove :: "'h \<Rightarrow> string \<Rightarrow> 'h"
  x_insert :: "'h \<Rightarrow> string \<Rightarrow> string \<Rightarrow> 'h option"
  x_to_str :: "string \<Rightarrow> string option"
  x_form_parse :: "string \<Rightarrow> (string \<times> string) list"
  x_gate_url :: "string \<Rightarrow> string \<Rightarrow> string \<Rightarrow> string option"
  x_b64 :: "string \<Rightarrow> string option"
  x_argon2 :: "string \<Rightarrow> string \<Rightarrow> bool"
  x_jwt :: jwt_api

text \<open>The characters of a header value that \<open>to_str\<close> accepts: visible ASCII, space and tab.\<close>

definition header_visible :: "char \<Rightarrow> bool" where
  "header_visible c \<longleftrightarrow> 32 \<le> scalar c \<and> scalar c < 127 \<or> scalar c = 9"

definition header_laws :: "('h, 'x) proxy_api_scheme \<Rightarrow> bool" where
  "header_laws x \<longleftrightarrow>
     (\<forall>h k. x_get x h k = (case x_get_all x h k of [] \<Rightarrow> None | v # _ \<Rightarrow> Some v)) \<and>
     (\<forall>h k k'. x_get_all x (x_remove x h k) k' =
        (if eq_ignore_ascii_case k k' then [] else x_get_all x h k')) \<and>
     (\<forall>h k v h' k'. x_insert x h k v = Some h' \<longrightarrow>
        x_get_all x h' k' = (if eq_ignore_ascii_case k k' then [v] else x_get_all x h k')) \<and>
     (\<forall>v. x_to_str x v = (if list_all header_visible v then Some v else None))"

record 'h request =
  rq_method :: string
  rq_path :: string
  rq_path_and_query :: "string option"
  rq_query :: "string option"
  rq_authority :: "string option"
  rq_headers :: 'h
  rq_tls :: bool
  rq_client_ip :: "string option"

record response =
  rp_status :: nat
  rp_headers :: "(string \<times> string) list"
  rp_body :: string

record proxy_ctx =
  cx_upstream_addr :: "string option"
  cx_upstream_tls :: bool
  cx_upstream_selection :: "selected_upstream option"
  cx_is_websocket :: bool
  cx_is_grpc :: bool
  cx_is_sse :: bool
  cx_client_tls :: bool
  cx_client_host :: string
  cx_client_ip :: "string option"

text \<open>The fields of \<open>ContainrProxy\<close>, with the parts of the configuration it reads.\<close>

record proxy =
  px_routes :: route_manager
  px_challenges :: "string \<rightharpoonup> string"
  px_ports :: proxy_ports
  px_storage_hostname :: "string option"
  px_management_endpoint :: string
  px_jwt_secret :: string
  px_api_upstream :: string
  px_get_user :: "uuid \<Rightarrow> bool"
  px_certificate :: "string \<Rightarrow> certificate option"

text \<open>
  \<open>Handled r\<close> is \<open>Ok(true)\<close> after the response \<open>r\<close> was written, \<open>Forward\<close> is \<open>Ok(false)\<close>,
  \<open>Failed\<close> an error of the filter.
\<close>

datatype outcome = Handled response | Forward | Failed

fun is_forward :: "outcome \<Rightarrow> bool" where
  "is_forward Forward = True"
| "is_forward _ = False"

section \<open>Small helpers\<close>

definition text_response :: "nat \<Rightarrow> string \<Rightarrow> response" where
  "text_response status body =
     \<lparr> rp_status = status,
       rp_headers = [(''Content-Type'', ''text/plain''), (''Content-Length'', show_nat (str_len body))],
       rp_body = body \<rparr>"

definition write_text :: "nat \<Rightarrow> string \<Rightarrow> response" where
  "write_text status body =
     \<lparr> rp_status = status,
       rp_headers = [(''Content-Type'', ''text/plain; charset=utf-8''), (''Cache-Control'', ''no-store''),
                     (''Content-Length'', show_nat (str_len body))],
       rp_body = body \<rparr>"

definition new_ctx :: proxy_ctx where
  "new_ctx =
     \<lparr> cx_upstream_addr = None, cx_upstream_tls = False, cx_upstream_selection = None,
       cx_is_websocket = False, cx_is_grpc = False, cx_is_sse = False, cx_client_tls = False,
       cx_client_host = [], cx_client_ip = None \<rparr>"

definition get_str :: "('h, 'x) proxy_api_scheme \<Rightarrow> 'h \<Rightarrow> string \<Rightarrow> string option" where
  "get_str x h k = Option.bind (x_get x h k) (x_to_str x)"

definition request_authority :: "('h, 'x) proxy_api_scheme \<Rightarrow> ('h, 'y) request_scheme \<Rightarrow> string" where
  "request_authority x rq =
     unwrap_or (or_else (get_str x (rq_headers rq) ''host'') (rq_authority rq)) []"

definition normalize_hostname :: "string \<Rightarrow> string" where
  "normalize_hostname hostname =
     to_lowercase (trim_end_char CHR ''/''
       (trim_start_matches ''http://'' (trim_start_matches ''https://'' hostname)))"

text \<open>\<open>&authority[..=end]\<close> for the first \<open>]\<close>, the whole authority if there is none.\<close>

definition bracketed :: "string \<Rightarrow> string" where
  "bracketed authority =
     (case split_once CHR '']'' authority of
        None \<Rightarrow> authority
      | Some (a, _) \<Rightarrow> a @ '']'')"

definition authority_hostname :: "string \<Rightarrow> string" where
  "authority_hostname authority =
     normalize_hostname
       (if starts_with ''['' authority then bracketed authority
        else split_first CHR '':'' authority)"

definition parse_storage_management_upstream :: "string \<Rightarrow> (string \<times> bool) option" where
  "parse_storage_management_upstream endpoint =
     (let trimmed = trim endpoint in
      if trimmed = [] then None
      else
        let (authority, tls) =
              (case strip_prefix ''https://'' trimmed of
                 Some rest \<Rightarrow> (rest, True)
               | None \<Rightarrow>
                   (case strip_prefix ''http://'' trimmed of
                      Some rest \<Rightarrow> (rest, False)
                    | None \<Rightarrow> (trimmed, False)));
            authority = trim (split_first CHR ''/'' authority)
        in if authority = [] then None
           else if CHR '':'' \<in> set authority then Some (authority, tls)
           else Some (authority @ '':'' @ (if tls then ''443'' else ''80''), tls))"

definition safe_return_path :: "string option \<Rightarrow> string" where
  "safe_return_path path =
     (case map_option trim path of
        Some path \<Rightarrow>
          if starts_with ''/'' path \<and> \<not> starts_with ''//'' path
             \<and> \<not> starts_with [CHR ''/'', CHR 0x5C] path
             \<and> \<not> list_ex is_control path
          then path else ''/''
      | None \<Rightarrow> ''/'')"

section \<open>Cookies\<close>

text \<open>The \<open>key=value\<close> pairs of all readable \<open>cookie\<close> headers, in order.\<close>

definition cookie_pairs :: "('h, 'x) proxy_api_scheme \<Rightarrow> 'h \<Rightarrow> (string \<times> string) list" where
  "cookie_pairs x h =
     List.map_filter (\<lambda>pair. split_once CHR ''='' (trim pair))
       (concat (map (split_char CHR '';'') (List.map_filter (x_to_str x) (x_get_all x h ''cookie''))))"

definition cookie_value :: "('h, 'x) proxy_api_scheme \<Rightarrow> 'h \<Rightarrow> string \<Rightarrow> string option" where
  "cookie_value x h name = map_option snd (find (\<lambda>(key, _). key = name) (cookie_pairs x h))"

definition kept_cookies :: "string \<Rightarrow> string \<Rightarrow> string list" where
  "kept_cookies name value =
     filter (\<lambda>pair. split_first CHR ''='' pair \<noteq> name)
       (filter (\<lambda>pair. pair \<noteq> []) (map trim (split_char CHR '';'' value)))"

definition strip_cookie :: "('h, 'x) proxy_api_scheme \<Rightarrow> 'h \<Rightarrow> string \<Rightarrow> 'h option" where
  "strip_cookie x h name =
     (case get_str x h ''cookie'' of
        None \<Rightarrow> Some h
      | Some value \<Rightarrow>
          let kept = kept_cookies name value; h' = x_remove x h ''cookie''
          in if kept = [] then Some h' else x_insert x h' ''cookie'' (join ''; '' kept))"

definition merge_cookie_headers :: "('h, 'x) proxy_api_scheme \<Rightarrow> 'h \<Rightarrow> 'h option" where
  "merge_cookie_headers x h =
     (let values = filter (\<lambda>v. v \<noteq> [])
            (map trim (List.map_filter (x_to_str x) (x_get_all x h ''cookie'')))
      in if length values < 2 then Some h
         else x_insert x (x_remove x h ''cookie'') ''cookie'' (join ''; '' values))"

section \<open>What is forwarded\<close>

definition set_forwarded_headers ::
  "('h, 'x) proxy_api_scheme \<Rightarrow> 'h \<Rightarrow> proxy_ctx \<Rightarrow> 'h option" where
  "set_forwarded_headers x h ctx =
     Option.bind (x_insert x h ''X-Forwarded-Proto'' (if cx_client_tls ctx then ''https'' else ''http'')) (\<lambda>h.
     Option.bind (if cx_client_host ctx \<noteq> [] then x_insert x h ''X-Forwarded-Host'' (cx_client_host ctx)
                  else Some h) (\<lambda>h.
     case cx_client_ip ctx of
       None \<Rightarrow> Some h
     | Some ip \<Rightarrow>
         let forwarded_for =
               (case opt_filter (\<lambda>v. v \<noteq> []) (map_option trim (get_str x h ''x-forwarded-for'')) of
                  Some existing \<Rightarrow> existing @ '', '' @ ip
                | None \<Rightarrow> ip)
         in Option.bind (x_insert x h ''X-Forwarded-For'' forwarded_for) (\<lambda>h.
            x_insert x h ''X-Real-IP'' ip)))"

definition upstream_request_filter ::
  "('h, 'x) proxy_api_scheme \<Rightarrow> 'h \<Rightarrow> proxy_ctx \<Rightarrow> 'h option" where
  "upstream_request_filter x h ctx =
     Option.bind (merge_cookie_headers x h) (\<lambda>h.
     Option.bind (strip_cookie x h GATE_COOKIE) (\<lambda>h.
     Option.bind (set_forwarded_headers x h ctx) (\<lambda>h.
     if cx_is_sse ctx then x_insert x h ''X-Accel-Buffering'' ''no'' else Some h)))"

section \<open>The login gate\<close>

definition gate_allows :: "('px) proxy_scheme \<Rightarrow> route_login_gate \<Rightarrow> uuid \<Rightarrow> bool" where
  "gate_allows px gate user =
     (case rlg_scope gate of
        OwnerScope \<Rightarrow> rlg_owner_id gate = user
      | AllUsers \<Rightarrow> px_get_user px user)"

definition has_certificate :: "timestamp \<Rightarrow> ('px) proxy_scheme \<Rightarrow> string \<Rightarrow> bool" where
  "has_certificate now px domain =
     (case px_certificate px domain of None \<Rightarrow> False | Some cert \<Rightarrow> c_expires_at cert > now)"

text \<open>The last \<open>pass\<close> and the last \<open>return\<close> of the query win.\<close>

definition query_param :: "(string \<times> string) list \<Rightarrow> string \<Rightarrow> string option" where
  "query_param pairs name =
     foldl (\<lambda>v (key, value). if key = name then Some value else v) None pairs"

definition gate_session_cookie :: "string \<Rightarrow> bool \<Rightarrow> string" where
  "gate_session_cookie session_token is_tls =
     GATE_COOKIE @ ''='' @ session_token @ ''; Path=/; HttpOnly; SameSite=Lax; Max-Age='' @
     show_nat (nat SESSION_TTL_SECONDS) @ (if is_tls then ''; Secure'' else [])"

text \<open>
  The callback on the gated domain: a pass of an admitted user is traded for a session cookie.
\<close>

definition gate_callback ::
  "('h, 'x) proxy_api_scheme \<Rightarrow> timestamp \<Rightarrow> ('px) proxy_scheme \<Rightarrow> ('h, 'y) request_scheme \<Rightarrow> string
     \<Rightarrow> bool \<Rightarrow> route_login_gate \<Rightarrow> response" where
  "gate_callback x now px rq host is_tls gate =
     (let secret = px_jwt_secret px;
          pairs = x_form_parse x (unwrap_or (rq_query rq) []);
          user = Option.bind (query_param pairs ''pass'')
                   (\<lambda>pass. verify_gate_token (x_jwt x) now secret pass host Pass);
          session_token =
            (case user of
               Some user \<Rightarrow>
                 if gate_allows px gate user then issue_gate_token (x_jwt x) now secret user host Session
                 else None
             | None \<Rightarrow> None)
      in case session_token of
           None \<Rightarrow> write_text 403 ''this login link expired or isn't yours; open the service again''
         | Some session_token \<Rightarrow>
             \<lparr> rp_status = 303,
               rp_headers =
                 [(''Location'', safe_return_path (query_param pairs ''return'')),
                  (''Set-Cookie'', gate_session_cookie session_token is_tls),
                  (''Cache-Control'', ''no-store''), (''Content-Length'', ''0'')],
               rp_body = [] \<rparr>)"

definition signed_in ::
  "('h, 'x) proxy_api_scheme \<Rightarrow> timestamp \<Rightarrow> ('px) proxy_scheme \<Rightarrow> 'h \<Rightarrow> string \<Rightarrow> route_login_gate \<Rightarrow> bool" where
  "signed_in x now px h host gate =
     is_some_and
       (Option.bind (cookie_value x h GATE_COOKIE)
          (\<lambda>token. verify_gate_token (x_jwt x) now (px_jwt_secret px) token host Session))
       (gate_allows px gate)"

definition enforce_login_gate ::
  "('h, 'x) proxy_api_scheme \<Rightarrow> timestamp \<Rightarrow> ('px) proxy_scheme \<Rightarrow> ('h, 'y) request_scheme \<Rightarrow> string
     \<Rightarrow> bool \<Rightarrow> route_login_gate \<Rightarrow> outcome" where
  "enforce_login_gate x now px rq host is_tls gate =
     (let path_and_query = unwrap_or (rq_path_and_query rq) ''/'';
          is_navigation =
            (rq_method rq = ''GET'' \<or> rq_method rq = ''HEAD'') \<and> x_get x (rq_headers rq) ''upgrade'' = None
      in if rq_path rq = GATE_CALLBACK_PATH then Handled (gate_callback x now px rq host is_tls gate)
         else if signed_in x now px (rq_headers rq) host gate then Forward
         else if \<not> is_navigation then Handled (write_text 401 ''containr login required'')
         else
           let (scheme, port) =
                 (if is_tls then (''https'', pp_https_port (px_ports px))
                  else (''http'', pp_http_port (px_ports px)));
               port_text =
                 (if scheme = ''https'' \<and> port = 443 \<or> scheme = ''http'' \<and> port = 80 then []
                  else '':'' @ show_word port)
           in (case x_gate_url x (scheme @ ''://'' @ pp_base_domain (px_ports px) @ port_text @ ''/gate'')
                      host path_and_query of
                 None \<Rightarrow> Failed
               | Some location \<Rightarrow>
                   Handled \<lparr> rp_status = 302,
                             rp_headers = [(''Location'', location), (''Cache-Control'', ''no-store''),
                                           (''Content-Length'', ''0'')],
                             rp_body = [] \<rparr>))"

section \<open>Routing a request\<close>

definition ACME_PREFIX :: string where
  "ACME_PREFIX = ''/.well-known/acme-challenge/''"

definition acme_challenge :: "('px) proxy_scheme \<Rightarrow> string \<Rightarrow> string option" where
  "acme_challenge px path =
     (if starts_with ACME_PREFIX path
      then px_challenges px (trim_start_matches ACME_PREFIX path) else None)"

text \<open>Protocol detection, before anything is decided.\<close>

definition detect_protocols ::
  "('h, 'x) proxy_api_scheme \<Rightarrow> 'h \<Rightarrow> proxy_ctx \<Rightarrow> proxy_ctx" where
  "detect_protocols x h ctx =
     (let value = (\<lambda>k. map_option (\<lambda>v. unwrap_or (x_to_str x v) []) (x_get x h k))
      in ctx\<lparr> cx_is_websocket :=
                cx_is_websocket ctx \<or> is_some_and (value ''upgrade'') (\<lambda>v. eq_ignore_ascii_case v ''websocket''),
              cx_is_grpc :=
                cx_is_grpc ctx \<or> is_some_and (value ''content-type'') (starts_with ''application/grpc''),
              cx_is_sse :=
                cx_is_sse ctx \<or> is_some_and (value ''accept'') (contains_str ''text/event-stream'') \<rparr>)"

definition storage_host :: "('px) proxy_scheme \<Rightarrow> string option" where
  "storage_host px =
     map_option normalize_hostname
       (opt_filter (\<lambda>h. h \<noteq> []) (map_option trim (px_storage_hostname px)))"

definition https_required :: "('px) proxy_scheme \<Rightarrow> string \<Rightarrow> bool" where
  "https_required px host =
     (if host = [] then False
      else if host = normalize_hostname (pp_base_domain (px_ports px)) \<or> storage_host px = Some host then True
      else (case get_route (px_routes px) host of Some r \<Rightarrow> rt_ssl_enabled r | None \<Rightarrow> False))"

definition https_response :: "timestamp \<Rightarrow> ('px) proxy_scheme \<Rightarrow> ('h, 'y) request_scheme \<Rightarrow> string \<Rightarrow> response" where
  "https_response now px rq host =
     (if has_certificate now px host
      then \<lparr> rp_status = 308,
             rp_headers = [(''Location'', ''https://'' @ host @ unwrap_or (rq_path_and_query rq) ''/''),
                           (''Content-Length'', ''0'')],
             rp_body = [] \<rparr>
      else text_response 426 ''https required; certificate provisioning in progress'')"

text \<open>
  The part of \<open>request_filter\<close> for a host with a route: authentication, then selection. It returns
  the route table (its counters and login cache change), the context and the outcome.
\<close>

definition route_request ::
  "('h, 'x) proxy_api_scheme \<Rightarrow> timestamp \<Rightarrow> ('px) proxy_scheme \<Rightarrow> ('h, 'y) request_scheme \<Rightarrow> string
     \<Rightarrow> proxy_ctx \<Rightarrow> route \<Rightarrow> route_manager \<times> proxy_ctx \<times> outcome" where
  "route_request x now px rq host ctx r =
     (let (routes, auth) =
        (case rt_login_gate r of
           Some gate \<Rightarrow> (px_routes px, enforce_login_gate x now px rq host (cx_client_tls ctx) gate)
         | None \<Rightarrow>
             (let (routes, ok) =
                basic_auth_allowed (x_b64 x) (x_argon2 x) (px_routes px) host
                  (get_str x (rq_headers rq) ''authorization'')
              in (routes,
                  if ok then Forward
                  else Handled \<lparr> rp_status = 401,
                         rp_headers =
                           [(''WWW-Authenticate'', ''Basic realm=\"containr\"''),
                            (''Content-Type'', ''text/plain''), (''Content-Length'', ''23'')],
                         rp_body = ''authentication required'' \<rparr>)))
      in case auth of
           Forward \<Rightarrow>
             (case select_upstream routes host of
                (routes', Some sel) \<Rightarrow>
                  (routes',
                   ctx\<lparr> cx_upstream_addr := address routes' sel, cx_upstream_tls := False,
                        cx_upstream_selection := Some sel \<rparr>,
                   Forward)
              | (routes', None) \<Rightarrow>
                  (routes', ctx, Handled (text_response 503 ''service is mapped but has no live upstream'')))
         | stop \<Rightarrow> (routes, ctx, stop))"

definition request_filter ::
  "('h, 'x) proxy_api_scheme \<Rightarrow> timestamp \<Rightarrow> ('px) proxy_scheme \<Rightarrow> ('h, 'y) request_scheme \<Rightarrow> proxy_ctx
     \<Rightarrow> route_manager \<times> proxy_ctx \<times> outcome" where
  "request_filter x now px rq ctx =
     (let base_domain = normalize_hostname (pp_base_domain (px_ports px));
          authority = request_authority x rq;
          host = authority_hostname authority;
          ctx = detect_protocols x (rq_headers rq) ctx
      in case acme_challenge px (rq_path rq) of
           Some key_auth \<Rightarrow> (px_routes px, ctx, Handled (text_response 200 key_auth))
         | None \<Rightarrow>
             let ctx = ctx\<lparr> cx_client_tls := rq_tls rq, cx_client_host := authority,
                            cx_client_ip := rq_client_ip rq \<rparr>
             in if \<not> rq_tls rq \<and> https_required px host
                then (px_routes px, ctx, Handled (https_response now px rq host))
                else if host = base_domain
                then (px_routes px,
                      ctx\<lparr> cx_upstream_addr := Some (px_api_upstream px), cx_upstream_tls := False,
                           cx_upstream_selection := None \<rparr>, Forward)
                else if storage_host px = Some host
                then (case parse_storage_management_upstream (px_management_endpoint px) of
                        None \<Rightarrow> (px_routes px, ctx, Handled (text_response 503 ''storage proxy is not configured''))
                      | Some (addr, tls) \<Rightarrow>
                          (px_routes px,
                           ctx\<lparr> cx_upstream_addr := Some addr, cx_upstream_tls := tls,
                                cx_upstream_selection := None \<rparr>, Forward))
                else (case get_route (px_routes px) host of
                        Some r \<Rightarrow> route_request x now px rq host ctx r
                      | None \<Rightarrow> (px_routes px, ctx, Handled (text_response 404 ''no route found''))))"

section \<open>The end of a request\<close>

definition protocol_name :: "proxy_ctx \<Rightarrow> string" where
  "protocol_name ctx =
     (if cx_is_websocket ctx then ''websocket''
      else if cx_is_grpc ctx then ''grpc''
      else if cx_is_sse ctx then ''sse''
      else ''http'')"

text \<open>
  \<open>logging\<close>: the selection is completed, and a request of a known service leaves a log entry.
  \<open>status\<close> is the status of the response that was written, 0 if none.
\<close>

definition logging ::
  "('h, 'x) proxy_api_scheme \<Rightarrow> timestamp \<Rightarrow> route_manager \<Rightarrow> ('h, 'y) request_scheme \<Rightarrow> u16 option \<Rightarrow> proxy_ctx
     \<Rightarrow> route_manager \<times> http_request_log option" where
  "logging x now routes rq status ctx =
     (case cx_upstream_selection ctx of
        None \<Rightarrow> (routes, None)
      | Some sel \<Rightarrow>
          (complete routes sel,
           case rm_heap routes (su_route sel) of
             None \<Rightarrow> None
           | Some st \<Rightarrow>
               (case (rs_app_id st, rs_service_id st) of
                  (Some app_id, Some service_id) \<Rightarrow>
                    Some \<lparr> hl_service_id = service_id, hl_app_id = app_id,
                           hl_domain = unwrap_or (map_option (split_first CHR '':'')
                                         (get_str x (rq_headers rq) ''host'')) (rs_domain st),
                           hl_method = rq_method rq,
                           hl_path = unwrap_or (rq_path_and_query rq) (rq_path rq),
                           hl_status = unwrap_or status 0,
                           hl_upstream = unwrap_or (cx_upstream_addr ctx) ''none'',
                           hl_protocol = protocol_name ctx, hl_created_at = now \<rparr>
                | _ \<Rightarrow> None)))"

section \<open>Who is let through\<close>

lemma enforce_login_gate_Forward:
  "enforce_login_gate x now px rq host is_tls gate = Forward \<longleftrightarrow>
     rq_path rq \<noteq> GATE_CALLBACK_PATH \<and> signed_in x now px (rq_headers rq) host gate"
  by (auto simp: enforce_login_gate_def Let_def split: option.splits prod.splits)

text \<open>What a route asks of a request before it may reach the app.\<close>

definition authorized ::
  "('h, 'x) proxy_api_scheme \<Rightarrow> timestamp \<Rightarrow> ('px) proxy_scheme \<Rightarrow> ('h, 'y) request_scheme \<Rightarrow> string
     \<Rightarrow> route \<Rightarrow> bool" where
  "authorized x now px rq host r =
     (case rt_login_gate r of
        Some gate \<Rightarrow> rq_path rq \<noteq> GATE_CALLBACK_PATH \<and> signed_in x now px (rq_headers rq) host gate
      | None \<Rightarrow> basic_auth_spec (x_b64 x) (x_argon2 x) (Some r) (get_str x (rq_headers rq) ''authorization''))"

definition upstream_address :: "upstream \<Rightarrow> string" where
  "upstream_address u = up_host u @ '':'' @ show_word (up_port u)"

lemma get_route_basic_auth [simp]:
  "get_route (fst (basic_auth_allowed b64 argon2 m host h)) d = get_route m d"
  by (auto simp: get_route_verify basic_auth_allowed_def split: basic_auth_check.splits)

lemma select_upstream_address:
  assumes "select_upstream m host = (m', Some sel)"
  shows "\<exists>r u. get_route m host = Some r \<and> u \<in> set (rt_upstreams r) \<and>
    address m' sel = Some (upstream_address u)"
  using assms
proof (rule select_upstream_SomeE)
  fix a st c
  assume l: "lookup_state m host = Some (a, st)" "su_route sel = a"
    and i: "su_index sel < length (rs_upstreams st)"
    and m': "m' = m\<lparr> rm_heap := (rm_heap m)(a \<mapsto> bump_inflight (st\<lparr> rs_rr_cursor := c \<rparr>) (su_index sel)) \<rparr>"
  let ?u = "rs_upstreams st ! su_index sel"
  have "\<lparr> up_host = us_host ?u, up_port = us_port ?u \<rparr> \<in> set (rt_upstreams (to_route st))"
    using i by (auto simp: to_route_def)
  moreover have "address m' sel = Some (upstream_address \<lparr> up_host = us_host ?u, up_port = us_port ?u \<rparr>)"
    using l i by (simp add: address_def m' bump_inflight_def upstream_address_def Let_def)
  ultimately show ?thesis
    using l by (auto simp: get_route_def)
qed

lemma select_upstream_available:
  assumes "get_route m host = Some r" and "rt_upstreams r \<noteq> []"
  shows "\<exists>m' sel. select_upstream m host = (m', Some sel)"
  using assms
  by (auto simp: select_upstream_def get_route_def to_route_def Let_def
      split: option.splits load_balance_algorithm.splits)

lemma route_request_Forward:
  assumes inv: "traffic_inv (x_b64 x) (x_argon2 x) s" and px: "px_routes px = tr_rm s"
    and r: "get_route (px_routes px) host = Some r"
  shows "route_request x now px rq host ctx r = (m', ctx', Forward) \<longleftrightarrow>
    authorized x now px rq host r \<and>
    (\<exists>sel. select_upstream
        (case rt_login_gate r of
           Some _ \<Rightarrow> px_routes px
         | None \<Rightarrow> fst (basic_auth_allowed (x_b64 x) (x_argon2 x) (px_routes px) host
             (get_str x (rq_headers rq) ''authorization''))) host = (m', Some sel) \<and>
      ctx' = ctx\<lparr> cx_upstream_addr := address m' sel, cx_upstream_tls := False,
                  cx_upstream_selection := Some sel \<rparr>)"
proof (cases "rt_login_gate r")
  case (Some gate)
  then show ?thesis
    using enforce_login_gate_Forward [of x now px rq host "cx_client_tls ctx" gate]
    by (auto simp: route_request_def authorized_def split: outcome.splits prod.splits option.splits)
next
  case None
  let ?b = "basic_auth_allowed (x_b64 x) (x_argon2 x) (px_routes px) host
             (get_str x (rq_headers rq) ''authorization'')"
  have "snd ?b = authorized x now px rq host r"
    using basic_auth_allowed_inv [OF inv, of host] None r by (simp add: authorized_def px)
  then show ?thesis
    using None by (cases ?b) (auto simp: route_request_def split: prod.splits option.splits if_splits)
qed

text \<open>The host a request is for.\<close>

definition request_host :: "('h, 'x) proxy_api_scheme \<Rightarrow> ('h, 'y) request_scheme \<Rightarrow> string" where
  "request_host x rq = authority_hostname (request_authority x rq)"

text \<open>Requests the proxy forwards to containr itself, not to an app.\<close>

definition system_upstream :: "('px) proxy_scheme \<Rightarrow> string \<Rightarrow> (string \<times> bool) option" where
  "system_upstream px host =
     (if host = normalize_hostname (pp_base_domain (px_ports px)) then Some (px_api_upstream px, False)
      else if storage_host px = Some host then parse_storage_management_upstream (px_management_endpoint px)
      else None)"

text \<open>
  C1. The proxy forwards a request only where it may: never an ACME challenge it can answer, never
  a plain http request for a host that requires https (the dashboard, the storage host and every
  route with https). The dashboard's host goes to the API and the storage host to the storage
  endpoint. Any other request reaches only an upstream of the route of its host, and only if the
  route lets it pass: behind a login gate, with a session token of this host of a user the gate
  admits and never on the callback path; with basic auth, with the route's credentials.
\<close>

theorem forwarded_requests_authorized:
  assumes "traffic_reachable (x_b64 x) (x_argon2 x) s" and "px_routes px = tr_rm s"
    and "request_filter x now px rq ctx = (m', ctx', Forward)"
  shows "acme_challenge px (rq_path rq) = None \<and>
    (https_required px (request_host x rq) \<longrightarrow> rq_tls rq) \<and>
    (case system_upstream px (request_host x rq) of
       Some (addr, tls) \<Rightarrow>
         cx_upstream_addr ctx' = Some addr \<and> cx_upstream_tls ctx' = tls \<and>
         cx_upstream_selection ctx' = None \<and> m' = px_routes px
     | None \<Rightarrow>
         \<exists>r. \<exists>u \<in> set (rt_upstreams r). get_route (px_routes px) (request_host x rq) = Some r \<and>
           authorized x now px rq (request_host x rq) r \<and>
           cx_upstream_addr ctx' = Some (upstream_address u) \<and> \<not> cx_upstream_tls ctx')"
proof -
  note inv = traffic_reachable_inv [OF assms(1)]
  let ?h = "request_host x rq"
  from assms(3) have acme: "acme_challenge px (rq_path rq) = None"
    by (auto simp: request_filter_def Let_def split: option.splits)
  from assms(3) acme have tls: "https_required px ?h \<longrightarrow> rq_tls rq"
    by (auto simp: request_filter_def request_host_def Let_def split: if_splits)
  show ?thesis
  proof (cases "?h = normalize_hostname (pp_base_domain (px_ports px)) \<or> storage_host px = Some ?h")
    case True
    then show ?thesis
      using assms(3) acme tls
      by (auto simp: request_filter_def request_host_def system_upstream_def Let_def
          split: option.splits if_splits)
  next
    case False
    then have sys: "system_upstream px ?h = None" by (simp add: system_upstream_def)
    obtain r ctx1 where r: "get_route (px_routes px) ?h = Some r"
      and rr: "route_request x now px rq ?h ctx1 r = (m', ctx', Forward)"
      using False assms(3) acme tls
      by (auto simp: request_filter_def request_host_def Let_def split: option.splits if_splits)
    obtain m sel where "authorized x now px rq ?h r" and sel: "select_upstream m ?h = (m', Some sel)"
      and m: "get_route m ?h = get_route (px_routes px) ?h"
      and "cx_upstream_addr ctx' = address m' sel" "\<not> cx_upstream_tls ctx'"
      using rr unfolding route_request_Forward [OF inv assms(2) r] by (auto split: option.splits)
    then show ?thesis
      using select_upstream_address [OF sel] acme tls sys r by auto
  qed
qed

text \<open>
  C2. Conversely, a request for an app is not turned away: if its host has a route with at least
  one upstream that lets it pass, it comes over https where that is required, and it is not an
  ACME challenge, then it is forwarded to an upstream of that route.
\<close>

theorem authorized_requests_forwarded:
  assumes "traffic_reachable (x_b64 x) (x_argon2 x) s" and "px_routes px = tr_rm s"
    and "get_route (px_routes px) (request_host x rq) = Some r" and "rt_upstreams r \<noteq> []"
    and "authorized x now px rq (request_host x rq) r"
    and "rq_tls rq \<or> \<not> https_required px (request_host x rq)"
    and "request_host x rq \<noteq> normalize_hostname (pp_base_domain (px_ports px))"
    and "storage_host px \<noteq> Some (request_host x rq)"
    and "acme_challenge px (rq_path rq) = None"
  shows "\<exists>m' ctx'. request_filter x now px rq ctx = (m', ctx', Forward) \<and>
    cx_upstream_addr ctx' \<in> (Some \<circ> upstream_address) ` set (rt_upstreams r)"
proof -
  note inv = traffic_reachable_inv [OF assms(1)]
  let ?h = "request_host x rq"
  let ?m = "case rt_login_gate r of
           Some _ \<Rightarrow> px_routes px
         | None \<Rightarrow> fst (basic_auth_allowed (x_b64 x) (x_argon2 x) (px_routes px) ?h
             (get_str x (rq_headers rq) ''authorization''))"
  have m: "get_route ?m ?h = Some r" using assms(3) by (simp split: option.splits)
  then obtain m' sel where sel: "select_upstream ?m ?h = (m', Some sel)"
    using select_upstream_available [OF m assms(4)] by blast
  obtain u where u: "u \<in> set (rt_upstreams r)" "address m' sel = Some (upstream_address u)"
    using select_upstream_address [OF sel] m by auto
  have "\<exists>ctx1. request_filter x now px rq ctx = route_request x now px rq ?h ctx1 r"
    using assms(3,6-9) by (auto simp: request_filter_def request_host_def Let_def)
  then obtain ctx1 where "request_filter x now px rq ctx = route_request x now px rq ?h ctx1 r" ..
  moreover have "route_request x now px rq ?h ctx1 r = (m', ctx1\<lparr> cx_upstream_addr := address m' sel,
      cx_upstream_tls := False, cx_upstream_selection := Some sel \<rparr>, Forward)"
    using route_request_Forward [OF inv assms(2,3), THEN iffD2] assms(5) sel by blast
  ultimately show ?thesis using u by auto
qed

text \<open>A header map as a list of pairs, and a proxy with one route behind basic auth.\<close>

definition split_pairs :: "string \<Rightarrow> (string \<times> string) list" where
  "split_pairs q = List.map_filter (split_once CHR ''='') (split_char CHR ''&'' q)"

definition list_headers :: "(string \<times> string) list proxy_api" where
  "list_headers =
     \<lparr> x_get = (\<lambda>h k. map_option snd (find (\<lambda>(k', _). eq_ignore_ascii_case k k') h)),
       x_get_all = (\<lambda>h k. map snd (filter (\<lambda>(k', _). eq_ignore_ascii_case k k') h)),
       x_remove = (\<lambda>h k. filter (\<lambda>(k', _). \<not> eq_ignore_ascii_case k k') h),
       x_insert = (\<lambda>h k v. Some (filter (\<lambda>(k', _). \<not> eq_ignore_ascii_case k k') h @ [(k, v)])),
       x_to_str = (\<lambda>v. if list_all header_visible v then Some v else None),
       x_form_parse = split_pairs,
       x_gate_url = (\<lambda>u host ret. Some (u @ ''?host='' @ host @ ''&return='' @ ret)),
       x_b64 = (\<lambda>_. Some ''admin:s3cret''),
       x_argon2 = (\<lambda>pw h. pw = ''s3cret'' \<and> h = ''h''),
       x_jwt = demo_jwt \<rparr>"

lemma find_filter: "find P xs = (case filter P xs of [] \<Rightarrow> None | x # _ \<Rightarrow> Some x)"
  by (induction xs) auto

lemma list_headers_laws: "header_laws list_headers"
proof -
  let ?l = to_ascii_lowercase
  have "filter (\<lambda>p. ?l b = ?l (fst p) \<and> ?l a \<noteq> ?l (fst p)) h =
    (if ?l a = ?l b then [] else filter (\<lambda>p. ?l b = ?l (fst p)) h)"
    for a b and h :: "(string \<times> string) list"
    by (induction h) auto
  then show ?thesis
    by (auto simp: header_laws_def list_headers_def find_filter split_def eq_ignore_ascii_case_def
        conj_commute split: list.splits)
qed

definition demo_proxy :: proxy where
  "demo_proxy =
     \<lparr> px_routes = add_route route_manager_new demo_route, px_challenges = Map.empty, px_ports = demo_ports,
       px_storage_hostname = None, px_management_endpoint = [], px_jwt_secret = ''s3cret'',
       px_api_upstream = ''127.0.0.1:2077'', px_get_user = (\<lambda>_. True), px_certificate = Map.empty \<rparr>"

definition demo_request :: "(string \<times> string) list request" where
  "demo_request =
     \<lparr> rq_method = ''GET'', rq_path = ''/x'', rq_path_and_query = Some ''/x'', rq_query = None,
       rq_authority = None,
       rq_headers = [(''Host'', ''app.example.com:80''), (''Authorization'', ''Basic eA'')],
       rq_tls = False, rq_client_ip = Some ''10.0.0.1'' \<rparr>"

lemma demo_traffic:
  "traffic_reachable (x_b64 list_headers) (x_argon2 list_headers)
     (traffic_init\<lparr> tr_rm := add_route route_manager_new demo_route \<rparr>)"
  by (rule demo_reachable)

lemma demo_proxy_routes:
  "px_routes demo_proxy = tr_rm (traffic_init\<lparr> tr_rm := add_route route_manager_new demo_route \<rparr>)"
  by (simp add: demo_proxy_def)

lemma demo_host: "request_host list_headers demo_request = ''app.example.com''"
  by code_simp

lemma demo_get_route:
  "get_route (px_routes demo_proxy) ''app.example.com'' = Some (stored_route demo_route)"
  by (simp add: demo_proxy_def get_route_add rm_ok_new demo_route_def demo_norm)

lemma demo_authorized:
  "authorized list_headers now demo_proxy demo_request ''app.example.com'' (stored_route demo_route)"
  by code_simp

lemma demo_forward_conditions:
  "rt_upstreams (stored_route demo_route) \<noteq> []" "\<not> https_required demo_proxy ''app.example.com''"
  "''app.example.com'' \<noteq> normalize_hostname (pp_base_domain (px_ports demo_proxy))"
  "storage_host demo_proxy \<noteq> Some ''app.example.com''" "acme_challenge demo_proxy (rq_path demo_request) = None"
proof -
  show "\<not> https_required demo_proxy ''app.example.com''"
    unfolding https_required_def demo_get_route by code_simp
qed code_simp+

theorem authorized_requests_forwarded_witness:
  "\<exists>m' ctx'. request_filter list_headers 0 demo_proxy demo_request new_ctx = (m', ctx', Forward) \<and>
    cx_upstream_addr ctx' \<in> {Some ''a:80'', Some ''b:81''}"
proof -
  have up: "(Some \<circ> upstream_address) ` set (rt_upstreams (stored_route demo_route)) = {Some ''a:80'', Some ''b:81''}"
    by code_simp
  show ?thesis
    using authorized_requests_forwarded [OF demo_traffic demo_proxy_routes, of demo_request, unfolded demo_host,
        OF demo_get_route demo_forward_conditions(1) demo_authorized disjI2 [OF demo_forward_conditions(2)]
          demo_forward_conditions(3-5)] up by simp
qed

theorem forwarded_requests_authorized_witness:
  "\<exists>m' ctx'. request_filter list_headers 0 demo_proxy demo_request new_ctx = (m', ctx', Forward) \<and>
    (\<exists>r. get_route (px_routes demo_proxy) ''app.example.com'' = Some r \<and>
       authorized list_headers 0 demo_proxy demo_request ''app.example.com'' r)"
proof -
  have "is_forward (snd (snd (request_filter list_headers 0 demo_proxy demo_request new_ctx)))"
    by code_simp
  then obtain m' ctx' where f: "request_filter list_headers 0 demo_proxy demo_request new_ctx = (m', ctx', Forward)"
    by (metis is_forward.elims(2) prod.collapse)
  have "system_upstream demo_proxy ''app.example.com'' = None" by code_simp
  then show ?thesis
    using forwarded_requests_authorized [OF demo_traffic demo_proxy_routes f] f by (auto simp: demo_host)
qed

section \<open>The request path as traffic\<close>

text \<open>The steps the traffic model takes for one call of \<open>basic_auth_allowed\<close>.\<close>

lemma reachable_basic_auth:
  assumes "traffic_reachable b64 argon2 s"
  shows "\<exists>pend. traffic_reachable b64 argon2
    (s\<lparr> tr_rm := fst (basic_auth_allowed b64 argon2 (tr_rm s) host h), tr_pending := pend \<rparr>)"
proof (cases "check_basic_auth b64 (tr_rm s) host h")
  case (Verify p)
  let ?s = "s\<lparr> tr_pending := insert p (tr_pending s) \<rparr>"
  have s: "traffic_reachable b64 argon2 ?s"
    using traffic_step.step_check [OF Verify] assms by (rule traffic_reachable.reach_step [rotated])
  obtain m ok where v: "verify_pending argon2 (tr_rm ?s) p = (m, ok)" by fastforce
  have "traffic_step b64 argon2 ?s (?s\<lparr> tr_rm := m, tr_pending := tr_pending ?s - {p} \<rparr>)"
    by (rule traffic_step.step_verify [OF _ v]) simp
  then have "traffic_reachable b64 argon2 (?s\<lparr> tr_rm := m, tr_pending := tr_pending ?s - {p} \<rparr>)"
    using s by (rule traffic_reachable.reach_step [rotated])
  then show ?thesis
    using v Verify by (auto simp: basic_auth_allowed_def)
next
  case NotRequired
  then show ?thesis
    using assms by (auto simp: basic_auth_allowed_def intro!: exI [of _ "tr_pending s"])
next
  case Allowed
  then show ?thesis
    using assms by (auto simp: basic_auth_allowed_def intro!: exI [of _ "tr_pending s"])
next
  case Denied
  then show ?thesis
    using assms by (auto simp: basic_auth_allowed_def intro!: exI [of _ "tr_pending s"])
qed

definition opened :: "selected_upstream option \<Rightarrow> selected_upstream multiset" where
  "opened sel = (case sel of None \<Rightarrow> {#} | Some sel \<Rightarrow> {#sel#})"

lemma reachable_select:
  assumes "traffic_reachable b64 argon2 s" and "size (tr_open s) + 1 < 2 ^ 64"
    and "select_upstream (tr_rm s) host = (m', sel)"
  shows "traffic_reachable b64 argon2 (s\<lparr> tr_rm := m', tr_open := tr_open s + opened sel \<rparr>)"
proof (cases sel)
  case None
  then have "m' = tr_rm s" using assms(3) select_upstream_None by simp
  then show ?thesis using assms(1) None by (simp add: opened_def)
next
  case (Some u)
  then show ?thesis
    using traffic_reachable.reach_step [OF assms(1) traffic_step.step_select] assms(2,3)
    by (simp add: opened_def)
qed

lemma route_request_traffic:
  assumes "traffic_reachable (x_b64 x) (x_argon2 x) s" and "px_routes px = tr_rm s"
    and "size (tr_open s) + 1 < 2 ^ 64" and "cx_upstream_selection ctx = None"
    and "route_request x now px rq host ctx r = (m', ctx', out)"
  shows "\<exists>pend. traffic_reachable (x_b64 x) (x_argon2 x)
      (s\<lparr> tr_rm := m', tr_open := tr_open s + opened (cx_upstream_selection ctx'), tr_pending := pend \<rparr>) \<and>
    (cx_upstream_selection ctx' \<noteq> None \<longrightarrow> out = Forward)"
proof -
  let ?ba = "basic_auth_allowed (x_b64 x) (x_argon2 x) (tr_rm s) host (get_str x (rq_headers rq) ''authorization'')"
  define m where "m = (case rt_login_gate r of Some _ \<Rightarrow> tr_rm s | None \<Rightarrow> fst ?ba)"
  have "\<exists>pend. traffic_reachable (x_b64 x) (x_argon2 x) (s\<lparr> tr_rm := m, tr_pending := pend \<rparr>)"
  proof (cases "rt_login_gate r")
    case None
    then show ?thesis using reachable_basic_auth [OF assms(1)] by (simp add: m_def)
  next
    case (Some _)
    then show ?thesis using assms(1) by (auto simp: m_def intro!: exI [of _ "tr_pending s"])
  qed
  then obtain pend where p: "traffic_reachable (x_b64 x) (x_argon2 x) (s\<lparr> tr_rm := m, tr_pending := pend \<rparr>)" ..
  obtain m1 sel where sel: "select_upstream m host = (m1, sel)" by fastforce
  have p1: "traffic_reachable (x_b64 x) (x_argon2 x)
      (s\<lparr> tr_rm := m1, tr_open := tr_open s + opened sel, tr_pending := pend \<rparr>)"
    using reachable_select [OF p] assms(3) sel by (cases s) simp
  have "m' = m \<and> ctx' = ctx \<or> m' = m1 \<and> cx_upstream_selection ctx' = sel \<and> (sel \<noteq> None \<longrightarrow> out = Forward)"
    using assms(2,4,5) sel select_upstream_None [of m host m1]
    by (cases ?ba; cases sel)
      (auto simp: route_request_def m_def split: option.splits outcome.splits if_splits)
  then show ?thesis
    using p p1 assms(4) by (auto simp: opened_def)
qed

lemma new_ctx_selection: "cx_upstream_selection new_ctx = None"
  by (simp add: new_ctx_def)

lemma request_filter_routed:
  assumes "request_filter x now px rq ctx = (m', ctx', out)" and "cx_upstream_selection ctx = None"
  shows "m' = px_routes px \<and> cx_upstream_selection ctx' = None \<or>
    (\<exists>r. route_request x now px rq (request_host x rq)
       ((detect_protocols x (rq_headers rq) ctx)\<lparr> cx_client_tls := rq_tls rq,
          cx_client_host := request_authority x rq, cx_client_ip := rq_client_ip rq \<rparr>) r = (m', ctx', out))"
  using assms
  by (auto simp: request_filter_def request_host_def Let_def detect_protocols_def split: option.splits if_splits)

text \<open>
  C4. Handling a request is traffic of the route table: from a reachable state the state after
  \<open>request_filter\<close> is reachable, with the request counted as open if and only if an upstream was
  selected for it, which only happens when it is forwarded; and \<open>logging\<close>, which ends every
  request, brings the open requests back to what they were. So the invariants of the traffic hold
  for the proxy, and no request leaks a counter, however it ends.
\<close>

theorem request_lifecycle_is_traffic:
  assumes "traffic_reachable (x_b64 x) (x_argon2 x) s" and "px_routes px = tr_rm s"
    and "size (tr_open s) + 1 < 2 ^ 64"
    and "request_filter x now px rq new_ctx = (m', ctx', out)"
  shows "(\<exists>pend. traffic_reachable (x_b64 x) (x_argon2 x)
        (s\<lparr> tr_rm := m', tr_open := tr_open s + opened (cx_upstream_selection ctx'), tr_pending := pend \<rparr>)) \<and>
    (cx_upstream_selection ctx' \<noteq> None \<longrightarrow> out = Forward) \<and>
    (\<exists>pend. traffic_reachable (x_b64 x) (x_argon2 x)
        (s\<lparr> tr_rm := fst (logging x later m' rq status ctx'), tr_pending := pend \<rparr>))"
proof -
  have "\<exists>pend. traffic_reachable (x_b64 x) (x_argon2 x)
      (s\<lparr> tr_rm := m', tr_open := tr_open s + opened (cx_upstream_selection ctx'), tr_pending := pend \<rparr>) \<and>
    (cx_upstream_selection ctx' \<noteq> None \<longrightarrow> out = Forward)"
    using request_filter_routed [OF assms(4) new_ctx_selection]
  proof (elim disjE exE)
    fix r
    assume "route_request x now px rq (request_host x rq)
       ((detect_protocols x (rq_headers rq) new_ctx)\<lparr> cx_client_tls := rq_tls rq,
          cx_client_host := request_authority x rq, cx_client_ip := rq_client_ip rq \<rparr>) r = (m', ctx', out)"
    then show ?thesis
      by (rule route_request_traffic [OF assms(1-3), rotated]) (simp add: detect_protocols_def new_ctx_selection)
  next
    assume "m' = px_routes px \<and> cx_upstream_selection ctx' = None"
    then show ?thesis using assms(1,2) by (auto simp: opened_def intro!: exI [of _ "tr_pending s"])
  qed
  then obtain pend where r: "traffic_reachable (x_b64 x) (x_argon2 x)
      (s\<lparr> tr_rm := m', tr_open := tr_open s + opened (cx_upstream_selection ctx'), tr_pending := pend \<rparr>)"
    and o: "cx_upstream_selection ctx' \<noteq> None \<longrightarrow> out = Forward" by blast
  have "traffic_reachable (x_b64 x) (x_argon2 x)
      (s\<lparr> tr_rm := fst (logging x later m' rq status ctx'), tr_pending := pend \<rparr>)"
  proof (cases "cx_upstream_selection ctx'")
    case None
    then show ?thesis using r by (simp add: logging_def opened_def)
  next
    case (Some sel)
    then show ?thesis
      using traffic_reachable.reach_step [OF r traffic_step.step_complete, of sel]
      by (cases s) (simp add: logging_def opened_def)
  qed
  then show ?thesis using r o by blast
qed

theorem request_lifecycle_is_traffic_witness:
  "\<exists>m' ctx' out pend. request_filter list_headers 0 demo_proxy demo_request new_ctx = (m', ctx', out) \<and>
    traffic_reachable (x_b64 list_headers) (x_argon2 list_headers)
      (traffic_init\<lparr> tr_rm := fst (logging list_headers 1 m' demo_request (Some 200) ctx'), tr_pending := pend \<rparr>)"
proof -
  obtain m' ctx' out where f: "request_filter list_headers 0 demo_proxy demo_request new_ctx = (m', ctx', out)"
    by (metis prod.collapse)
  have sz: "size (tr_open (traffic_init\<lparr> tr_rm := add_route route_manager_new demo_route \<rparr>)) + 1 < 2 ^ 64"
    by (simp add: traffic_init_def)
  show ?thesis
    using request_lifecycle_is_traffic [OF demo_traffic demo_proxy_routes sz f, of 1 "Some 200"] f by auto
qed

section \<open>The callback of the login gate\<close>

lemma safe_return_path_same_site: "same_site_path (safe_return_path path)"
  using same_site_root by (auto simp: safe_return_path_def same_site_pathI split: option.splits)

text \<open>
  C5. The callback on a gated domain hands out a session cookie only in exchange for a pass that
  was issued for this very domain to a user the gate admits, and the cookie holds a session token
  for that user and domain; it is hidden from scripts, and secure on https. Whatever the query
  says, it redirects only to a path of the same site. Every other callback gets a 403 without a
  cookie.
\<close>

theorem gate_callback_sound:
  "let response = gate_callback x now px rq host is_tls gate;
       pass = query_param (x_form_parse x (unwrap_or (rq_query rq) [])) ''pass''
   in (case map_of (rp_headers response) ''Set-Cookie'' of
         Some cookie \<Rightarrow>
           \<exists>token user session. pass = Some token \<and>
             verify_gate_token (x_jwt x) now (px_jwt_secret px) token host Pass = Some user \<and>
             gate_allows px gate user \<and>
             issue_gate_token (x_jwt x) now (px_jwt_secret px) user host Session = Some session \<and>
             cookie = gate_session_cookie session is_tls
       | None \<Rightarrow> rp_status response = 403) \<and>
      (\<forall>location. map_of (rp_headers response) ''Location'' = Some location \<longrightarrow> same_site_path location)"
  by (auto simp: gate_callback_def Let_def write_text_def safe_return_path_same_site
      bind_eq_Some_conv split: option.splits if_splits)

theorem gate_callback_sound_witness:
  "same_site_path ''/'' \<and>
   map_of (rp_headers (gate_callback (list_headers\<lparr> x_jwt := demo_jwt\<lparr> jwt_encode := \<lambda>_ _. Some ''s'' \<rparr> \<rparr>)
       (seconds 100) demo_proxy
       (demo_request\<lparr> rq_query := Some ''return=//evil.example&pass=token'' \<rparr>) ''adminer.example.com'' True
       \<lparr> rlg_owner_id = 7, rlg_scope = OwnerScope \<rparr>)) ''Location'' = Some ''/''"
proof -
  let ?r = "gate_callback (list_headers\<lparr> x_jwt := demo_jwt\<lparr> jwt_encode := \<lambda>_ _. Some ''s'' \<rparr> \<rparr>)
       (seconds 100) demo_proxy
       (demo_request\<lparr> rq_query := Some ''return=//evil.example&pass=token'' \<rparr>) ''adminer.example.com'' True
       \<lparr> rlg_owner_id = 7, rlg_scope = OwnerScope \<rparr>"
  have "query_param (split_pairs ''return=//evil.example&pass=token'') ''pass'' = Some ''token''"
    "safe_return_path (query_param (split_pairs ''return=//evil.example&pass=token'') ''return'') = ''/''"
    "verify_gate_token demo_jwt (seconds 100) ''s3cret'' ''token'' ''adminer.example.com'' Pass = Some 7"
    by code_simp+
  then have l: "map_of (rp_headers ?r) ''Location'' = Some ''/''"
    by (simp add: gate_callback_def list_headers_def demo_proxy_def verify_gate_token_def gate_allows_def
        issue_gate_token_def Let_def)
  with gate_callback_sound [of "list_headers\<lparr> x_jwt := demo_jwt\<lparr> jwt_encode := \<lambda>_ _. Some ''s'' \<rparr> \<rparr>"
      "seconds 100" demo_proxy "demo_request\<lparr> rq_query := Some ''return=//evil.example&pass=token'' \<rparr>"
      "''adminer.example.com''" True "\<lparr> rlg_owner_id = 7, rlg_scope = OwnerScope \<rparr>"]
  show ?thesis unfolding Let_def by blast
qed

section \<open>Cookies of the app\<close>

lemma map_filter_concat: "List.map_filter f (concat xss) = concat (map (List.map_filter f) xss)"
  by (induction xss) (simp_all add: List.map_filter_def)

lemma map_filter_comp_trim:
  "List.map_filter (\<lambda>w. f (trim w)) ws = List.map_filter f (map trim ws)"
  by (simp add: List.map_filter_def comp_def filter_map)

text \<open>The pairs of one header value.\<close>

definition value_pairs :: "string \<Rightarrow> (string \<times> string) list" where
  "value_pairs v = List.map_filter (split_once CHR ''='') (map trim (split_char CHR '';'' v))"

lemma cookie_pairs_values:
  "cookie_pairs x h = concat (map value_pairs (List.map_filter (x_to_str x) (x_get_all x h ''cookie'')))"
  by (simp add: cookie_pairs_def map_filter_comp_trim value_pairs_def [abs_def] map_concat map_filter_concat
      comp_def)

lemma value_pairs_trim: "value_pairs (trim v) = value_pairs v"
proof -
  have "\<not> is_whitespace CHR '';''" by code_simp
  then show ?thesis by (simp add: value_pairs_def trim_split_trim)
qed

lemma trim_split_join:
  assumes "vs \<noteq> []"
  shows "map trim (split_char CHR '';'' (join ''; '' vs)) = concat (map (map trim \<circ> split_char CHR '';'') vs)"
  using assms
proof (induction vs rule: induct_list012)
  case (3 v w vs)
  have "is_whitespace CHR '' ''" "\<not> is_whitespace CHR '';''" by code_simp+
  note trim_split_Cons_space [OF this]
  then show ?case
    using 3 by (simp add: split_char_append_sep)
qed simp_all

lemma value_pairs_join:
  assumes "vs \<noteq> []"
  shows "value_pairs (join ''; '' vs) = concat (map value_pairs vs)"
  using assms by (simp add: value_pairs_def [abs_def] trim_split_join map_filter_concat comp_def)

lemma split_once_first: "split_once c p = Some (a, b) \<Longrightarrow> a = split_first c p"
  by (auto simp: split_once_eq_Some split_first_def takeWhile_append)

lemma map_filter_simps:
  "List.map_filter f [] = []"
  "List.map_filter f (y # ys) = (case f y of None \<Rightarrow> List.map_filter f ys | Some z \<Rightarrow> z # List.map_filter f ys)"
  by (auto simp: List.map_filter_def split: option.splits)

lemma map_filter_all_Some: "(\<And>v. v \<in> set vs \<Longrightarrow> f v = Some v) \<Longrightarrow> List.map_filter f vs = vs"
  by (induction vs) (simp_all add: map_filter_simps)

lemma concat_map_filter_singles:
  "(\<And>w. w \<in> set ws \<Longrightarrow> g w = List.map_filter f [w]) \<Longrightarrow> concat (map g ws) = List.map_filter f ws"
  by (induction ws) (auto simp: map_filter_simps split: option.splits)

lemma pairs_of_kept:
  "List.map_filter (split_once CHR ''='')
     (filter (\<lambda>pair. split_first CHR ''='' pair \<noteq> name) (filter (\<lambda>pair. pair \<noteq> []) ps)) =
   filter (\<lambda>(key, _). key \<noteq> name) (List.map_filter (split_once CHR ''='') ps)"
  by (induction ps) (auto simp: map_filter_simps dest: split_once_first split: option.splits)

lemma value_pairs_kept:
  "concat (map value_pairs (if kept_cookies name v = [] then [] else [join ''; '' (kept_cookies name v)])) =
   filter (\<lambda>(key, _). key \<noteq> name) (value_pairs v)"
proof -
  have k: "value_pairs w = List.map_filter (split_once CHR ''='') [w]" if "w \<in> set (kept_cookies name v)" for w
  proof -
    from that obtain u where "w = trim u" and "CHR '';'' \<notin> set u"
      using split_char_no_sep by (auto simp: kept_cookies_def)
    then have "CHR '';'' \<notin> set w"
      by (auto simp: trim_def trim_start_def trim_end_def dest!: set_dropWhileD)
    then show ?thesis using \<open>w = trim u\<close> by (simp add: value_pairs_def split_char_single)
  qed
  have "concat (map value_pairs (kept_cookies name v)) = List.map_filter (split_once CHR ''='') (kept_cookies name v)"
    using concat_map_filter_singles [of "kept_cookies name v"] k by blast
  also have "\<dots> = filter (\<lambda>(key, _). key \<noteq> name) (value_pairs v)"
    unfolding kept_cookies_def value_pairs_def by (rule pairs_of_kept)
  finally show ?thesis by (cases "kept_cookies name v = []") (auto simp: value_pairs_join)
qed

lemma header_lawsD:
  assumes "header_laws x"
  shows "x_get x h k = (case x_get_all x h k of [] \<Rightarrow> None | v # _ \<Rightarrow> Some v)"
    and "x_get_all x (x_remove x h k) k' = (if eq_ignore_ascii_case k k' then [] else x_get_all x h k')"
    and "x_insert x h k v = Some h' \<Longrightarrow>
      x_get_all x h' k' = (if eq_ignore_ascii_case k k' then [v] else x_get_all x h k')"
    and "x_to_str x v = (if list_all header_visible v then Some v else None)"
  using assms unfolding header_laws_def by blast+

definition readable_cookies :: "('h, 'x) proxy_api_scheme \<Rightarrow> 'h \<Rightarrow> bool" where
  "readable_cookies x h \<longleftrightarrow>
     list_all (\<lambda>v. list_all header_visible v \<and> trim v \<noteq> []) (x_get_all x h ''cookie'')"

lemma set_trim: "c \<in> set (trim v) \<Longrightarrow> c \<in> set v"
  by (auto simp: trim_def trim_start_def trim_end_def dest!: set_dropWhileD)

lemma set_split_char: "w \<in> set (split_char c v) \<Longrightarrow> d \<in> set w \<Longrightarrow> d \<in> set v"
  by (induction c v arbitrary: w rule: split_char.induct) (fastforce split: if_splits list.splits)+

lemma set_join: "c \<in> set (join sep vs) \<Longrightarrow> c \<in> set sep \<or> (\<exists>v \<in> set vs. c \<in> set v)"
  by (induction sep vs rule: join.induct) auto

lemma trim_eq_Nil_iff: "trim v = [] \<longleftrightarrow> (\<forall>c \<in> set v. is_whitespace c)"
proof
  assume "trim v = []"
  then show "\<forall>c \<in> set v. is_whitespace c"
    unfolding trim_def trim_end_def trim_start_def
    by (metis dropWhile_eq_Nil_conv hd_dropWhile hd_in_set rev_is_Nil_conv set_rev)
next
  assume "\<forall>c \<in> set v. is_whitespace c"
  then have "dropWhile is_whitespace v = []" by simp
  then show "trim v = []" by (simp only: trim_def trim_start_def trim_end_Nil)
qed

lemma visible_join:
  assumes "\<And>v. v \<in> set vs \<Longrightarrow> list_all header_visible v"
  shows "list_all header_visible (join ''; '' vs)"
proof -
  have "list_all header_visible ''; ''" by code_simp
  then show ?thesis using assms set_join by (fastforce simp: list_all_iff)
qed

lemma readable_cookie_pairs:
  assumes "header_laws x" and "readable_cookies x h"
  shows "cookie_pairs x h = concat (map value_pairs (x_get_all x h ''cookie''))"
proof -
  have "x_to_str x v = Some v" if "v \<in> set (x_get_all x h ''cookie'')" for v
    using assms that by (auto simp: header_lawsD(4) readable_cookies_def list_all_iff)
  then show ?thesis by (simp add: cookie_pairs_values map_filter_all_Some)
qed

text \<open>After merging there is at most one \<open>cookie\<close> header, with the same cookies.\<close>

lemma merge_cookie_headers_pairs:
  assumes laws: "header_laws x" and r: "readable_cookies x h" and m: "merge_cookie_headers x h = Some h'"
  shows "readable_cookies x h' \<and> length (x_get_all x h' ''cookie'') \<le> 1 \<and> cookie_pairs x h' = cookie_pairs x h"
proof -
  let ?vs = "x_get_all x h ''cookie''"
  have "x_to_str x v = Some v" if "v \<in> set ?vs" for v
    using laws r that by (auto simp: header_lawsD(4) readable_cookies_def list_all_iff)
  then have "List.map_filter (x_to_str x) ?vs = ?vs" by (rule map_filter_all_Some)
  moreover have "filter (\<lambda>v. v \<noteq> []) (map trim ?vs) = map trim ?vs"
    using r by (auto simp: readable_cookies_def list_all_iff filter_id_conv)
  ultimately have vs: "filter (\<lambda>v. v \<noteq> []) (map trim (List.map_filter (x_to_str x) ?vs)) = map trim ?vs" by simp
  show ?thesis
  proof (cases "length ?vs < 2")
    case True
    then show ?thesis using m r by (simp add: merge_cookie_headers_def vs)
  next
    case False
    let ?j = "join ''; '' (map trim ?vs)"
    have all: "x_get_all x h' ''cookie'' = [?j]"
      using m False laws by (simp add: merge_cookie_headers_def vs header_lawsD(3))
    have vis: "list_all header_visible ?j"
      using r set_trim by (intro visible_join) (fastforce simp: readable_cookies_def list_all_iff)
    have ne: "?vs \<noteq> []" using False by auto
    have "\<not> is_whitespace CHR '';''" by code_simp
    then have "trim ?j \<noteq> []"
      using False by (cases ?vs rule: remdups_adj.cases) (auto simp: trim_eq_Nil_iff)
    then have r': "readable_cookies x h'" using all vis by (simp add: readable_cookies_def)
    have "cookie_pairs x h' = concat (map value_pairs (map trim ?vs))"
      using readable_cookie_pairs [OF laws r'] all ne by (simp add: value_pairs_join)
    then show ?thesis
      using r' all readable_cookie_pairs [OF laws r] by (simp add: comp_def value_pairs_trim)
  qed
qed

lemma strip_cookie_pairs:
  assumes laws: "header_laws x" and r: "readable_cookies x h"
    and one: "length (x_get_all x h ''cookie'') \<le> 1" and st: "strip_cookie x h name = Some h'"
  shows "list_all (list_all header_visible) (x_get_all x h' ''cookie'') \<and> length (x_get_all x h' ''cookie'') \<le> 1 \<and>
    concat (map value_pairs (x_get_all x h' ''cookie'')) = filter (\<lambda>(key, _). key \<noteq> name) (cookie_pairs x h)"
proof (cases "x_get_all x h ''cookie''")
  case Nil
  then have "h' = h" using st by (simp add: strip_cookie_def get_str_def header_lawsD(1) [OF laws])
  then show ?thesis using Nil readable_cookie_pairs [OF laws r] by simp
next
  case (Cons v vs)
  with one have v: "x_get_all x h ''cookie'' = [v]" by simp
  have vis: "list_all header_visible v" using r v by (simp add: readable_cookies_def)
  then have g: "get_str x h ''cookie'' = Some v"
    by (simp add: get_str_def header_lawsD(1,4) [OF laws] v)
  have all: "x_get_all x h' ''cookie'' =
      (if kept_cookies name v = [] then [] else [join ''; '' (kept_cookies name v)])"
    using st header_lawsD(2,3) [OF laws] by (auto simp: strip_cookie_def g Let_def split: if_splits)
  have "list_all header_visible w" if "w \<in> set (kept_cookies name v)" for w
  proof -
    from that obtain u where "u \<in> set (split_char CHR '';'' v)" "w = trim u" by (auto simp: kept_cookies_def)
    then show ?thesis
      using vis set_trim set_split_char by (fastforce simp: list_all_iff)
  qed
  then have "list_all header_visible (join ''; '' (kept_cookies name v))" by (rule visible_join)
  moreover have "cookie_pairs x h = value_pairs v"
    using readable_cookie_pairs [OF laws r] v by simp
  ultimately show ?thesis
    unfolding all value_pairs_kept by simp
qed

lemma insert_other_cookies:
  assumes "header_laws x" and "x_insert x h k v = Some h'" and "\<not> eq_ignore_ascii_case k ''cookie''"
  shows "x_get_all x h' ''cookie'' = x_get_all x h ''cookie''"
  using header_lawsD(3) [OF assms(1,2)] assms(3) by simp

lemma forwarded_names:
  "\<not> eq_ignore_ascii_case ''X-Forwarded-Proto'' ''cookie''" "\<not> eq_ignore_ascii_case ''X-Forwarded-Host'' ''cookie''"
  "\<not> eq_ignore_ascii_case ''X-Forwarded-For'' ''cookie''" "\<not> eq_ignore_ascii_case ''X-Real-IP'' ''cookie''"
  "\<not> eq_ignore_ascii_case ''X-Accel-Buffering'' ''cookie''"
  by code_simp+

lemma set_forwarded_headers_cookies:
  assumes "header_laws x" and "set_forwarded_headers x h ctx = Some h'"
  shows "x_get_all x h' ''cookie'' = x_get_all x h ''cookie''"
proof -
  note keep = insert_other_cookies [OF assms(1)]
  from assms(2) obtain h1 h2 where
    h1: "x_insert x h ''X-Forwarded-Proto'' (if cx_client_tls ctx then ''https'' else ''http'') = Some h1"
    and h2: "(if cx_client_host ctx \<noteq> [] then x_insert x h1 ''X-Forwarded-Host'' (cx_client_host ctx)
        else Some h1) = Some h2"
    and h': "(\<exists>ip v h3. x_insert x h2 ''X-Forwarded-For'' v = Some h3 \<and> x_insert x h3 ''X-Real-IP'' ip = Some h') \<or>
        h' = h2"
    unfolding set_forwarded_headers_def bind_eq_Some_conv Let_def
    by (cases "cx_client_ip ctx") (simp, blast, simp add: bind_eq_Some_conv, blast)
  have "x_get_all x h2 ''cookie'' = x_get_all x h ''cookie''"
    using keep [OF h1 forwarded_names(1)] h2 keep [OF _ forwarded_names(2), of h1 "cx_client_host ctx" h2]
    by (simp split: if_splits)
  moreover have "x_get_all x h' ''cookie'' = x_get_all x h2 ''cookie''"
    using h' keep [OF _ forwarded_names(3)] keep [OF _ forwarded_names(4)] by metis
  ultimately show ?thesis by simp
qed

text \<open>
  C3. If the client's \<open>cookie\<close> headers are readable (visible ASCII and not blank), the app behind the proxy
  does not see the cookie of the login gate, and every other cookie reaches it unchanged and in order, however
  many \<open>cookie\<close> headers the client sent: the request that goes upstream has at most one, whose pairs
  are those of the client without \<open>containr_gate\<close>. Without the condition it is false:
  \<open>unreadable_cookie_leaks_gate_cookie\<close> below is a request whose gate cookie goes upstream.
\<close>

theorem gate_cookie_stays_in_proxy:
  assumes "header_laws x" and "readable_cookies x h" and "upstream_request_filter x h ctx = Some h'"
  shows "cookie_pairs x h' = filter (\<lambda>(key, _). key \<noteq> GATE_COOKIE) (cookie_pairs x h) \<and>
    cookie_value x h' GATE_COOKIE = None \<and> length (x_get_all x h' ''cookie'') \<le> 1"
proof -
  from assms(3) obtain h1 h2 h3 where h1: "merge_cookie_headers x h = Some h1"
    and h2: "strip_cookie x h1 GATE_COOKIE = Some h2" and h3: "set_forwarded_headers x h2 ctx = Some h3"
    and h': "(if cx_is_sse ctx then x_insert x h3 ''X-Accel-Buffering'' ''no'' else Some h3) = Some h'"
    by (auto simp: upstream_request_filter_def bind_eq_Some_conv)
  have m: "readable_cookies x h1" "length (x_get_all x h1 ''cookie'') \<le> 1" "cookie_pairs x h1 = cookie_pairs x h"
    using merge_cookie_headers_pairs [OF assms(1,2) h1] by auto
  have "x_get_all x h' ''cookie'' = x_get_all x h3 ''cookie''"
    using h' insert_other_cookies [OF assms(1) _ forwarded_names(5), of h3 "''no''" h'] by (auto split: if_splits)
  then have all: "x_get_all x h' ''cookie'' = x_get_all x h2 ''cookie''"
    using set_forwarded_headers_cookies [OF assms(1) h3] by simp
  note st = strip_cookie_pairs [OF assms(1) m(1,2) h2]
  have "x_to_str x v = Some v" if "v \<in> set (x_get_all x h2 ''cookie'')" for v
    using st that by (auto simp: header_lawsD(4) [OF assms(1)] list_all_iff)
  then have "cookie_pairs x h' = filter (\<lambda>(key, _). key \<noteq> GATE_COOKIE) (cookie_pairs x h)"
    using st m(3) by (simp add: cookie_pairs_values all map_filter_all_Some)
  then show ?thesis
    using st all by (auto simp: cookie_value_def find_None_iff)
qed

lemma list_headers_forward: "\<exists>h'. upstream_request_filter list_headers h ctx = Some h'"
proof -
  define ins where "ins = (\<lambda>h k v. the (x_insert list_headers h k v))"
  have ins: "x_insert list_headers h k v = Some (ins h k v)" for h k v
    by (simp add: ins_def list_headers_def)
  have "\<exists>h'. merge_cookie_headers list_headers h = Some h'" "\<exists>h'. strip_cookie list_headers h n = Some h'" for h n
    by (auto simp: merge_cookie_headers_def strip_cookie_def Let_def ins split: option.splits)
  moreover have "\<exists>h'. set_forwarded_headers list_headers h ctx = Some h'" for h
    by (simp add: set_forwarded_headers_def Let_def ins split: option.splits)
  ultimately show ?thesis
    unfolding upstream_request_filter_def ins bind_eq_Some_conv by (metis (full_types))
qed

theorem gate_cookie_stays_in_proxy_witness:
  "\<exists>h'. upstream_request_filter list_headers
       [(''Cookie'', ''a=1; containr_gate=t''), (''cookie'', ''b=2'')] new_ctx = Some h' \<and>
     cookie_pairs list_headers h' = [(''a'', ''1''), (''b'', ''2'')]"
proof -
  let ?h = "[(''Cookie'', ''a=1; containr_gate=t''), (''cookie'', ''b=2'')]"
  have r: "readable_cookies list_headers ?h" by code_simp
  obtain h' where u: "upstream_request_filter list_headers ?h new_ctx = Some h'"
    using list_headers_forward by blast
  have "filter (\<lambda>(key, _). key \<noteq> GATE_COOKIE) (cookie_pairs list_headers ?h) = [(''a'', ''1''), (''b'', ''2'')]"
    by code_simp
  then show ?thesis
    using gate_cookie_stays_in_proxy [OF list_headers_laws r u] u by auto
qed

text \<open>
  The condition on readable cookie headers is needed: if the first \<open>cookie\<close> header is not visible
  ASCII, it alone is left out of the merge and makes \<open>strip_cookie\<close> return early, so that the gate
  cookie in the second header goes upstream.
\<close>

theorem unreadable_cookie_leaks_gate_cookie:
  "let h = [(''cookie'', [CHR 0xFF]), (''cookie'', ''containr_gate=t'')] in
   merge_cookie_headers list_headers h = Some h \<and> strip_cookie list_headers h GATE_COOKIE = Some h \<and>
   cookie_value list_headers h GATE_COOKIE = Some ''t''"
  by code_simp

end
