(* ===== verification/Toposort.thy ===== *)
theory Toposort
  imports Models "HOL-Library.Multiset"
begin

text \<open>
  The order in which the services of a project are rolled out: \<open>topological_sort_services\<close> of
  \<open>crates/containr-runtime/src/worker.rs\<close>, Kahn's algorithm on the names of the services.

  The \<open>HashMap\<close>s are maps. The one place where their iteration order matters is the initial
  queue, so the order is an argument (\<open>order\<close>, the keys of \<open>in_degree\<close> as the map happens to yield
  them). A \<open>usize\<close> decrement below zero is a panic; \<open>None\<close> stands for it and for a loop that does
  not end, and the theorems show that neither happens. The degrees count list entries, so they
  stay far from \<open>2 ^ 64\<close> and are natural numbers here.
\<close>

section \<open>The algorithm\<close>

type_synonym degrees = "string \<rightharpoonup> nat"
type_synonym edges = "string \<rightharpoonup> string list"

definition init_graph :: "container_service list \<Rightarrow> degrees \<times> edges" where
  "init_graph services =
     foldl (\<lambda>(in_degree, adj_list) s. (in_degree(s_name s \<mapsto> 0), adj_list(s_name s \<mapsto> [])))
       (Map.empty, Map.empty) services"

text \<open>A name that is no service of the project is ignored.\<close>

definition add_dependency :: "string \<Rightarrow> degrees \<times> edges \<Rightarrow> string \<Rightarrow> degrees \<times> edges" where
  "add_dependency name g dep =
     (case g of (in_degree, adj_list) \<Rightarrow>
        (case adj_list dep of
           None \<Rightarrow> (in_degree, adj_list)
         | Some es \<Rightarrow>
             (case in_degree name of
                None \<Rightarrow> in_degree
              | Some degree \<Rightarrow> in_degree(name \<mapsto> degree + 1),
              adj_list(dep \<mapsto> es @ [name]))))"

definition build_graph :: "container_service list \<Rightarrow> degrees \<times> edges" where
  "build_graph services =
     foldl (\<lambda>g s. foldl (add_dependency (s_name s)) g (s_depends_on s)) (init_graph services) services"

fun relax :: "string list \<Rightarrow> degrees \<Rightarrow> string list \<Rightarrow> (degrees \<times> string list) option" where
  "relax [] in_degree queue = Some (in_degree, queue)"
| "relax (neighbor # neighbors) in_degree queue =
     (case in_degree neighbor of
        None \<Rightarrow> relax neighbors in_degree queue
      | Some degree \<Rightarrow>
          if degree = 0 then None
          else relax neighbors (in_degree(neighbor \<mapsto> degree - 1))
                 (if degree - 1 = 0 then queue @ [neighbor] else queue))"

partial_function (option) kahn ::
  "(string \<rightharpoonup> container_service) \<Rightarrow> edges \<Rightarrow> string list \<Rightarrow> degrees \<Rightarrow> string set
     \<Rightarrow> container_service list \<Rightarrow> container_service list option" where
  "kahn name_to_service adj_list queue in_degree visited sorted_services =
     (case queue of
        [] \<Rightarrow> Some sorted_services
      | name # queue \<Rightarrow>
          if name \<in> visited then kahn name_to_service adj_list queue in_degree visited sorted_services
          else
            let sorted_services = (case name_to_service name of None \<Rightarrow> sorted_services | Some s \<Rightarrow> sorted_services @ [s])
            in (case adj_list name of
                  None \<Rightarrow> kahn name_to_service adj_list queue in_degree (insert name visited) sorted_services
                | Some neighbors \<Rightarrow>
                    (case relax neighbors in_degree queue of
                       None \<Rightarrow> None
                     | Some (in_degree, queue) \<Rightarrow>
                         kahn name_to_service adj_list queue in_degree (insert name visited) sorted_services)))"

declare kahn.simps [code]

definition topological_sort_services ::
  "string list \<Rightarrow> container_service list \<Rightarrow> (string + container_service list) option" where
  "topological_sort_services order services =
     (let name_to_service = collect_map s_name services;
          (in_degree, adj_list) = build_graph services;
          queue = filter (\<lambda>name. in_degree name = Some 0) order
      in map_option
           (\<lambda>sorted_services. if length sorted_services \<noteq> length services
                     then Inl ''circular dependency detected in services'' else Inr sorted_services)
           (kahn name_to_service adj_list queue in_degree {} []))"

section \<open>The graph\<close>

definition names :: "container_service list \<Rightarrow> string set" where
  "names services = s_name ` set services"

text \<open>\<open>(d, n)\<close>: the service \<open>n\<close> has to wait for the service \<open>d\<close> of the same project.\<close>

definition depends :: "container_service list \<Rightarrow> (string \<times> string) set" where
  "depends services =
     {(d, s_name s) | d s. s \<in> set services \<and> d \<in> set (s_depends_on s) \<and> d \<in> names services}"

text \<open>The edges from the services in \<open>K\<close> into \<open>n\<close>.\<close>

definition edges_into :: "edges \<Rightarrow> string set \<Rightarrow> string \<Rightarrow> nat" where
  "edges_into adj K n = (\<Sum>k \<in> K. count_list (unwrap_or (adj k) []) n)"

definition graph_ok :: "string set \<Rightarrow> degrees \<times> edges \<Rightarrow> bool" where
  "graph_ok K g \<longleftrightarrow> dom (fst g) = K \<and> dom (snd g) = K \<and>
     (\<forall>n \<in> K. fst g n = Some (edges_into (snd g) K n))"

definition edge_set :: "edges \<Rightarrow> (string \<times> string) set" where
  "edge_set adj = {(k, n). \<exists>es. adj k = Some es \<and> n \<in> set es}"

lemma finite_names [simp]: "finite (names services)"
  by (simp add: names_def)

lemma init_graph_fold:
  "foldl (\<lambda>(in_degree, adj_list) s. (in_degree(s_name s \<mapsto> 0), adj_list(s_name s \<mapsto> []))) (d, a) services =
   (\<lambda>n. if n \<in> names services then Some 0 else d n, \<lambda>n. if n \<in> names services then Some [] else a n)"
  by (induction services arbitrary: d a) (auto simp: names_def fun_eq_iff)

lemma init_graph_ok:
  "graph_ok (names services) (init_graph services)" "edge_set (snd (init_graph services)) = {}"
proof -
  have i: "init_graph services = (\<lambda>n. if n \<in> names services then Some 0 else None,
      \<lambda>n. if n \<in> names services then Some [] else None)"
    by (simp add: init_graph_def init_graph_fold)
  have "edges_into (snd (init_graph services)) (names services) n = 0" for n
    by (simp add: i edges_into_def)
  then show "graph_ok (names services) (init_graph services)"
    by (auto simp: graph_ok_def i split: if_splits)
  show "edge_set (snd (init_graph services)) = {}"
    by (auto simp: edge_set_def i)
qed

lemma edges_into_add:
  assumes "finite K" and "adj dep = Some es" and "dep \<in> K"
  shows "edges_into (adj(dep \<mapsto> es @ [name])) K n = edges_into adj K n + (if n = name then 1 else 0)"
proof -
  have "edges_into adj K n = count_list es n + (\<Sum>k \<in> K - {dep}. count_list (unwrap_or (adj k) []) n)"
    using assms by (simp add: edges_into_def sum.remove)
  moreover have "edges_into (adj(dep \<mapsto> es @ [name])) K n =
      count_list (es @ [name]) n + (\<Sum>k \<in> K - {dep}. count_list (unwrap_or (adj k) []) n)"
    using assms by (simp add: edges_into_def sum.remove)
  ultimately show ?thesis by simp
qed

lemma add_dependency_ok:
  assumes "finite K" and "graph_ok K g" and "name \<in> K"
  shows "graph_ok K (add_dependency name g dep)"
    and "edge_set (snd (add_dependency name g dep)) = edge_set (snd g) \<union> ({dep} \<inter> K) \<times> {name}"
proof -
  obtain d a where g: "g = (d, a)" by fastforce
  have "d name = Some (edges_into a K name)" and K: "dom d = K" "dom a = K"
    and dn: "\<And>n. n \<in> K \<Longrightarrow> d n = Some (edges_into a K n)"
    using assms(2,3) by (auto simp: graph_ok_def g)
  show "graph_ok K (add_dependency name g dep)"
  proof (cases "a dep")
    case None
    then show ?thesis using assms(2) by (simp add: g add_dependency_def)
  next
    case (Some es)
    then have "dep \<in> K" using K by auto
    note edges_into_add [where adj = a and dep = dep, OF assms(1) Some this]
    then show ?thesis
      using dn K assms(3) \<open>dep \<in> K\<close> by (auto simp: graph_ok_def g add_dependency_def Some)
  qed
  show "edge_set (snd (add_dependency name g dep)) = edge_set (snd g) \<union> ({dep} \<inter> K) \<times> {name}"
    using K by (auto simp: edge_set_def g add_dependency_def split: option.splits if_splits)
qed

lemma add_dependencies_ok:
  assumes "finite K" and "graph_ok K g" and "name \<in> K"
  shows "graph_ok K (foldl (add_dependency name) g deps) \<and>
    edge_set (snd (foldl (add_dependency name) g deps)) = edge_set (snd g) \<union> (set deps \<inter> K) \<times> {name}"
  using assms
proof (induction deps arbitrary: g)
  case (Cons dep deps)
  then show ?case
    using add_dependency_ok [OF Cons.prems] by auto
qed simp

lemma build_graph_fold:
  assumes "finite K" and "graph_ok K g" and "names services \<subseteq> K"
  shows "graph_ok K (foldl (\<lambda>g s. foldl (add_dependency (s_name s)) g (s_depends_on s)) g services) \<and>
    edge_set (snd (foldl (\<lambda>g s. foldl (add_dependency (s_name s)) g (s_depends_on s)) g services)) =
      edge_set (snd g) \<union> {(d, s_name s) | d s. s \<in> set services \<and> d \<in> set (s_depends_on s) \<and> d \<in> K}"
  using assms
proof (induction services arbitrary: g)
  case (Cons s services)
  then have "s_name s \<in> K" by (auto simp: names_def)
  note step = add_dependencies_ok [OF assms(1) Cons.prems(2) this, of "s_depends_on s"]
  then show ?case
    using Cons.IH [OF assms(1), of "foldl (add_dependency (s_name s)) g (s_depends_on s)"] Cons.prems(3)
    by (auto simp: names_def)
qed simp

lemma build_graph_ok:
  "graph_ok (names services) (build_graph services)"
  "edge_set (snd (build_graph services)) = depends services"
  using build_graph_fold [OF finite_names init_graph_ok(1), of services services] init_graph_ok(2)
  by (auto simp: build_graph_def depends_def)

section \<open>One round of the loop\<close>

text \<open>
  The degrees of the neighbours go down by the number of edges, never below zero, and exactly
  those that arrive at zero are queued.
\<close>

lemma relax_spec:
  assumes "\<And>m c. d m = Some c \<Longrightarrow> count_list ns m \<le> c" and "set ns \<subseteq> dom d"
  shows "\<exists>d' q'. relax ns d q = Some (d', q') \<and>
    d' = (\<lambda>m. map_option (\<lambda>c. c - count_list ns m) (d m)) \<and>
    set q' = set q \<union> {m \<in> set ns. d' m = Some 0}"
  using assms
proof (induction ns arbitrary: d q)
  case Nil
  then show ?case by (auto simp: option.map_ident)
next
  case (Cons n ns)
  obtain c where c: "d n = Some c" using Cons.prems(2) by auto
  then have pos: "c \<noteq> 0" "count_list ns n < c" using Cons.prems(1) [OF c] by auto
  let ?d = "d(n \<mapsto> c - 1)" and ?q = "if c - 1 = 0 then q @ [n] else q"
  have "count_list ns m \<le> c'" if "?d m = Some c'" for m c'
    using that pos Cons.prems(1) [of m c'] by (auto split: if_splits)
  moreover have "set ns \<subseteq> dom ?d" using Cons.prems(2) by auto
  ultimately obtain d' q' where r: "relax ns ?d ?q = Some (d', q')"
    and d': "d' = (\<lambda>m. map_option (\<lambda>c. c - count_list ns m) (?d m))"
    and q': "set q' = set ?q \<union> {m \<in> set ns. d' m = Some 0}"
    using Cons.IH by blast
  have "d' = (\<lambda>m. map_option (\<lambda>c. c - count_list (n # ns) m) (d m))"
    using c by (auto simp: d' fun_eq_iff)
  moreover have "set q' = set q \<union> {m \<in> set (n # ns). d' m = Some 0}"
  proof -
    have "d' n = Some 0 \<longleftrightarrow> n \<in> set ns \<or> c - 1 = 0" if "count_list ns n = c - 1"
      using that pos d' count_list_0_iff [of ns n] by auto
    moreover have "d' n = Some 0 \<Longrightarrow> count_list ns n = c - 1"
      using pos d' by auto
    moreover have "c - 1 = 0 \<Longrightarrow> d' n = Some 0" using d' by simp
    ultimately show ?thesis using q' by auto
  qed
  ultimately show ?case using r c pos(1) by auto
qed

text \<open>
  The invariant of the loop. \<open>vs\<close> are the names visited so far, in order; \<open>K\<close> and \<open>E\<close> are the nodes
  and edges of the graph.
\<close>

definition kahn_inv ::
  "string set \<Rightarrow> (string \<times> string) set \<Rightarrow> edges \<Rightarrow> string list \<Rightarrow> string list \<Rightarrow> degrees \<Rightarrow> bool" where
  "kahn_inv K E adj vs queue d \<longleftrightarrow>
     distinct vs \<and> set vs \<subseteq> K \<and> set queue \<subseteq> K \<and> dom d = K \<and>
     (\<forall>n \<in> K. d n = Some (edges_into adj (K - set vs) n)) \<and>
     (\<forall>n \<in> set vs \<union> set queue. d n = Some 0) \<and>
     (\<forall>n \<in> K. d n = Some 0 \<longrightarrow> n \<in> set vs \<union> set queue) \<and>
     (\<forall>i < length vs. \<forall>m. (m, vs ! i) \<in> E \<longrightarrow> m \<in> set (take i vs))"

lemma edges_into_remove:
  "finite K \<Longrightarrow> k \<in> K \<Longrightarrow> edges_into adj K n = count_list (unwrap_or (adj k) []) n + edges_into adj (K - {k}) n"
  by (simp add: edges_into_def sum.remove)

lemma edges_into_zero:
  assumes "finite K" and "edges_into adj K n = 0" and "(m, n) \<in> edge_set adj"
  shows "m \<notin> K"
  using assms by (auto simp: edges_into_def edge_set_def count_list_0_iff)

lemma kahn_inv_skip:
  "kahn_inv K E adj vs (n # queue) d \<Longrightarrow> n \<in> set vs \<Longrightarrow> kahn_inv K E adj vs queue d"
proof -
  assume inv: "kahn_inv K E adj vs (n # queue) d" and "n \<in> set vs"
  then have eq: "set vs \<union> set (n # queue) = set vs \<union> set queue" by auto
  show ?thesis using inv unfolding kahn_inv_def eq by simp
qed

lemma kahn_inv_visit:
  assumes inv: "kahn_inv K (edge_set adj) adj vs (n # queue) d" and new: "n \<notin> set vs" and fin: "finite K"
    and dom: "dom adj = K" and ns: "adj n = Some ns" and sub: "set ns \<subseteq> K"
  shows "\<exists>d' queue'. relax ns d queue = Some (d', queue') \<and>
    kahn_inv K (edge_set adj) adj (vs @ [n]) queue' d'"
proof -
  have nK: "n \<in> K" and d: "\<And>m. m \<in> K \<Longrightarrow> d m = Some (edges_into adj (K - set vs) m)"
    and domd: "dom d = K" and z: "d n = Some 0"
    using inv by (auto simp: kahn_inv_def)
  have split: "edges_into adj (K - set vs) m = count_list ns m + edges_into adj (K - set (vs @ [n])) m" for m
    using edges_into_remove [of "K - set vs" n adj m] fin nK new ns
    by (simp add: Diff_insert [symmetric] insert_commute)
  have "count_list ns m \<le> c" if "d m = Some c" for m c
    using that d split domd by fastforce
  then obtain d' queue' where r: "relax ns d queue = Some (d', queue')"
    and d': "d' = (\<lambda>m. map_option (\<lambda>c. c - count_list ns m) (d m))"
    and q': "set queue' = set queue \<union> {m \<in> set ns. d' m = Some 0}"
    using relax_spec [of d ns queue] sub domd by blast
  have d'K: "d' m = Some (edges_into adj (K - set (vs @ [n])) m)" if "m \<in> K" for m
    using d [OF that] split [of m] by (simp add: d')
  have keep: "d' m = Some 0" if "d m = Some 0" for m using that by (simp add: d')
  have fresh: "m \<in> set ns" if "d' m = Some 0" "d m \<noteq> Some 0" for m
    using that by (cases "count_list ns m = 0") (auto simp: d' count_list_0_iff)
  have preds: "m \<in> set vs" if "(m, n) \<in> edge_set adj" for m
  proof -
    have "edges_into adj (K - set vs) n = 0" using d [OF nK] z by simp
    then have "m \<notin> K - set vs" using edges_into_zero fin that by blast
    then show ?thesis using that dom by (auto simp: edge_set_def)
  qed
  have "kahn_inv K (edge_set adj) adj (vs @ [n]) queue' d'"
    unfolding kahn_inv_def
  proof (intro conjI)
    show "\<forall>m \<in> set (vs @ [n]) \<union> set queue'. d' m = Some 0"
      using inv keep q' z by (auto simp: kahn_inv_def)
    show "\<forall>m \<in> K. d' m = Some 0 \<longrightarrow> m \<in> set (vs @ [n]) \<union> set queue'"
    proof (intro ballI impI)
      fix m assume m: "m \<in> K" "d' m = Some 0"
      show "m \<in> set (vs @ [n]) \<union> set queue'"
      proof (cases "d m = Some 0")
        case True
        then have "m \<in> set vs \<union> set (n # queue)" using inv m(1) unfolding kahn_inv_def by blast
        then show ?thesis using q' by auto
      next
        case False
        then show ?thesis using fresh [OF m(2) False] q' m(2) by simp
      qed
    qed
    show "\<forall>i < length (vs @ [n]). \<forall>m. (m, (vs @ [n]) ! i) \<in> edge_set adj \<longrightarrow> m \<in> set (take i (vs @ [n]))"
      using inv preds by (auto simp: kahn_inv_def nth_append less_Suc_eq)
    show "dom d' = K" using domd by (auto simp: d' dom_def)
  qed (use inv new nK q' sub d'K in \<open>auto simp: kahn_inv_def\<close>)
  then show ?thesis using r by blast
qed

text \<open>From any state with the invariant the loop ends, without a panic, in one with an empty queue.\<close>

lemma kahn_ends:
  assumes "finite K" and "dom adj = K" and "dom nts = K" and "\<And>k es. adj k = Some es \<Longrightarrow> set es \<subseteq> K"
    and "kahn_inv K (edge_set adj) adj vs queue d"
  shows "\<exists>vs' d'. kahn nts adj queue d (set vs) (map (the \<circ> nts) vs) = Some (map (the \<circ> nts) vs') \<and>
    kahn_inv K (edge_set adj) adj vs' [] d'"
  using assms(5)
proof (induction "card (K - set vs)" arbitrary: vs queue d rule: less_induct)
  case less
  note outer = less.hyps
  show ?case
    using less.prems
  proof (induction queue)
    case Nil
    then show ?case by (auto simp: kahn.simps)
  next
    case (Cons n queue)
    show ?case
    proof (cases "n \<in> set vs")
      case True
      then show ?thesis
        using Cons.IH [OF kahn_inv_skip [OF Cons.prems True]] by (simp add: kahn.simps [of nts adj "n # queue"])
    next
      case False
      have nK: "n \<in> K" using Cons.prems by (simp add: kahn_inv_def)
      then obtain ns s where ns: "adj n = Some ns" and s: "nts n = Some s" using assms(2,3) by blast
      obtain d' queue' where r: "relax ns d queue = Some (d', queue')"
        and inv: "kahn_inv K (edge_set adj) adj (vs @ [n]) queue' d'"
        using kahn_inv_visit [OF Cons.prems False assms(1,2) ns assms(4) [OF ns]] by blast
      have "card (K - set (vs @ [n])) < card (K - set vs)"
        using assms(1) nK False by (intro psubset_card_mono) auto
      from outer [OF this inv] show ?thesis
        using False r ns s by (simp add: kahn.simps [of nts adj "n # queue"] comp_def)
    qed
  qed
qed

section \<open>Correctness of the order\<close>

text \<open>Every dependency inside the project stands before the service that names it.\<close>

definition dependencies_first :: "container_service list \<Rightarrow> bool" where
  "dependencies_first out \<longleftrightarrow>
     (\<forall>i < length out. \<forall>d \<in> set (s_depends_on (out ! i)).
        d \<in> names out \<longrightarrow> d \<in> names (take i out))"

lemma kahn_start:
  assumes "set order = names services" and "build_graph services = (d, adj)"
  shows "kahn_inv (names services) (edge_set adj) adj [] (filter (\<lambda>n. d n = Some 0) order) d"
  using build_graph_ok(1) [of services] assms by (auto simp: kahn_inv_def graph_ok_def)

lemma acyclic_iff_all_visited:
  assumes "finite K" and inv: "kahn_inv K (edge_set adj) adj vs [] d" and dom: "dom adj = K"
    and sub: "\<And>k es. adj k = Some es \<Longrightarrow> set es \<subseteq> K"
  shows "acyclic (edge_set adj) \<longleftrightarrow> set vs = K"
proof
  have E: "edge_set adj \<subseteq> K \<times> K" using dom sub by (fastforce simp: edge_set_def)
  assume "acyclic (edge_set adj)"
  moreover have "finite (edge_set adj)" using E assms(1) finite_subset by blast
  ultimately have wf: "wf (edge_set adj)" by (rule finite_acyclic_wf [rotated])
  show "set vs = K"
  proof (rule ccontr)
    assume "set vs \<noteq> K"
    then obtain n where "n \<in> K - set vs" using inv by (auto simp: kahn_inv_def)
    then obtain n where n: "n \<in> K - set vs" "\<And>m. (m, n) \<in> edge_set adj \<Longrightarrow> m \<notin> K - set vs"
      using wfE_min [OF wf, of n "K - set vs"] by blast
    have "edges_into adj (K - set vs) n = 0"
      unfolding edges_into_def
    proof (rule sum.neutral, intro ballI)
      fix k assume k: "k \<in> K - set vs"
      then show "count_list (unwrap_or (adj k) []) n = 0"
        using n(2) [of k] by (cases "adj k") (auto simp: edge_set_def count_list_0_iff)
    qed
    then have "d n = Some 0" using inv n(1) by (simp add: kahn_inv_def)
    then have "n \<in> set vs \<union> set []" using inv n(1) unfolding kahn_inv_def by blast
    then show False using n(1) by simp
  qed
next
  assume all: "set vs = K"
  have E: "edge_set adj \<subseteq> K \<times> K" using dom sub by (fastforce simp: edge_set_def)
  define pos where "pos n = (LEAST i. i < length vs \<and> vs ! i = n)" for n
  have pos: "pos n < length vs \<and> vs ! pos n = n" if "n \<in> K" for n
  proof -
    have "\<exists>i. i < length vs \<and> vs ! i = n" using that all by (auto simp: in_set_conv_nth)
    from LeastI_ex [OF this] show ?thesis unfolding pos_def .
  qed
  have inj: "i = pos (vs ! i)" if "i < length vs" for i
  proof -
    have "distinct vs" using inv by (simp add: kahn_inv_def)
    moreover have "vs ! i \<in> K" using that all nth_mem by blast
    ultimately show ?thesis
      using pos [of "vs ! i"] that nth_eq_iff_index_eq [of vs "pos (vs ! i)" i] by simp
  qed
  have "edge_set adj \<subseteq> measure pos"
  proof clarsimp
    fix m n assume mn: "(m, n) \<in> edge_set adj"
    then have n: "n \<in> K" using E by auto
    then have "m \<in> set (take (pos n) vs)"
      using inv pos [OF n] mn unfolding kahn_inv_def by auto
    then obtain j where "j < pos n" "j < length vs" "m = vs ! j" by (auto simp: in_set_conv_nth)
    then show "pos m < pos n" using inj by metis
  qed
  then show "acyclic (edge_set adj)" using wf_acyclic wf_measure wf_subset by blast
qed

text \<open>What the algorithm returns, in terms of the names it visited.\<close>

lemma topological_sort_result:
  assumes "set order = names services"
  shows "\<exists>vs. distinct vs \<and> set vs \<subseteq> names services \<and> (acyclic (depends services) \<longleftrightarrow> set vs = names services) \<and>
    (\<forall>i < length vs. \<forall>m. (m, vs ! i) \<in> depends services \<longrightarrow> m \<in> set (take i vs)) \<and>
    topological_sort_services order services =
      Some (if length vs \<noteq> length services then Inl ''circular dependency detected in services''
            else Inr (map (the \<circ> collect_map s_name services) vs))"
proof -
  obtain d adj where g: "build_graph services = (d, adj)" by fastforce
  have ok: "dom adj = names services" "edge_set adj = depends services"
    using build_graph_ok [of services] by (simp_all add: g graph_ok_def)
  have sub: "set es \<subseteq> names services" if "adj k = Some es" for k es
  proof
    fix n assume "n \<in> set es"
    then have "(k, n) \<in> depends services" using that ok(2) by (auto simp: edge_set_def)
    then show "n \<in> names services" by (auto simp: depends_def names_def)
  qed
  have nts: "dom (collect_map s_name services) = names services"
    using collect_map_None [of s_name services] by (auto simp: names_def dom_def)
  obtain vs d' where k: "kahn (collect_map s_name services) adj (filter (\<lambda>n. d n = Some 0) order) d {} [] =
      Some (map (the \<circ> collect_map s_name services) vs)"
    and inv: "kahn_inv (names services) (edge_set adj) adj vs [] d'"
    using kahn_ends [OF finite_names ok(1) nts _ kahn_start [OF assms g]] sub by auto
  show ?thesis
    using acyclic_iff_all_visited [OF finite_names inv ok(1) sub] inv k
    by (intro exI [of _ vs]) (auto simp: topological_sort_services_def g ok(2) kahn_inv_def Let_def)
qed

text \<open>
  C31. The rollout order is right and always found: whatever the iteration order of the hash map, for
  services with distinct names the sort ends without a panic; it returns a permutation of the
  services in which every dependency inside the project comes before its dependants exactly if
  the dependencies have no cycle, and the error otherwise. Dependencies on other names play no
  role.
\<close>

theorem topological_sort_correct:
  assumes "set order = names services" and "distinct (map s_name services)"
  shows "\<exists>r. topological_sort_services order services = Some r \<and>
    (case r of
       Inr out \<Rightarrow> mset out = mset services \<and> dependencies_first out \<and> acyclic (depends services)
     | Inl _ \<Rightarrow> \<not> acyclic (depends services))"
proof -
  obtain vs where vs: "distinct vs" "set vs \<subseteq> names services"
    and ac: "acyclic (depends services) \<longleftrightarrow> set vs = names services"
    and before: "\<And>i m. i < length vs \<Longrightarrow> (m, vs ! i) \<in> depends services \<Longrightarrow> m \<in> set (take i vs)"
    and r: "topological_sort_services order services =
      Some (if length vs \<noteq> length services then Inl ''circular dependency detected in services''
            else Inr (map (the \<circ> collect_map s_name services) vs))"
    using topological_sort_result [OF assms(1)] by blast
  have card: "length vs = length services \<longleftrightarrow> set vs = names services"
    using vs assms(2) by (metis card_subset_eq distinct_card finite_names length_map list.set_map names_def)
  show ?thesis
  proof (cases "set vs = names services")
    case False
    then show ?thesis using r card ac by auto
  next
    case True
    let ?out = "map (the \<circ> collect_map s_name services) vs"
    have svc: "(the \<circ> collect_map s_name services) (s_name s) = s" if "s \<in> set services" for s
      using collect_map_distinct [OF assms(2) that] by simp
    have "mset vs = mset (map s_name services)"
      using vs(1) assms(2) True set_eq_iff_mset_eq_distinct [of vs "map s_name services"] by (simp add: names_def)
    then have "mset ?out = mset (map (the \<circ> collect_map s_name services) (map s_name services))"
      by (metis mset_map)
    also have "map (the \<circ> collect_map s_name services) (map s_name services) = services"
      using svc by (simp add: map_idI)
    finally have m: "mset ?out = mset services" .
    have nm: "s_name ((the \<circ> collect_map s_name services) n) = n" if "n \<in> set vs" for n
      using that True svc by (auto simp: names_def)
    have "dependencies_first ?out"
      unfolding dependencies_first_def
    proof (intro allI impI ballI)
      fix i d assume i: "i < length ?out" and d: "d \<in> set (s_depends_on (?out ! i))" "d \<in> names ?out"
      have "?out ! i \<in> set services" using i m by (metis mset_eq_setD nth_mem)
      then have "(d, vs ! i) \<in> depends services"
        using d i m nm [of "vs ! i"] mset_eq_setD [OF m] by (force simp: depends_def names_def)
      then have "d \<in> set (take i vs)" using before i by simp
      then show "d \<in> names (take i ?out)"
        using nm by (force simp: names_def take_map dest: in_set_takeD)
    qed
    then show ?thesis using r card True ac m by simp
  qed
qed

definition demo_service :: "string \<Rightarrow> string list \<Rightarrow> container_service" where
  "demo_service name deps = (container_service_new 0 0 1 name ''img'' 80)\<lparr> s_depends_on := deps \<rparr>"

definition demo_services :: "container_service list" where
  "demo_services = [demo_service ''web'' [''api'', ''postgres''], demo_service ''api'' [''worker''], demo_service ''worker'' []]"

lemma demo_services_names:
  "set [''worker'', ''web'', ''api''] = names demo_services" "distinct (map s_name demo_services)"
  by code_simp+

lemma demo_services_sorted:
  "map_option (map_sum id (map s_name)) (topological_sort_services [''worker'', ''web'', ''api''] demo_services) =
     Some (Inr [''worker'', ''api'', ''web''])"
  by code_simp

theorem topological_sort_correct_witness:
  "\<exists>out. topological_sort_services [''worker'', ''web'', ''api''] demo_services = Some (Inr out) \<and>
     dependencies_first out \<and> map s_name out = [''worker'', ''api'', ''web'']"
proof -
  obtain r where "topological_sort_services [''worker'', ''web'', ''api''] demo_services = Some r"
    and "map_sum id (map s_name) r = Inr [''worker'', ''api'', ''web'']"
    using demo_services_sorted by auto
  then obtain out where "topological_sort_services [''worker'', ''web'', ''api''] demo_services = Some (Inr out)"
    and "map s_name out = [''worker'', ''api'', ''web'']"
    by (cases r) auto
  then show ?thesis
    using topological_sort_correct [OF demo_services_names] by auto
qed

text \<open>
  Two services of one name make every rollout fail, with the message about a circular
  dependency, although there may be none: the sort sees each name once.
\<close>

theorem duplicate_names_reported_as_cycle:
  assumes "set order = names services" and "\<not> distinct (map s_name services)"
  shows "topological_sort_services order services = Some (Inl ''circular dependency detected in services'')"
proof -
  obtain vs where vs: "distinct vs" "set vs \<subseteq> names services"
    and r: "topological_sort_services order services =
      Some (if length vs \<noteq> length services then Inl ''circular dependency detected in services''
            else Inr (map (the \<circ> collect_map s_name services) vs))"
    using topological_sort_result [OF assms(1)] by blast
  have "length vs \<le> card (names services)"
    using vs by (metis card_mono distinct_card finite_names)
  also have "\<dots> < length (map s_name services)"
    using assms(2) by (metis card_distinct card_length le_neq_implies_less list.set_map names_def)
  finally show ?thesis using r by simp
qed

theorem duplicate_names_reported_as_cycle_witness:
  "topological_sort_services [''web''] [demo_service ''web'' [], demo_service ''web'' []] =
     Some (Inl ''circular dependency detected in services'')"
proof -
  have "set [''web''] = names [demo_service ''web'' [], demo_service ''web'' []]"
    "\<not> distinct (map s_name [demo_service ''web'' [], demo_service ''web'' []])" by code_simp+
  then show ?thesis by (rule duplicate_names_reported_as_cycle)
qed

end
