(* ===== verification/Deploy_Pause.thy ===== *)
theory Deploy_Pause
  imports Rust_Prelude
begin

text \<open>
  How a self-update keeps out of the way of deployments: the two flags of
  \<open>crates/containr-runtime/src/worker.rs\<close> (\<open>DEPLOYMENTS_PAUSED\<close>, \<open>DEPLOYMENT_RUNNING\<close>), the loop of
  the worker that takes jobs (\<open>run\<close>, \<open>begin_deployment\<close>), and \<open>install_update\<close> with
  \<open>wait_for_running_deployment\<close> of \<open>crates/containr-api/src/handlers/updates.rs\<close>.

  The flags are atomics with sequentially consistent accesses, so the program is an interleaving
  of single loads and stores. One worker task runs; install requests are HTTP handlers, any number
  at once, numbered by \<open>nat\<close>. Each step of the relation is one access to a flag (or the work between
  two of them). Downloading, verifying and swapping the binary are not modelled: each may fail at
  any time, which is what the steps to \<open>InstallFailed\<close> say. After the restart the process is a new
  one, so a handler in \<open>Restarted\<close> takes no further step.
\<close>

section \<open>State\<close>

text \<open>
  Where the worker is: waiting for a job, before the store of \<open>true\<close> in the loop of
  \<open>begin_deployment\<close>, before the load of the pause flag, before the store of \<open>false\<close>, asleep
  between two polls, or in \<open>process_job\<close>.
\<close>

datatype worker_pc = Receiving | StoreRunning | LoadPaused | UnstoreRunning | Sleeping | Processing

text \<open>
  Where an install request is: not begun, past the swap of \<open>INSTALLING\<close>, past
  \<open>pause_deployments\<close> (download and verification), in the loop of
  \<open>wait_for_running_deployment\<close>, past it (backup, rename, restart delay), restarted; or failed and
  before \<open>resume_deployments\<close>, before the release of \<open>INSTALLING\<close>, or answered.
\<close>

datatype install_pc =
  NotBegun | Swapped | Downloading | Waiting | Replacing | Restarted | InstallFailed | Resumed | Answered

record pause_state =
  ps_paused :: bool
  ps_running :: bool
  ps_installing :: bool
  ps_worker :: worker_pc
  ps_install :: "nat \<Rightarrow> install_pc"

definition pause_init :: pause_state where
  "pause_init =
     \<lparr> ps_paused = False, ps_running = False, ps_installing = False, ps_worker = Receiving,
       ps_install = (\<lambda>_. NotBegun) \<rparr>"

definition pause_deployments :: "pause_state \<Rightarrow> pause_state" where
  "pause_deployments s = s\<lparr> ps_paused := True \<rparr>"

definition resume_deployments :: "pause_state \<Rightarrow> pause_state" where
  "resume_deployments s = s\<lparr> ps_paused := False \<rparr>"

definition deployment_running :: "pause_state \<Rightarrow> bool" where
  "deployment_running s = ps_running s"

section \<open>Steps\<close>

text \<open>One step of the worker; \<open>have_job\<close> says whether the channel yields a job.\<close>

definition worker_step :: "bool \<Rightarrow> pause_state \<Rightarrow> pause_state" where
  "worker_step have_job s =
     (case ps_worker s of
        Receiving \<Rightarrow> if have_job then s\<lparr> ps_worker := StoreRunning \<rparr> else s
      | StoreRunning \<Rightarrow> s\<lparr> ps_running := True, ps_worker := LoadPaused \<rparr>
      | LoadPaused \<Rightarrow>
          if \<not> ps_paused s then s\<lparr> ps_worker := Processing \<rparr> else s\<lparr> ps_worker := UnstoreRunning \<rparr>
      | UnstoreRunning \<Rightarrow> s\<lparr> ps_running := False, ps_worker := Sleeping \<rparr>
      | Sleeping \<Rightarrow> s\<lparr> ps_worker := StoreRunning \<rparr>
      | Processing \<Rightarrow> s\<lparr> ps_running := False, ps_worker := Receiving \<rparr>)"

definition set_install :: "nat \<Rightarrow> install_pc \<Rightarrow> pause_state \<Rightarrow> pause_state" where
  "set_install i pc s = s\<lparr> ps_install := (ps_install s)(i := pc) \<rparr>"

text \<open>
  One step of install request \<open>i\<close>; \<open>ok\<close> says whether what it does between two accesses succeeds (for
  \<open>Waiting\<close>, whether the deadline is still ahead).
\<close>

definition install_step :: "bool \<Rightarrow> nat \<Rightarrow> pause_state \<Rightarrow> pause_state" where
  "install_step ok i s =
     (case ps_install s i of
        NotBegun \<Rightarrow>
          if ps_installing s then set_install i Answered s
          else set_install i Swapped (s\<lparr> ps_installing := True \<rparr>)
      | Swapped \<Rightarrow> set_install i Downloading (pause_deployments s)
      | Downloading \<Rightarrow> set_install i (if ok then Waiting else InstallFailed) s
      | Waiting \<Rightarrow>
          if \<not> deployment_running s then set_install i Replacing s
          else if ok then s
          else set_install i InstallFailed s
      | Replacing \<Rightarrow> set_install i (if ok then Restarted else InstallFailed) s
      | Restarted \<Rightarrow> s
      | InstallFailed \<Rightarrow> set_install i Resumed (resume_deployments s)
      | Resumed \<Rightarrow> set_install i Answered (s\<lparr> ps_installing := False \<rparr>)
      | Answered \<Rightarrow> s)"

inductive pause_reachable :: "pause_state \<Rightarrow> bool" where
  pause_start: "pause_reachable pause_init"
| pause_worker: "pause_reachable s \<Longrightarrow> pause_reachable (worker_step have_job s)"
| pause_install: "pause_reachable s \<Longrightarrow> pause_reachable (install_step ok i s)"

section \<open>The invariant\<close>

definition holds_install :: "install_pc \<Rightarrow> bool" where
  "holds_install pc \<longleftrightarrow> pc \<notin> {NotBegun, Answered}"

definition holds_pause :: "install_pc \<Rightarrow> bool" where
  "holds_pause pc \<longleftrightarrow> pc \<in> {Downloading, Waiting, Replacing, Restarted, InstallFailed}"

definition pause_inv :: "pause_state \<Rightarrow> bool" where
  "pause_inv s \<longleftrightarrow>
     (ps_running s \<longleftrightarrow> ps_worker s \<in> {LoadPaused, UnstoreRunning, Processing}) \<and>
     (\<forall>i. holds_install (ps_install s i) \<longrightarrow> ps_installing s) \<and>
     (\<forall>i j. holds_install (ps_install s i) \<longrightarrow> holds_install (ps_install s j) \<longrightarrow> i = j) \<and>
     (\<forall>i. holds_pause (ps_install s i) \<longrightarrow> ps_paused s) \<and>
     (\<forall>i. ps_install s i \<in> {Replacing, Restarted} \<longrightarrow> ps_worker s \<noteq> Processing)"

lemmas pause_defs = pause_inv_def holds_install_def holds_pause_def

lemma pause_inv_init: "pause_inv pause_init"
  by (simp add: pause_init_def pause_defs)

lemma pause_inv_worker:
  assumes inv: "pause_inv s"
  shows "pause_inv (worker_step have_job s)"
proof -
  have "ps_paused s" if "ps_install s i \<in> {Replacing, Restarted}" for i
    using inv that by (auto simp: pause_defs)
  then show ?thesis
    using inv unfolding pause_inv_def worker_step_def by (cases "ps_worker s") auto
qed

text \<open>Where only request \<open>i\<close> is under way, the invariant is about its place alone.\<close>

lemma pause_inv_single:
  assumes "\<And>j. j \<noteq> i \<Longrightarrow> \<not> holds_install (ps_install s j)"
  shows "pause_inv s \<longleftrightarrow>
     (ps_running s \<longleftrightarrow> ps_worker s \<in> {LoadPaused, UnstoreRunning, Processing}) \<and>
     (holds_install (ps_install s i) \<longrightarrow> ps_installing s) \<and>
     (holds_pause (ps_install s i) \<longrightarrow> ps_paused s) \<and>
     (ps_install s i \<in> {Replacing, Restarted} \<longrightarrow> ps_worker s \<noteq> Processing)"
proof -
  have "holds_pause pc \<Longrightarrow> holds_install pc" "pc \<in> {Replacing, Restarted} \<Longrightarrow> holds_install pc" for pc
    by (auto simp: holds_install_def holds_pause_def)
  with assms show ?thesis unfolding pause_inv_def by metis
qed

lemmas install_step_defs =
  install_step_def set_install_def pause_deployments_def resume_deployments_def deployment_running_def

lemma install_step_others: "j \<noteq> i \<Longrightarrow> ps_install (install_step ok i s) j = ps_install s j"
  by (cases "ps_install s i") (simp_all add: install_step_defs)

lemma pause_inv_install:
  assumes inv: "pause_inv s"
  shows "pause_inv (install_step ok i s)"
proof (cases "\<forall>j. j \<noteq> i \<longrightarrow> \<not> holds_install (ps_install s j)")
  case True
  then have one: "\<And>j. j \<noteq> i \<Longrightarrow> \<not> holds_install (ps_install s j)"
    "\<And>j. j \<noteq> i \<Longrightarrow> \<not> holds_install (ps_install (install_step ok i s) j)"
    by (simp_all add: install_step_others)
  note now = pause_inv_single [of i s, OF one(1), THEN iffD1, OF _ inv, simplified]
  show ?thesis
  proof (rule pause_inv_single [of i "install_step ok i s", OF one(2), THEN iffD2])
    show "(ps_running (install_step ok i s) \<longleftrightarrow>
        ps_worker (install_step ok i s) \<in> {LoadPaused, UnstoreRunning, Processing}) \<and>
      (holds_install (ps_install (install_step ok i s) i) \<longrightarrow> ps_installing (install_step ok i s)) \<and>
      (holds_pause (ps_install (install_step ok i s) i) \<longrightarrow> ps_paused (install_step ok i s)) \<and>
      (ps_install (install_step ok i s) i \<in> {Replacing, Restarted} \<longrightarrow>
        ps_worker (install_step ok i s) \<noteq> Processing)"
      using now
      by (cases "ps_install s i") (simp_all add: install_step_defs holds_install_def holds_pause_def)
  qed simp_all
next
  case False
  then obtain j where j: "j \<noteq> i" "holds_install (ps_install s j)" by blast
  then have "ps_installing s" "\<not> holds_install (ps_install s i)" using inv by (auto simp: pause_inv_def)
  then have "install_step ok i s = s \<or> install_step ok i s = set_install i Answered s"
    by (auto simp: install_step_def holds_install_def)
  moreover have "pause_inv (set_install i Answered s)"
    using inv by (auto simp: set_install_def pause_defs)
  ultimately show ?thesis using inv by auto
qed

lemma pause_reachable_inv: "pause_reachable s \<Longrightarrow> pause_inv s"
  by (induction rule: pause_reachable.induct) (auto intro: pause_inv_init pause_inv_worker pause_inv_install)

text \<open>
  C32. A self-update never cuts off a deployment: in every interleaving of the worker with any number
  of install requests, once an install has passed the wait and is replacing the binary or
  restarting, no deployment is being processed, and none starts as long as it is there. At most
  one install request is under way at any time.
\<close>

theorem update_never_interrupts_deployment:
  assumes "pause_reachable s"
  shows "(\<forall>i. ps_install s i \<in> {Replacing, Restarted} \<longrightarrow>
      ps_worker s \<noteq> Processing \<and> ps_worker (worker_step have_job s) \<noteq> Processing) \<and>
    (\<forall>i j. holds_install (ps_install s i) \<and> holds_install (ps_install s j) \<longrightarrow> i = j)"
proof -
  have inv: "pause_inv s" "pause_inv (worker_step have_job s)"
    using assms pause_reachable_inv pause_worker by blast+
  have "ps_install (worker_step have_job s) = ps_install s"
    by (cases "ps_worker s") (simp_all add: worker_step_def)
  then show ?thesis using inv by (auto simp: pause_inv_def)
qed

text \<open>A run: a job is taken while an install goes through its wait, and has to hold off.\<close>

definition demo_pause :: pause_state where
  "demo_pause =
     worker_step False (worker_step False (worker_step True
       (install_step True 0 (install_step True 0 (install_step True 0 (install_step True 0 pause_init))))))"

lemma demo_pause_reachable: "pause_reachable demo_pause"
  unfolding demo_pause_def by (intro pause_reachable.intros)

theorem update_never_interrupts_deployment_witness:
  "ps_install demo_pause 0 = Replacing \<and> ps_worker demo_pause = UnstoreRunning \<and>
   ps_worker (worker_step True demo_pause) \<noteq> Processing"
proof -
  have "ps_install demo_pause 0 = Replacing" "ps_worker demo_pause = UnstoreRunning" by code_simp+
  then show ?thesis
    using update_never_interrupts_deployment [OF demo_pause_reachable, of True] by auto
qed

text \<open>The pause flag is only up while some install holds it.\<close>

lemma pause_owned:
  assumes "pause_reachable s" and "ps_paused s"
  shows "\<exists>i. holds_pause (ps_install s i)"
  using assms
proof (induction rule: pause_reachable.induct)
  case pause_start
  then show ?case by (simp add: pause_init_def)
next
  case (pause_worker s have_job)
  then show ?case by (auto simp: worker_step_def split: worker_pc.splits if_splits)
next
  case (pause_install s ok i)
  show ?case
  proof (cases "ps_install s i = Swapped")
    case True
    then show ?thesis
      by (intro exI [of _ i]) (simp add: install_step_def set_install_def pause_deployments_def holds_pause_def)
  next
    case False
    then have p: "ps_paused s" and i: "ps_install s i \<noteq> InstallFailed"
      using pause_install.prems
      by (auto simp: install_step_def set_install_def resume_deployments_def split: install_pc.splits if_splits)
    then obtain j where "holds_pause (ps_install s j)" using pause_install.IH by blast
    with False i show ?thesis
      by (intro exI [of _ j])
        (auto simp: install_step_def set_install_def holds_pause_def split: install_pc.splits)
  qed
qed

text \<open>
  An install that fails does not leave the deployments paused: when no install is between its
  pause and its resume, the pause flag is down, and a worker that holds a job comes to process it
  within four of its own steps.
\<close>

theorem worker_resumes_after_install:
  assumes "pause_reachable s" and "\<forall>i. \<not> holds_pause (ps_install s i)" and "ps_worker s \<noteq> Receiving"
  shows "\<not> ps_paused s \<and> (\<exists>n \<le> 4. ps_worker ((worker_step True ^^ n) s) = Processing)"
proof -
  have p: "\<not> ps_paused s" using pause_owned [OF assms(1)] assms(2) by blast
  define n :: nat where "n = (case ps_worker s of StoreRunning \<Rightarrow> 2 | LoadPaused \<Rightarrow> 1
      | UnstoreRunning \<Rightarrow> 4 | Sleeping \<Rightarrow> 3 | _ \<Rightarrow> 0)"
  have "ps_worker ((worker_step True ^^ n) s) = Processing"
    using assms(3) p by (cases "ps_worker s") (simp_all add: n_def eval_nat_numeral worker_step_def)
  moreover have "n \<le> 4" by (simp add: n_def split: worker_pc.splits)
  ultimately show ?thesis using p by blast
qed

theorem worker_resumes_after_install_witness:
  "\<exists>n \<le> 4. ps_worker ((worker_step True ^^ n) (worker_step True pause_init)) = Processing"
  using worker_resumes_after_install [OF pause_reachable.pause_worker [OF pause_reachable.pause_start], of True]
  by (simp add: pause_init_def worker_step_def holds_pause_def)

end
