(* ===== verification/Store.thy ===== *)
theory Store
  imports Managed_Services "HOL-Library.Multiset" "HOL-Library.Char_ord" "HOL-Library.List_Lexorder" "HOL-Library.Product_Lexorder"
begin

text \<open>
  The database, \<open>crates/containr-common/src/db.rs\<close>: the tables of users, projects, services,
  deployments, service deployments, both kinds of logs, certificates, registries, managed databases,
  managed queues, buckets and GitHub apps, and the operations the rest of the program calls on them.

  A table is the list of its rows in insertion order. A row holds the values themselves, not the
  JSON and RFC 3339 text the columns hold: the \<open>serde_json\<close> and \<open>chrono\<close> round trips are taken as
  exact. SQLite is not code of the repository; modelled is what the statements say together with
  the constraints of \<open>migrations/*.sql\<close>: primary keys, \<open>unique\<close>, \<open>not null\<close>, foreign keys
  (enforced, see \<open>SqliteDatabase::open\<close>) with their \<open>on delete\<close> actions, and transactions, which
  leave the store as it was when a statement fails. \<open>order by\<close> is a stable sort: rows that compare
  equal come in insertion order. I/O errors of the database are not modelled.
\<close>

section \<open>Tables\<close>

datatype db_error = NotNullViolation | UniqueViolation | ForeignKeyViolation

text \<open>
  \<open>INSERT ... ON CONFLICT(id) DO UPDATE\<close>: \<open>merge\<close> gives the row that replaces an old one, made of the
  old row and the inserted one.
\<close>

definition upsert :: "('r \<Rightarrow> 'k) \<Rightarrow> ('r \<Rightarrow> 'r \<Rightarrow> 'r) \<Rightarrow> 'r \<Rightarrow> 'r list \<Rightarrow> 'r list" where
  "upsert key merge row rows =
     (if key row \<in> key ` set rows
      then map (\<lambda>old. if key old = key row then merge old row else old) rows
      else rows @ [row])"

definition select_row :: "('r \<Rightarrow> 'k) \<Rightarrow> 'k \<Rightarrow> 'r list \<Rightarrow> 'r option" where
  "select_row key k rows = find (\<lambda>row. key row = k) rows"

record store =
  st_users :: "user list"
  st_apps :: "project list"
  st_services :: "container_service list"
  st_deployments :: "deployment list"
  st_service_deployments :: "service_deployment list"
  st_deployment_logs :: "(uuid \<times> int \<times> string) list"
  st_http_logs :: "(uuid \<times> int \<times> http_request_log) list"
  st_certificates :: "certificate list"
  st_registries :: "container_registry list"
  st_databases :: "managed_database list"
  st_queues :: "managed_queue list"
  st_buckets :: "storage_bucket list"
  st_github_apps :: "github_app_config list"

definition empty_store :: store where
  "empty_store =
     \<lparr> st_users = [], st_apps = [], st_services = [], st_deployments = [], st_service_deployments = [],
       st_deployment_logs = [], st_http_logs = [], st_certificates = [], st_registries = [],
       st_databases = [], st_queues = [], st_buckets = [], st_github_apps = [] \<rparr>"

section \<open>Deletion and its cascades\<close>

definition delete_services_where :: "(container_service \<Rightarrow> bool) \<Rightarrow> store \<Rightarrow> store" where
  "delete_services_where P st =
     (let gone = s_id ` set (filter P (st_services st))
      in st\<lparr> st_services := filter (\<lambda>s. \<not> P s) (st_services st),
             st_service_deployments :=
               filter (\<lambda>sd. sd_service_id sd \<notin> gone) (st_service_deployments st) \<rparr>)"

text \<open>\<open>on delete set null\<close> of \<open>rollback_from_deployment_id\<close>.\<close>

definition unlink_rollback :: "uuid set \<Rightarrow> deployment \<Rightarrow> deployment" where
  "unlink_rollback gone d =
     (case d_rollback_from_deployment_id d of
        Some i \<Rightarrow> if i \<in> gone then d\<lparr> d_rollback_from_deployment_id := None \<rparr> else d
      | None \<Rightarrow> d)"

definition delete_deployments_where :: "(deployment \<Rightarrow> bool) \<Rightarrow> store \<Rightarrow> store" where
  "delete_deployments_where P st =
     (let gone = d_id ` set (filter P (st_deployments st))
      in st\<lparr> st_deployments := map (unlink_rollback gone) (filter (\<lambda>d. \<not> P d) (st_deployments st)),
             st_service_deployments :=
               filter (\<lambda>sd. sd_deployment_id sd \<notin> gone) (st_service_deployments st),
             st_deployment_logs := filter (\<lambda>(i, _). i \<notin> gone) (st_deployment_logs st) \<rparr>)"

definition delete_apps_where :: "(project \<Rightarrow> bool) \<Rightarrow> store \<Rightarrow> store" where
  "delete_apps_where P st =
     (let gone = p_id ` set (filter P (st_apps st))
      in delete_deployments_where (\<lambda>d. d_app_id d \<in> gone)
           (delete_services_where (\<lambda>s. s_app_id s \<in> gone)
             (st\<lparr> st_apps := filter (\<lambda>a. \<not> P a) (st_apps st) \<rparr>)))"

section \<open>Users\<close>

definition merge_user :: "user \<Rightarrow> user \<Rightarrow> user" where
  "merge_user old u = u\<lparr> u_created_at := u_created_at old \<rparr>"

definition save_user :: "store \<Rightarrow> user \<Rightarrow> db_error + store" where
  "save_user st u =
     (if \<exists>v \<in> set (st_users st). u_email v = u_email u \<and> u_id v \<noteq> u_id u then Inl UniqueViolation
      else Inr (st\<lparr> st_users := upsert u_id merge_user u (st_users st) \<rparr>))"

definition get_user :: "store \<Rightarrow> uuid \<Rightarrow> user option" where
  "get_user st i = select_row u_id i (st_users st)"

definition list_users :: "store \<Rightarrow> user list" where
  "list_users st = sort_key u_created_at (st_users st)"

definition has_admin_user :: "store \<Rightarrow> bool" where
  "has_admin_user st = list_ex u_is_admin (list_users st)"

definition get_user_by_email :: "store \<Rightarrow> string \<Rightarrow> user option" where
  "get_user_by_email st email = select_row u_email email (st_users st)"

definition delete_user :: "store \<Rightarrow> uuid \<Rightarrow> store \<times> bool" where
  "delete_user st i =
     (delete_apps_where (\<lambda>a. p_owner_id a = i)
        (st\<lparr> st_users := filter (\<lambda>u. u_id u \<noteq> i) (st_users st),
             st_registries := filter (\<lambda>r. r_owner_id r \<noteq> i) (st_registries st),
             st_databases := filter (\<lambda>d. md_owner_id d \<noteq> i) (st_databases st),
             st_queues := filter (\<lambda>q. mq_owner_id q \<noteq> i) (st_queues st),
             st_buckets := filter (\<lambda>b. sb_owner_id b \<noteq> i) (st_buckets st),
             st_github_apps := filter (\<lambda>g. ga_owner_id g \<noteq> i) (st_github_apps st) \<rparr>),
      i \<in> u_id ` set (st_users st))"

section \<open>Registries\<close>

definition merge_registry :: "container_registry \<Rightarrow> container_registry \<Rightarrow> container_registry" where
  "merge_registry old r = r\<lparr> r_created_at := r_created_at old \<rparr>"

definition save_registry :: "store \<Rightarrow> container_registry \<Rightarrow> db_error + store" where
  "save_registry st r =
     (if r_owner_id r \<notin> u_id ` set (st_users st) then Inl ForeignKeyViolation
      else Inr (st\<lparr> st_registries := upsert r_id merge_registry r (st_registries st) \<rparr>))"

definition get_registry :: "store \<Rightarrow> uuid \<Rightarrow> container_registry option" where
  "get_registry st i = select_row r_id i (st_registries st)"

definition list_registries_by_owner :: "store \<Rightarrow> uuid \<Rightarrow> container_registry list" where
  "list_registries_by_owner st owner =
     sort_key r_created_at (filter (\<lambda>r. r_owner_id r = owner) (st_registries st))"

definition delete_registry :: "store \<Rightarrow> uuid \<Rightarrow> store \<times> bool" where
  "delete_registry st i =
     (st\<lparr> st_registries := filter (\<lambda>r. r_id r \<noteq> i) (st_registries st) \<rparr>, i \<in> r_id ` set (st_registries st))"

section \<open>Services\<close>

definition insert_service :: "store \<Rightarrow> container_service \<Rightarrow> db_error + store" where
  "insert_service st s =
     (if s_app_id s \<notin> p_id ` set (st_apps st) then Inl ForeignKeyViolation
      else Inr (st\<lparr> st_services := upsert s_id (\<lambda>old new. new) s (st_services st) \<rparr>))"

definition save_service :: "store \<Rightarrow> container_service \<Rightarrow> db_error + store" where
  "save_service st s = insert_service st s"

definition get_service :: "store \<Rightarrow> uuid \<Rightarrow> container_service option" where
  "get_service st i = select_row s_id i (st_services st)"

definition list_services_by_app :: "store \<Rightarrow> uuid \<Rightarrow> container_service list" where
  "list_services_by_app st app_id =
     sort_key s_name (filter (\<lambda>s. s_app_id s = app_id) (st_services st))"

definition delete_http_request_logs :: "store \<Rightarrow> uuid \<Rightarrow> store" where
  "delete_http_request_logs st service_id =
     st\<lparr> st_http_logs := filter (\<lambda>(i, _). i \<noteq> service_id) (st_http_logs st) \<rparr>"

definition delete_service :: "store \<Rightarrow> uuid \<Rightarrow> store \<times> bool" where
  "delete_service st i =
     (if i \<in> s_id ` set (st_services st)
      then (delete_http_request_logs (delete_services_where (\<lambda>s. s_id s = i) st) i, True)
      else (st, False))"

section \<open>Projects\<close>

text \<open>
  A row of \<open>apps\<close>: the services live in their own table, and there is no column for the legacy
  field \<open>domain\<close>.
\<close>

definition app_row :: "project \<Rightarrow> project" where
  "app_row a = a\<lparr> p_services := [], p_domain := None \<rparr>"

definition merge_app :: "project \<Rightarrow> project \<Rightarrow> project" where
  "merge_app old a = a\<lparr> p_created_at := p_created_at old \<rparr>"

fun insert_services :: "store \<Rightarrow> container_service list \<Rightarrow> db_error + store" where
  "insert_services st [] = Inr st"
| "insert_services st (s # ss) = and_then (insert_service st s) (\<lambda>st. insert_services st ss)"

definition remove_services :: "store \<Rightarrow> uuid list \<Rightarrow> store" where
  "remove_services st ids =
     foldl (\<lambda>st i. delete_http_request_logs (delete_services_where (\<lambda>s. s_id s = i) st) i) st ids"

definition save_app :: "store \<Rightarrow> project \<Rightarrow> db_error + store" where
  "save_app st a =
     (if p_deploy_webhook_token a = None then Inl NotNullViolation
      else if p_owner_id a \<notin> u_id ` set (st_users st) then Inl ForeignKeyViolation
      else
        and_then
          (insert_services (st\<lparr> st_apps := upsert p_id merge_app (app_row a) (st_apps st) \<rparr>) (p_services a))
          (\<lambda>st.
            let existing = map s_id (filter (\<lambda>s. s_app_id s = p_id a) (st_services st));
                keep = s_id ` set (p_services a)
            in Inr (remove_services st (filter (\<lambda>i. i \<notin> keep) existing))))"

definition load_app :: "store \<Rightarrow> project \<Rightarrow> project" where
  "load_app st row = row\<lparr> p_services := list_services_by_app st (p_id row) \<rparr>"

definition get_app :: "store \<Rightarrow> uuid \<Rightarrow> project option" where
  "get_app st i = map_option (load_app st) (select_row p_id i (st_apps st))"

definition list_apps :: "store \<Rightarrow> project list" where
  "list_apps st = map (load_app st) (sort_key (\<lambda>a. - p_created_at a) (st_apps st))"

definition list_apps_by_owner :: "store \<Rightarrow> uuid \<Rightarrow> project list" where
  "list_apps_by_owner st owner =
     map (load_app st) (sort_key (\<lambda>a. - p_created_at a) (filter (\<lambda>a. p_owner_id a = owner) (st_apps st)))"

definition get_app_by_domain :: "store \<Rightarrow> string \<Rightarrow> project option" where
  "get_app_by_domain st domain =
     find (\<lambda>a. domain \<in> set (project_custom_domains a)) (list_apps st)"

definition get_app_by_github_url :: "store \<Rightarrow> string \<Rightarrow> string \<Rightarrow> project option" where
  "get_app_by_github_url st github_url branch =
     find (\<lambda>a. same_repo_url (p_github_url a) github_url \<and> p_branch a = branch) (list_apps st)"

section \<open>Service deployments\<close>

definition upsert_service_deployment :: "store \<Rightarrow> service_deployment \<Rightarrow> db_error + store" where
  "upsert_service_deployment st sd =
     (if sd_service_id sd \<notin> s_id ` set (st_services st) \<or> sd_deployment_id sd \<notin> d_id ` set (st_deployments st)
      then Inl ForeignKeyViolation
      else Inr (st\<lparr> st_service_deployments :=
                      upsert sd_id (\<lambda>old new. new) sd (st_service_deployments st) \<rparr>))"

definition save_service_deployment :: "store \<Rightarrow> service_deployment \<Rightarrow> db_error + store" where
  "save_service_deployment st sd = upsert_service_deployment st sd"

definition get_service_deployment :: "store \<Rightarrow> uuid \<Rightarrow> service_deployment option" where
  "get_service_deployment st i = select_row sd_id i (st_service_deployments st)"

definition list_service_deployments :: "store \<Rightarrow> uuid \<Rightarrow> service_deployment list" where
  "list_service_deployments st deployment_id =
     sort_key (\<lambda>sd. (sd_service_id sd, sd_replica_index sd))
       (filter (\<lambda>sd. sd_deployment_id sd = deployment_id) (st_service_deployments st))"

definition list_service_deployments_by_service :: "store \<Rightarrow> uuid \<Rightarrow> service_deployment list" where
  "list_service_deployments_by_service st service_id =
     sort_key (\<lambda>sd. - sd_created_at sd)
       (filter (\<lambda>sd. sd_service_id sd = service_id) (st_service_deployments st))"

section \<open>Deployments\<close>

text \<open>
  A row of \<open>deployments\<close>: a missing commit message is stored as the empty text and read back as
  missing; the service deployments and the logs live in their own tables.
\<close>

definition deployment_row :: "deployment \<Rightarrow> deployment" where
  "deployment_row d =
     d\<lparr> d_commit_message := opt_filter (\<lambda>m. m \<noteq> []) (d_commit_message d),
        d_service_deployments := [], d_logs := [] \<rparr>"

fun insert_service_deployments :: "store \<Rightarrow> uuid \<Rightarrow> service_deployment list \<Rightarrow> db_error + store" where
  "insert_service_deployments st i [] = Inr st"
| "insert_service_deployments st i (sd # sds) =
     and_then (upsert_service_deployment st (sd\<lparr> sd_deployment_id := i \<rparr>))
       (\<lambda>st. insert_service_deployments st i sds)"

definition save_deployment :: "store \<Rightarrow> deployment \<Rightarrow> db_error + store" where
  "save_deployment st d =
     (if d_app_id d \<notin> p_id ` set (st_apps st) then Inl ForeignKeyViolation
      else
        let st = st\<lparr> st_deployments := upsert d_id (\<lambda>old new. new) (deployment_row d) (st_deployments st) \<rparr>
        in if \<not> set_option (d_rollback_from_deployment_id d) \<subseteq> d_id ` set (st_deployments st)
           then Inl ForeignKeyViolation
           else insert_service_deployments
                  (st\<lparr> st_service_deployments :=
                         filter (\<lambda>sd. sd_deployment_id sd \<noteq> d_id d) (st_service_deployments st) \<rparr>)
                  (d_id d) (d_service_deployments d))"

definition load_deployment :: "store \<Rightarrow> deployment \<Rightarrow> deployment" where
  "load_deployment st row = row\<lparr> d_service_deployments := list_service_deployments st (d_id row), d_logs := [] \<rparr>"

definition get_deployment :: "store \<Rightarrow> uuid \<Rightarrow> deployment option" where
  "get_deployment st i = map_option (load_deployment st) (select_row d_id i (st_deployments st))"

definition list_deployments_by_app :: "store \<Rightarrow> uuid \<Rightarrow> deployment list" where
  "list_deployments_by_app st app_id =
     map (load_deployment st)
       (sort_key (\<lambda>d. - d_created_at d) (filter (\<lambda>d. d_app_id d = app_id) (st_deployments st)))"

definition get_latest_deployment :: "store \<Rightarrow> uuid \<Rightarrow> deployment option" where
  "get_latest_deployment st app_id =
     (case list_deployments_by_app st app_id of [] \<Rightarrow> None | d # _ \<Rightarrow> Some d)"

definition delete_deployment :: "store \<Rightarrow> uuid \<Rightarrow> store \<times> bool" where
  "delete_deployment st i =
     (if i \<notin> d_id ` set (st_deployments st) then (st, False)
      else
        let st = delete_deployments_where (\<lambda>d. d_id d = i) st
        in (st\<lparr> st_service_deployments :=
                  filter (\<lambda>sd. sd_deployment_id sd \<noteq> i) (st_service_deployments st),
                st_deployment_logs := filter (\<lambda>(j, _). j \<noteq> i) (st_deployment_logs st) \<rparr>, True))"

definition delete_app :: "store \<Rightarrow> uuid \<Rightarrow> store \<times> bool" where
  "delete_app st i =
     (case get_app st i of
        None \<Rightarrow> (st, False)
      | Some a \<Rightarrow>
          let st = foldl (\<lambda>st d. fst (delete_deployment st (d_id d))) st (list_deployments_by_app st (p_id a));
              st = foldl (\<lambda>st s. delete_http_request_logs st (s_id s)) st (p_services a)
          in (delete_apps_where (\<lambda>b. p_id b = i) st, True))"

section \<open>Logs\<close>

text \<open>\<open>SELECT COALESCE(MAX(idx), -1) + 1\<close>: the next free index of a log.\<close>

definition next_idx :: "uuid \<Rightarrow> (uuid \<times> int \<times> 'a) list \<Rightarrow> int" where
  "next_idx i rows = Max (insert (- 1) ((fst \<circ> snd) ` set (filter (\<lambda>(j, _). j = i) rows))) + 1"

definition append_deployment_log :: "store \<Rightarrow> uuid \<Rightarrow> string \<Rightarrow> db_error + store" where
  "append_deployment_log st i line =
     (if i \<notin> d_id ` set (st_deployments st) then Inl ForeignKeyViolation
      else Inr (st\<lparr> st_deployment_logs :=
                      st_deployment_logs st @ [(i, next_idx i (st_deployment_logs st), line)] \<rparr>))"

text \<open>\<open>LIMIT\<close> and \<open>OFFSET\<close> on the lines of one deployment in order.\<close>

definition get_deployment_logs :: "store \<Rightarrow> uuid \<Rightarrow> nat \<Rightarrow> nat \<Rightarrow> string list" where
  "get_deployment_logs st i limit offset =
     take limit (drop offset
       (map (snd \<circ> snd) (sort_key (fst \<circ> snd) (filter (\<lambda>(j, _). j = i) (st_deployment_logs st)))))"

definition MAX_HTTP_REQUEST_LOGS_PER_SERVICE :: int where
  "MAX_HTTP_REQUEST_LOGS_PER_SERVICE = 2000"

definition append_http_request_log :: "store \<Rightarrow> http_request_log \<Rightarrow> store" where
  "append_http_request_log st log =
     (let i = hl_service_id log;
          rows = st_http_logs st @ [(i, next_idx i (st_http_logs st), log)];
          cut = next_idx i rows - 1 - MAX_HTTP_REQUEST_LOGS_PER_SERVICE
      in st\<lparr> st_http_logs := filter (\<lambda>(j, idx, _). \<not> (j = i \<and> idx \<le> cut)) rows \<rparr>)"

definition list_http_request_logs :: "store \<Rightarrow> uuid \<Rightarrow> nat \<Rightarrow> nat \<Rightarrow> http_request_log list" where
  "list_http_request_logs st i limit offset =
     take limit (drop offset
       (map (snd \<circ> snd) (sort_key (\<lambda>r. - fst (snd r)) (filter (\<lambda>(j, _). j = i) (st_http_logs st)))))"

section \<open>Certificates\<close>

text \<open>The conflict is on the domain: the row keeps its id.\<close>

definition merge_certificate :: "certificate \<Rightarrow> certificate \<Rightarrow> certificate" where
  "merge_certificate old c = c\<lparr> c_id := c_id old \<rparr>"

definition save_certificate :: "store \<Rightarrow> certificate \<Rightarrow> db_error + store" where
  "save_certificate st c =
     (if c_domain c \<notin> c_domain ` set (st_certificates st) \<and> c_id c \<in> c_id ` set (st_certificates st)
      then Inl UniqueViolation
      else Inr (st\<lparr> st_certificates := upsert c_domain merge_certificate c (st_certificates st) \<rparr>))"

definition get_certificate :: "store \<Rightarrow> uuid \<Rightarrow> certificate option" where
  "get_certificate st i = select_row c_id i (st_certificates st)"

definition get_certificate_by_domain :: "store \<Rightarrow> string \<Rightarrow> certificate option" where
  "get_certificate_by_domain st domain = select_row c_domain domain (st_certificates st)"

definition list_certificates :: "store \<Rightarrow> certificate list" where
  "list_certificates st = sort_key c_domain (st_certificates st)"

definition delete_certificate :: "store \<Rightarrow> uuid \<Rightarrow> store \<times> bool" where
  "delete_certificate st i =
     (st\<lparr> st_certificates := filter (\<lambda>c. c_id c \<noteq> i) (st_certificates st) \<rparr>,
      i \<in> c_id ` set (st_certificates st))"

definition delete_certificate_by_domain :: "store \<Rightarrow> string \<Rightarrow> store \<times> bool" where
  "delete_certificate_by_domain st domain =
     (st\<lparr> st_certificates := filter (\<lambda>c. c_domain c \<noteq> domain) (st_certificates st) \<rparr>,
      domain \<in> c_domain ` set (st_certificates st))"

section \<open>Managed services and GitHub apps\<close>

definition save_managed_database :: "store \<Rightarrow> managed_database \<Rightarrow> db_error + store" where
  "save_managed_database st d =
     (if md_owner_id d \<notin> u_id ` set (st_users st) then Inl ForeignKeyViolation
      else Inr (st\<lparr> st_databases := upsert md_id (\<lambda>old new. new) d (st_databases st) \<rparr>))"

definition get_managed_database :: "store \<Rightarrow> uuid \<Rightarrow> managed_database option" where
  "get_managed_database st i = select_row md_id i (st_databases st)"

definition list_managed_databases_by_owner :: "store \<Rightarrow> uuid \<Rightarrow> managed_database list" where
  "list_managed_databases_by_owner st owner =
     sort_key (\<lambda>d. - md_created_at d) (filter (\<lambda>d. md_owner_id d = owner) (st_databases st))"

definition delete_managed_database :: "store \<Rightarrow> uuid \<Rightarrow> store \<times> bool" where
  "delete_managed_database st i =
     (st\<lparr> st_databases := filter (\<lambda>d. md_id d \<noteq> i) (st_databases st) \<rparr>, i \<in> md_id ` set (st_databases st))"

definition save_managed_queue :: "store \<Rightarrow> managed_queue \<Rightarrow> db_error + store" where
  "save_managed_queue st q =
     (if mq_owner_id q \<notin> u_id ` set (st_users st) then Inl ForeignKeyViolation
      else Inr (st\<lparr> st_queues := upsert mq_id (\<lambda>old new. new) q (st_queues st) \<rparr>))"

definition get_managed_queue :: "store \<Rightarrow> uuid \<Rightarrow> managed_queue option" where
  "get_managed_queue st i = select_row mq_id i (st_queues st)"

definition list_managed_queues_by_owner :: "store \<Rightarrow> uuid \<Rightarrow> managed_queue list" where
  "list_managed_queues_by_owner st owner =
     sort_key (\<lambda>q. - mq_created_at q) (filter (\<lambda>q. mq_owner_id q = owner) (st_queues st))"

definition delete_managed_queue :: "store \<Rightarrow> uuid \<Rightarrow> store \<times> bool" where
  "delete_managed_queue st i =
     (st\<lparr> st_queues := filter (\<lambda>q. mq_id q \<noteq> i) (st_queues st) \<rparr>, i \<in> mq_id ` set (st_queues st))"

definition save_storage_bucket :: "store \<Rightarrow> storage_bucket \<Rightarrow> db_error + store" where
  "save_storage_bucket st b =
     (if sb_owner_id b \<notin> u_id ` set (st_users st) then Inl ForeignKeyViolation
      else Inr (st\<lparr> st_buckets := upsert sb_id (\<lambda>old new. new) b (st_buckets st) \<rparr>))"

definition get_storage_bucket :: "store \<Rightarrow> uuid \<Rightarrow> storage_bucket option" where
  "get_storage_bucket st i = select_row sb_id i (st_buckets st)"

definition list_storage_buckets_by_owner :: "store \<Rightarrow> uuid \<Rightarrow> storage_bucket list" where
  "list_storage_buckets_by_owner st owner =
     sort_key (\<lambda>b. - sb_created_at b) (filter (\<lambda>b. sb_owner_id b = owner) (st_buckets st))"

definition delete_storage_bucket :: "store \<Rightarrow> uuid \<Rightarrow> store \<times> bool" where
  "delete_storage_bucket st i =
     (st\<lparr> st_buckets := filter (\<lambda>b. sb_id b \<noteq> i) (st_buckets st) \<rparr>, i \<in> sb_id ` set (st_buckets st))"

text \<open>One GitHub app per owner: saving one drops the owner's others.\<close>

definition save_github_app :: "store \<Rightarrow> github_app_config \<Rightarrow> db_error + store" where
  "save_github_app st g =
     (if ga_owner_id g \<notin> u_id ` set (st_users st) then Inl ForeignKeyViolation
      else Inr (st\<lparr> st_github_apps :=
             upsert ga_id (\<lambda>old new. new) g
               (filter (\<lambda>old. \<not> (ga_owner_id old = ga_owner_id g \<and> ga_id old \<noteq> ga_id g)) (st_github_apps st)) \<rparr>))"

definition get_github_app :: "store \<Rightarrow> uuid \<Rightarrow> github_app_config option" where
  "get_github_app st owner = select_row ga_owner_id owner (st_github_apps st)"

definition delete_github_app :: "store \<Rightarrow> uuid \<Rightarrow> store \<times> bool" where
  "delete_github_app st owner =
     (st\<lparr> st_github_apps := filter (\<lambda>g. ga_owner_id g \<noteq> owner) (st_github_apps st) \<rparr>,
      owner \<in> ga_owner_id ` set (st_github_apps st))"

section \<open>The contract of a table\<close>

lemma select_row_SomeD: "select_row key k rows = Some r \<Longrightarrow> r \<in> set rows \<and> key r = k"
  by (auto simp: select_row_def find_Some_iff)

lemma select_row_None: "select_row key k rows = None \<longleftrightarrow> k \<notin> key ` set rows"
  by (auto simp: select_row_def find_None_iff)

lemma select_row_append:
  "select_row key k (rows @ [row]) =
     (case select_row key k rows of None \<Rightarrow> if key row = k then Some row else None | Some r \<Rightarrow> Some r)"
  by (induction rows) (auto simp: select_row_def)

lemma select_row_map:
  "(\<And>r. key (f r) = key r) \<Longrightarrow> select_row key k (map f rows) = map_option f (select_row key k rows)"
  by (induction rows) (auto simp: select_row_def)

lemma select_row_filter:
  "(\<And>r. r \<in> set rows \<Longrightarrow> key r = k \<Longrightarrow> P r) \<Longrightarrow> select_row key k (filter P rows) = select_row key k rows"
  by (induction rows) (auto simp: select_row_def)

lemma select_row_distinct:
  "distinct (map key rows) \<Longrightarrow> r \<in> set rows \<Longrightarrow> select_row key (key r) rows = Some r"
  by (induction rows) (auto simp: select_row_def)

text \<open>
  What every table promises, whatever its key and whatever columns an update keeps: \<open>merge\<close> keeps
  the key.
\<close>

locale sql_table =
  fixes key :: "'r \<Rightarrow> 'k" and merge :: "'r \<Rightarrow> 'r \<Rightarrow> 'r"
  assumes key_merge: "key old = key new \<Longrightarrow> key (merge old new) = key new"
begin

lemma key_update: "key (if key old = key row then merge old row else old) = key old"
  using key_merge by simp

lemma map_key_upsert:
  "map key (upsert key merge row rows) =
     (if key row \<in> key ` set rows then map key rows else map key rows @ [key row])"
  by (simp add: upsert_def comp_def key_update)

lemma keys_upsert: "key ` set (upsert key merge row rows) = insert (key row) (key ` set rows)"
proof -
  have "set (map key (upsert key merge row rows)) = insert (key row) (set (map key rows))"
    unfolding map_key_upsert by auto
  then show ?thesis by simp
qed

lemma distinct_upsert: "distinct (map key rows) \<Longrightarrow> distinct (map key (upsert key merge row rows))"
  unfolding map_key_upsert by auto

lemma find_upsert:
  "select_row key k (upsert key merge row rows) =
     (if k = key row
      then Some (case select_row key k rows of None \<Rightarrow> row | Some old \<Rightarrow> merge old row)
      else select_row key k rows)"
proof (cases "key row \<in> key ` set rows")
  case True
  then have eq: "select_row key k (upsert key merge row rows) =
      map_option (\<lambda>old. if key old = key row then merge old row else old) (select_row key k rows)"
    by (simp add: upsert_def select_row_map key_update)
  show ?thesis
    unfolding eq using True select_row_None [of key k rows]
    by (cases "select_row key k rows") (auto dest: select_row_SomeD)
next
  case False
  then show ?thesis
    using select_row_None [of key "key row" rows]
    by (cases "select_row key k rows") (auto simp: upsert_def select_row_append)
qed

lemma set_upsert:
  assumes "r \<in> set (upsert key merge row rows)"
  shows "r = row \<or> (\<exists>old \<in> set rows. key old = key row \<and> r = merge old row) \<or> r \<in> set rows \<and> key r \<noteq> key row"
  using assms by (auto simp: upsert_def split: if_splits) (metis image_eqI)

end

interpretation users: sql_table u_id merge_user
  by unfold_locales (simp add: merge_user_def)

interpretation registries: sql_table r_id merge_registry
  by unfold_locales (simp add: merge_registry_def)

interpretation apps: sql_table p_id merge_app
  by unfold_locales (simp add: merge_app_def)

interpretation services: sql_table s_id "\<lambda>old new. new"
  by unfold_locales simp

interpretation deployments: sql_table d_id "\<lambda>old new. new"
  by unfold_locales simp

interpretation service_deployments: sql_table sd_id "\<lambda>old new. new"
  by unfold_locales simp

interpretation databases: sql_table md_id "\<lambda>old new. new"
  by unfold_locales simp

interpretation queues: sql_table mq_id "\<lambda>old new. new"
  by unfold_locales simp

interpretation buckets: sql_table sb_id "\<lambda>old new. new"
  by unfold_locales simp

interpretation github_apps: sql_table ga_id "\<lambda>old new. new"
  by unfold_locales simp

interpretation certificates: sql_table c_domain merge_certificate
  by unfold_locales (simp add: merge_certificate_def)

section \<open>Referential integrity\<close>

text \<open>A foreign key: the values of \<open>f\<close> in \<open>xs\<close> are keys of \<open>ys\<close>.\<close>

definition refs :: "('a \<Rightarrow> 'k) \<Rightarrow> 'a list \<Rightarrow> ('b \<Rightarrow> 'k) \<Rightarrow> 'b list \<Rightarrow> bool" where
  "refs f xs g ys \<longleftrightarrow> f ` set xs \<subseteq> g ` set ys"

lemma refs_Nil [simp]: "refs f [] g ys"
  by (simp add: refs_def)

lemma refs_append [simp]: "refs f (xs @ zs) g ys \<longleftrightarrow> refs f xs g ys \<and> refs f zs g ys"
  by (auto simp: refs_def)

lemma refs_Cons [simp]: "refs f (x # xs) g ys \<longleftrightarrow> f x \<in> g ` set ys \<and> refs f xs g ys"
  by (auto simp: refs_def)

lemma refs_filter: "refs f xs g ys \<Longrightarrow> refs f (filter P xs) g ys"
  by (auto simp: refs_def)

lemma refs_mono: "refs f xs g ys \<Longrightarrow> g ` set ys \<subseteq> g ` set zs \<Longrightarrow> refs f xs g zs"
  by (auto simp: refs_def)

lemma refs_cascade:
  assumes "refs f xs g ys"
  shows "refs f (filter (\<lambda>x. f x \<notin> g ` {y \<in> set ys. P y}) xs) g (filter (\<lambda>y. \<not> P y) ys)"
proof -
  have "f x \<in> g ` {y \<in> set ys. \<not> P y}" if "x \<in> set xs" "f x \<notin> g ` {y \<in> set ys. P y}" for x
  proof -
    from assms that(1) obtain y where "y \<in> set ys" "f x = g y" by (auto simp: refs_def)
    with that(2) show ?thesis by blast
  qed
  then show ?thesis by (auto simp: refs_def)
qed

lemma refs_upsert:
  assumes "refs f xs g ys" and "f x \<in> g ` set ys" and "\<And>old. key old = key x \<Longrightarrow> f (merge old x) = f x"
  shows "refs f (upsert key merge x xs) g ys"
  using assms by (auto simp: refs_def upsert_def)

definition keys_ok :: "store \<Rightarrow> bool" where
  "keys_ok st \<longleftrightarrow>
     distinct (map u_id (st_users st)) \<and> distinct (map u_email (st_users st)) \<and>
     distinct (map p_id (st_apps st)) \<and> distinct (map s_id (st_services st)) \<and>
     distinct (map d_id (st_deployments st)) \<and> distinct (map sd_id (st_service_deployments st)) \<and>
     distinct (map r_id (st_registries st)) \<and>
     distinct (map md_id (st_databases st)) \<and> distinct (map mq_id (st_queues st)) \<and>
     distinct (map sb_id (st_buckets st)) \<and>
     distinct (map ga_id (st_github_apps st)) \<and> distinct (map ga_owner_id (st_github_apps st)) \<and>
     distinct (map c_id (st_certificates st)) \<and> distinct (map c_domain (st_certificates st))"

definition rollback_ok :: "deployment list \<Rightarrow> bool" where
  "rollback_ok ds \<longleftrightarrow> (\<forall>d \<in> set ds. set_option (d_rollback_from_deployment_id d) \<subseteq> d_id ` set ds)"

definition foreign_keys_ok :: "store \<Rightarrow> bool" where
  "foreign_keys_ok st \<longleftrightarrow>
     refs p_owner_id (st_apps st) u_id (st_users st) \<and> refs r_owner_id (st_registries st) u_id (st_users st) \<and>
     refs md_owner_id (st_databases st) u_id (st_users st) \<and> refs mq_owner_id (st_queues st) u_id (st_users st) \<and>
     refs sb_owner_id (st_buckets st) u_id (st_users st) \<and> refs ga_owner_id (st_github_apps st) u_id (st_users st) \<and>
     refs s_app_id (st_services st) p_id (st_apps st) \<and> refs d_app_id (st_deployments st) p_id (st_apps st) \<and>
     rollback_ok (st_deployments st) \<and>
     refs sd_service_id (st_service_deployments st) s_id (st_services st) \<and>
     refs sd_deployment_id (st_service_deployments st) d_id (st_deployments st) \<and>
     refs fst (st_deployment_logs st) d_id (st_deployments st)"

definition rows_ok :: "store \<Rightarrow> bool" where
  "rows_ok st \<longleftrightarrow>
     list_all (\<lambda>a. app_row a = a \<and> p_deploy_webhook_token a \<noteq> None) (st_apps st) \<and>
     list_all (\<lambda>d. deployment_row d = d) (st_deployments st)"

definition store_inv :: "store \<Rightarrow> bool" where
  "store_inv st \<longleftrightarrow> keys_ok st \<and> foreign_keys_ok st \<and> rows_ok st"

lemmas store_inv_defs = store_inv_def keys_ok_def foreign_keys_ok_def rows_ok_def

lemma store_inv_empty: "store_inv empty_store"
  by (simp add: store_inv_defs rollback_ok_def empty_store_def)

lemma list_all_filter: "list_all Q xs \<Longrightarrow> list_all Q (filter P xs)"
  by (auto simp: list_all_iff)

lemmas table_filter = distinct_map_filter refs_filter refs_cascade list_all_filter

lemma inv_delete_services_where:
  "store_inv st \<Longrightarrow> store_inv (delete_services_where P st)"
  by (simp add: store_inv_defs delete_services_where_def Let_def table_filter)

lemma inv_delete_http_request_logs: "store_inv st \<Longrightarrow> store_inv (delete_http_request_logs st i)"
  by (simp add: store_inv_defs delete_http_request_logs_def)

lemma app_row_id: "app_row a = a \<longleftrightarrow> p_services a = [] \<and> p_domain a = None"
  by (cases a) (auto simp: app_row_def)

lemma deployment_row_id:
  "deployment_row d = d \<longleftrightarrow> d_commit_message d \<noteq> Some [] \<and> d_service_deployments d = [] \<and> d_logs d = []"
  by (cases d) (auto simp: deployment_row_def opt_filter_def split: option.splits if_splits)

lemma unlink_rollback_simps [simp]:
  "d_id (unlink_rollback gone d) = d_id d" "d_app_id (unlink_rollback gone d) = d_app_id d"
  "deployment_row d = d \<Longrightarrow> deployment_row (unlink_rollback gone d) = unlink_rollback gone d"
  "set_option (d_rollback_from_deployment_id (unlink_rollback gone d)) =
     set_option (d_rollback_from_deployment_id d) - gone"
  by (auto simp: unlink_rollback_def deployment_row_id split: option.splits)

lemma refs_map: "(\<And>x. f (h x) = f x) \<Longrightarrow> refs f (map h xs) g ys \<longleftrightarrow> refs f xs g ys"
  by (simp add: refs_def image_image)

lemma refs_map_target: "(\<And>y. g (h y) = g y) \<Longrightarrow> refs f xs g (map h ys) \<longleftrightarrow> refs f xs g ys"
  by (simp add: refs_def image_image)

lemma rollback_ok_delete:
  assumes "rollback_ok ds"
  shows "rollback_ok (map (unlink_rollback (d_id ` {d \<in> set ds. P d})) (filter (\<lambda>d. \<not> P d) ds))"
  using assms by (fastforce simp: rollback_ok_def image_image)

lemma inv_delete_deployments_where:
  assumes inv: "store_inv st"
  shows "store_inv (delete_deployments_where P st)"
proof -
  let ?gone = "d_id ` {d \<in> set (st_deployments st). P d}"
  have "refs fst (filter (\<lambda>(i, _). i \<notin> ?gone) (st_deployment_logs st)) d_id
      (filter (\<lambda>d. \<not> P d) (st_deployments st))"
    using inv refs_cascade [of fst "st_deployment_logs st" d_id "st_deployments st" P]
    by (simp add: store_inv_defs split_def)
  moreover have "distinct (map d_id (map (unlink_rollback ?gone) (filter (\<lambda>d. \<not> P d) (st_deployments st))))"
    using inv by (simp add: store_inv_defs comp_def distinct_map_filter)
  moreover have "list_all (\<lambda>d. deployment_row d = d)
      (map (unlink_rollback ?gone) (filter (\<lambda>d. \<not> P d) (st_deployments st)))"
    using inv by (simp add: store_inv_defs list_all_iff)
  ultimately show ?thesis
    using inv
    by (simp add: store_inv_defs delete_deployments_where_def Let_def refs_map refs_map_target table_filter
        rollback_ok_delete)
qed

lemma inv_delete_apps_where:
  assumes inv: "store_inv st"
  shows "store_inv (delete_apps_where P st)"
proof -
  let ?gone = "p_id ` {a \<in> set (st_apps st). P a}"
  let ?st = "delete_deployments_where (\<lambda>d. d_app_id d \<in> ?gone) (delete_services_where (\<lambda>s. s_app_id s \<in> ?gone) st)"
  have "store_inv ?st"
    using inv by (intro inv_delete_deployments_where inv_delete_services_where)
  moreover have "delete_apps_where P st = ?st\<lparr> st_apps := filter (\<lambda>a. \<not> P a) (st_apps st) \<rparr>"
    by (simp add: delete_apps_where_def delete_deployments_where_def delete_services_where_def Let_def)
  moreover have "refs s_app_id (st_services ?st) p_id (filter (\<lambda>a. \<not> P a) (st_apps st))"
    using inv refs_cascade [of s_app_id "st_services st" p_id "st_apps st" P]
    by (simp add: store_inv_defs delete_deployments_where_def delete_services_where_def Let_def)
  moreover have "refs d_app_id (st_deployments ?st) p_id (filter (\<lambda>a. \<not> P a) (st_apps st))"
    using inv refs_cascade [of d_app_id "st_deployments st" p_id "st_apps st" P]
    by (simp add: store_inv_defs delete_deployments_where_def delete_services_where_def Let_def refs_map)
  moreover have "st_apps ?st = st_apps st"
    by (simp add: delete_deployments_where_def delete_services_where_def Let_def)
  ultimately show ?thesis by (simp add: store_inv_defs table_filter)
qed

text \<open>The same with the emails of the users.\<close>

lemma distinct_upsert_unique:
  assumes "distinct (map f rows)" and "distinct (map key rows)"
    and "\<forall>v \<in> set rows. f v = f row \<longrightarrow> key v = key row" and "\<And>old. f (merge old row) = f row"
  shows "distinct (map f (upsert key merge row rows))"
proof (cases "key row \<in> key ` set rows")
  case True
  let ?g = "\<lambda>old. if key old = key row then f row else f old"
  have "inj_on ?g (set rows)"
  proof (rule inj_onI)
    fix x y assume xy: "x \<in> set rows" "y \<in> set rows" "?g x = ?g y"
    have "inj_on f (set rows)" "inj_on key (set rows)" using assms(1,2) by (simp_all add: distinct_map)
    moreover have "key x = key row \<longleftrightarrow> key y = key row"
      using xy assms(3) by (cases "key x = key row"; cases "key y = key row") auto
    ultimately show "x = y"
      using xy by (cases "key x = key row") (simp_all add: inj_on_eq_iff, metis inj_on_eq_iff)
  qed
  moreover have "(\<lambda>old. f (if key old = key row then merge old row else old)) = ?g"
    by (auto simp: fun_eq_iff assms(4))
  ultimately have "distinct (map (\<lambda>old. f (if key old = key row then merge old row else old)) rows)"
    using assms(1) by (simp add: distinct_map)
  then show ?thesis using True by (simp add: upsert_def comp_def)
next
  case False
  have "f row \<notin> f ` set rows"
  proof
    assume "f row \<in> f ` set rows"
    then obtain v where "v \<in> set rows" "f v = f row" by auto
    then have "key row \<in> key ` set rows" using assms(3) by (metis image_eqI)
    then show False using False by simp
  qed
  then show ?thesis using assms(1) False by (simp add: upsert_def)
qed

lemma inv_save_user:
  assumes inv: "store_inv st" and "save_user st u = Inr st'"
  shows "store_inv st'"
proof -
  have st': "st' = st\<lparr> st_users := upsert u_id merge_user u (st_users st) \<rparr>"
    and uniq: "\<forall>v \<in> set (st_users st). u_email v = u_email u \<longrightarrow> u_id v = u_id u"
    using assms(2) by (auto simp: save_user_def split: if_splits)
  have "distinct (map u_email (upsert u_id merge_user u (st_users st)))"
    using inv uniq by (intro distinct_upsert_unique) (auto simp: store_inv_defs merge_user_def)
  moreover have "u_id ` set (st_users st) \<subseteq> u_id ` set (upsert u_id merge_user u (st_users st))"
    by (auto simp: users.keys_upsert)
  ultimately show ?thesis
    using inv by (auto simp: st' store_inv_defs users.distinct_upsert intro: refs_mono)
qed

lemma inv_delete_user:
  assumes inv: "store_inv st"
  shows "store_inv (fst (delete_user st i))"
proof -
  let ?st = "delete_apps_where (\<lambda>a. p_owner_id a = i) st"
  let ?users = "filter (\<lambda>u. u_id u \<noteq> i) (st_users st)"
  let ?regs = "filter (\<lambda>r. r_owner_id r \<noteq> i) (st_registries st)"
  let ?dbs = "filter (\<lambda>d. md_owner_id d \<noteq> i) (st_databases st)"
  let ?queues = "filter (\<lambda>q. mq_owner_id q \<noteq> i) (st_queues st)"
  let ?buckets = "filter (\<lambda>b. sb_owner_id b \<noteq> i) (st_buckets st)"
  let ?gh = "filter (\<lambda>g. ga_owner_id g \<noteq> i) (st_github_apps st)"
  have "fst (delete_user st i) =
      ?st\<lparr> st_users := ?users, st_registries := ?regs, st_databases := ?dbs, st_queues := ?queues,
           st_buckets := ?buckets, st_github_apps := ?gh \<rparr>"
    by (simp add: delete_user_def delete_apps_where_def delete_deployments_where_def delete_services_where_def Let_def)
  moreover have "st_apps ?st = filter (\<lambda>a. p_owner_id a \<noteq> i) (st_apps st)"
    by (simp add: delete_apps_where_def delete_deployments_where_def delete_services_where_def Let_def)
  moreover have "refs p_owner_id (filter (\<lambda>a. p_owner_id a \<noteq> i) (st_apps st)) u_id ?users"
    "refs r_owner_id ?regs u_id ?users" "refs md_owner_id ?dbs u_id ?users" "refs mq_owner_id ?queues u_id ?users"
    "refs sb_owner_id ?buckets u_id ?users" "refs ga_owner_id ?gh u_id ?users"
    using inv by (auto simp: store_inv_defs refs_def)
  ultimately show ?thesis
    using inv inv_delete_apps_where [OF inv, of "\<lambda>a. p_owner_id a = i"]
    by (simp add: store_inv_defs table_filter)
qed

lemma inv_save_registry:
  assumes inv: "store_inv st" and "save_registry st r = Inr st'"
  shows "store_inv st'"
proof -
  have st': "st' = st\<lparr> st_registries := upsert r_id merge_registry r (st_registries st) \<rparr>"
    and "r_owner_id r \<in> u_id ` set (st_users st)"
    using assms(2) by (auto simp: save_registry_def split: if_splits)
  then have "refs r_owner_id (upsert r_id merge_registry r (st_registries st)) u_id (st_users st)"
    using inv by (intro refs_upsert) (auto simp: store_inv_defs merge_registry_def)
  then show ?thesis using inv by (simp add: st' store_inv_defs registries.distinct_upsert)
qed

lemma inv_delete_registry: "store_inv st \<Longrightarrow> store_inv (fst (delete_registry st i))"
  by (simp add: store_inv_defs delete_registry_def table_filter)

lemma inv_insert_service:
  assumes inv: "store_inv st" and "insert_service st s = Inr st'"
  shows "store_inv st' \<and> st_apps st' = st_apps st"
proof -
  have st': "st' = st\<lparr> st_services := upsert s_id (\<lambda>old new. new) s (st_services st) \<rparr>"
    and app: "s_app_id s \<in> p_id ` set (st_apps st)"
    using assms(2) by (auto simp: insert_service_def split: if_splits)
  have "refs s_app_id (upsert s_id (\<lambda>old new. new) s (st_services st)) p_id (st_apps st)"
    using inv app by (intro refs_upsert) (auto simp: store_inv_defs)
  moreover have "s_id ` set (st_services st) \<subseteq> s_id ` set (upsert s_id (\<lambda>old new. new) s (st_services st))"
    by (auto simp: services.keys_upsert)
  ultimately show ?thesis
    using inv by (auto simp: st' store_inv_defs services.distinct_upsert intro: refs_mono)
qed

lemma inv_insert_services:
  "store_inv st \<Longrightarrow> insert_services st ss = Inr st' \<Longrightarrow> store_inv st' \<and> st_apps st' = st_apps st"
proof (induction ss arbitrary: st)
  case (Cons s ss)
  then show ?case using inv_insert_service by fastforce
qed simp

lemma inv_remove_services: "store_inv st \<Longrightarrow> store_inv (remove_services st ids)"
  unfolding remove_services_def
  by (induction ids arbitrary: st) (simp_all add: inv_delete_services_where inv_delete_http_request_logs)

lemma inv_upsert_app:
  assumes inv: "store_inv st" and "p_owner_id a \<in> u_id ` set (st_users st)" and "p_deploy_webhook_token a \<noteq> None"
  shows "store_inv (st\<lparr> st_apps := upsert p_id merge_app (app_row a) (st_apps st) \<rparr>)"
proof -
  let ?apps = "upsert p_id merge_app (app_row a) (st_apps st)"
  have "refs p_owner_id ?apps u_id (st_users st)"
    using inv assms(2) by (intro refs_upsert) (auto simp: store_inv_defs merge_app_def app_row_def)
  moreover have "p_id ` set (st_apps st) \<subseteq> p_id ` set ?apps"
    by (auto simp: apps.keys_upsert)
  moreover have "list_all (\<lambda>a. app_row a = a \<and> p_deploy_webhook_token a \<noteq> None) ?apps"
    using inv assms(3)
    by (auto simp: store_inv_defs list_all_iff app_row_id merge_app_def app_row_def dest!: apps.set_upsert)
  ultimately show ?thesis
    using inv by (auto simp: store_inv_defs apps.distinct_upsert intro: refs_mono)
qed

lemma save_app_InrE:
  assumes "save_app st a = Inr st'"
  obtains st1 where "p_deploy_webhook_token a \<noteq> None" "p_owner_id a \<in> u_id ` set (st_users st)"
    "insert_services (st\<lparr> st_apps := upsert p_id merge_app (app_row a) (st_apps st) \<rparr>) (p_services a) = Inr st1"
    "st' = remove_services st1 (filter (\<lambda>i. i \<notin> s_id ` set (p_services a))
       (map s_id (filter (\<lambda>s. s_app_id s = p_id a) (st_services st1))))"
  using assms by (auto simp: save_app_def Let_def split: if_splits)

lemma inv_save_app:
  assumes inv: "store_inv st" and "save_app st a = Inr st'"
  shows "store_inv st'"
  using assms(2)
proof (rule save_app_InrE)
  fix st1
  assume "p_deploy_webhook_token a \<noteq> None" "p_owner_id a \<in> u_id ` set (st_users st)"
    and ins: "insert_services (st\<lparr> st_apps := upsert p_id merge_app (app_row a) (st_apps st) \<rparr>) (p_services a) = Inr st1"
    and st': "st' = remove_services st1 (filter (\<lambda>i. i \<notin> s_id ` set (p_services a))
       (map s_id (filter (\<lambda>s. s_app_id s = p_id a) (st_services st1))))"
  then have "store_inv (st\<lparr> st_apps := upsert p_id merge_app (app_row a) (st_apps st) \<rparr>)"
    using inv by (intro inv_upsert_app)
  then show ?thesis using inv_insert_services [OF _ ins] inv_remove_services by (simp add: st')
qed

lemma inv_upsert_service_deployment:
  assumes inv: "store_inv st" and "upsert_service_deployment st sd = Inr st'"
  shows "store_inv st'"
proof -
  have st': "st' = st\<lparr> st_service_deployments := upsert sd_id (\<lambda>old new. new) sd (st_service_deployments st) \<rparr>"
    and "sd_service_id sd \<in> s_id ` set (st_services st)" "sd_deployment_id sd \<in> d_id ` set (st_deployments st)"
    using assms(2) by (auto simp: upsert_service_deployment_def split: if_splits)
  then have "refs sd_service_id (st_service_deployments st') s_id (st_services st)"
    "refs sd_deployment_id (st_service_deployments st') d_id (st_deployments st)"
    using inv by (auto simp: store_inv_defs intro!: refs_upsert)
  then show ?thesis using inv by (simp add: st' store_inv_defs service_deployments.distinct_upsert)
qed

lemma inv_insert_service_deployments:
  "store_inv st \<Longrightarrow> insert_service_deployments st i sds = Inr st' \<Longrightarrow> store_inv st'"
proof (induction sds arbitrary: st)
  case (Cons sd sds)
  then show ?case using inv_upsert_service_deployment by fastforce
qed simp

lemma inv_upsert_deployment:
  assumes inv: "store_inv st" and "d_app_id d \<in> p_id ` set (st_apps st)"
    and "set_option (d_rollback_from_deployment_id d) \<subseteq>
      d_id ` set (upsert d_id (\<lambda>old new. new) (deployment_row d) (st_deployments st))"
  shows "store_inv (st\<lparr> st_deployments := upsert d_id (\<lambda>old new. new) (deployment_row d) (st_deployments st),
      st_service_deployments := filter P (st_service_deployments st) \<rparr>)"
proof -
  let ?ds = "upsert d_id (\<lambda>old new. new) (deployment_row d) (st_deployments st)"
  have ids: "d_id ` set (st_deployments st) \<subseteq> d_id ` set ?ds"
    by (auto simp: deployments.keys_upsert)
  have "refs d_app_id ?ds p_id (st_apps st)"
    using inv assms(2) by (intro refs_upsert) (auto simp: store_inv_defs deployment_row_def)
  moreover have "rollback_ok ?ds"
    unfolding rollback_ok_def
  proof
    fix e assume e: "e \<in> set ?ds"
    then have "e = deployment_row d \<or> e \<in> set (st_deployments st)" using deployments.set_upsert by blast
    then show "set_option (d_rollback_from_deployment_id e) \<subseteq> d_id ` set ?ds"
    proof
      assume "e = deployment_row d"
      then have "d_rollback_from_deployment_id e = d_rollback_from_deployment_id d"
        by (simp add: deployment_row_def)
      then show ?thesis using assms(3) by simp
    next
      assume "e \<in> set (st_deployments st)"
      moreover have "rollback_ok (st_deployments st)" using inv by (simp add: store_inv_defs)
      ultimately show ?thesis using ids unfolding rollback_ok_def by blast
    qed
  qed
  moreover have "list_all (\<lambda>d. deployment_row d = d) ?ds"
    using inv by (auto simp: store_inv_defs list_all_iff deployment_row_id deployment_row_def opt_filter_def
        split: option.splits dest!: deployments.set_upsert)
  ultimately show ?thesis
    using inv ids
    by (auto simp: store_inv_defs deployments.distinct_upsert table_filter intro: refs_mono refs_filter)
qed

lemma save_deployment_InrE:
  assumes "save_deployment st d = Inr st'"
  obtains "d_app_id d \<in> p_id ` set (st_apps st)"
    "set_option (d_rollback_from_deployment_id d) \<subseteq>
      d_id ` set (upsert d_id (\<lambda>old new. new) (deployment_row d) (st_deployments st))"
    "insert_service_deployments
       (st\<lparr> st_deployments := upsert d_id (\<lambda>old new. new) (deployment_row d) (st_deployments st),
            st_service_deployments := filter (\<lambda>sd. sd_deployment_id sd \<noteq> d_id d) (st_service_deployments st) \<rparr>)
       (d_id d) (d_service_deployments d) = Inr st'"
  using assms by (auto simp: save_deployment_def Let_def split: if_splits)

lemma inv_save_deployment:
  assumes inv: "store_inv st" and "save_deployment st d = Inr st'"
  shows "store_inv st'"
  using assms(2) by (rule save_deployment_InrE) (rule inv_insert_service_deployments [OF inv_upsert_deployment [OF inv]])

lemma inv_delete_deployment:
  assumes "store_inv st"
  shows "store_inv (fst (delete_deployment st i))"
proof -
  have "store_inv (s\<lparr> st_service_deployments := filter P (st_service_deployments s),
      st_deployment_logs := filter Q (st_deployment_logs s) \<rparr>)" if "store_inv s" for s P Q
    using that by (simp add: store_inv_defs table_filter)
  then show ?thesis
    using assms by (simp add: delete_deployment_def Let_def inv_delete_deployments_where)
qed

lemma inv_delete_app:
  assumes "store_inv st"
  shows "store_inv (fst (delete_app st i))"
proof -
  have d: "store_inv (foldl (\<lambda>st d. fst (delete_deployment st (d_id d))) s ds)" if "store_inv s" for s ds
    using that by (induction ds arbitrary: s) (simp_all add: inv_delete_deployment)
  have h: "store_inv (foldl (\<lambda>st s. delete_http_request_logs st (s_id s)) s ss)" if "store_inv s" for s ss
    using that by (induction ss arbitrary: s) (simp_all add: inv_delete_http_request_logs)
  show ?thesis
    using assms by (simp add: delete_app_def Let_def inv_delete_apps_where h d split: option.splits)
qed

lemma inv_save_certificate:
  assumes inv: "store_inv st" and "save_certificate st c = Inr st'"
  shows "store_inv st'"
proof -
  have st': "st' = st\<lparr> st_certificates := upsert c_domain merge_certificate c (st_certificates st) \<rparr>"
    and c: "c_domain c \<in> c_domain ` set (st_certificates st) \<or> c_id c \<notin> c_id ` set (st_certificates st)"
    using assms(2) by (auto simp: save_certificate_def split: if_splits)
  have "c_id (if c_domain old = c_domain c then merge_certificate old c else old) = c_id old" for old
    by (simp add: merge_certificate_def)
  then have "distinct (map c_id (upsert c_domain merge_certificate c (st_certificates st)))"
    using inv c by (auto simp: store_inv_defs upsert_def comp_def)
  then show ?thesis using inv by (simp add: st' store_inv_defs certificates.distinct_upsert)
qed

lemma inv_filter_certificates:
  "store_inv st \<Longrightarrow> store_inv (st\<lparr> st_certificates := filter P (st_certificates st) \<rparr>)"
  by (simp add: store_inv_defs table_filter)

lemma inv_save_managed:
  assumes inv: "store_inv st"
  shows "save_managed_database st d = Inr st' \<Longrightarrow> store_inv st'"
    and "save_managed_queue st q = Inr st' \<Longrightarrow> store_inv st'"
    and "save_storage_bucket st b = Inr st' \<Longrightarrow> store_inv st'"
proof -
  assume "save_managed_database st d = Inr st'"
  then have st': "st' = st\<lparr> st_databases := upsert md_id (\<lambda>old new. new) d (st_databases st) \<rparr>"
    and o: "md_owner_id d \<in> u_id ` set (st_users st)"
    by (auto simp: save_managed_database_def split: if_splits)
  have "refs md_owner_id (upsert md_id (\<lambda>old new. new) d (st_databases st)) u_id (st_users st)"
    using inv o by (intro refs_upsert) (auto simp: store_inv_defs)
  then show "store_inv st'" using inv by (simp add: st' store_inv_defs databases.distinct_upsert)
next
  assume "save_managed_queue st q = Inr st'"
  then have st': "st' = st\<lparr> st_queues := upsert mq_id (\<lambda>old new. new) q (st_queues st) \<rparr>"
    and o: "mq_owner_id q \<in> u_id ` set (st_users st)"
    by (auto simp: save_managed_queue_def split: if_splits)
  have "refs mq_owner_id (upsert mq_id (\<lambda>old new. new) q (st_queues st)) u_id (st_users st)"
    using inv o by (intro refs_upsert) (auto simp: store_inv_defs)
  then show "store_inv st'" using inv by (simp add: st' store_inv_defs queues.distinct_upsert)
next
  assume "save_storage_bucket st b = Inr st'"
  then have st': "st' = st\<lparr> st_buckets := upsert sb_id (\<lambda>old new. new) b (st_buckets st) \<rparr>"
    and o: "sb_owner_id b \<in> u_id ` set (st_users st)"
    by (auto simp: save_storage_bucket_def split: if_splits)
  have "refs sb_owner_id (upsert sb_id (\<lambda>old new. new) b (st_buckets st)) u_id (st_users st)"
    using inv o by (intro refs_upsert) (auto simp: store_inv_defs)
  then show "store_inv st'" using inv by (simp add: st' store_inv_defs buckets.distinct_upsert)
qed

lemma inv_save_github_app:
  assumes inv: "store_inv st" and "save_github_app st g = Inr st'"
  shows "store_inv st'"
proof -
  let ?rows = "filter (\<lambda>old. \<not> (ga_owner_id old = ga_owner_id g \<and> ga_id old \<noteq> ga_id g)) (st_github_apps st)"
  have st': "st' = st\<lparr> st_github_apps := upsert ga_id (\<lambda>old new. new) g ?rows \<rparr>"
    and o: "ga_owner_id g \<in> u_id ` set (st_users st)"
    using assms(2) by (auto simp: save_github_app_def split: if_splits)
  have k: "distinct (map ga_id ?rows)" "distinct (map ga_owner_id ?rows)"
    using inv by (auto simp: store_inv_defs distinct_map_filter)
  have "refs ga_owner_id (upsert ga_id (\<lambda>old new. new) g ?rows) u_id (st_users st)"
    using inv o by (intro refs_upsert refs_filter) (auto simp: store_inv_defs)
  moreover have "distinct (map ga_owner_id (upsert ga_id (\<lambda>old new. new) g ?rows))"
    using k by (intro distinct_upsert_unique) auto
  ultimately show ?thesis using inv k by (simp add: st' store_inv_defs github_apps.distinct_upsert)
qed

lemma inv_delete_managed:
  assumes "store_inv st"
  shows "store_inv (fst (delete_managed_database st i))" "store_inv (fst (delete_managed_queue st i))"
    "store_inv (fst (delete_storage_bucket st i))" "store_inv (fst (delete_github_app st i))"
  using assms
  by (simp_all add: store_inv_defs table_filter delete_managed_database_def delete_managed_queue_def
      delete_storage_bucket_def delete_github_app_def)

text \<open>The writes of the program, in any order.\<close>

inductive store_step :: "store \<Rightarrow> store \<Rightarrow> bool" where
  "save_user st u = Inr st' \<Longrightarrow> store_step st st'"
| "store_step st (fst (delete_user st i))"
| "save_registry st r = Inr st' \<Longrightarrow> store_step st st'"
| "store_step st (fst (delete_registry st i))"
| "save_app st a = Inr st' \<Longrightarrow> store_step st st'"
| "store_step st (fst (delete_app st i))"
| "save_service st s = Inr st' \<Longrightarrow> store_step st st'"
| "store_step st (fst (delete_service st i))"
| "save_service_deployment st sd = Inr st' \<Longrightarrow> store_step st st'"
| "save_deployment st d = Inr st' \<Longrightarrow> store_step st st'"
| "store_step st (fst (delete_deployment st i))"
| "append_deployment_log st i line = Inr st' \<Longrightarrow> store_step st st'"
| "store_step st (append_http_request_log st log)"
| "store_step st (delete_http_request_logs st i)"
| "save_certificate st c = Inr st' \<Longrightarrow> store_step st st'"
| "store_step st (fst (delete_certificate st i))"
| "store_step st (fst (delete_certificate_by_domain st domain))"
| "save_managed_database st md = Inr st' \<Longrightarrow> store_step st st'"
| "store_step st (fst (delete_managed_database st i))"
| "save_managed_queue st q = Inr st' \<Longrightarrow> store_step st st'"
| "store_step st (fst (delete_managed_queue st i))"
| "save_storage_bucket st b = Inr st' \<Longrightarrow> store_step st st'"
| "store_step st (fst (delete_storage_bucket st i))"
| "save_github_app st g = Inr st' \<Longrightarrow> store_step st st'"
| "store_step st (fst (delete_github_app st i))"

lemma inv_store_step: "store_step st st' \<Longrightarrow> store_inv st \<Longrightarrow> store_inv st'"
proof (induction rule: store_step.induct)
  case (12 st i line st')
  then show ?case by (auto simp: append_deployment_log_def store_inv_defs split: if_splits)
next
  case (13 st log)
  then show ?case by (simp add: append_http_request_log_def store_inv_defs Let_def)
qed (auto simp: save_service_def save_service_deployment_def delete_service_def delete_certificate_def
    delete_certificate_by_domain_def
    intro: inv_save_user inv_delete_user inv_save_registry inv_delete_registry inv_save_app inv_delete_app
      inv_delete_services_where inv_delete_http_request_logs inv_upsert_service_deployment inv_save_deployment
      inv_delete_deployment inv_save_certificate inv_filter_certificates inv_save_managed inv_save_github_app
      inv_delete_managed dest: inv_insert_service)

inductive store_reachable :: "store \<Rightarrow> bool" where
  "store_reachable empty_store"
| "store_reachable st \<Longrightarrow> store_step st st' \<Longrightarrow> store_reachable st'"

lemma store_reachable_inv: "store_reachable st \<Longrightarrow> store_inv st"
  by (induction rule: store_reachable.induct) (auto intro: store_inv_empty inv_store_step)

text \<open>
  C33. The database keeps its promises: after any sequence of writes the keys of every table are
  unique (emails and certificate domains too, and nobody has two GitHub apps), every project,
  registry, managed database, managed queue, bucket and GitHub app has its owner, every service and
  deployment its project, every service deployment its service and its deployment,
  every log line its deployment, and a rollback names an existing deployment or none.
\<close>

theorem store_referential_integrity:
  assumes "store_reachable st"
  shows "keys_ok st \<and> foreign_keys_ok st"
  using store_reachable_inv [OF assms] by (simp add: store_inv_def)

section \<open>Saving and loading\<close>

lemma set_upsert_new:
  assumes "distinct (map key rows)"
  shows "set (upsert key (\<lambda>old new. new) row rows) = {r \<in> set rows. key r \<noteq> key row} \<union> {row}"
  using assms by (auto simp: upsert_def) (metis image_eqI)

lemma distinct_upsert_new:
  "distinct (map key rows) \<Longrightarrow> distinct (map key (upsert key (\<lambda>old new. new) row rows))"
  by (rule sql_table.distinct_upsert [OF sql_table.intro]) simp_all

definition upsert_all :: "('r \<Rightarrow> 'k) \<Rightarrow> 'r list \<Rightarrow> 'r list \<Rightarrow> 'r list" where
  "upsert_all key rows xs = foldl (\<lambda>rows x. upsert key (\<lambda>old new. new) x rows) rows xs"

lemma upsert_all_simps [simp]:
  "upsert_all key rows [] = rows"
  "upsert_all key rows (x # xs) = upsert_all key (upsert key (\<lambda>old new. new) x rows) xs"
  by (simp_all add: upsert_all_def)

lemma upsert_all_rows:
  assumes "distinct (map key rows)" and "distinct (map key xs)"
  shows "set (upsert_all key rows xs) = {r \<in> set rows. key r \<notin> key ` set xs} \<union> set xs \<and>
    distinct (map key (upsert_all key rows xs))"
  using assms
proof (induction xs arbitrary: rows)
  case (Cons x xs)
  show ?case
    using Cons.IH [OF distinct_upsert_new [OF Cons.prems(1)]] Cons.prems
    by (auto simp: set_upsert_new)
qed simp

lemma insert_services_upsert:
  "insert_services st ss = Inr st' \<Longrightarrow> st' = st\<lparr> st_services := upsert_all s_id (st_services st) ss \<rparr>"
proof (induction ss arbitrary: st)
  case (Cons s ss)
  then show ?case using Cons.IH [of "st\<lparr> st_services := upsert s_id (\<lambda>old new. new) s (st_services st) \<rparr>"]
    by (auto simp: insert_service_def split: if_splits)
qed simp

lemma insert_service_deployments_upsert:
  "insert_service_deployments st i sds = Inr st' \<Longrightarrow>
     st' = st\<lparr> st_service_deployments :=
       upsert_all sd_id (st_service_deployments st) (map (\<lambda>sd. sd\<lparr> sd_deployment_id := i \<rparr>) sds) \<rparr>"
proof (induction sds arbitrary: st)
  case (Cons sd sds)
  then show ?case
    using Cons.IH [of "st\<lparr> st_service_deployments :=
        upsert sd_id (\<lambda>old new. new) (sd\<lparr> sd_deployment_id := i \<rparr>) (st_service_deployments st) \<rparr>"]
    by (auto simp: upsert_service_deployment_def split: if_splits)
qed simp

lemma remove_services_eq:
  assumes "store_inv st"
  shows "remove_services st ids = st\<lparr> st_services := filter (\<lambda>s. s_id s \<notin> set ids) (st_services st),
    st_service_deployments := filter (\<lambda>sd. sd_service_id sd \<notin> set ids) (st_service_deployments st),
    st_http_logs := filter (\<lambda>(i, _). i \<notin> set ids) (st_http_logs st) \<rparr>"
  using assms
proof (induction ids arbitrary: st)
  case Nil
  have "filter (\<lambda>(i, _). True) xs = xs" for xs :: "(uuid \<times> int \<times> http_request_log) list"
    by (induction xs) auto
  then show ?case by (simp add: remove_services_def)
next
  case (Cons i ids)
  let ?st = "delete_http_request_logs (delete_services_where (\<lambda>s. s_id s = i) st) i"
  have inv: "store_inv ?st"
    using Cons.prems by (simp add: inv_delete_http_request_logs inv_delete_services_where)
  have "sd_service_id sd \<notin> s_id ` {s \<in> set (st_services st). s_id s = i} \<longleftrightarrow> sd_service_id sd \<noteq> i"
    if "sd \<in> set (st_service_deployments st)" for sd
    using Cons.prems that by (auto simp: store_inv_defs refs_def)
  then have "filter (\<lambda>sd. sd_service_id sd \<notin> s_id ` {s \<in> set (st_services st). s_id s = i}) (st_service_deployments st) =
      filter (\<lambda>sd. sd_service_id sd \<noteq> i) (st_service_deployments st)"
    by (rule filter_cong [OF refl])
  then have st: "?st = st\<lparr> st_services := filter (\<lambda>s. s_id s \<noteq> i) (st_services st),
      st_service_deployments := filter (\<lambda>sd. sd_service_id sd \<noteq> i) (st_service_deployments st),
      st_http_logs := filter (\<lambda>(j, _). j \<noteq> i) (st_http_logs st) \<rparr>"
    by (simp add: delete_http_request_logs_def delete_services_where_def Let_def)
  have "remove_services st (i # ids) = remove_services ?st ids"
    by (simp add: remove_services_def)
  also have "\<dots> = st\<lparr> st_services := filter (\<lambda>s. s_id s \<notin> set (i # ids)) (st_services st),
      st_service_deployments := filter (\<lambda>sd. sd_service_id sd \<notin> set (i # ids)) (st_service_deployments st),
      st_http_logs := filter (\<lambda>(j, _). j \<notin> set (i # ids)) (st_http_logs st) \<rparr>"
    unfolding Cons.IH [OF inv] unfolding st
    by (simp add: conj_commute split_def)
  finally show ?case .
qed

lemma mset_eq_by_key:
  assumes "distinct (map key xs)" and "distinct (map key ys)" and "set xs = set ys"
  shows "mset xs = mset ys"
  using assms set_eq_iff_mset_eq_distinct [of xs ys] by (simp add: distinct_map)

text \<open>What \<open>save_app\<close> leaves in the tables.\<close>

lemma save_app_tables:
  assumes inv: "store_inv st" and sv: "save_app st a = Inr st'"
    and ids: "distinct (map s_id (p_services a))" and own: "\<forall>s \<in> set (p_services a). s_app_id s = p_id a"
  defines "keep \<equiv> s_id ` set (p_services a)"
  shows "st_apps st' = upsert p_id merge_app (app_row a) (st_apps st)"
    and "set (st_services st') = {s \<in> set (st_services st). s_id s \<notin> keep \<and> s_app_id s \<noteq> p_id a} \<union> set (p_services a)"
    and "distinct (map s_id (st_services st'))"
    and "set (st_service_deployments st') =
      {sd \<in> set (st_service_deployments st).
         \<not> (\<exists>s \<in> set (st_services st). s_id s = sd_service_id sd \<and> s_app_id s = p_id a \<and> s_id s \<notin> keep)}"
    and "st_deployments st' = st_deployments st"
proof -
  obtain st1 where "p_deploy_webhook_token a \<noteq> None" "p_owner_id a \<in> u_id ` set (st_users st)"
    and ins: "insert_services (st\<lparr> st_apps := upsert p_id merge_app (app_row a) (st_apps st) \<rparr>) (p_services a) = Inr st1"
    and st': "st' = remove_services st1 (filter (\<lambda>i. i \<notin> keep)
       (map s_id (filter (\<lambda>s. s_app_id s = p_id a) (st_services st1))))"
    using sv unfolding keep_def by (rule save_app_InrE)
  then have "store_inv st1"
    using inv_insert_services [OF inv_upsert_app [OF inv]] by blast
  note rm = remove_services_eq [OF this]
  note st1 = insert_services_upsert [OF ins]
  have k: "distinct (map s_id (st_services st))" using inv by (simp add: store_inv_defs)
  note all = upsert_all_rows [OF k ids]
  show "st_apps st' = upsert p_id merge_app (app_row a) (st_apps st)" "st_deployments st' = st_deployments st"
    unfolding st' rm by (simp_all add: st1)
  show "distinct (map s_id (st_services st'))"
    unfolding st' rm using all by (simp add: st1 distinct_map_filter)
  let ?gone = "{i. i \<notin> keep \<and> (\<exists>s \<in> set (st_services st). s_id s = i \<and> s_app_id s = p_id a)}"
  have gone: "set (filter (\<lambda>i. i \<notin> keep) (map s_id (filter (\<lambda>s. s_app_id s = p_id a) (st_services st1)))) = ?gone"
    using all by (auto simp: st1 keep_def)
  have same: "s = t" if "s \<in> set (st_services st)" "t \<in> set (st_services st)" "s_id s = s_id t" for s t
    using k that by (auto simp: distinct_map dest: inj_onD)
  show "set (st_services st') = {s \<in> set (st_services st). s_id s \<notin> keep \<and> s_app_id s \<noteq> p_id a} \<union> set (p_services a)"
    unfolding st' rm gone using all same by (auto simp: st1 keep_def)
  show "set (st_service_deployments st') =
      {sd \<in> set (st_service_deployments st).
         \<not> (\<exists>s \<in> set (st_services st). s_id s = sd_service_id sd \<and> s_app_id s = p_id a \<and> s_id s \<notin> keep)}"
    unfolding st' rm gone by (auto simp: st1)
qed

text \<open>
  C34. Saving a project and loading it back gives the project: all its columns and exactly its
  services, ordered by name (only the legacy field \<open>domain\<close> is lost and the creation date of an
  existing project is kept). The deployment history of the services that stay is untouched; that
  of the services that were dropped is gone. This holds for services with distinct ids that name
  the project as theirs.
\<close>

theorem save_app_round_trip:
  assumes "store_reachable st" and "save_app st a = Inr st'"
    and "distinct (map s_id (p_services a))" and "\<forall>s \<in> set (p_services a). s_app_id s = p_id a"
  shows "(\<exists>ss. get_app st' (p_id a) =
        Some (a\<lparr> p_domain := None, p_services := ss,
                 p_created_at := (case get_app st (p_id a) of None \<Rightarrow> p_created_at a | Some old \<Rightarrow> p_created_at old) \<rparr>) \<and>
        mset ss = mset (p_services a) \<and> sorted (map s_name ss)) \<and>
    set (st_service_deployments st') =
      {sd \<in> set (st_service_deployments st).
         \<not> (\<exists>s \<in> set (st_services st). s_id s = sd_service_id sd \<and> s_app_id s = p_id a \<and>
              s_id s \<notin> s_id ` set (p_services a))}"
proof -
  have inv: "store_inv st" using assms(1) by (rule store_reachable_inv)
  note t = save_app_tables [OF inv assms(2-4)]
  let ?ss = "list_services_by_app st' (p_id a)"
  have "set ?ss = set (p_services a)"
    using t(2) assms(4) by (auto simp: list_services_by_app_def)
  moreover have "distinct (map s_id ?ss)"
  proof -
    have "distinct (map s_id (filter (\<lambda>s. s_app_id s = p_id a) (st_services st')))"
      using t(3) by (rule distinct_map_filter)
    moreover have "mset (map s_id ?ss) = mset (map s_id (filter (\<lambda>s. s_app_id s = p_id a) (st_services st')))"
      by (simp add: list_services_by_app_def)
    ultimately show ?thesis using mset_eq_imp_distinct_iff by blast
  qed
  ultimately have "mset ?ss = mset (p_services a)"
    using mset_eq_by_key [of s_id] assms(3) by blast
  moreover have "sorted (map s_name ?ss)" by (simp add: list_services_by_app_def)
  moreover have "p_id (app_row a) = p_id a" by (simp add: app_row_def)
  then have "get_app st' (p_id a) =
        Some (a\<lparr> p_domain := None, p_services := ?ss,
                 p_created_at := (case get_app st (p_id a) of None \<Rightarrow> p_created_at a | Some old \<Rightarrow> p_created_at old) \<rparr>)"
    unfolding get_app_def t(1) apps.find_upsert
    by (cases "select_row p_id (p_id a) (st_apps st)") (simp_all add: load_app_def merge_app_def app_row_def)
  ultimately show ?thesis using t(4) by blast
qed

lemma save_deployment_tables:
  assumes inv: "store_inv st" and sv: "save_deployment st d = Inr st'"
    and ids: "distinct (map sd_id (d_service_deployments d))"
  defines "new \<equiv> map (\<lambda>sd. sd\<lparr> sd_deployment_id := d_id d \<rparr>) (d_service_deployments d)"
  shows "st_deployments st' = upsert d_id (\<lambda>old new. new) (deployment_row d) (st_deployments st)"
    and "set (st_service_deployments st') =
      {sd \<in> set (st_service_deployments st). sd_deployment_id sd \<noteq> d_id d \<and> sd_id sd \<notin> sd_id ` set new} \<union> set new"
    and "distinct (map sd_id (st_service_deployments st'))" and "distinct (map sd_id new)"
    and "st_services st' = st_services st"
proof -
  let ?kept = "filter (\<lambda>sd. sd_deployment_id sd \<noteq> d_id d) (st_service_deployments st)"
  have ins: "insert_service_deployments
       (st\<lparr> st_deployments := upsert d_id (\<lambda>old new. new) (deployment_row d) (st_deployments st),
            st_service_deployments := ?kept \<rparr>) (d_id d) (d_service_deployments d) = Inr st'"
    using sv by (rule save_deployment_InrE)
  note st' = insert_service_deployments_upsert [OF ins]
  have k: "distinct (map sd_id ?kept)" using inv by (simp add: store_inv_defs distinct_map_filter)
  show new: "distinct (map sd_id new)" using ids by (simp add: new_def comp_def)
  note all = upsert_all_rows [OF k new]
  show "st_deployments st' = upsert d_id (\<lambda>old new. new) (deployment_row d) (st_deployments st)"
    "st_services st' = st_services st"
    by (simp_all add: st')
  show "set (st_service_deployments st') =
      {sd \<in> set (st_service_deployments st). sd_deployment_id sd \<noteq> d_id d \<and> sd_id sd \<notin> sd_id ` set new} \<union> set new"
    "distinct (map sd_id (st_service_deployments st'))"
    using all by (auto simp: st' new_def)
qed

lemma list_service_deployments_mset:
  "mset (list_service_deployments st i) = mset (filter (\<lambda>sd. sd_deployment_id sd = i) (st_service_deployments st))"
  by (simp add: list_service_deployments_def)

lemma mset_list_service_deployments:
  assumes "distinct (map sd_id (st_service_deployments st))" and "distinct (map sd_id sds)"
    and "set sds = {sd \<in> set (st_service_deployments st). sd_deployment_id sd = i}"
  shows "mset (list_service_deployments st i) = mset sds"
  unfolding list_service_deployments_mset
  by (rule mset_eq_by_key [of sd_id]) (use assms in \<open>auto simp: distinct_map_filter\<close>)

text \<open>
  Saving a deployment and loading it back gives the deployment, with exactly its service
  deployments, ordered by service and replica; an empty commit message is read back as none and
  the logs are kept apart. Every other deployment still has its service deployments. This holds
  for service deployments whose ids are distinct and not used in another deployment.
\<close>

theorem save_deployment_round_trip:
  assumes "store_reachable st" and "save_deployment st d = Inr st'"
    and "distinct (map sd_id (d_service_deployments d))"
    and "\<forall>sd \<in> set (st_service_deployments st).
      sd_id sd \<in> sd_id ` set (d_service_deployments d) \<longrightarrow> sd_deployment_id sd = d_id d"
  shows "(\<exists>sds. get_deployment st' (d_id d) =
        Some (d\<lparr> d_commit_message := opt_filter (\<lambda>m. m \<noteq> []) (d_commit_message d),
                 d_service_deployments := sds, d_logs := [] \<rparr>) \<and>
        mset sds = mset (map (\<lambda>sd. sd\<lparr> sd_deployment_id := d_id d \<rparr>) (d_service_deployments d)) \<and>
        sorted (map (\<lambda>sd. (sd_service_id sd, sd_replica_index sd)) sds)) \<and>
    (\<forall>j. j \<noteq> d_id d \<longrightarrow>
        mset (list_service_deployments st' j) = mset (list_service_deployments st j) \<and>
        select_row d_id j (st_deployments st') = select_row d_id j (st_deployments st))"
proof -
  have inv: "store_inv st" using assms(1) by (rule store_reachable_inv)
  note t = save_deployment_tables [OF inv assms(2,3)]
  let ?new = "map (\<lambda>sd. sd\<lparr> sd_deployment_id := d_id d \<rparr>) (d_service_deployments d)"
  have "mset (list_service_deployments st' (d_id d)) = mset ?new"
    by (rule mset_list_service_deployments [OF t(3,4)]) (auto simp: t(2))
  moreover have "sorted (map (\<lambda>sd. (sd_service_id sd, sd_replica_index sd)) (list_service_deployments st' (d_id d)))"
    by (simp add: list_service_deployments_def)
  moreover have "d_id (deployment_row d) = d_id d" by (simp add: deployment_row_def)
  then have "get_deployment st' (d_id d) =
        Some (d\<lparr> d_commit_message := opt_filter (\<lambda>m. m \<noteq> []) (d_commit_message d),
                 d_service_deployments := list_service_deployments st' (d_id d), d_logs := [] \<rparr>)"
    unfolding get_deployment_def t(1) deployments.find_upsert
    by (cases "select_row d_id (d_id d) (st_deployments st)") (simp_all add: load_deployment_def deployment_row_def)
  moreover have "mset (list_service_deployments st' j) = mset (list_service_deployments st j) \<and>
        select_row d_id j (st_deployments st') = select_row d_id j (st_deployments st)" if j: "j \<noteq> d_id d" for j
  proof
    have "mset (list_service_deployments st' j) =
        mset (filter (\<lambda>sd. sd_deployment_id sd = j) (st_service_deployments st))"
      using inv assms(4) j
      by (intro mset_list_service_deployments [OF t(3)])
        (auto simp: t(2) store_inv_defs distinct_map_filter image_image)
    then show "mset (list_service_deployments st' j) = mset (list_service_deployments st j)"
      by (simp add: list_service_deployments_mset)
    show "select_row d_id j (st_deployments st') = select_row d_id j (st_deployments st)"
      unfolding t(1) deployments.find_upsert using j by (simp add: deployment_row_def)
  qed
  ultimately show ?thesis by blast
qed

section \<open>A small store\<close>

definition demo_user :: user where
  "demo_user = user_new_with_password 7 0 ''a@example.com'' ''h''"

definition demo_web :: container_service where
  "demo_web = container_service_new 2 0 1 ''web'' ''img'' 80"

definition demo_app :: project where
  "demo_app = (project_new 1 0 ''t'' ''app'' [] 7)\<lparr> p_services := [demo_web] \<rparr>"

definition demo_deployment :: deployment where
  "demo_deployment =
     (deployment_new 3 0 1 ''abc'')\<lparr> d_service_deployments := [service_deployment_new 4 0 2 9 0] \<rparr>"

definition demo_store0 :: store where
  "demo_store0 = empty_store\<lparr> st_users := [demo_user] \<rparr>"

definition demo_store1 :: store where
  "demo_store1 = demo_store0\<lparr> st_apps := [app_row demo_app], st_services := [demo_web] \<rparr>"

definition demo_store :: store where
  "demo_store =
     demo_store1\<lparr> st_deployments := [deployment_row demo_deployment],
                  st_service_deployments := [service_deployment_new 4 0 2 3 0] \<rparr>"

lemma demo_save_app: "save_app demo_store0 demo_app = Inr demo_store1"
  by (simp add: save_app_def demo_store0_def demo_store1_def demo_app_def demo_web_def demo_user_def empty_store_def
      project_new_def user_new_with_password_def container_service_new_def insert_service_def upsert_def app_row_def
      remove_services_def Let_def)

lemma demo_save_deployment: "save_deployment demo_store1 demo_deployment = Inr demo_store"
  by (simp add: save_deployment_def demo_store_def demo_store1_def demo_store0_def demo_app_def demo_web_def
      demo_deployment_def empty_store_def project_new_def container_service_new_def deployment_new_def
      service_deployment_new_def upsert_service_deployment_def upsert_def app_row_def deployment_row_def Let_def)

lemma demo_store_reachable:
  "store_reachable demo_store0" "store_reachable demo_store1" "store_reachable demo_store"
proof -
  have "save_user empty_store demo_user = Inr demo_store0"
    by (simp add: save_user_def empty_store_def demo_store0_def upsert_def)
  then show r0: "store_reachable demo_store0"
    using store_reachable.intros store_step.intros(1) by blast
  then show r1: "store_reachable demo_store1"
    using store_reachable.intros(2) store_step.intros(5) [OF demo_save_app] by blast
  then show "store_reachable demo_store"
    using store_reachable.intros(2) store_step.intros(10) [OF demo_save_deployment] by blast
qed

theorem store_referential_integrity_witness: "keys_ok demo_store \<and> foreign_keys_ok demo_store"
  by (rule store_referential_integrity [OF demo_store_reachable(3)])

theorem save_app_round_trip_witness:
  "\<exists>ss. get_app demo_store1 (p_id demo_app) = Some (demo_app\<lparr> p_domain := None, p_services := ss, p_created_at := 0 \<rparr>) \<and>
     mset ss = mset [demo_web]"
proof -
  have h: "distinct (map s_id (p_services demo_app))" "\<forall>s \<in> set (p_services demo_app). s_app_id s = p_id demo_app"
    and e: "get_app demo_store0 (p_id demo_app) = None" "p_created_at demo_app = 0" "p_services demo_app = [demo_web]"
    by (simp_all add: demo_app_def demo_web_def container_service_new_def project_new_def get_app_def demo_store0_def
        empty_store_def select_row_def)
  show ?thesis
    using save_app_round_trip [OF demo_store_reachable(1) demo_save_app h, THEN conjunct1, unfolded e option.case]
    by (elim exE conjE) (intro exI conjI)
qed

theorem save_deployment_round_trip_witness:
  "\<exists>sds. get_deployment demo_store (d_id demo_deployment) =
       Some (demo_deployment\<lparr> d_commit_message := None, d_service_deployments := sds, d_logs := [] \<rparr>) \<and>
     mset sds = mset [service_deployment_new 4 0 2 3 0]"
proof -
  have h: "distinct (map sd_id (d_service_deployments demo_deployment))"
      "\<forall>sd \<in> set (st_service_deployments demo_store1).
        sd_id sd \<in> sd_id ` set (d_service_deployments demo_deployment) \<longrightarrow> sd_deployment_id sd = d_id demo_deployment"
    and e: "opt_filter (\<lambda>m. m \<noteq> []) (d_commit_message demo_deployment) = None"
    "map (\<lambda>sd. sd\<lparr> sd_deployment_id := d_id demo_deployment \<rparr>) (d_service_deployments demo_deployment) =
      [service_deployment_new 4 0 2 3 0]"
    by (simp_all add: demo_deployment_def deployment_new_def service_deployment_new_def demo_store1_def demo_store0_def
        empty_store_def)
  show ?thesis
    using save_deployment_round_trip [OF demo_store_reachable(2) demo_save_deployment h, THEN conjunct1, unfolded e]
    by (elim exE conjE) (intro exI conjI)
qed

end
