(* ===== verification/Store_Logs.thy ===== *)
theory Store_Logs
  imports Store
begin

text \<open>
  The two logs of the database: the lines of a deployment and the request log of a service. Their
  rows are numbered per deployment and per service; what an append leaves in the log follows from
  the numbers being consecutive, which every write keeps.
\<close>

section \<open>Consecutive rows\<close>

definition log_rows :: "uuid \<Rightarrow> (uuid \<times> int \<times> 'a) list \<Rightarrow> (uuid \<times> int \<times> 'a) list" where
  "log_rows i rows = filter (\<lambda>(j, _). j = i) rows"

text \<open>The indices of one log are consecutive, in insertion order.\<close>

definition consecutive :: "int list \<Rightarrow> bool" where
  "consecutive xs \<longleftrightarrow> (\<exists>k \<ge> 0. xs = map (\<lambda>j. k + int j) [0..<length xs])"

definition log_ok :: "(uuid \<times> int \<times> 'a) list \<Rightarrow> bool" where
  "log_ok rows \<longleftrightarrow> (\<forall>i. consecutive (map (fst \<circ> snd) (log_rows i rows)))"

lemma consecutive_Nil [simp]: "consecutive []"
  by (auto simp: consecutive_def)

lemma consecutive_snoc:
  assumes "consecutive xs"
  shows "consecutive (xs @ [Max (insert (- 1) (set xs)) + 1])"
proof (cases "xs = []")
  case True
  then show ?thesis by (auto simp: consecutive_def)
next
  case False
  obtain k where k: "k \<ge> 0" "xs = map (\<lambda>j. k + int j) [0..<length xs]"
    using assms unfolding consecutive_def by blast
  define n where "n = length xs"
  have xs: "xs = map (\<lambda>j. k + int j) [0..<n]" and n: "n > 0" using k(2) False by (simp_all add: n_def)
  have "Max (insert (- 1) (set xs)) = k + int n - 1"
    by (rule Max_eqI) (use k(1) n in \<open>auto simp: xs intro!: image_eqI [of _ _ "n - 1"]\<close>)
  then show ?thesis using k(1) xs by (auto simp: consecutive_def intro!: exI [of _ k])
qed

lemma consecutive_sorted: "consecutive xs \<Longrightarrow> sorted_wrt (<) xs"
proof -
  assume "consecutive xs"
  then obtain k where "xs = map (\<lambda>j. k + int j) [0..<length xs]" unfolding consecutive_def by blast
  moreover have "sorted_wrt (<) (map (\<lambda>j. k + int j) [0..<n])" for n
    by (induction n) (auto simp: sorted_wrt_append)
  ultimately show ?thesis by metis
qed

lemma log_rows_snoc:
  "log_rows i (rows @ [(j, x)]) = log_rows i rows @ (if j = i then [(j, x)] else [])"
  by (simp add: log_rows_def)

lemma next_idx_rows: "next_idx i rows = Max (insert (- 1) (set (map (fst \<circ> snd) (log_rows i rows)))) + 1"
  by (simp add: next_idx_def log_rows_def image_comp)

lemma next_idx_nonneg: "0 \<le> next_idx i rows"
proof -
  have "- 1 \<le> Max (insert (- 1) ((fst \<circ> snd) ` set (filter (\<lambda>(j, _). j = i) rows)))"
    by (rule Max_ge) simp_all
  then show ?thesis unfolding next_idx_def by linarith
qed

lemma log_ok_snoc: "log_ok rows \<Longrightarrow> log_ok (rows @ [(i, next_idx i rows, x)])"
  unfolding log_ok_def log_rows_snoc next_idx_rows
  using consecutive_snoc by (auto simp del: set_map)

text \<open>Deleting whole logs.\<close>

definition logs_dropped :: "(uuid \<times> int \<times> 'a) list \<Rightarrow> (uuid \<times> int \<times> 'a) list \<Rightarrow> bool" where
  "logs_dropped rows rows' \<longleftrightarrow> (\<exists>Q. rows' = filter (\<lambda>(i, _). Q i) rows)"

lemma logs_dropped_refl [simp]: "logs_dropped rows rows"
  unfolding logs_dropped_def by (intro exI [of _ "\<lambda>_. True"]) (simp add: split_def)

lemma logs_dropped_filter [simp]: "logs_dropped rows (filter (\<lambda>(i, _). Q i) rows)"
  by (auto simp: logs_dropped_def)

lemma logs_dropped_trans: "logs_dropped a b \<Longrightarrow> logs_dropped b c \<Longrightarrow> logs_dropped a c"
  by (auto simp: logs_dropped_def split_def)

lemma log_rows_filter: "log_rows i (filter (\<lambda>(j, _). Q j) rows) = (if Q i then log_rows i rows else [])"
  unfolding log_rows_def filter_filter by (cases "Q i") (auto simp: filter_empty_conv intro: filter_cong)

lemma log_ok_dropped: "logs_dropped rows rows' \<Longrightarrow> log_ok rows \<Longrightarrow> log_ok rows'"
  by (auto simp: logs_dropped_def log_ok_def log_rows_filter)

definition store_logs_dropped :: "store \<Rightarrow> store \<Rightarrow> bool" where
  "store_logs_dropped st st' \<longleftrightarrow>
     logs_dropped (st_deployment_logs st) (st_deployment_logs st') \<and> logs_dropped (st_http_logs st) (st_http_logs st')"

lemma store_logs_dropped_refl [simp]: "store_logs_dropped st st"
  by (simp add: store_logs_dropped_def)

lemma store_logs_dropped_trans:
  "store_logs_dropped a b \<Longrightarrow> store_logs_dropped b c \<Longrightarrow> store_logs_dropped a c"
  unfolding store_logs_dropped_def by (elim conjE, intro conjI; erule (1) logs_dropped_trans)

lemma store_logs_dropped_foldl:
  "(\<And>st x. store_logs_dropped st (f st x)) \<Longrightarrow> store_logs_dropped st (foldl f st xs)"
proof (induction xs arbitrary: st)
  case (Cons x xs)
  have "store_logs_dropped st (f st x)" by (rule Cons.prems)
  moreover have "store_logs_dropped (f st x) (foldl f (f st x) xs)" using Cons.prems by (rule Cons.IH)
  ultimately show ?case unfolding foldl_Cons by (rule store_logs_dropped_trans)
qed simp

lemma logs_delete_where [simp]:
  "store_logs_dropped st (delete_services_where P1 st)" "store_logs_dropped st (delete_deployments_where P2 st)"
  "store_logs_dropped st (delete_apps_where P3 st)" "store_logs_dropped st (delete_http_request_logs st i)"
  by (simp_all add: store_logs_dropped_def delete_services_where_def delete_deployments_where_def
      delete_apps_where_def delete_http_request_logs_def Let_def)

lemma logs_delete_deployment [simp]: "store_logs_dropped st (fst (delete_deployment st i))"
proof -
  have "store_logs_dropped s (s\<lparr> st_service_deployments := x, st_deployment_logs :=
      filter (\<lambda>(j, _). j \<noteq> i) (st_deployment_logs s) \<rparr>)" for s x
    by (simp add: store_logs_dropped_def)
  from store_logs_dropped_trans [OF logs_delete_where(2) this]
  show ?thesis by (simp add: delete_deployment_def Let_def del: filter_filter)
qed

lemma logs_remove_services: "store_logs_dropped st (remove_services st ids)"
  unfolding remove_services_def
  by (intro store_logs_dropped_foldl store_logs_dropped_trans [OF logs_delete_where(1) logs_delete_where(4)])

lemma logs_delete_app: "store_logs_dropped st (fst (delete_app st i))"
proof (cases "get_app st i")
  case (Some a)
  let ?s1 = "foldl (\<lambda>st d. fst (delete_deployment st (d_id d))) st (list_deployments_by_app st (p_id a))"
  let ?s2 = "foldl (\<lambda>st s. delete_http_request_logs st (s_id s)) ?s1 (p_services a)"
  have "store_logs_dropped st ?s1" "store_logs_dropped ?s1 ?s2" "store_logs_dropped ?s2 (delete_apps_where (\<lambda>b. p_id b = i) ?s2)"
    by (simp_all add: store_logs_dropped_foldl)
  then have "store_logs_dropped st (delete_apps_where (\<lambda>b. p_id b = i) ?s2)"
    using store_logs_dropped_trans by blast
  then show ?thesis using Some by (simp add: delete_app_def Let_def)
qed (simp add: delete_app_def)

lemma logs_save_app: "save_app st a = Inr st' \<Longrightarrow> store_logs_dropped st st'"
proof (erule save_app_InrE)
  fix st1
  assume ins: "insert_services (st\<lparr> st_apps := upsert p_id merge_app (app_row a) (st_apps st) \<rparr>) (p_services a) = Inr st1"
    and st': "st' = remove_services st1 (filter (\<lambda>i. i \<notin> s_id ` set (p_services a))
       (map s_id (filter (\<lambda>s. s_app_id s = p_id a) (st_services st1))))"
  have "store_logs_dropped st st1"
    using insert_services_upsert [OF ins] by (simp add: store_logs_dropped_def)
  then show ?thesis unfolding st' using logs_remove_services store_logs_dropped_trans by blast
qed

definition logs_ok :: "store \<Rightarrow> bool" where
  "logs_ok st \<longleftrightarrow> log_ok (st_deployment_logs st) \<and> log_ok (st_http_logs st) \<and>
     (\<forall>i. length (log_rows i (st_http_logs st)) \<le> nat MAX_HTTP_REQUEST_LOGS_PER_SERVICE)"

lemma logs_ok_dropped:
  assumes "store_logs_dropped st st'" and "logs_ok st"
  shows "logs_ok st'"
proof -
  have "length (log_rows i rows') \<le> length (log_rows i rows)" if "logs_dropped rows rows'"
    for i and rows rows' :: "(uuid \<times> int \<times> http_request_log) list"
    using that by (auto simp: logs_dropped_def log_rows_filter)
  then show ?thesis
    using assms log_ok_dropped unfolding logs_ok_def store_logs_dropped_def by (meson le_trans)
qed

text \<open>A consecutive log, one entry appended: the rows that survive the cut are the last ones.\<close>

lemma consecutive_cut:
  assumes "consecutive (map f xs)" and "xs \<noteq> []" and "0 \<le> m"
  shows "filter (\<lambda>x. \<not> f x \<le> f (last xs) - m) xs = drop (length xs - nat m) xs"
proof -
  obtain k where k: "map f xs = map (\<lambda>j. k + int j) [0..<length xs]"
    using assms(1) unfolding consecutive_def by auto
  have nth: "f (xs ! j) = k + int j" if "j < length xs" for j
    using arg_cong [OF k, of "\<lambda>l. l ! j"] that by simp
  have last: "f (last xs) = k + int (length xs) - 1"
  proof -
    have "int (length xs - 1) = int (length xs) - 1" using assms(2) by (cases xs) simp_all
    then show ?thesis using nth [of "length xs - 1"] assms(2) by (simp add: last_conv_nth)
  qed
  have "filter (\<lambda>x. \<not> f x \<le> f (last xs) - m) xs =
      filter (\<lambda>x. \<not> f x \<le> f (last xs) - m) (take (length xs - nat m) xs) @
      filter (\<lambda>x. \<not> f x \<le> f (last xs) - m) (drop (length xs - nat m) xs)"
    by (metis append_take_drop_id filter_append)
  also have "filter (\<lambda>x. \<not> f x \<le> f (last xs) - m) (take (length xs - nat m) xs) = []"
    using assms(3) nth last by (auto simp: filter_empty_conv in_set_conv_nth)
  also have "filter (\<lambda>x. \<not> f x \<le> f (last xs) - m) (drop (length xs - nat m) xs) = drop (length xs - nat m) xs"
    using assms(3) nth last by (auto simp: filter_id_conv in_set_conv_nth)
  finally show ?thesis by simp
qed

lemma log_rows_append_http:
  assumes "log_ok (st_http_logs st)"
  shows "log_rows j (st_http_logs (append_http_request_log st log)) =
    (if j = hl_service_id log
     then let rows = log_rows j (st_http_logs st) @ [(j, next_idx j (st_http_logs st), log)]
          in drop (length rows - nat MAX_HTTP_REQUEST_LOGS_PER_SERVICE) rows
     else log_rows j (st_http_logs st))"
proof -
  let ?i = "hl_service_id log"
  define rows where "rows = st_http_logs st @ [(?i, next_idx ?i (st_http_logs st), log)]"
  define cut where "cut = next_idx ?i rows - 1 - MAX_HTTP_REQUEST_LOGS_PER_SERVICE"
  have app: "st_http_logs (append_http_request_log st log) = filter (\<lambda>(j, idx, _). \<not> (j = ?i \<and> idx \<le> cut)) rows"
    by (simp add: append_http_request_log_def rows_def cut_def Let_def)
  show ?thesis
  proof (cases "j = ?i")
    case False
    have "log_rows j (filter (\<lambda>(j, idx, _). \<not> (j = ?i \<and> idx \<le> cut)) rows) = log_rows j rows"
      unfolding log_rows_def filter_filter using False by (intro filter_cong) auto
    then show ?thesis using False by (auto simp: app rows_def log_rows_snoc)
  next
    case True
    let ?l = "log_rows ?i rows"
    have l: "?l = log_rows ?i (st_http_logs st) @ [(?i, next_idx ?i (st_http_logs st), log)]"
      by (simp add: rows_def log_rows_snoc)
    have cons: "consecutive (map (fst \<circ> snd) ?l)"
      using log_ok_snoc [OF assms] by (simp add: log_ok_def rows_def)
    have "next_idx ?i rows - 1 = (fst \<circ> snd) (last ?l)"
    proof -
      have "sorted_wrt (<) (map (fst \<circ> snd) ?l)" using cons by (rule consecutive_sorted)
      then have "\<forall>x \<in> set (map (fst \<circ> snd) ?l). x \<le> (fst \<circ> snd) (last ?l)"
        unfolding l by (auto simp: sorted_wrt_append less_imp_le)
      moreover have "0 \<le> (fst \<circ> snd) (last ?l)"
        unfolding l by (simp add: next_idx_nonneg)
      ultimately have "Max (insert (- 1) (set (map (fst \<circ> snd) ?l))) = (fst \<circ> snd) (last ?l)"
        unfolding l by (intro Max_eqI) auto
      then show ?thesis by (simp add: next_idx_rows)
    qed
    then have cut: "cut = (fst \<circ> snd) (last ?l) - MAX_HTTP_REQUEST_LOGS_PER_SERVICE" by (simp add: cut_def)
    have "log_rows ?i (filter (\<lambda>(j, idx, _). \<not> (j = ?i \<and> idx \<le> cut)) rows) =
        filter (\<lambda>x. \<not> (fst \<circ> snd) x \<le> cut) ?l"
      unfolding log_rows_def filter_filter by (intro filter_cong) auto
    also have "\<dots> = drop (length ?l - nat MAX_HTTP_REQUEST_LOGS_PER_SERVICE) ?l"
      unfolding cut by (rule consecutive_cut [OF cons]) (simp_all add: l MAX_HTTP_REQUEST_LOGS_PER_SERVICE_def)
    finally show ?thesis using True by (simp add: app l Let_def)
  qed
qed

lemma consecutive_drop: "consecutive xs \<Longrightarrow> consecutive (drop n xs)"
proof -
  assume "consecutive xs"
  then obtain k where k: "k \<ge> 0" "xs = map (\<lambda>j. k + int j) [0..<length xs]"
    unfolding consecutive_def by blast
  have "drop n xs = map (\<lambda>j. (k + int n) + int j) [0..<length (drop n xs)]"
  proof (rule nth_equalityI)
    fix j assume "j < length (drop n xs)"
    then show "drop n xs ! j = map (\<lambda>j. (k + int n) + int j) [0..<length (drop n xs)] ! j"
      using arg_cong [OF k(2), of "\<lambda>l. l ! (n + j)"] by simp
  qed simp
  then show ?thesis using k(1) unfolding consecutive_def by (intro exI [of _ "k + int n"]) simp
qed

lemma logs_ok_append_http:
  assumes "logs_ok st"
  shows "logs_ok (append_http_request_log st log)"
proof -
  have ok: "log_ok (st_http_logs st)" using assms by (simp add: logs_ok_def)
  note rows = log_rows_append_http [OF ok]
  have "consecutive (map (fst \<circ> snd) (log_rows j (st_http_logs (append_http_request_log st log))))" for j
  proof (cases "j = hl_service_id log")
    case True
    have "consecutive (map (fst \<circ> snd) (log_rows j (st_http_logs st) @ [(j, next_idx j (st_http_logs st), log)]))"
      using log_ok_snoc [OF ok, of j log, unfolded log_ok_def, rule_format, of j] by (simp add: log_rows_snoc)
    from consecutive_drop [OF this] show ?thesis
      unfolding rows Let_def if_P [OF True] drop_map [symmetric] .
  qed (use ok in \<open>simp add: rows log_ok_def\<close>)
  moreover have "length (log_rows j (st_http_logs (append_http_request_log st log))) \<le> nat MAX_HTTP_REQUEST_LOGS_PER_SERVICE" for j
    using assms unfolding rows logs_ok_def by (simp add: Let_def) arith
  moreover have "st_deployment_logs (append_http_request_log st log) = st_deployment_logs st"
    by (simp add: append_http_request_log_def Let_def)
  ultimately show ?thesis using assms by (simp add: logs_ok_def log_ok_def)
qed

lemma logs_ok_append_deployment:
  assumes "logs_ok st" and "append_deployment_log st i line = Inr st'"
  shows "logs_ok st'"
proof -
  have "st' = st\<lparr> st_deployment_logs := st_deployment_logs st @ [(i, next_idx i (st_deployment_logs st), line)] \<rparr>"
    using assms(2) by (auto simp: append_deployment_log_def split: if_splits)
  moreover have "log_ok (st_deployment_logs st @ [(i, next_idx i (st_deployment_logs st), line)])"
    using assms(1) by (intro log_ok_snoc) (simp add: logs_ok_def)
  ultimately show ?thesis using assms(1) by (simp add: logs_ok_def)
qed

lemma logs_ok_same:
  "logs_ok st \<Longrightarrow> st_deployment_logs st' = st_deployment_logs st \<Longrightarrow> st_http_logs st' = st_http_logs st \<Longrightarrow> logs_ok st'"
  by (simp add: logs_ok_def)

lemma logs_save_deployment:
  "save_deployment st d = Inr st' \<Longrightarrow>
     st_deployment_logs st' = st_deployment_logs st \<and> st_http_logs st' = st_http_logs st"
  by (erule save_deployment_InrE) (drule insert_service_deployments_upsert, simp)

lemma logs_delete_user: "store_logs_dropped st (fst (delete_user st i))"
proof -
  have "store_logs_dropped st
      (st\<lparr> st_users := x, st_registries := y, st_databases := d, st_queues := q, st_buckets := b, st_github_apps := g \<rparr>)"
    for x y d q b g
    by (simp add: store_logs_dropped_def)
  from store_logs_dropped_trans [OF this logs_delete_where(3)] show ?thesis by (simp add: delete_user_def)
qed

lemma logs_delete_service: "store_logs_dropped st (fst (delete_service st i))"
  using store_logs_dropped_trans [OF logs_delete_where(1) logs_delete_where(4)] by (simp add: delete_service_def)

lemmas managed_writes =
  save_managed_database_def delete_managed_database_def save_managed_queue_def delete_managed_queue_def
  save_storage_bucket_def delete_storage_bucket_def save_github_app_def delete_github_app_def

lemma logs_ok_step: "store_step st st' \<Longrightarrow> logs_ok st \<Longrightarrow> logs_ok st'"
proof (induction rule: store_step.induct)
  case (2 st i)
  then show ?case using logs_ok_dropped logs_delete_user by blast
next
  case (5 st a st')
  then show ?case using logs_ok_dropped logs_save_app by blast
next
  case (6 st i)
  then show ?case using logs_ok_dropped logs_delete_app by blast
next
  case (8 st i)
  then show ?case using logs_ok_dropped logs_delete_service by blast
next
  case (10 st d st')
  then show ?case using logs_ok_same logs_save_deployment by blast
next
  case (11 st i)
  then show ?case using logs_ok_dropped logs_delete_deployment by blast
next
  case (12 st i line st')
  then show ?case by (rule logs_ok_append_deployment [rotated])
next
  case (13 st log)
  then show ?case by (rule logs_ok_append_http)
next
  case (14 st i)
  then show ?case using logs_ok_dropped logs_delete_where(4) by blast
qed (auto simp: logs_ok_def save_user_def save_registry_def delete_registry_def save_service_def insert_service_def
    save_service_deployment_def upsert_service_deployment_def save_certificate_def delete_certificate_def
    delete_certificate_by_domain_def managed_writes split: if_splits)

lemma store_reachable_logs_ok: "store_reachable st \<Longrightarrow> logs_ok st"
proof (induction rule: store_reachable.induct)
  case 1
  show ?case by (simp add: logs_ok_def log_ok_def empty_store_def log_rows_def)
qed (rule logs_ok_step)

section \<open>What an append leaves\<close>

lemma sort_consecutive:
  assumes "consecutive (map f xs)"
  shows "sort_key f xs = xs" and "sort_key (\<lambda>x. - f x) xs = rev xs"
proof -
  have s: "sorted_wrt (<) (map f xs)" using assms by (rule consecutive_sorted)
  then have "sorted (map f xs)" by (metis strict_sorted_imp_sorted)
  then show "sort_key f xs = xs" by (rule sort_key_id_if_sorted)
  have "inj_on f (set xs)" using s strict_sorted_iff [of "map f xs"] by (simp add: distinct_map)
  moreover have "sorted (map (\<lambda>x. - f x) (rev xs))"
    using \<open>sorted (map f xs)\<close> by (simp add: rev_map [symmetric] sorted_wrt_rev sorted_wrt_map)
  ultimately show "sort_key (\<lambda>x. - f x) xs = rev xs"
    by (intro sort_key_inj_key_eq) (auto simp: inj_on_def)
qed

lemma list_http_request_logs_rows:
  assumes "log_ok (st_http_logs st)"
  shows "list_http_request_logs st i limit offset =
    take limit (drop offset (map (snd \<circ> snd) (rev (log_rows i (st_http_logs st)))))"
proof -
  have "consecutive (map (\<lambda>r. fst (snd r)) (log_rows i (st_http_logs st)))"
    using assms by (simp add: log_ok_def comp_def)
  from sort_consecutive(2) [OF this] show ?thesis
    by (simp add: list_http_request_logs_def log_rows_def [symmetric])
qed

text \<open>
  The request log of a service shows its latest requests, newest first, and at most 2000 of
  them: appending an entry puts it in front, drops the oldest one when there are already 2000, and
  does not touch the log of another service.
\<close>

theorem http_log_shows_latest:
  assumes "store_reachable st"
  shows "list_http_request_logs (append_http_request_log st log) i limit offset =
    take limit (drop offset
      (if i = hl_service_id log then take 2000 (log # list_http_request_logs st i 2000 0)
       else list_http_request_logs st i 2000 0))"
proof -
  have ok: "logs_ok st" using assms by (rule store_reachable_logs_ok)
  let ?l = "map (snd \<circ> snd) (rev (log_rows i (st_http_logs st)))"
  have len: "length ?l \<le> 2000" using ok by (simp add: logs_ok_def MAX_HTTP_REQUEST_LOGS_PER_SERVICE_def)
  then have l: "list_http_request_logs st i 2000 0 = ?l"
    using ok by (simp add: list_http_request_logs_rows logs_ok_def)
  have ok': "log_ok (st_http_logs (append_http_request_log st log))" "log_ok (st_http_logs st)"
    using logs_ok_append_http [OF ok] ok by (simp_all add: logs_ok_def)
  have "take (n - (n - 1999)) (rev xs) = take 1999 (rev xs)" if "length xs = n"
    for n and xs :: "(uuid \<times> int \<times> http_request_log) list"
    using that by (cases "n \<le> 1999") simp_all
  then show ?thesis
    unfolding list_http_request_logs_rows [OF ok'(1)] log_rows_append_http [OF ok'(2)] l
    by (simp add: Let_def MAX_HTTP_REQUEST_LOGS_PER_SERVICE_def rev_drop take_map)
qed

lemma get_deployment_logs_rows:
  assumes "log_ok (st_deployment_logs st)"
  shows "get_deployment_logs st i limit offset =
    take limit (drop offset (map (snd \<circ> snd) (log_rows i (st_deployment_logs st))))"
proof -
  have "consecutive (map (fst \<circ> snd) (log_rows i (st_deployment_logs st)))"
    using assms by (simp add: log_ok_def)
  from sort_consecutive(1) [OF this] show ?thesis
    by (simp add: get_deployment_logs_def log_rows_def [symmetric])
qed

text \<open>
  The log of a deployment reads back in the order it was written: an appended line comes last,
  after all lines before it, page by page.
\<close>

theorem deployment_log_in_order:
  assumes "store_reachable st" and "append_deployment_log st i line = Inr st'"
    and "length (st_deployment_logs st) \<le> n"
  shows "get_deployment_logs st' j limit offset =
    take limit (drop offset (get_deployment_logs st j n 0 @ (if j = i then [line] else [])))"
proof -
  have ok: "logs_ok st" using assms(1) by (rule store_reachable_logs_ok)
  have st': "st_deployment_logs st' = st_deployment_logs st @ [(i, next_idx i (st_deployment_logs st), line)]"
    using assms(2) by (auto simp: append_deployment_log_def split: if_splits)
  have "length (log_rows j (st_deployment_logs st)) \<le> n"
    unfolding log_rows_def using assms(3) length_filter_le le_trans by blast
  then show ?thesis
    using ok logs_ok_append_deployment [OF ok assms(2)]
    by (simp add: get_deployment_logs_rows logs_ok_def st' log_rows_snoc)
qed

section \<open>Witnesses\<close>

definition demo_log :: "uuid \<Rightarrow> string \<Rightarrow> http_request_log" where
  "demo_log i path =
     \<lparr> hl_service_id = i, hl_app_id = 1, hl_domain = ''app.example.com'', hl_method = ''GET'', hl_path = path,
       hl_status = 200, hl_upstream = ''a:80'', hl_protocol = ''http'', hl_created_at = 0 \<rparr>"

theorem http_log_shows_latest_witness:
  "list_http_request_logs (append_http_request_log empty_store (demo_log 5 ''/x'')) 5 10 0 = [demo_log 5 ''/x'']"
proof -
  have "list_http_request_logs empty_store 5 2000 0 = []"
    by (simp add: list_http_request_logs_def empty_store_def)
  then show ?thesis
    using http_log_shows_latest [OF store_reachable.intros(1), of "demo_log 5 ''/x''" 5 10 0]
    by (simp add: demo_log_def)
qed

theorem deployment_log_in_order_witness:
  "\<exists>st'. append_deployment_log demo_store 3 ''done'' = Inr st' \<and> get_deployment_logs st' 3 10 0 = [''done'']"
proof -
  obtain st' where st': "append_deployment_log demo_store 3 ''done'' = Inr st'"
    by (simp add: append_deployment_log_def demo_store_def demo_deployment_def deployment_row_def deployment_new_def)
  have "get_deployment_logs demo_store 3 0 0 = []" by (simp add: get_deployment_logs_def)
  then show ?thesis
    using st' deployment_log_in_order [OF demo_store_reachable(3) st', of 0 3 10 0]
    by (simp add: demo_store_def demo_store1_def demo_store0_def empty_store_def)
qed

end
