(* ===== verification/Store_Rows.thy ===== *)
theory Store_Rows
  imports Store
begin

text \<open>
  The rows of the tables of deployments and service deployments before and after a write: shared by the
  proofs about the worker and about the API, which both load a deployment, change it and save it again.
\<close>

section \<open>Rows of deployments\<close>

definition deployment_of :: "store \<Rightarrow> uuid \<Rightarrow> deployment option" where
  "deployment_of st j = select_row d_id j (st_deployments st)"

lemma deployment_of_SomeD: "deployment_of st j = Some d \<Longrightarrow> d \<in> set (st_deployments st) \<and> d_id d = j"
  unfolding deployment_of_def by (rule select_row_SomeD)

text \<open>The references of the rows, one by one.\<close>

lemma refsD: "refs f xs g ys \<Longrightarrow> x \<in> set xs \<Longrightarrow> f x \<in> g ` set ys"
  by (auto simp: refs_def)

lemma inv_references:
  assumes "store_inv st"
  shows "sd \<in> set (st_service_deployments st) \<Longrightarrow> sd_service_id sd \<in> s_id ` set (st_services st)"
    and "sd \<in> set (st_service_deployments st) \<Longrightarrow> sd_deployment_id sd \<in> d_id ` set (st_deployments st)"
    and "l \<in> set (st_deployment_logs st) \<Longrightarrow> fst l \<in> d_id ` set (st_deployments st)"
    and "d \<in> set (st_deployments st) \<Longrightarrow> d_app_id d \<in> p_id ` set (st_apps st)"
    and "s \<in> set (st_services st) \<Longrightarrow> s_app_id s \<in> p_id ` set (st_apps st)"
    and "d \<in> set (st_deployments st) \<Longrightarrow> set_option (d_rollback_from_deployment_id d) \<subseteq> d_id ` set (st_deployments st)"
proof -
  have "refs sd_service_id (st_service_deployments st) s_id (st_services st)"
    "refs sd_deployment_id (st_service_deployments st) d_id (st_deployments st)"
    "refs fst (st_deployment_logs st) d_id (st_deployments st)" "refs d_app_id (st_deployments st) p_id (st_apps st)"
    "refs s_app_id (st_services st) p_id (st_apps st)" "rollback_ok (st_deployments st)"
    using assms by (simp_all add: store_inv_def foreign_keys_ok_def)
  note r = this
  show "sd \<in> set (st_service_deployments st) \<Longrightarrow> sd_service_id sd \<in> s_id ` set (st_services st)"
    by (rule refsD [OF r(1)])
  show "sd \<in> set (st_service_deployments st) \<Longrightarrow> sd_deployment_id sd \<in> d_id ` set (st_deployments st)"
    by (rule refsD [OF r(2)])
  show "l \<in> set (st_deployment_logs st) \<Longrightarrow> fst l \<in> d_id ` set (st_deployments st)"
    by (rule refsD [OF r(3)])
  show "d \<in> set (st_deployments st) \<Longrightarrow> d_app_id d \<in> p_id ` set (st_apps st)"
    by (rule refsD [OF r(4)])
  show "s \<in> set (st_services st) \<Longrightarrow> s_app_id s \<in> p_id ` set (st_apps st)"
    by (rule refsD [OF r(5)])
  show "d \<in> set (st_deployments st) \<Longrightarrow> set_option (d_rollback_from_deployment_id d) \<subseteq> d_id ` set (st_deployments st)"
    using r(6) by (simp add: rollback_ok_def)
qed

lemma save_deployment_of:
  assumes "save_deployment st d = Inr st'"
  shows "deployment_of st' j = (if j = d_id d then Some (deployment_row d) else deployment_of st j)"
proof -
  have "st_deployments st' = upsert d_id (\<lambda>old new. new) (deployment_row d) (st_deployments st)"
    using assms by (rule save_deployment_InrE) (auto dest: insert_service_deployments_upsert)
  moreover have "d_id (deployment_row d) = d_id d" by (simp add: deployment_row_def)
  ultimately show ?thesis
    unfolding deployment_of_def by (simp add: deployments.find_upsert split: option.splits)
qed

lemma get_deployment_id: "get_deployment st i = Some d \<Longrightarrow> d_id d = i"
  by (auto simp: get_deployment_def load_deployment_def dest!: select_row_SomeD)

lemma remove_services_deployments: "st_deployments (remove_services st ids) = st_deployments st"
  unfolding remove_services_def
  by (induction ids arbitrary: st) (simp_all add: delete_services_where_def delete_http_request_logs_def Let_def)

lemma save_app_deployments: "save_app st a = Inr st' \<Longrightarrow> st_deployments st' = st_deployments st"
  by (auto simp: save_app_def Let_def and_then_def remove_services_deployments dest!: insert_services_upsert
      split: if_splits sum.splits)

lemma deployment_of_iff:
  assumes "store_reachable st"
  shows "deployment_of st j = Some d \<longleftrightarrow> d \<in> set (st_deployments st) \<and> d_id d = j"
proof -
  have "distinct (map d_id (st_deployments st))"
    using store_reachable_inv [OF assms] by (simp add: store_inv_defs)
  then show ?thesis
    unfolding deployment_of_def
    by (metis select_row_SomeD select_row_distinct)
qed

lemma insert_service_deployments_succeeds:
  assumes "\<forall>sd \<in> set sds. sd_service_id sd \<in> s_id ` set (st_services st)" and "i \<in> d_id ` set (st_deployments st)"
  shows "\<exists>st'. insert_service_deployments st i sds = Inr st'"
  using assms
proof (induction sds arbitrary: st)
  case (Cons sd sds)
  let ?st = "st\<lparr> st_service_deployments := upsert sd_id (\<lambda>old new. new) (sd\<lparr> sd_deployment_id := i \<rparr>) (st_service_deployments st) \<rparr>"
  have "insert_service_deployments st i (sd # sds) = insert_service_deployments ?st i sds"
    using Cons.prems by (simp add: upsert_service_deployment_def and_then_def)
  then show ?case using Cons.IH [of ?st] Cons.prems by simp
qed simp

lemma append_log_deployments: "append_deployment_log st i l = Inr st' \<Longrightarrow> get_deployment st' j = get_deployment st j"
  by (auto simp: append_deployment_log_def get_deployment_def load_deployment_def list_service_deployments_def
      fun_eq_iff intro!: arg_cong [where f = "\<lambda>f. map_option f _"] split: if_splits)

text \<open>
  A deployment that was loaded and is saved again with its key, its project and its rollback source:
  that succeeds as long as the services of its service deployments exist.
\<close>

lemma save_again_succeeds:
  assumes inv: "store_inv st" and row: "deployment_of st (d_id d) = Some r"
    and d: "d_app_id d = d_app_id r" "d_rollback_from_deployment_id d = d_rollback_from_deployment_id r"
    and sds: "\<forall>sd \<in> set (d_service_deployments d). sd_service_id sd \<in> s_id ` set (st_services st)"
  shows "\<exists>st'. save_deployment st d = Inr st'"
proof -
  have m: "r \<in> set (st_deployments st)" "d_id r = d_id d"
    using select_row_SomeD [of d_id "d_id d" "st_deployments st" r] row by (auto simp: deployment_of_def)
  let ?ds = "upsert d_id (\<lambda>old new. new) (deployment_row d) (st_deployments st)"
  have ids: "d_id ` set ?ds = d_id ` set (st_deployments st)"
    using m by (auto simp: deployments.keys_upsert deployment_row_def) (metis image_eqI)
  have "d_app_id d \<in> p_id ` set (st_apps st)" "set_option (d_rollback_from_deployment_id d) \<subseteq> d_id ` set ?ds"
    using inv_references(4,6) [OF inv m(1)] ids d by simp_all
  moreover have "d_id d \<in> d_id ` set (st_deployments st)" using m by (metis image_eqI)
  then have "\<exists>st'. insert_service_deployments
      (st\<lparr> st_deployments := ?ds, st_service_deployments := filter (\<lambda>sd. sd_deployment_id sd \<noteq> d_id d) (st_service_deployments st) \<rparr>)
      (d_id d) (d_service_deployments d) = Inr st'"
    using sds ids by (intro insert_service_deployments_succeeds) auto
  ultimately show ?thesis by (simp add: save_deployment_def Let_def)
qed

lemma loaded_replicas:
  assumes "store_inv st"
  shows "set (list_service_deployments st i) = {sd \<in> set (st_service_deployments st). sd_deployment_id sd = i}"
    and "distinct (map sd_id (list_service_deployments st i))"
    and "sd \<in> set (list_service_deployments st i) \<Longrightarrow> sd_service_id sd \<in> s_id ` set (st_services st)"
  using assms
  by (auto simp: list_service_deployments_def store_inv_defs refs_def distinct_map distinct_sort inj_on_def)

lemma get_deployment_row:
  "get_deployment st i = map_option (\<lambda>r. r\<lparr> d_service_deployments := list_service_deployments st i, d_logs := [] \<rparr>) (deployment_of st i)"
  by (auto simp: get_deployment_def load_deployment_def deployment_of_def dest!: select_row_SomeD split: option.splits
      intro!: option.map_cong0)

lemma save_status_again:
  assumes inv: "store_inv st" and get: "get_deployment st i = Some d"
  shows "\<exists>st'. save_deployment st (d\<lparr> d_status := s, d_finished_at := t \<rparr>) = Inr st'"
proof -
  obtain r where r: "deployment_of st i = Some r" and d: "d = r\<lparr> d_service_deployments := list_service_deployments st i, d_logs := [] \<rparr>"
    using get by (auto simp: get_deployment_row)
  have "d_id r = i" using select_row_SomeD [of d_id i "st_deployments st" r] r by (simp add: deployment_of_def)
  then show ?thesis
    using r by (intro save_again_succeeds [OF inv, where r = r]) (auto simp: d loaded_replicas(3) [OF inv])
qed

text \<open>A row that is in a table is not changed by inserting it again.\<close>

lemma upsert_same:
  assumes "distinct (map key rows)" and "row \<in> set rows"
  shows "upsert key (\<lambda>old new. new) row rows = rows"
  using assms by (auto simp: upsert_def intro!: map_idI) (metis distinct_map inj_on_eq_iff)

lemma save_service_deployment_same:
  assumes inv: "store_inv st" and sd: "sd \<in> set (st_service_deployments st)"
  shows "save_service_deployment st sd = Inr st"
proof -
  have "sd_service_id sd \<in> s_id ` set (st_services st)" "sd_deployment_id sd \<in> d_id ` set (st_deployments st)"
    using inv_references(1,2) [OF inv sd] .
  moreover have "upsert sd_id (\<lambda>old new. new) sd (st_service_deployments st) = st_service_deployments st"
    using inv sd by (intro upsert_same) (simp_all add: store_inv_defs)
  ultimately show ?thesis by (simp add: save_service_deployment_def upsert_service_deployment_def)
qed

text \<open>Deleting a deployment that was just saved for the first time gives the store as it was.\<close>

lemma delete_saved_deployment:
  assumes inv: "store_inv st" and new: "d_id d \<notin> d_id ` set (st_deployments st)" and "d_service_deployments d = []"
    and sv: "save_deployment st d = Inr st'"
  shows "fst (delete_deployment st' (d_id d)) = st"
proof -
  let ?row = "deployment_row d"
  have old: "sd_deployment_id sd \<noteq> d_id d" if "sd \<in> set (st_service_deployments st)" for sd
    using inv_references(2) [OF inv that] new by metis
  have logs: "fst l \<noteq> d_id d" if "l \<in> set (st_deployment_logs st)" for l
    using inv_references(3) [OF inv that] new by metis
  have rb: "unlink_rollback {d_id d} r = r" if "r \<in> set (st_deployments st)" for r
    using inv_references(6) [OF inv that] new by (auto simp: unlink_rollback_def split: option.splits)
  have "upsert d_id (\<lambda>old new. new) ?row (st_deployments st) = st_deployments st @ [?row]"
    using new by (simp add: upsert_def deployment_row_def)
  moreover have "filter (\<lambda>sd. sd_deployment_id sd \<noteq> d_id d) (st_service_deployments st) = st_service_deployments st"
    using old by (simp add: filter_id_conv)
  ultimately have st': "st' = st\<lparr> st_deployments := st_deployments st @ [?row] \<rparr>"
    using sv assms(3) by (auto simp: save_deployment_def Let_def split: if_splits)
  have "filter (\<lambda>r. d_id r \<noteq> d_id d) (st_deployments st @ [?row]) = st_deployments st"
    using new by (simp add: filter_id_conv deployment_row_def) (metis image_eqI)
  moreover have "d_id ` {r \<in> set (st_deployments st @ [?row]). d_id r = d_id d} = {d_id d}"
    by (auto simp: deployment_row_def)
  moreover have "map (unlink_rollback {d_id d}) (st_deployments st) = st_deployments st"
    using rb by (simp add: map_idI)
  moreover have "filter (\<lambda>(j, _). j \<noteq> d_id d) (st_deployment_logs st) = st_deployment_logs st"
    using logs by (simp add: filter_id_conv split_def)
  moreover have "d_id d \<in> d_id ` set (st_deployments st @ [?row])" by (simp add: deployment_row_def)
  moreover have "filter (\<lambda>sd. sd_deployment_id sd \<noteq> d_id d) (st_service_deployments st) = st_service_deployments st"
    using old by (simp add: filter_id_conv)
  ultimately show ?thesis
    unfolding st' delete_deployment_def delete_deployments_where_def Let_def
    by (simp del: set_append filter_append)
qed

end
