(* ===== verification/Service_Inventory.thy ===== *)
theory Service_Inventory
  imports Store
begin

text \<open>
  The inventory of a user's services, \<open>crates/containr-common/src/service_inventory.rs\<close> and
  \<open>list_service_inventory_by_owner_and_group\<close> of \<open>db.rs\<close>: the state in which the deployments leave a
  service, and the list of the services, databases and queues of an owner, all of them or those of
  one project, in the order in which the dashboard shows them.
\<close>

section \<open>The state of a service\<close>

datatype service_resource_kind = AppService | ManagedDatabase | ManagedQueue

definition resource_kind_as_str :: "service_resource_kind \<Rightarrow> string" where
  "resource_kind_as_str k =
     (case k of AppService \<Rightarrow> ''app_service'' | ManagedDatabase \<Rightarrow> ''managed_database'' | ManagedQueue \<Rightarrow> ''managed_queue'')"

datatype service_runtime_status = RPending | RStarting | RRunning | RPartial | RStopped | RFailed

definition runtime_status_as_str :: "service_runtime_status \<Rightarrow> string" where
  "runtime_status_as_str s =
     (case s of RPending \<Rightarrow> ''pending'' | RStarting \<Rightarrow> ''starting'' | RRunning \<Rightarrow> ''running'' | RPartial \<Rightarrow> ''partial''
      | RStopped \<Rightarrow> ''stopped'' | RFailed \<Rightarrow> ''failed'')"

definition from_managed_status :: "managed_status \<Rightarrow> service_runtime_status" where
  "from_managed_status s =
     (case s of MPending \<Rightarrow> RPending | MStarting \<Rightarrow> RStarting | MRunning \<Rightarrow> RRunning | MStopped \<Rightarrow> RStopped
      | MFailed \<Rightarrow> RFailed)"

record service_inventory_item =
  si_id :: uuid
  si_owner_id :: uuid
  si_group_id :: "uuid option"
  si_project_id :: "uuid option"
  si_project_name :: "string option"
  si_resource_kind :: service_resource_kind
  si_service_type :: service_type
  si_name :: string
  si_image :: "string option"
  si_status :: service_runtime_status
  si_network_name :: string
  si_internal_host :: "string option"
  si_port :: "u16 option"
  si_external_port :: "u16 option"
  si_proxy_port :: "u16 option"
  si_proxy_external_port :: "u16 option"
  si_connection_string :: "string option"
  si_proxy_connection_string :: "string option"
  si_domains :: "string list"
  si_http_only_domains :: "string list"
  si_schedule :: "string option"
  si_notes :: "string option"
  si_port_mappings :: "port_mapping list"
  si_public_http :: bool
  si_desired_instances :: u32
  si_running_instances :: u32
  si_container_ids :: "string list"
  si_deployment_id :: "uuid option"
  si_pitr_enabled :: bool
  si_proxy_enabled :: bool
  si_created_at :: timestamp
  si_updated_at :: timestamp

record app_service_runtime_summary =
  rs_deployment_id :: "uuid option"
  rs_image :: "string option"
  rs_status :: service_runtime_status
  rs_desired_instances :: u32
  rs_running_instances :: u32
  rs_container_ids :: "string list"

definition in_progress :: "deployment_status \<Rightarrow> bool" where
  "in_progress s \<longleftrightarrow> s \<in> {Pending, Cloning, Building, Pushing, Starting}"

text \<open>What a service without service deployments shows.\<close>

definition status_without_replicas :: "deployment_status \<Rightarrow> service_runtime_status" where
  "status_without_replicas s =
     (case s of Failed \<Rightarrow> RFailed | Stopped \<Rightarrow> RStopped | Running \<Rightarrow> RStopped | Pending \<Rightarrow> RPending
      | Cloning \<Rightarrow> RStarting | Building \<Rightarrow> RStarting | Pushing \<Rightarrow> RStarting | Starting \<Rightarrow> RStarting)"

definition replicas_status :: "u32 \<Rightarrow> u32 \<Rightarrow> service_deployment list \<Rightarrow> service_runtime_status" where
  "replicas_status desired running sds =
     (if running = desired \<and> desired > 0 then RRunning
      else if running > 0 then RPartial
      else if list_ex (\<lambda>sd. in_progress (sd_status sd)) sds then RStarting
      else if list_ex (\<lambda>sd. sd_status sd = Failed) sds then RFailed
      else if list_all (\<lambda>sd. sd_status sd = Stopped) sds then RStopped
      else RPending)"

definition summarize_app_service_runtime :: "container_service \<Rightarrow> deployment list \<Rightarrow> app_service_runtime_summary" where
  "summarize_app_service_runtime service deployments =
     (let deployments = sort_key (\<lambda>d. - d_created_at d) deployments;
          desired = (if is_cron_job service then 1 else max (s_replicas service) 1);
          summary = \<lparr> rs_deployment_id = None, rs_image = None, rs_status = RPending,
                      rs_desired_instances = desired, rs_running_instances = 0, rs_container_ids = [] \<rparr>;
          current = or_else (find (\<lambda>d. d_status d = Running) deployments)
                      (case deployments of [] \<Rightarrow> None | d # _ \<Rightarrow> Some d)
      in case current of
           None \<Rightarrow> if trim (s_image service) \<noteq> [] then summary\<lparr> rs_image := Some (s_image service) \<rparr> else summary
         | Some d \<Rightarrow>
             (let sds = filter (\<lambda>sd. sd_service_id sd = s_id service) (d_service_deployments d);
                  summary = summary
                    \<lparr> rs_deployment_id := Some (d_id d),
                      rs_image :=
                        or_else (Option.bind (find (\<lambda>sd. sd_service_id sd = s_id service) (d_service_deployments d)) sd_image_id)
                          (if trim (s_image service) = [] then d_image_id d else Some (s_image service)) \<rparr>
              in if sds = [] then summary\<lparr> rs_status := status_without_replicas (d_status d) \<rparr>
                 else
                   let running = of_nat (length (filter (\<lambda>sd. sd_status sd = Running) sds))
                   in summary\<lparr> rs_running_instances := running,
                               rs_container_ids := List.map_filter sd_container_id sds,
                               rs_status := replicas_status desired running sds \<rparr>))"

section \<open>The inventory\<close>

definition app_inventory_item :: "(uuid \<Rightarrow> string) \<Rightarrow> deployment list \<Rightarrow> project \<Rightarrow> container_service \<Rightarrow> service_inventory_item" where
  "app_inventory_item show_uuid deployments app svc =
     (let runtime = summarize_app_service_runtime svc deployments
      in \<lparr> si_id = s_id svc, si_owner_id = p_owner_id app, si_group_id = Some (p_id app),
           si_project_id = Some (p_id app), si_project_name = Some (p_name app), si_resource_kind = AppService,
           si_service_type = s_service_type svc, si_name = s_name svc,
           si_image = or_else (rs_image runtime) (if trim (s_image svc) = [] then None else Some (s_image svc)),
           si_status = rs_status runtime, si_network_name = network_name show_uuid app,
           si_internal_host = Some (s_name svc), si_port = (if s_port svc = 0 then None else Some (s_port svc)),
           si_external_port = None, si_proxy_port = None, si_proxy_external_port = None,
           si_connection_string = None, si_proxy_connection_string = None,
           si_domains = service_custom_domains svc, si_http_only_domains = service_http_only_domains svc,
           si_schedule = s_schedule svc, si_notes = s_notes svc, si_port_mappings = s_port_mappings svc,
           si_public_http = is_public_http svc, si_desired_instances = rs_desired_instances runtime,
           si_running_instances = rs_running_instances runtime, si_container_ids = rs_container_ids runtime,
           si_deployment_id = rs_deployment_id runtime, si_pitr_enabled = False, si_proxy_enabled = False,
           si_created_at = s_created_at svc, si_updated_at = s_updated_at svc \<rparr>)"

definition option_list :: "'a option \<Rightarrow> 'a list" where
  "option_list x = (case x of None \<Rightarrow> [] | Some y \<Rightarrow> [y])"

definition database_inventory_item ::
  "(uuid \<Rightarrow> string) \<Rightarrow> (uuid \<rightharpoonup> string) \<Rightarrow> managed_database \<Rightarrow> service_inventory_item" where
  "database_inventory_item show_uuid group_names d =
     \<lparr> si_id = md_id d, si_owner_id = md_owner_id d, si_group_id = md_group_id d, si_project_id = md_group_id d,
       si_project_name = Option.bind (md_group_id d) group_names, si_resource_kind = ManagedDatabase,
       si_service_type = database_service_type (md_db_type d), si_name = md_name d,
       si_image = Some (database_docker_image d), si_status = from_managed_status (md_status d),
       si_network_name = managed_network_name show_uuid (md_group_id d) (md_id d),
       si_internal_host = Some (normalize_internal_host (md_internal_host d)), si_port = Some (md_port d),
       si_external_port = md_external_port d, si_proxy_port = proxy_port d,
       si_proxy_external_port = md_proxy_external_port d,
       si_connection_string = Some (database_connection_string d),
       si_proxy_connection_string = proxy_connection_string d, si_domains = [], si_http_only_domains = [],
       si_schedule = None, si_notes = None, si_port_mappings = [], si_public_http = False,
       si_desired_instances = 1, si_running_instances = (if md_status d = MRunning then 1 else 0),
       si_container_ids = option_list (md_container_id d), si_deployment_id = None,
       si_pitr_enabled = md_pitr_enabled d, si_proxy_enabled = md_proxy_enabled d,
       si_created_at = md_created_at d, si_updated_at = md_updated_at d \<rparr>"

definition queue_inventory_item ::
  "(uuid \<Rightarrow> string) \<Rightarrow> (uuid \<rightharpoonup> string) \<Rightarrow> managed_queue \<Rightarrow> service_inventory_item" where
  "queue_inventory_item show_uuid group_names q =
     \<lparr> si_id = mq_id q, si_owner_id = mq_owner_id q, si_group_id = mq_group_id q, si_project_id = mq_group_id q,
       si_project_name = Option.bind (mq_group_id q) group_names, si_resource_kind = ManagedQueue,
       si_service_type = queue_service_type (mq_queue_type q), si_name = mq_name q,
       si_image = Some (queue_docker_image q), si_status = from_managed_status (mq_status q),
       si_network_name = managed_network_name show_uuid (mq_group_id q) (mq_id q),
       si_internal_host = Some (normalize_internal_host (mq_internal_host q)), si_port = Some (mq_port q),
       si_external_port = mq_external_port q, si_proxy_port = None, si_proxy_external_port = None,
       si_connection_string = Some (queue_connection_string q), si_proxy_connection_string = None,
       si_domains = [], si_http_only_domains = [], si_schedule = None, si_notes = None, si_port_mappings = [],
       si_public_http = False, si_desired_instances = 1,
       si_running_instances = (if mq_status q = MRunning then 1 else 0),
       si_container_ids = option_list (mq_container_id q), si_deployment_id = None, si_pitr_enabled = False,
       si_proxy_enabled = False, si_created_at = mq_created_at q, si_updated_at = mq_updated_at q \<rparr>"

text \<open>The order of the list: by project (none first), then by name, then by age.\<close>

definition inventory_key :: "service_inventory_item \<Rightarrow> string \<times> string \<times> timestamp" where
  "inventory_key item = (unwrap_or (si_project_name item) [], si_name item, si_created_at item)"

definition list_service_inventory_by_owner_and_group ::
  "(uuid \<Rightarrow> string) \<Rightarrow> store \<Rightarrow> uuid \<Rightarrow> uuid option \<Rightarrow> service_inventory_item list" where
  "list_service_inventory_by_owner_and_group show_uuid st owner_id group_id =
     (let apps = list_apps_by_owner st owner_id;
          group_names = map_option p_name \<circ> collect_map p_id apps;
          in_group = (\<lambda>g. group_id = None \<or> g = group_id)
      in sort_key inventory_key
           (concat (map (\<lambda>app. map (app_inventory_item show_uuid (list_deployments_by_app st (p_id app)) app) (p_services app))
                      (filter (\<lambda>app. in_group (Some (p_id app))) apps))
            @ map (database_inventory_item show_uuid group_names)
                (filter (\<lambda>d. in_group (md_group_id d)) (list_managed_databases_by_owner st owner_id))
            @ map (queue_inventory_item show_uuid group_names)
                (filter (\<lambda>q. in_group (mq_group_id q)) (list_managed_queues_by_owner st owner_id))))"

definition list_service_inventory_by_owner :: "(uuid \<Rightarrow> string) \<Rightarrow> store \<Rightarrow> uuid \<Rightarrow> service_inventory_item list" where
  "list_service_inventory_by_owner show_uuid st owner_id =
     list_service_inventory_by_owner_and_group show_uuid st owner_id None"

definition get_service_inventory_by_id ::
  "(uuid \<Rightarrow> string) \<Rightarrow> store \<Rightarrow> uuid \<Rightarrow> uuid \<Rightarrow> service_inventory_item option" where
  "get_service_inventory_by_id show_uuid st owner_id service_id =
     find (\<lambda>s. si_id s = service_id) (list_service_inventory_by_owner show_uuid st owner_id)"

section \<open>What the inventory shows\<close>

definition inventory_entry :: "service_inventory_item \<Rightarrow> service_resource_kind \<times> uuid" where
  "inventory_entry item = (si_resource_kind item, si_id item)"

definition owned_services :: "store \<Rightarrow> uuid \<Rightarrow> uuid option \<Rightarrow> (service_resource_kind \<times> uuid) set" where
  "owned_services st owner_id group_id =
     {(AppService, s_id s) | s a. s \<in> set (st_services st) \<and> a \<in> set (st_apps st) \<and> s_app_id s = p_id a \<and>
        p_owner_id a = owner_id \<and> (group_id = None \<or> group_id = Some (p_id a))}
     \<union> {(ManagedDatabase, md_id d) | d. d \<in> set (st_databases st) \<and> md_owner_id d = owner_id \<and>
         (group_id = None \<or> group_id = md_group_id d)}
     \<union> {(ManagedQueue, mq_id q) | q. q \<in> set (st_queues st) \<and> mq_owner_id q = owner_id \<and>
         (group_id = None \<or> group_id = mq_group_id q)}"

lemma inventory_item_entry [simp]:
  "inventory_entry (app_inventory_item f ds a s) = (AppService, s_id s)"
  "inventory_entry (database_inventory_item f g d) = (ManagedDatabase, md_id d)"
  "inventory_entry (queue_inventory_item f g q) = (ManagedQueue, mq_id q)"
  by (simp_all add: inventory_entry_def app_inventory_item_def database_inventory_item_def queue_inventory_item_def Let_def)

lemma inventory_item_owner [simp]:
  "si_owner_id (app_inventory_item f ds a s) = p_owner_id a"
  "si_owner_id (database_inventory_item f g d) = md_owner_id d"
  "si_owner_id (queue_inventory_item f g q) = mq_owner_id q"
  by (simp_all add: app_inventory_item_def database_inventory_item_def queue_inventory_item_def Let_def)

lemma distinct_map_sort_key: "distinct (map f (sort_key k xs)) \<longleftrightarrow> distinct (map f xs)"
  by (simp add: distinct_map distinct_sort)

lemma list_apps_by_owner_ids:
  "map p_id (list_apps_by_owner st owner) =
     map p_id (sort_key (\<lambda>a. - p_created_at a) (filter (\<lambda>a. p_owner_id a = owner) (st_apps st)))"
  by (simp add: list_apps_by_owner_def load_app_def)

text \<open>The services of a list of loaded projects are distinct.\<close>

lemma distinct_app_services:
  assumes "distinct (map p_id apps)" and "\<And>a s. a \<in> set apps \<Longrightarrow> s \<in> set (p_services a) \<Longrightarrow> s_app_id s = p_id a"
    and "\<And>a. a \<in> set apps \<Longrightarrow> distinct (map s_id (p_services a))"
    and "inj_on s_id (\<Union>a \<in> set apps. set (p_services a))"
  shows "distinct (map s_id (concat (map p_services apps)))"
  using assms
proof (induction apps)
  case (Cons a apps)
  have "distinct (map s_id (concat (map p_services apps)))"
    using Cons.prems by (intro Cons.IH) (auto intro: inj_on_subset)
  moreover have "s_id ` set (p_services a) \<inter> s_id ` (\<Union>b \<in> set apps. set (p_services b)) = {}"
  proof -
    have "s_id x \<noteq> s_id y" if x: "x \<in> set (p_services a)" and b: "b \<in> set apps" and y: "y \<in> set (p_services b)" for x y b
    proof
      assume "s_id x = s_id y"
      with Cons.prems(4) x b y have "x = y" by (auto dest!: inj_onD)
      then have "p_id a = p_id b"
        using Cons.prems(2) [of a x] Cons.prems(2) [of b y] x b y by simp
      then show False using Cons.prems(1) b by auto
    qed
    then show ?thesis by blast
  qed
  ultimately show ?case using Cons.prems(3) [of a] by auto
qed simp

text \<open>\<open>a\<close> may be listed before \<open>b\<close>: by the name of the project, then by their own names, then by age.\<close>

definition listed_before :: "service_inventory_item \<Rightarrow> service_inventory_item \<Rightarrow> bool" where
  "listed_before a b \<longleftrightarrow>
     (let p = unwrap_or (si_project_name a) []; q = unwrap_or (si_project_name b) []
      in p < q \<or> p = q \<and> (si_name a < si_name b \<or> si_name a = si_name b \<and> si_created_at a \<le> si_created_at b))"

lemma inventory_key_order: "inventory_key a \<le> inventory_key b \<longleftrightarrow> listed_before a b"
  by (auto simp: inventory_key_def listed_before_def less_eq_prod_def Let_def)

text \<open>
  C17. The inventory is the owner's and complete: it lists exactly the services of the projects the user
  owns and the databases and queues the user owns, those of the chosen project if one is chosen,
  each of them once, and nothing of anybody else; and it lists them in order, by the name of the
  project (none first), then by their names, then by age.
\<close>

theorem inventory_lists_owned_services:
  assumes "store_reachable st"
  shows "inventory_entry ` set (list_service_inventory_by_owner_and_group show_uuid st owner_id group_id) =
      owned_services st owner_id group_id \<and>
    distinct (map inventory_entry (list_service_inventory_by_owner_and_group show_uuid st owner_id group_id)) \<and>
    list_all (\<lambda>item. si_owner_id item = owner_id) (list_service_inventory_by_owner_and_group show_uuid st owner_id group_id) \<and>
    sorted_wrt listed_before (list_service_inventory_by_owner_and_group show_uuid st owner_id group_id)"
proof -
  note store = store_reachable_inv [OF assms]
  define apps where "apps = filter (\<lambda>app. group_id = None \<or> Some (p_id app) = group_id) (list_apps_by_owner st owner_id)"
  define dbs where "dbs = filter (\<lambda>d. group_id = None \<or> md_group_id d = group_id) (list_managed_databases_by_owner st owner_id)"
  define queues where "queues = filter (\<lambda>q. group_id = None \<or> mq_group_id q = group_id) (list_managed_queues_by_owner st owner_id)"
  define names where "names = map_option p_name \<circ> collect_map p_id (list_apps_by_owner st owner_id)"
  define items where
    "items = concat (map (\<lambda>app. map (app_inventory_item show_uuid (list_deployments_by_app st (p_id app)) app) (p_services app)) apps)
       @ map (database_inventory_item show_uuid names) dbs @ map (queue_inventory_item show_uuid names) queues"
  have inventory: "list_service_inventory_by_owner_and_group show_uuid st owner_id group_id = sort_key inventory_key items"
    by (simp add: list_service_inventory_by_owner_and_group_def items_def apps_def dbs_def queues_def names_def Let_def)
  have entries: "map inventory_entry items =
      map (\<lambda>s. (AppService, s_id s)) (concat (map p_services apps))
      @ map (\<lambda>d. (ManagedDatabase, md_id d)) dbs @ map (\<lambda>q. (ManagedQueue, mq_id q)) queues"
    by (simp add: items_def map_concat comp_def)
  have apps: "set apps = load_app st ` {a \<in> set (st_apps st). p_owner_id a = owner_id \<and> (group_id = None \<or> group_id = Some (p_id a))}"
    by (auto simp: apps_def list_apps_by_owner_def load_app_def)
  have services: "set (p_services (load_app st a)) = {s \<in> set (st_services st). s_app_id s = p_id a}" for a
    by (auto simp: load_app_def list_services_by_app_def)
  have id: "p_id (load_app st a) = p_id a" for a
    by (simp add: load_app_def)
  have "distinct (map s_id (concat (map p_services apps)))"
  proof (rule distinct_app_services)
    show "distinct (map p_id apps)"
      unfolding apps_def
      by (rule distinct_map_filter) (use store in \<open>simp add: list_apps_by_owner_ids distinct_map_sort_key distinct_map_filter store_inv_defs\<close>)
    show "s_app_id s = p_id a" if "a \<in> set apps" "s \<in> set (p_services a)" for a s
      using that by (auto simp: apps services id)
    show "distinct (map s_id (p_services a))" if "a \<in> set apps" for a
      using that store
      by (auto simp: apps load_app_def list_services_by_app_def distinct_map_sort_key distinct_map_filter store_inv_defs)
    have "(\<Union>a \<in> set apps. set (p_services a)) \<subseteq> set (st_services st)"
      by (auto simp: apps services)
    then show "inj_on s_id (\<Union>a \<in> set apps. set (p_services a))"
      using store by (auto simp: store_inv_defs distinct_map intro: inj_on_subset)
  qed
  moreover have "distinct (map md_id dbs)" "distinct (map mq_id queues)"
    using store
    by (simp_all add: dbs_def queues_def list_managed_databases_by_owner_def list_managed_queues_by_owner_def
        distinct_map_sort_key distinct_map_filter store_inv_defs)
  ultimately have "distinct (map inventory_entry items)"
    unfolding entries by (auto simp: distinct_map inj_on_def)
  moreover have "inventory_entry ` set items = owned_services st owner_id group_id"
  proof -
    have "inventory_entry ` set items = set (map inventory_entry items)" by simp
    also have "\<dots> = owned_services st owner_id group_id"
      unfolding entries owned_services_def
      by (auto simp: apps services dbs_def queues_def list_managed_databases_by_owner_def list_managed_queues_by_owner_def)
    finally show ?thesis .
  qed
  moreover have "list_all (\<lambda>item. si_owner_id item = owner_id) items"
    by (auto simp: list_all_iff items_def apps load_app_def dbs_def queues_def list_managed_databases_by_owner_def
        list_managed_queues_by_owner_def)
  moreover have "sorted_wrt listed_before (sort_key inventory_key items)"
    using sorted_sort_key [of inventory_key items] by (simp add: sorted_map inventory_key_order)
  ultimately show ?thesis by (simp add: inventory distinct_map_sort_key list_all_iff)
qed

theorem inventory_lists_owned_services_witness:
  "(AppService, 2) \<in> inventory_entry ` set (list_service_inventory_by_owner_and_group (\<lambda>_. []) demo_store 7 None) \<and>
   owned_services demo_store 7 None = {(AppService, 2)}"
proof -
  have owned: "owned_services demo_store 7 None = {(AppService, 2)}"
    by (auto simp: owned_services_def demo_store_def demo_store1_def demo_store0_def empty_store_def demo_web_def demo_app_def
        container_service_new_def project_new_def app_row_def)
  then show ?thesis
    using inventory_lists_owned_services [OF demo_store_reachable(3), of "\<lambda>_. []" 7 None] by blast
qed

end
