(* ===== verification/Docker.thy ===== *)
theory Docker
  imports Effects Models "HOL-Library.AList"
begin

text \<open>
  The container manager, \<open>crates/containr-runtime/src/docker.rs\<close>: what it sends to the Docker daemon
  for a container, and the operations that create, stop, remove and watch containers and create
  networks. The daemon (the \<open>bollard\<close> client) and the file system are parameters: the record
  \<open>docker_api\<close> holds one operation per client call the code makes, each a function of the state of
  the world. What the theorems rely on is the predicate \<open>docker_ok\<close>: which calls change the set of
  containers and how. The CPU quota is passed on as it is (the code multiplies it by
  \<open>10 ^ 9\<close>); logs, statistics and exec sessions are not modelled.
\<close>

section \<open>Configuration of a container\<close>

record docker_network_attachment =
  na_name :: string
  na_aliases :: "string list"

record docker_bind_mount =
  bm_source :: string
  bm_target :: string
  bm_read_only :: bool
  bm_seed_from_image :: bool

record docker_port_mapping =
  dpm_host_port :: u16
  dpm_container_port :: u16
  dpm_protocol :: string

record health_check_command =
  hcc_cmd :: "string list"
  hcc_interval_secs :: u32
  hcc_timeout_secs :: u32
  hcc_retries :: u32

text \<open>A \<open>HashMap\<close> of environment variables is an association list with distinct keys.\<close>

record docker_container_config =
  dc_id :: string
  dc_image :: string
  dc_env_vars :: "(string \<times> string) list"
  dc_port :: u16
  dc_additional_ports :: "u16 list"
  dc_port_mappings :: "docker_port_mapping list"
  dc_command :: "string list option"
  dc_entrypoint :: "string list option"
  dc_working_dir :: "string option"
  dc_memory_limit :: "u64 option"
  dc_cpu_limit :: "f64 option"
  dc_network :: "docker_network_attachment option"
  dc_mounts :: "docker_bind_mount list"
  dc_additional_networks :: "docker_network_attachment list"
  dc_health_check :: "health_check_command option"
  dc_restart_policy :: string

record docker_container_info =
  ci_id :: string
  ci_image :: string
  ci_container_id :: string

text \<open>The request of the client: \<open>ContainerCreateBody\<close> with its \<open>HostConfig\<close>.\<close>

datatype restart_policy_name = RestartNo | RestartAlways | RestartOnFailure | RestartUnlessStopped

record health_config =
  hg_test :: "string list"
  hg_interval :: i64
  hg_timeout :: i64
  hg_retries :: i64

record container_body =
  cb_image :: string
  cb_hostname :: "string option"
  cb_env :: "string list"
  cb_exposed_ports :: "string list option"
  cb_cmd :: "string list option"
  cb_working_dir :: "string option"
  cb_entrypoint :: "string list option"
  cb_memory :: "i64 option"
  cb_cpu_limit :: "f64 option"
  cb_restart_policy :: "restart_policy_name option"
  cb_network_mode :: "string option"
  cb_mounts :: "(string \<times> string \<times> bool) list"
  cb_port_bindings :: "(string \<times> string list) list option"
  cb_endpoints :: "(string \<times> string list option) list"
  cb_healthcheck :: "health_config option"

definition build_exposed_ports :: "u16 \<Rightarrow> u16 list \<Rightarrow> docker_port_mapping list \<Rightarrow> string list" where
  "build_exposed_ports primary_port additional_ports port_mappings =
     foldl (\<lambda>ports mapping. push_new ports (show_word (dpm_container_port mapping) @ ''/'' @ dpm_protocol mapping))
       ((if primary_port > 0 then [show_word primary_port @ ''/tcp''] else [])
          @ map (\<lambda>port. show_word port @ ''/tcp'') additional_ports)
       port_mappings"

definition add_port_binding :: "(string \<times> string list) list \<Rightarrow> docker_port_mapping \<Rightarrow> (string \<times> string list) list" where
  "add_port_binding bindings mapping =
     (let key = show_word (dpm_container_port mapping) @ ''/'' @ dpm_protocol mapping;
          binding = show_word (dpm_host_port mapping)
      in AList.update key (unwrap_or (map_of bindings key) [] @ [binding]) bindings)"

definition build_port_bindings :: "docker_port_mapping list \<Rightarrow> (string \<times> string list) list option" where
  "build_port_bindings port_mappings =
     (if port_mappings = [] then None else Some (foldl add_port_binding [] port_mappings))"

definition build_endpoint_settings :: "string list \<Rightarrow> string list option" where
  "build_endpoint_settings aliases =
     (let aliases = filter (\<lambda>alias. alias \<noteq> []) (map trim aliases)
      in if aliases = [] then None else Some aliases)"

definition build_networking_config :: "docker_network_attachment \<Rightarrow> (string \<times> string list option) list" where
  "build_networking_config network = [(na_name network, build_endpoint_settings (na_aliases network))]"

text \<open>The loop over the characters; \<open>hostname\<close> is built in reverse.\<close>

fun hostname_chars :: "string \<Rightarrow> string \<Rightarrow> string" where
  "hostname_chars hostname [] = hostname"
| "hostname_chars hostname (ch # chs) =
     (let normalized = (if is_ascii_alphanumeric ch then ascii_lower ch else CHR ''-'') in
        if normalized = CHR ''-'' \<and> starts_with ''-'' hostname then hostname_chars hostname chs
        else if length (normalized # hostname) \<ge> 63 then normalized # hostname
        else hostname_chars (normalized # hostname) chs)"

definition build_container_hostname :: "string \<Rightarrow> string" where
  "build_container_hostname i =
     (let hostname = dropWhile (\<lambda>c. c = CHR ''-'') (rev (dropWhile (\<lambda>c. c = CHR ''-'') (hostname_chars [] i)))
      in if hostname = [] then ''containr'' else hostname)"

definition restart_policy_of :: "string \<Rightarrow> restart_policy_name option" where
  "restart_policy_of p =
     (if p = ''no'' then Some RestartNo
      else if p = ''always'' then Some RestartAlways
      else if p = ''on-failure'' then Some RestartOnFailure
      else Some RestartUnlessStopped)"

definition health_config_of :: "health_check_command \<Rightarrow> health_config" where
  "health_config_of hc =
     \<lparr> hg_test = [''CMD-SHELL'', join '' '' (hcc_cmd hc)],
       hg_interval = ucast (hcc_interval_secs hc) * 1000000000,
       hg_timeout = ucast (hcc_timeout_secs hc) * 1000000000,
       hg_retries = ucast (hcc_retries hc) \<rparr>"

definition container_body_of :: "docker_container_config \<Rightarrow> container_body" where
  "container_body_of config =
     (let exposed_ports = build_exposed_ports (dc_port config) (dc_additional_ports config) (dc_port_mappings config)
      in \<lparr> cb_image = dc_image config,
           cb_hostname = Some (build_container_hostname (dc_id config)),
           cb_env = map (\<lambda>(k, v). k @ ''='' @ v) (dc_env_vars config),
           cb_exposed_ports = (if exposed_ports = [] then None else Some exposed_ports),
           cb_cmd = dc_command config,
           cb_working_dir = dc_working_dir config,
           cb_entrypoint = dc_entrypoint config,
           cb_memory = dc_memory_limit config,
           cb_cpu_limit = dc_cpu_limit config,
           cb_restart_policy = restart_policy_of (dc_restart_policy config),
           cb_network_mode = map_option na_name (dc_network config),
           cb_mounts = map (\<lambda>m. (bm_target m, bm_source m, bm_read_only m)) (dc_mounts config),
           cb_port_bindings = build_port_bindings (dc_port_mappings config),
           cb_endpoints = (case dc_network config of None \<Rightarrow> [] | Some network \<Rightarrow> build_networking_config network),
           cb_healthcheck = map_option health_config_of (dc_health_check config) \<rparr>)"

section \<open>The daemon and the file system\<close>

datatype health_status = HealthNone | HealthHealthy | HealthOther

record 'w docker_api =
  dk_create_network :: "string \<Rightarrow> string option \<Rightarrow> ('w, unit) io"
  dk_list_subnets :: "('w, string list) io"
  dk_create_container :: "string \<Rightarrow> container_body \<Rightarrow> ('w, string) io"
  dk_connect_network :: "string \<Rightarrow> string \<Rightarrow> string list option \<Rightarrow> ('w, unit) io"
  dk_start_container :: "string \<Rightarrow> ('w, unit) io"
  dk_stop_container :: "string \<Rightarrow> ('w, unit) io"
  dk_remove_container :: "string \<Rightarrow> ('w, unit) io"
  dk_inspect_health :: "string \<Rightarrow> ('w, health_status option) io"
  dk_download_path :: "string \<Rightarrow> string \<Rightarrow> path_component list \<Rightarrow> ('w, bool) io"
  fs_dir_is_empty :: "string \<Rightarrow> ('w, bool) io"
  fs_remove_file :: "path_component list \<Rightarrow> ('w, unit) io"
  fs_unpack_seed_archive :: "path_component list \<Rightarrow> string \<Rightarrow> ('w, bool) io"
  clock_ms :: "'w \<Rightarrow> int"
  sleep_ms :: "int \<Rightarrow> 'w \<Rightarrow> 'w"

section \<open>Operations of the manager\<close>

definition stop_container :: "'w docker_api \<Rightarrow> bool \<Rightarrow> string \<Rightarrow> ('w, unit) io" where
  "stop_container api stub_mode i =
     (if stub_mode then io_return () else io_ignore (dk_stop_container api i))"

definition remove_container :: "'w docker_api \<Rightarrow> bool \<Rightarrow> string \<Rightarrow> ('w, unit) io" where
  "remove_container api stub_mode i =
     (if stub_mode then io_return ()
      else io_then (io_ignore (stop_container api stub_mode i)) (io_ignore (dk_remove_container api i)))"

fun stop_service_group :: "'w docker_api \<Rightarrow> bool \<Rightarrow> string list \<Rightarrow> ('w, unit) io" where
  "stop_service_group api stub_mode [] = io_return ()"
| "stop_service_group api stub_mode (i # is) =
     io_then (io_ignore (stop_container api stub_mode i))
       (io_then (io_ignore (remove_container api stub_mode i)) (stop_service_group api stub_mode is))"

text \<open>\<open>Path::file_name\<close>.\<close>

definition file_name :: "string \<Rightarrow> string option" where
  "file_name p =
     (case rev (components p) of Normal name # _ \<Rightarrow> Some name | _ \<Rightarrow> None)"

definition with_file_name :: "string \<Rightarrow> string \<Rightarrow> path_component list" where
  "with_file_name p name = butlast (components p) @ [Normal name]"

definition seed_helper_body :: "string \<Rightarrow> container_body" where
  "seed_helper_body img =
     \<lparr> cb_image = img, cb_hostname = None, cb_env = [], cb_exposed_ports = None, cb_cmd = Some [],
       cb_working_dir = None, cb_entrypoint = Some [''/containr-seed''], cb_memory = None,
       cb_cpu_limit = None, cb_restart_policy = None, cb_network_mode = None, cb_mounts = [],
       cb_port_bindings = None, cb_endpoints = [], cb_healthcheck = None \<rparr>"

definition try_seed_bind_mount ::
  "'w docker_api \<Rightarrow> string \<Rightarrow> string \<Rightarrow> docker_bind_mount \<Rightarrow> ('w, bool) io" where
  "try_seed_bind_mount api container_id img mount =
     (let target = trim_end_char CHR ''/'' (bm_target mount) in
        if \<not> starts_with ''/'' target \<or> str_len target < 2 then io_return False
        else io_bind (fs_dir_is_empty api (bm_source mount)) (\<lambda>empty.
          if \<not> empty then io_return False
          else (case file_name (bm_source mount) of
             None \<Rightarrow> io_return False
           | Some name \<Rightarrow>
               let archive = with_file_name (bm_source mount) (''.'' @ name @ ''.seed.tar'');
                   helper = container_id @ ''-seed''
               in io_then (io_ignore (dk_remove_container api helper))
                    (io_then (dk_create_container api helper (seed_helper_body img))
                      (io_match
                        (io_finally (dk_download_path api helper target archive) (dk_remove_container api helper))
                        (\<lambda>error. io_then (io_ignore (fs_remove_file api archive)) (io_fail error))
                        (\<lambda>found. if found
                           then io_finally (fs_unpack_seed_archive api archive (bm_source mount)) (fs_remove_file api archive)
                           else io_then (io_ignore (fs_remove_file api archive)) (io_return False)))))))"

definition seed_bind_mount ::
  "'w docker_api \<Rightarrow> string \<Rightarrow> string \<Rightarrow> docker_bind_mount \<Rightarrow> ('w, unit) io" where
  "seed_bind_mount api container_id img mount = io_ignore (try_seed_bind_mount api container_id img mount)"

definition operation_failed :: "string \<Rightarrow> string \<Rightarrow> string" where
  "operation_failed what e = ''operation failed: '' @ what @ e"

definition create_container ::
  "'w docker_api \<Rightarrow> bool \<Rightarrow> docker_container_config \<Rightarrow> ('w, docker_container_info) io" where
  "create_container api stub_mode config =
     (if stub_mode
      then io_return \<lparr> ci_id = dc_id config, ci_image = dc_image config, ci_container_id = ''stub-container-id'' \<rparr>
      else
        io_then (io_for (filter bm_seed_from_image (dc_mounts config))
                   (seed_bind_mount api (dc_id config) (dc_image config)))
          (io_bind (io_map_err (operation_failed ''docker create failed: '')
                      (dk_create_container api (dc_id config) (container_body_of config)))
            (\<lambda>container_id.
               io_then (io_for (dc_additional_networks config)
                          (\<lambda>network. io_map_err
                             (operation_failed (''docker network connect failed for '' @ na_name network @ '': ''))
                             (dk_connect_network api (na_name network) container_id
                                (build_endpoint_settings (na_aliases network)))))
                 (io_then (io_map_err (operation_failed ''docker start failed: '') (dk_start_container api container_id))
                   (io_return \<lparr> ci_id = dc_id config, ci_image = dc_image config, ci_container_id = container_id \<rparr>)))))"

definition is_healthy :: "'w docker_api \<Rightarrow> bool \<Rightarrow> string \<Rightarrow> ('w, bool) io" where
  "is_healthy api stub_mode i =
     (if stub_mode then io_return True
      else io_match (dk_inspect_health api i)
             (\<lambda>_. io_return True)
             (\<lambda>health_status. io_return (health_status \<noteq> Some HealthOther)))"

text \<open>
  The loop of \<open>wait_for_healthy\<close> sleeps two seconds between two checks; \<open>n\<close> bounds the number of
  turns. \<open>wait_for_healthy_bound\<close> below shows that half the timeout is enough.
\<close>

fun wait_healthy_loop ::
  "'w docker_api \<Rightarrow> int \<Rightarrow> int \<Rightarrow> string \<Rightarrow> nat \<Rightarrow> ('w, bool) io" where
  "wait_healthy_loop api start timeout i 0 w = (Inr False, w)"
| "wait_healthy_loop api start timeout i (Suc n) w =
     (if clock_ms api w - start < timeout
      then io_bind (is_healthy api False i)
             (\<lambda>healthy. if healthy then io_return True
                         else (\<lambda>w. wait_healthy_loop api start timeout i n (sleep_ms api 2000 w))) w
      else (Inr False, w))"

definition wait_for_healthy :: "'w docker_api \<Rightarrow> bool \<Rightarrow> string \<Rightarrow> u32 \<Rightarrow> ('w, bool) io" where
  "wait_for_healthy api stub_mode i timeout_secs w =
     (if stub_mode then (Inr True, w)
      else wait_healthy_loop api (clock_ms api w) (1000 * uint timeout_secs) i (unat timeout_secs div 2 + 1) w)"

definition find_available_network_subnet :: "'w docker_api \<Rightarrow> ('w, string) io" where
  "find_available_network_subnet api =
     io_bind (io_map_err (operation_failed ''docker network list failed: '') (dk_list_subnets api))
       (\<lambda>used_subnets.
          case List.find (\<lambda>subnet. subnet \<notin> set used_subnets)
                 [''10.'' @ show_nat second_octet @ ''.'' @ show_nat third_octet @ ''.0/24''.
                    second_octet \<leftarrow> [200..<255], third_octet \<leftarrow> [0..<256]] of
            Some subnet \<Rightarrow> io_return subnet
          | None \<Rightarrow> io_fail ''operation failed: no free docker subnet available for bridge network'')"

definition create_bridge_network :: "'w docker_api \<Rightarrow> string \<Rightarrow> ('w, unit) io" where
  "create_bridge_network api name =
     io_match (dk_create_network api name None)
       (\<lambda>error.
          if contains_str ''already exists'' error then io_return ()
          else if \<not> contains_str ''predefined address pools have been fully subnetted'' error
          then io_fail (operation_failed ''docker network create failed: '' error)
          else io_bind (find_available_network_subnet api)
            (\<lambda>subnet. io_match (dk_create_network api name (Some subnet))
               (\<lambda>fallback_error.
                  if contains_str ''already exists'' fallback_error then io_return ()
                  else io_fail (operation_failed ''docker network create failed: '' fallback_error))
               io_return))
       io_return"

definition create_network :: "'w docker_api \<Rightarrow> bool \<Rightarrow> string \<Rightarrow> ('w, unit) io" where
  "create_network api stub_mode name =
     (if stub_mode then io_return () else create_bridge_network api name)"

section \<open>What the daemon promises\<close>

text \<open>
  \<open>names w\<close> is the set of containers the daemon has in \<open>w\<close>, by name, apart from the helpers that
  only exist while a volume is seeded. Creating a container adds it or fails; a forced removal that the
  daemon answers with success has removed the container, and one that it answers with an error may have
  removed it or not; the other calls leave the containers as they are. \<open>refused\<close> are the containers
  that may stay when their removal is asked for: \<open>remove_container\<close> only logs the error.
\<close>

definition seed_helper :: "string \<Rightarrow> bool" where
  "seed_helper n = ends_with ''-seed'' n"

definition docker_ok :: "'w docker_api \<Rightarrow> ('w \<Rightarrow> string set) \<Rightarrow> bool" where
  "docker_ok api names \<longleftrightarrow>
     (\<forall>n b w. names (snd (dk_create_container api n b w)) =
        (if isl (fst (dk_create_container api n b w)) \<or> seed_helper n then names w else insert n (names w))) \<and>
     (\<forall>n w. names w - {n} \<subseteq> names (snd (dk_remove_container api n w)) \<and>
        names (snd (dk_remove_container api n w)) \<subseteq> names w \<and>
        (\<not> isl (fst (dk_remove_container api n w)) \<longrightarrow> n \<notin> names (snd (dk_remove_container api n w)))) \<and>
     (\<forall>w. \<forall>n \<in> names w. \<not> seed_helper n) \<and>
     (\<forall>n s. io_keeps (same names) (dk_create_network api n s)) \<and>
     io_keeps (same names) (dk_list_subnets api) \<and>
     (\<forall>n c a. io_keeps (same names) (dk_connect_network api n c a)) \<and>
     (\<forall>c. io_keeps (same names) (dk_start_container api c)) \<and>
     (\<forall>c. io_keeps (same names) (dk_stop_container api c)) \<and>
     (\<forall>c. io_keeps (same names) (dk_inspect_health api c)) \<and>
     (\<forall>c p d. io_keeps (same names) (dk_download_path api c p d)) \<and>
     (\<forall>p. io_keeps (same names) (fs_dir_is_empty api p)) \<and>
     (\<forall>p. io_keeps (same names) (fs_remove_file api p)) \<and>
     (\<forall>p d. io_keeps (same names) (fs_unpack_seed_archive api p d)) \<and>
     (\<forall>ms w. names (sleep_ms api ms w) = names w)"

definition refused :: "'w docker_api \<Rightarrow> ('w \<Rightarrow> string set) \<Rightarrow> string set" where
  "refused api names = {n. \<exists>w. n \<in> names (snd (dk_remove_container api n w))}"

lemma docker_ok_removal:
  assumes "docker_ok api names"
  shows "names w - {n} \<subseteq> names (snd (dk_remove_container api n w))"
    and "names (snd (dk_remove_container api n w)) \<subseteq> names w"
    and "\<not> isl (fst (dk_remove_container api n w)) \<Longrightarrow> n \<notin> names (snd (dk_remove_container api n w))"
  using assms by (simp_all add: docker_ok_def)

lemma docker_okD:
  assumes "docker_ok api names"
  shows "io_keeps (same names) (dk_create_network api n s)" "io_keeps (same names) (dk_list_subnets api)"
    "io_keeps (same names) (dk_connect_network api n c a)" "io_keeps (same names) (dk_start_container api c)"
    "io_keeps (same names) (dk_stop_container api c)" "io_keeps (same names) (dk_inspect_health api c)"
    "io_keeps (same names) (dk_download_path api c q d)" "io_keeps (same names) (fs_dir_is_empty api p)"
    "io_keeps (same names) (fs_remove_file api r)" "io_keeps (same names) (fs_unpack_seed_archive api r p)"
    and "names (sleep_ms api ms w) = names w"
    and "names (snd (dk_create_container api n b w)) =
      (if isl (fst (dk_create_container api n b w)) \<or> seed_helper n then names w else insert n (names w))"
    and "n \<in> names w \<Longrightarrow> \<not> seed_helper n"
  using assms by (auto simp: docker_ok_def)

lemma keeps_names: "io_keeps (same names) m \<Longrightarrow> names (snd (m w)) = names w"
  by (simp add: io_keeps_def same_def)

lemma keeps_namesI: "(\<And>w. names (snd (m w)) = names w) \<Longrightarrow> io_keeps (same names) m"
  by (simp add: io_keeps_def same_def)

lemma seed_helper_seed [simp]: "seed_helper (c @ ''-seed'')"
  by (simp add: seed_helper_def ends_with_iff)

lemma names_stop_container:
  "docker_ok api names \<Longrightarrow> names (snd (stop_container api stub i w)) = names w"
  by (simp add: stop_container_def io_defs keeps_names docker_okD)

lemma names_remove_container:
  assumes "docker_ok api names"
  shows "names w - {i} \<subseteq> names (snd (remove_container api False i w))"
    and "names (snd (remove_container api False i w)) \<subseteq> names w"
    and "i \<notin> refused api names \<Longrightarrow> names (snd (remove_container api False i w)) = names w - {i}"
    and "\<not> isl (fst (dk_remove_container api i (snd (stop_container api False i w)))) \<Longrightarrow>
      i \<notin> names (snd (remove_container api False i w))"
proof -
  let ?w = "snd (stop_container api False i w)"
  have r: "names (snd (remove_container api False i w)) = names (snd (dk_remove_container api i ?w))"
    by (simp add: remove_container_def io_defs)
  have s: "names ?w = names w" by (rule names_stop_container [OF assms])
  note law = docker_ok_removal [OF assms, where n = i and w = ?w, unfolded s]
  show "names w - {i} \<subseteq> names (snd (remove_container api False i w))"
    and "names (snd (remove_container api False i w)) \<subseteq> names w"
    unfolding r by (rule law)+
  show "i \<notin> names (snd (remove_container api False i w))" if "\<not> isl (fst (dk_remove_container api i ?w))"
    unfolding r using that by (rule law(3))
  assume "i \<notin> refused api names"
  then have "i \<notin> names (snd (dk_remove_container api i ?w))" by (simp add: refused_def)
  then show "names (snd (remove_container api False i w)) = names w - {i}"
    unfolding r using law(1,2) by blast
qed

lemma names_stop_service_group:
  assumes "docker_ok api names"
  shows "names (snd (stop_service_group api False is w)) \<subseteq> names w - (set is - refused api names)"
    and "names w - set is \<subseteq> names (snd (stop_service_group api False is w))"
proof -
  note rm = names_remove_container [OF assms] and st = names_stop_container [OF assms]
  have "names (snd (stop_service_group api False is w)) \<subseteq> names w - (set is - refused api names) \<and>
      names w - set is \<subseteq> names (snd (stop_service_group api False is w))"
  proof (induction "is" arbitrary: w)
    case (Cons i "is")
    let ?u = "snd (remove_container api False i (snd (stop_container api False i w)))"
    have "names w - {i} \<subseteq> names ?u" "names ?u \<subseteq> names w" "i \<notin> refused api names \<Longrightarrow> i \<notin> names ?u"
      using rm(1-3) [where w = "snd (stop_container api False i w)" and i = i] by (auto simp: st)
    then show ?case using Cons.IH [of ?u] by (auto simp: io_defs)
  qed (simp add: io_defs)
  then show "names (snd (stop_service_group api False is w)) \<subseteq> names w - (set is - refused api names)"
    and "names w - set is \<subseteq> names (snd (stop_service_group api False is w))" by blast+
qed

lemma names_try_seed:
  assumes ok: "docker_ok api names"
  shows "names (snd (try_seed_bind_mount api c img mount w)) = names w"
proof -
  have rm: "io_keeps (same names) (dk_remove_container api (c @ ''-seed''))"
  proof (rule keeps_namesI)
    fix w
    have "c @ ''-seed'' \<notin> names w" using docker_okD(13) [OF ok] seed_helper_seed [of c] by blast
    then show "names (snd (dk_remove_container api (c @ ''-seed'') w)) = names w"
      using docker_ok_removal(1,2) [OF ok, where w = w and n = "c @ ''-seed''"] by blast
  qed
  have cr: "io_keeps (same names) (dk_create_container api (c @ ''-seed'') b)" for b
    using docker_okD(12) [OF ok] by (intro keeps_namesI) simp
  have "io_keeps (same names) (try_seed_bind_mount api c img mount)"
    unfolding try_seed_bind_mount_def Let_def
    by (intro same.keeps_intros rm cr docker_okD(7-10) [OF ok])
  then show ?thesis by (rule keeps_names)
qed

lemma names_seeds:
  "docker_ok api names \<Longrightarrow>
     names (snd (io_for ms (seed_bind_mount api c img) w)) = names w"
  by (rule keeps_names, rule same.keeps_for, rule keeps_namesI)
    (simp add: seed_bind_mount_def io_defs names_try_seed)

lemma names_connects:
  "docker_ok api names \<Longrightarrow> io_keeps (same names)
     (io_for ns (\<lambda>network. io_map_err (k network) (dk_connect_network api (na_name network) c (a network))))"
  by (rule same.keeps_for, rule same.keeps_map_err, erule docker_okD)

text \<open>
  A created container is there, a failed creation adds at most the container it was asked for, and
  nothing else changes.
\<close>

lemma names_create_container:
  assumes ok: "docker_ok api names" and n: "\<not> seed_helper (dc_id config)"
  shows "names w \<subseteq> names (snd (create_container api False config w))"
    and "names (snd (create_container api False config w)) \<subseteq> insert (dc_id config) (names w)"
    and "fst (create_container api False config w) = Inr info \<Longrightarrow>
      dc_id config \<in> names (snd (create_container api False config w)) \<and> ci_id info = dc_id config"
  using n
  by (auto simp: create_container_def io_defs names_seeds [OF ok] keeps_names [OF names_connects [OF ok]]
      docker_okD(12) [OF ok] keeps_names [OF docker_okD(4) [OF ok]] split: sum.splits)

lemma keeps_is_healthy: "docker_ok api names \<Longrightarrow> io_keeps (same names) (is_healthy api stub i)"
  by (simp add: is_healthy_def same.keeps_return same.keeps_match docker_okD)

lemma names_wait_loop:
  assumes "docker_ok api names"
  shows "names (snd (wait_healthy_loop api start timeout i n w)) = names w"
  using keeps_names [OF keeps_is_healthy [OF assms]] docker_okD(11) [OF assms]
  by (induction n arbitrary: w) (auto simp: io_defs split: sum.splits)

lemma names_wait_for_healthy:
  "docker_ok api names \<Longrightarrow> names (snd (wait_for_healthy api stub i t w)) = names w"
  by (simp add: wait_for_healthy_def names_wait_loop del: wait_healthy_loop.simps)

lemma names_create_network:
  assumes "docker_ok api names"
  shows "names (snd (create_network api stub n w)) = names w"
proof -
  have "io_keeps (same names) (find_available_network_subnet api)"
    unfolding find_available_network_subnet_def
    by (intro same.keeps_bind same.keeps_map_err docker_okD(2) [OF assms])
      (simp split: option.splits add: same.keeps_return same.keeps_fail)
  then have "io_keeps (same names) (create_bridge_network api n)"
    unfolding create_bridge_network_def
    by (intro same.keeps_match same.keeps_if same.keeps_bind same.keeps_return same.keeps_fail docker_okD(1) [OF assms])
  then show ?thesis
    by (simp add: create_network_def io_defs keeps_names)
qed

section \<open>Waiting ends\<close>

text \<open>
  Sleeping lets at least the given time pass and the clock never goes back. Then the bound on the
  number of turns is no restriction: with any larger one the loop gives the same result.
\<close>

definition clock_ok :: "'w docker_api \<Rightarrow> bool" where
  "clock_ok api \<longleftrightarrow>
     (\<forall>ms w. clock_ms api (sleep_ms api ms w) \<ge> clock_ms api w + ms) \<and>
     (\<forall>i w. clock_ms api (snd (dk_inspect_health api i w)) \<ge> clock_ms api w)"

lemma clock_is_healthy: "clock_ok api \<Longrightarrow> clock_ms api (snd (is_healthy api stub i w)) \<ge> clock_ms api w"
  by (auto simp: is_healthy_def io_defs clock_ok_def split: sum.splits)

lemma wait_healthy_loop_fuel:
  assumes "clock_ok api" and "clock_ms api w - start + 2000 * int n \<ge> timeout" and "n \<le> m"
  shows "wait_healthy_loop api start timeout i m w = wait_healthy_loop api start timeout i n w"
  using assms(2,3)
proof (induction n arbitrary: w m)
  case 0
  then show ?case by (cases m) auto
next
  case (Suc n)
  obtain k where m: "m = Suc k" using Suc.prems(2) by (cases m) auto
  let ?w = "snd (is_healthy api False i w)"
  have "clock_ms api (sleep_ms api 2000 ?w) \<ge> clock_ms api ?w + 2000"
    using assms(1) unfolding clock_ok_def by blast
  then have "clock_ms api (sleep_ms api 2000 ?w) \<ge> clock_ms api w + 2000"
    using clock_is_healthy [OF assms(1), of w False i] by linarith
  then have "wait_healthy_loop api start timeout i k (sleep_ms api 2000 ?w) =
      wait_healthy_loop api start timeout i n (sleep_ms api 2000 ?w)"
    using Suc.prems m by (intro Suc.IH) auto
  then show ?case
    by (simp add: m io_bind_apply io_apply split: sum.splits)
qed

lemma is_healthy_result: "\<exists>b. fst (is_healthy api stub i w) = Inr b"
  by (auto simp: is_healthy_def io_defs split: sum.splits)

lemma wait_healthy_loop_result: "\<exists>b. fst (wait_healthy_loop api start timeout i n w) = Inr b"
proof (induction n arbitrary: w)
  case (Suc n)
  obtain b where "fst (is_healthy api False i w) = Inr b" by (rule exE [OF is_healthy_result])
  with Suc show ?case by (auto simp: io_defs ex_bool_eq)
qed (simp add: ex_bool_eq)

lemma half_timeout: "1000 * uint t \<le> 2000 * int (unat t div 2) + 2000" for t :: u32
proof -
  have "n \<le> 2 * (n div 2) + 1" for n :: nat by presburger
  from this [of "unat t"] have "int (unat t) \<le> 2 * int (unat t div 2) + 1" by linarith
  then show ?thesis by (simp only: uint_nat)
qed

text \<open>
  C36. Waiting for a container to become healthy ends: a sleep of two seconds between two checks and a
  clock that does not go back bound the number of checks by half the timeout, so that any larger bound
  on the loop gives the same result and the same state, and the wait never fails.
\<close>

theorem wait_for_healthy_ends:
  assumes "clock_ok api" and "unat timeout_secs div 2 + 1 \<le> m"
  shows "wait_healthy_loop api (clock_ms api w) (1000 * uint timeout_secs) i m w =
      wait_for_healthy api False i timeout_secs w \<and>
    (\<exists>b. fst (wait_for_healthy api False i timeout_secs w) = Inr b)"
proof
  show "\<exists>b. fst (wait_for_healthy api False i timeout_secs w) = Inr b"
    using wait_healthy_loop_result by (simp only: wait_for_healthy_def if_False)
  show "wait_healthy_loop api (clock_ms api w) (1000 * uint timeout_secs) i m w =
      wait_for_healthy api False i timeout_secs w"
    unfolding wait_for_healthy_def if_False
    using half_timeout [of timeout_secs] assms(2) by (intro wait_healthy_loop_fuel [OF assms(1)]) auto
qed

section \<open>Hostnames and ports\<close>

definition hostname_char :: "char \<Rightarrow> bool" where
  "hostname_char c \<longleftrightarrow> is_ascii_lowercase c \<or> is_ascii_digit c \<or> c = CHR ''-''"

lemma hostname_char_normalized: "hostname_char (if is_ascii_alphanumeric ch then ascii_lower ch else CHR ''-'')"
  by (auto simp: hostname_char_def is_ascii_alphanumeric_def is_ascii_lowercase_def is_ascii_digit_def
      is_ascii_uppercase_def scalar_ascii_lower Let_def)

lemma hostname_chars_ok:
  assumes "\<forall>c \<in> set h. hostname_char c" and "length h < 63"
  shows "(\<forall>c \<in> set (hostname_chars h i). hostname_char c) \<and> length (hostname_chars h i) \<le> 63"
  using assms
proof (induction h i rule: hostname_chars.induct)
  case (2 h ch chs)
  then show ?case using hostname_char_normalized [of ch] by (auto simp: Let_def)
qed simp

lemma dropWhile_last: "dropWhile P xs \<noteq> [] \<Longrightarrow> last (dropWhile P xs) = last xs"
  by (induction xs) auto

lemma hd_dropWhile_rev:
  assumes "ys = dropWhile P (rev (dropWhile P xs))" and "ys \<noteq> []"
  shows "\<not> P (hd ys)" and "\<not> P (last ys)" and "length ys \<le> length xs" and "set ys \<subseteq> set xs"
proof -
  let ?zs = "dropWhile P xs"
  show "\<not> P (hd ys)" using assms hd_dropWhile by blast
  have ne: "?zs \<noteq> []" using assms by (cases "?zs = []") simp_all
  have "last ys = last (rev ?zs)" using assms dropWhile_last by blast
  then show "\<not> P (last ys)" using ne hd_dropWhile [OF ne] by (simp add: last_rev)
  show "length ys \<le> length xs"
    unfolding assms(1) using length_dropWhile_le [of P "rev ?zs"] length_dropWhile_le [of P xs] by simp
  show "set ys \<subseteq> set xs"
    unfolding assms(1) by (auto dest!: set_dropWhileD)
qed

text \<open>
  The hostname given to a container is a valid one for every container name: one to 63 characters,
  lowercase letters, digits and hyphens only, with no hyphen at either end.
\<close>

theorem container_hostname_valid:
  "1 \<le> length (build_container_hostname i) \<and> length (build_container_hostname i) \<le> 63 \<and>
   list_all hostname_char (build_container_hostname i) \<and>
   hd (build_container_hostname i) \<noteq> CHR ''-'' \<and> last (build_container_hostname i) \<noteq> CHR ''-''"
proof -
  let ?xs = "hostname_chars [] i"
  obtain ys where ys_def: "ys = dropWhile (\<lambda>c. c = CHR ''-'') (rev (dropWhile (\<lambda>c. c = CHR ''-'') ?xs))"
    by simp
  have h: "build_container_hostname i = (if ys = [] then ''containr'' else ys)"
    unfolding build_container_hostname_def ys_def Let_def by (rule refl)
  show ?thesis
  proof (cases "ys = []")
    case True
    then show ?thesis
      by (simp add: h hostname_char_def is_ascii_lowercase_def is_ascii_digit_def scalar_def Let_def)
  next
    case False
    note y = hd_dropWhile_rev [OF ys_def False]
    have "(\<forall>c \<in> set ?xs. hostname_char c) \<and> length ?xs \<le> 63" by (rule hostname_chars_ok) auto
    with y False show ?thesis unfolding h by (auto simp: list_all_iff Suc_le_eq)
  qed
qed

lemma map_of_add_port_binding:
  "map_of (add_port_binding bs m) k =
     (if k = show_word (dpm_container_port m) @ ''/'' @ dpm_protocol m
      then Some (unwrap_or (map_of bs k) [] @ [show_word (dpm_host_port m)]) else map_of bs k)"
  by (simp add: add_port_binding_def Let_def update_conv')

text \<open>The host ports that \<open>ms\<close> publishes for the container port \<open>k\<close>, in order.\<close>

definition published :: "docker_port_mapping list \<Rightarrow> string \<Rightarrow> string list" where
  "published ms k =
     map (\<lambda>m. show_word (dpm_host_port m)) (filter (\<lambda>m. show_word (dpm_container_port m) @ ''/'' @ dpm_protocol m = k) ms)"

lemma map_of_port_bindings:
  "map_of (foldl add_port_binding bs ms) k =
     (if published ms k = [] then map_of bs k else Some (unwrap_or (map_of bs k) [] @ published ms k))"
  by (induction ms arbitrary: bs) (auto simp: published_def map_of_add_port_binding)

text \<open>
  Every published port is in the request to the daemon: the container port of each mapping is
  exposed and bound to its host port, the host ports of a container port come in the order they were
  given, and nothing else is bound.
\<close>

theorem port_bindings_complete:
  "(case cb_port_bindings (container_body_of c) of
      None \<Rightarrow> dc_port_mappings c = []
    | Some bs \<Rightarrow> \<forall>k. map_of bs k =
        (if published (dc_port_mappings c) k = [] then None else Some (published (dc_port_mappings c) k))) \<and>
   (\<forall>m \<in> set (dc_port_mappings c). \<exists>ports. cb_exposed_ports (container_body_of c) = Some ports \<and>
      show_word (dpm_container_port m) @ ''/'' @ dpm_protocol m \<in> set ports)"
proof -
  have e: "set (foldl (\<lambda>ports mapping. push_new ports (f mapping)) ps ms) = set ps \<union> f ` set ms"
    for f :: "docker_port_mapping \<Rightarrow> string" and ps ms
    by (induction ms arbitrary: ps) auto
  show ?thesis
    by (auto simp: container_body_of_def Let_def build_port_bindings_def map_of_port_bindings build_exposed_ports_def e
        dest: arg_cong [where f = set] split: option.splits)
qed

section \<open>Witnesses\<close>

text \<open>
  A daemon over the state (containers, time): creating fails if the name is taken, everything else
  succeeds at once.
\<close>

definition demo_docker :: "(string list \<times> int) docker_api" where
  "demo_docker =
     \<lparr> dk_create_network = \<lambda>_ _. io_return (), dk_list_subnets = io_return [],
       dk_create_container = (\<lambda>n _ (cs, t). if n \<in> set cs then (Inl ''name in use'', (cs, t)) else (Inr n, (n # cs, t))),
       dk_connect_network = \<lambda>_ _ _. io_return (), dk_start_container = \<lambda>_. io_return (),
       dk_stop_container = \<lambda>_. io_return (),
       dk_remove_container = (\<lambda>n (cs, t). (Inr (), (removeAll n cs, t))),
       dk_inspect_health = \<lambda>_. io_return (Some HealthOther), dk_download_path = \<lambda>_ _ _. io_return False,
       fs_dir_is_empty = \<lambda>_. io_return False, fs_remove_file = \<lambda>_. io_return (),
       fs_unpack_seed_archive = \<lambda>_ _. io_return False,
       clock_ms = snd, sleep_ms = \<lambda>ms (cs, t). (cs, t + max 0 ms) \<rparr>"

lemma demo_docker_clock: "clock_ok demo_docker"
  by (auto simp: clock_ok_def demo_docker_def io_defs)

theorem wait_for_healthy_ends_witness:
  "wait_healthy_loop demo_docker 0 5000 ''web'' 9 ([''web''], 0) = (Inr False, ([''web''], 6000))"
proof -
  have "wait_for_healthy demo_docker False ''web'' 5 ([''web''], 0) = (Inr False, ([''web''], 6000))"
    by code_simp
  then show ?thesis
    using wait_for_healthy_ends [OF demo_docker_clock, of 5 9 "([''web''], 0)" "''web''"]
    by (simp add: demo_docker_def del: wait_healthy_loop.simps)
qed

definition demo_config :: docker_container_config where
  "demo_config =
     \<lparr> dc_id = ''containr-web'', dc_image = ''img'', dc_env_vars = [], dc_port = 80, dc_additional_ports = [],
       dc_port_mappings = [\<lparr> dpm_host_port = 5353, dpm_container_port = 53, dpm_protocol = ''udp'' \<rparr>],
       dc_command = None, dc_entrypoint = None, dc_working_dir = None, dc_memory_limit = None,
       dc_cpu_limit = None, dc_network = None, dc_mounts = [], dc_additional_networks = [],
       dc_health_check = None, dc_restart_policy = ''always'' \<rparr>"

theorem port_bindings_complete_witness:
  "\<exists>ports. cb_exposed_ports (container_body_of demo_config) = Some ports \<and>
     show_word (53 :: u16) @ ''/udp'' \<in> set ports"
  using port_bindings_complete [of demo_config] by (simp add: demo_config_def)

end
