(* ===== verification/Service_Support.thy ===== *)
theory Service_Support
  imports Docker Store
begin

text \<open>
  What turns a service definition into a container, \<open>crates/containr-runtime/src/service_support.rs\<close>:
  bind mounts and config files on disk, pull credentials, published ports; and the helpers of
  \<open>crates/containr-runtime/src/image.rs\<close> for image references, and the sealing of stored secrets,
  \<open>crates/containr-common/src/encryption.rs\<close>. The file system, the AEAD cipher, the hash, base64 and
  the display of a \<open>Uuid\<close> are parameters.
\<close>

section \<open>Stored secrets\<close>

type_synonym bytes = "u8 list"

record crypto =
  cr_aead_encrypt :: "bytes \<Rightarrow> bytes \<Rightarrow> bytes \<Rightarrow> string + bytes"
  cr_aead_decrypt :: "bytes \<Rightarrow> bytes \<Rightarrow> bytes \<Rightarrow> string + bytes"
  cr_sha256 :: "bytes \<Rightarrow> bytes"
  cr_b64_encode :: "bytes \<Rightarrow> string"
  cr_b64_decode :: "string \<Rightarrow> bytes option"
  cr_utf8 :: "string \<Rightarrow> bytes"
  cr_from_utf8 :: "bytes \<Rightarrow> string + string"

definition NONCE_SIZE :: nat where
  "NONCE_SIZE = 12"

text \<open>The random nonce is an argument.\<close>

definition encrypt :: "crypto \<Rightarrow> bytes \<Rightarrow> string \<Rightarrow> bytes \<Rightarrow> string + string" where
  "encrypt c nonce plaintext key =
     (if length key \<noteq> 32 then Inl ''invalid key length''
      else (case cr_aead_encrypt c key nonce (cr_utf8 c plaintext) of
              Inl e \<Rightarrow> Inl (''encryption failed: '' @ e)
            | Inr ciphertext \<Rightarrow> Inr (cr_b64_encode c (nonce @ ciphertext))))"

definition decrypt :: "crypto \<Rightarrow> string \<Rightarrow> bytes \<Rightarrow> string + string" where
  "decrypt c encrypted key =
     (if length key \<noteq> 32 then Inl ''invalid key length''
      else (case cr_b64_decode c encrypted of
              None \<Rightarrow> Inl ''invalid data format''
            | Some combined \<Rightarrow>
                if length combined < NONCE_SIZE then Inl ''invalid data format''
                else (case cr_aead_decrypt c key (take NONCE_SIZE combined) (drop NONCE_SIZE combined) of
                        Inl e \<Rightarrow> Inl (''decryption failed: '' @ e)
                      | Inr plaintext \<Rightarrow>
                          (case cr_from_utf8 c plaintext of
                             Inl e \<Rightarrow> Inl (''decryption failed: '' @ e)
                           | Inr text \<Rightarrow> Inr text))))"

definition derive_key :: "crypto \<Rightarrow> string \<Rightarrow> bytes" where
  "derive_key c secret = cr_sha256 c (cr_utf8 c secret)"

definition decrypt_stored_secret :: "crypto \<Rightarrow> string \<Rightarrow> string option \<Rightarrow> string + string" where
  "decrypt_stored_secret c value encryption_secret =
     (let trimmed = trim value;
          payload = unwrap_or (strip_prefix ''enc:'' trimmed) trimmed
      in if starts_with ''enc:'' trimmed
         then (case encryption_secret of
                 None \<Rightarrow> Inl ''encryption key is not configured''
               | Some secret \<Rightarrow>
                   (case decrypt c payload (derive_key c secret) of
                      Inl error \<Rightarrow> Inl (''failed to decrypt registry password: '' @ error)
                    | Inr text \<Rightarrow> Inr text))
         else Inr payload)"

section \<open>Images and credentials\<close>

record registry_credentials =
  rc_server :: "string option"
  rc_username :: string
  rc_password :: string

record image_build_config =
  bc_context_path :: string
  bc_dockerfile :: "string option"
  bc_target :: "string option"
  bc_build_args :: "(string \<times> string) list"

definition normalize_image_reference :: "string \<Rightarrow> string" where
  "normalize_image_reference name =
     (let name = trim name in
        if CHR ''@'' \<in> set name then name
        else if CHR '':'' \<in> set (last (split_char CHR ''/'' name)) then name
        else name @ '':latest'')"

definition resolve_registry_server :: "string \<Rightarrow> string option \<Rightarrow> string" where
  "resolve_registry_server name configured_server =
     (case opt_filter (\<lambda>s. s \<noteq> []) (map_option trim configured_server) of
        Some server \<Rightarrow> server
      | None \<Rightarrow>
          (case split_once CHR ''/'' name of
             None \<Rightarrow> ''https://index.docker.io/v1/''
           | Some (first_segment, _) \<Rightarrow>
               if CHR ''.'' \<in> set first_segment \<or> CHR '':'' \<in> set first_segment \<or> first_segment = ''localhost''
               then first_segment
               else ''https://index.docker.io/v1/''))"

definition resolve_registry_credentials ::
  "crypto \<Rightarrow> store option \<Rightarrow> uuid \<Rightarrow> container_service \<Rightarrow> string \<Rightarrow> string option \<Rightarrow>
     string + registry_credentials option" where
  "resolve_registry_credentials c db owner_id service img encryption_secret =
     (case s_registry_auth service of
        Some registry_auth \<Rightarrow>
          and_then (decrypt_stored_secret c (ra_password registry_auth) encryption_secret)
            (\<lambda>password. Inr (Some \<lparr> rc_server = ra_server registry_auth, rc_username = ra_username registry_auth,
                                    rc_password = password \<rparr>))
      | None \<Rightarrow>
          (case db of
             None \<Rightarrow> Inr None
           | Some db \<Rightarrow>
               (case List.find (\<lambda>registry. matches_image registry img) (list_registries_by_owner db owner_id) of
                  None \<Rightarrow> Inr None
                | Some registry \<Rightarrow>
                    and_then (decrypt_stored_secret c (r_password_enc registry) encryption_secret)
                      (\<lambda>password. Inr (Some
                         \<lparr> rc_server = (if is_docker_hub_host (r_server registry) then None
                                        else Some (r_server registry)),
                           rc_username = r_username registry, rc_password = password \<rparr>)))))"

definition service_port_mappings :: "container_service \<Rightarrow> u32 \<Rightarrow> docker_port_mapping list" where
  "service_port_mappings service replica_index =
     (if replica_index \<noteq> 0 then []
      else map (\<lambda>mapping. \<lparr> dpm_host_port = pm_host_port mapping, dpm_container_port = pm_container_port mapping,
                           dpm_protocol = port_protocol_as_str (pm_protocol mapping) \<rparr>)
             (s_port_mappings service))"

definition should_pull_service_image :: "container_service \<Rightarrow> string \<Rightarrow> bool" where
  "should_pull_service_image service img =
     (let configured = trim (s_image service) in configured \<noteq> [] \<and> configured = trim img)"

section \<open>Mounts\<close>

text \<open>
  \<open>fs_remove_tree\<close> is \<open>remove_dir_all\<close>: \<open>Inr True\<close> if it removed the directory, \<open>Inr False\<close> if there was
  none, an error otherwise.
\<close>

record 'w fs_api =
  fs_exists :: "string \<Rightarrow> 'w \<Rightarrow> bool"
  fs_create_dir_all :: "string \<Rightarrow> ('w, unit) io"
  fs_absolute :: "string \<Rightarrow> ('w, string) io"
  fs_remove_tree :: "string \<Rightarrow> ('w, bool) io"
  fs_set_permissions :: "string \<Rightarrow> nat \<Rightarrow> ('w, unit) io"
  fs_write :: "string \<Rightarrow> string \<Rightarrow> ('w, unit) io"

definition SHARED_MOUNTS_DIR :: string where
  "SHARED_MOUNTS_DIR = ''shared''"

definition CONFIG_FILES_DIR :: string where
  "CONFIG_FILES_DIR = ''.files''"

fun write_files ::
  "'w fs_api \<Rightarrow> string \<Rightarrow> nat \<Rightarrow> config_file list \<Rightarrow> ('w, docker_bind_mount list) io" where
  "write_files fs dir index [] = io_return []"
| "write_files fs dir index (file # files) =
     (let name = unwrap_or (file_name (cf_path file)) ''file'';
          source = path_join dir (show_nat index @ ''-'' @ name)
      in io_then (fs_write fs source (cf_content file))
           (io_then (fs_set_permissions fs source 420)
             (io_bind (write_files fs dir (index + 1) files)
               (\<lambda>mounts. io_return
                  (\<lparr> bm_source = source, bm_target = cf_path file, bm_read_only = True,
                     bm_seed_from_image = False \<rparr> # mounts)))))"

definition write_config_files ::
  "'w fs_api \<Rightarrow> string \<Rightarrow> container_service \<Rightarrow> ('w, docker_bind_mount list) io" where
  "write_config_files fs mounts_root service =
     io_bind (fs_absolute fs (path_join mounts_root CONFIG_FILES_DIR))
       (\<lambda>dir. io_then (fs_remove_tree fs dir)
          (if s_files service = [] then io_return []
           else io_then (fs_create_dir_all fs dir)
                  (io_then (fs_set_permissions fs dir 493)
                    (write_files fs dir 0 (s_files service)))))"

definition app_root :: "(uuid \<Rightarrow> string) \<Rightarrow> string \<Rightarrow> uuid \<Rightarrow> string" where
  "app_root show_uuid work_dir app_id = path_join (path_join work_dir ''app-mounts'') (show_uuid app_id)"

definition build_mount ::
  "'w fs_api \<Rightarrow> string \<Rightarrow> string \<Rightarrow> service_mount \<Rightarrow> ('w, docker_bind_mount) io" where
  "build_mount fs mounts_root shared_root mount =
     (let host_path = opt_filter (\<lambda>value. value \<noteq> []) (map_option trim (m_host_path mount))
      in io_bind
           (case host_path of
              Some host_path \<Rightarrow>
                if \<not> is_absolute host_path
                then io_fail (''host path '' @ host_path @ '' for mount '' @ m_name mount @ '' must be absolute'')
                else io_bind (io_read (fs_exists fs host_path))
                       (\<lambda>there. if there then io_return host_path
                                else io_then (fs_create_dir_all fs host_path) (io_return host_path))
            | None \<Rightarrow>
                io_bind (fs_absolute fs (path_join (if m_shared mount then shared_root else mounts_root) (m_name mount)))
                  (\<lambda>source. io_then (fs_create_dir_all fs source) (io_return source)))
           (\<lambda>source. io_return
              \<lparr> bm_source = source, bm_target = m_target mount, bm_read_only = m_read_only mount,
                bm_seed_from_image = (host_path = None) \<rparr>))"

definition build_service_mounts ::
  "(uuid \<Rightarrow> string) \<Rightarrow> 'w fs_api \<Rightarrow> string \<Rightarrow> uuid \<Rightarrow> container_service \<Rightarrow> ('w, docker_bind_mount list) io" where
  "build_service_mounts show_uuid fs work_dir app_id service =
     (let mounts_root = path_join (app_root show_uuid work_dir app_id) (show_uuid (s_id service));
          shared_root = path_join (app_root show_uuid work_dir app_id) SHARED_MOUNTS_DIR
      in io_bind (io_collect (s_mounts service) (build_mount fs mounts_root shared_root))
           (\<lambda>mounts. io_bind (write_config_files fs mounts_root service)
              (\<lambda>files. io_return (mounts @ files))))"

section \<open>Sealing and opening a secret\<close>

text \<open>
  Documented behaviour of the cryptographic crates: opening with the key and the nonce of the sealing
  gives the plaintext back, SHA-256 has 32 bytes, base64 and UTF-8 decode what they encoded, and base64
  has no white space.
\<close>

definition crypto_ok :: "crypto \<Rightarrow> bool" where
  "crypto_ok c \<longleftrightarrow>
     (\<forall>k n p ct. length k = 32 \<and> length n = 12 \<and> cr_aead_encrypt c k n p = Inr ct \<longrightarrow> cr_aead_decrypt c k n ct = Inr p) \<and>
     (\<forall>x. cr_b64_decode c (cr_b64_encode c x) = Some x) \<and>
     (\<forall>x. \<forall>ch \<in> set (cr_b64_encode c x). \<not> is_whitespace ch) \<and>
     (\<forall>x. length (cr_sha256 c x) = 32) \<and>
     (\<forall>s. cr_from_utf8 c (cr_utf8 c s) = Inr s)"

lemma decrypt_encrypt:
  assumes "crypto_ok c" and "length nonce = 12" and "encrypt c nonce plaintext key = Inr s"
  shows "decrypt c s key = Inr plaintext"
  using assms by (auto simp: encrypt_def decrypt_def crypto_ok_def NONCE_SIZE_def split: if_splits sum.splits)

lemma trim_padded:
  assumes "list_all is_whitespace before" and "list_all is_whitespace after" and "trim t = t" and "t \<noteq> []"
  shows "trim (before @ t @ after) = t"
proof -
  have ends: "\<not> is_whitespace (hd t)" "\<not> is_whitespace (last t)"
    using assms(3,4) trim_eq_self by blast+
  have "trim_start (before @ t @ after) = t @ after"
    using assms(1,4) ends(1) by (cases t) (auto simp: trim_start_def list_all_iff)
  moreover have "trim_end (t @ after) = t"
    using assms(2,4) ends(2) by (cases t rule: rev_cases) (auto simp: trim_end_def list_all_iff dropWhile_append)
  ultimately show ?thesis by (simp add: trim_def)
qed

text \<open>
  A password that is sealed for the database can be used again: what \<open>encrypt\<close> produced under the
  configured secret, stored with the prefix \<open>enc:\<close>, is opened by \<open>decrypt_stored_secret\<close> to the password,
  surrounding white space ignored; without a configured secret it is an error and never the ciphertext,
  and a value without the prefix is returned trimmed.
\<close>

theorem stored_secret_round_trip:
  assumes "crypto_ok c" and "length nonce = 12" and "encrypt c nonce password (derive_key c secret) = Inr s"
    and "list_all is_whitespace before" and "list_all is_whitespace after"
  shows "decrypt_stored_secret c (before @ ''enc:'' @ s @ after) (Some secret) = Inr password \<and>
    decrypt_stored_secret c (before @ ''enc:'' @ s @ after) None = Inl ''encryption key is not configured'' \<and>
    (\<forall>v. \<not> starts_with ''enc:'' (trim v) \<longrightarrow> decrypt_stored_secret c v sec = Inr (trim v))"
proof -
  have ws: "\<forall>ch \<in> set (''enc:'' @ s). \<not> is_whitespace ch"
    using assms(1,3) by (auto simp: encrypt_def crypto_ok_def is_whitespace_def scalar_def Let_def split: if_splits sum.splits)
  then have "trim (''enc:'' @ s) = ''enc:'' @ s"
    unfolding trim_eq_self by (metis last_in_set list.set_sel(1))
  then have t: "trim (before @ ''enc:'' @ s @ after) = ''enc:'' @ s"
    using trim_padded [OF assms(4,5), of "''enc:'' @ s"] by simp
  show ?thesis
    unfolding decrypt_stored_secret_def t
    using decrypt_encrypt [OF assms(1-3)] by (simp add: starts_with_def Let_def split: option.splits)
qed

section \<open>Image references\<close>

lemma split_char_snoc_plain:
  "c \<notin> set t \<Longrightarrow> last (split_char c (s @ t)) = last (split_char c s) @ t"
  by (induction t rule: rev_induct) (auto simp: split_char_snoc simp flip: append_assoc)

text \<open>
  A pull always asks for one image: a normalised reference carries a digest or a tag (a colon in
  the host is no tag), normalising again changes nothing, and an explicit tag or digest is kept.
\<close>

theorem normalize_image_reference_tagged:
  "(CHR ''@'' \<in> set (normalize_image_reference n) \<or>
     CHR '':'' \<in> set (last (split_char CHR ''/'' (normalize_image_reference n)))) \<and>
   normalize_image_reference (normalize_image_reference n) = normalize_image_reference n \<and>
   normalize_image_reference n \<in> {trim n, trim n @ '':latest''}"
proof -
  let ?l = "\<lambda>s. last (split_char CHR ''/'' s)"
  have l: "?l (trim n @ '':latest'') = ?l (trim n) @ '':latest''" by (rule split_char_snoc_plain) simp
  have t: "trim (trim n @ '':latest'') = trim n @ '':latest''"
    using trim_hd [of n] by (cases "trim n = []") (auto simp: trim_eq_self is_whitespace_def scalar_def)
  show ?thesis
  proof (cases "CHR ''@'' \<in> set (trim n) \<or> CHR '':'' \<in> set (?l (trim n))")
    case True
    then have "normalize_image_reference n = trim n" by (auto simp: normalize_image_reference_def Let_def)
    with True show ?thesis by (auto simp: normalize_image_reference_def Let_def)
  next
    case False
    then have "normalize_image_reference n = trim n @ '':latest''" by (auto simp: normalize_image_reference_def Let_def)
    then show ?thesis by (simp add: normalize_image_reference_def Let_def t l)
  qed
qed

section \<open>Where the data of a service lies\<close>

text \<open>
  Names of volumes as the API accepts them, and the display of a \<open>Uuid\<close>: 36 hexadecimal digits and
  hyphens. \<open>std::path::absolute\<close> leaves the components of an absolute path alone.
\<close>

definition mount_name_ok :: "string \<Rightarrow> bool" where
  "mount_name_ok n \<longleftrightarrow> n \<noteq> [] \<and> CHR ''/'' \<notin> set n \<and> hd n \<noteq> CHR ''.''"

definition show_uuid_ok :: "(uuid \<Rightarrow> string) \<Rightarrow> bool" where
  "show_uuid_ok show_uuid \<longleftrightarrow>
     inj show_uuid \<and> (\<forall>u. length (show_uuid u) = 36 \<and> list_all (\<lambda>c. is_ascii_hexdigit c \<or> c = CHR ''-'') (show_uuid u))"

definition absolute_ok :: "'w fs_api \<Rightarrow> bool" where
  "absolute_ok fs \<longleftrightarrow>
     (\<forall>p w q w'. is_absolute p \<longrightarrow> fs_absolute fs p w = (Inr q, w') \<longrightarrow> components q = components p)"

lemma map_filter_append: "List.map_filter f (xs @ ys) = List.map_filter f xs @ List.map_filter f ys"
  by (simp add: List.map_filter_def)

text \<open>A single name that can be appended to a path.\<close>

definition plain_name :: "string \<Rightarrow> bool" where
  "plain_name b \<longleftrightarrow> b \<noteq> [] \<and> CHR ''/'' \<notin> set b \<and> b \<noteq> ''.'' \<and> b \<noteq> ''..''"

lemma components_join:
  assumes "is_absolute a" and "plain_name b"
  shows "components (path_join a b) = components a @ [Normal b]" and "is_absolute (path_join a b)"
proof -
  have b: "\<not> is_absolute b" "split_char CHR ''/'' b = [b]" "body_component b = Some (Normal b)"
    using assms(2) by (auto simp: is_absolute_def starts_with_iff split_char_single plain_name_def body_component_def)
  have a: "a \<noteq> []" using assms(1) by (auto simp: is_absolute_def starts_with_iff)
  show abs: "is_absolute (path_join a b)"
    using assms(1) b(1) a by (auto simp: path_join_def is_absolute_def starts_with_iff)
  have f: "List.map_filter body_component [b] = [Normal b]" "List.map_filter body_component [[]] = []"
    using b(3) by (simp_all add: List.map_filter_def body_component_def)
  have "List.map_filter body_component (split_char CHR ''/'' (path_join a b)) =
      List.map_filter body_component (split_char CHR ''/'' a) @ [Normal b]"
  proof (cases "ends_with ''/'' a")
    case True
    then obtain c where c: "a = c @ ''/''" by (auto simp: ends_with_iff)
    show ?thesis
      using b(1) a f by (simp add: path_join_def c ends_with_iff split_char_append_sep [of _ _ b, simplified]
          split_char_append_sep [of _ _ "[]", simplified] b(2) map_filter_append)
  next
    case False
    then show ?thesis
      using b(1) a f by (simp add: path_join_def split_char_append_sep b(2) map_filter_append)
  qed
  then show "components (path_join a b) = components a @ [Normal b]"
    using assms(1) abs by (simp add: components_def is_absolute_def)
qed

text \<open>The directory of a managed mount and of a config file.\<close>

definition managed_dir ::
  "(uuid \<Rightarrow> string) \<Rightarrow> string \<Rightarrow> uuid \<Rightarrow> container_service \<Rightarrow> service_mount \<Rightarrow> path_component list" where
  "managed_dir show_uuid work_dir app_id service mount =
     components work_dir @ [Normal ''app-mounts'', Normal (show_uuid app_id),
       Normal (if m_shared mount then SHARED_MOUNTS_DIR else show_uuid (s_id service)), Normal (m_name mount)]"

definition file_place ::
  "(uuid \<Rightarrow> string) \<Rightarrow> string \<Rightarrow> uuid \<Rightarrow> container_service \<Rightarrow> nat \<Rightarrow> path_component list" where
  "file_place show_uuid work_dir app_id service i =
     components work_dir @ [Normal ''app-mounts'', Normal (show_uuid app_id), Normal (show_uuid (s_id service)),
       Normal CONFIG_FILES_DIR,
       Normal (show_nat i @ ''-'' @ unwrap_or (file_name (cf_path (s_files service ! i))) ''file'')]"

definition host_path_of :: "service_mount \<Rightarrow> string option" where
  "host_path_of mount = opt_filter (\<lambda>value. value \<noteq> []) (map_option trim (m_host_path mount))"

lemma show_uuid_plain:
  assumes "show_uuid_ok show_uuid"
  shows "plain_name (show_uuid u)" and "show_uuid u \<noteq> SHARED_MOUNTS_DIR"
proof -
  have l: "length (show_uuid u) = 36" and c: "\<forall>c \<in> set (show_uuid u). is_ascii_hexdigit c \<or> c = CHR ''-''"
    using assms by (auto simp: show_uuid_ok_def list_all_iff)
  have "CHR ''/'' \<notin> set (show_uuid u)"
    using c by (auto simp: is_ascii_hexdigit_def is_ascii_digit_def scalar_def Let_def)
  then show "plain_name (show_uuid u)" using l by (auto simp: plain_name_def)
  show "show_uuid u \<noteq> SHARED_MOUNTS_DIR" using l by (auto simp: SHARED_MOUNTS_DIR_def)
qed

lemma mount_name_plain: "mount_name_ok n \<Longrightarrow> plain_name n"
  by (auto simp: mount_name_ok_def plain_name_def)

lemma app_root_components:
  assumes "is_absolute work_dir" and "show_uuid_ok show_uuid"
  shows "components (app_root show_uuid work_dir a) = components work_dir @ [Normal ''app-mounts'', Normal (show_uuid a)]"
    and "is_absolute (app_root show_uuid work_dir a)"
proof -
  have "plain_name ''app-mounts''" by (simp add: plain_name_def)
  then show "components (app_root show_uuid work_dir a) = components work_dir @ [Normal ''app-mounts'', Normal (show_uuid a)]"
    and "is_absolute (app_root show_uuid work_dir a)"
    using assms show_uuid_plain(1) [OF assms(2)] by (auto simp: app_root_def components_join)
qed

lemma io_collect_Inr:
  "io_collect xs f w = (Inr ys, w') \<Longrightarrow>
     length ys = length xs \<and> (\<forall>i < length xs. \<exists>v v'. f (xs ! i) v = (Inr (ys ! i), v'))"
proof (induction xs arbitrary: ys w)
  case (Cons x xs)
  then obtain y v zs where y: "f x w = (Inr y, v)" and zs: "io_collect xs f v = (Inr zs, w')" and ys: "ys = y # zs"
    by (auto simp: io_bind_Inr io_return_def)
  from y Cons.IH [OF zs] show ?case
    by (auto simp: ys nth_Cons split: nat.splits)
qed (auto simp: io_return_def)

lemma build_mount_Inr:
  assumes "build_mount fs mounts_root shared_root mount w = (Inr m, w')"
  shows "bm_target m = m_target mount \<and> bm_read_only m = m_read_only mount \<and>
    (case host_path_of mount of
       Some p \<Rightarrow> is_absolute p \<and> bm_source m = p
     | None \<Rightarrow> \<exists>v v'. fs_absolute fs (path_join (if m_shared mount then shared_root else mounts_root) (m_name mount)) v =
         (Inr (bm_source m), v'))"
  using assms
  by (auto simp: build_mount_def host_path_of_def [symmetric] io_bind_Inr io_then_Inr io_read_def io_return_def io_fail_def
      split: option.splits if_splits) blast+

lemma write_files_Inr:
  assumes "write_files fs dir k files w = (Inr ms, w')"
  shows "length ms = length files \<and>
    (\<forall>i < length files. ms ! i =
       \<lparr> bm_source = path_join dir (show_nat (k + i) @ ''-'' @ unwrap_or (file_name (cf_path (files ! i))) ''file''),
         bm_target = cf_path (files ! i), bm_read_only = True, bm_seed_from_image = False \<rparr>)"
  using assms
proof (induction files arbitrary: k ms w)
  case (Cons f files)
  let ?m = "\<lparr> bm_source = path_join dir (show_nat k @ ''-'' @ unwrap_or (file_name (cf_path f)) ''file''),
    bm_target = cf_path f, bm_read_only = True, bm_seed_from_image = False \<rparr>"
  from Cons.prems obtain v rest where "write_files fs dir (k + 1) files v = (Inr rest, w')" and ms: "ms = ?m # rest"
    by (auto simp: Let_def io_bind_Inr io_then_Inr io_return_def simp del: show_nat.simps)
  from Cons.IH [OF this(1)] show ?case
    by (auto simp: ms nth_Cons simp del: show_nat.simps split: nat.splits)
qed (simp add: io_return_def)

lemma is_absolute_components: "is_absolute p \<longleftrightarrow> RootDir \<in> set (components p)"
  by (auto simp: is_absolute_def components_def List.map_filter_def body_component_def split: if_splits)

lemma absolute_okD:
  "absolute_ok fs \<Longrightarrow> is_absolute p \<Longrightarrow> fs_absolute fs p w = (Inr q, w') \<Longrightarrow> components q = components p"
  unfolding absolute_ok_def by blast

lemma file_name_plain: "file_name p = Some n \<Longrightarrow> CHR ''/'' \<notin> set n"
proof -
  assume "file_name p = Some n"
  then obtain rest where "rev (components p) = Normal n # rest"
    by (auto simp: file_name_def split: list.splits path_component.splits)
  then have "Normal n \<in> set (components p)" by (metis list.set_intros(1) set_rev)
  then have "n \<in> set (split_char CHR ''/'' p)"
    by (auto simp: components_def List.map_filter_def body_component_def split: if_splits)
  then show ?thesis by (rule split_char_no_sep)
qed

lemma numbered_plain: "plain_name (show_nat i @ ''-'' @ unwrap_or (file_name p) ''file'')"
proof -
  have "CHR ''/'' \<notin> set (show_nat i)"
    using show_nat_digits by (force simp: is_ascii_digit_def scalar_def)
  then have "CHR ''/'' \<notin> set (show_nat i @ ''-'' @ unwrap_or (file_name p) ''file'')"
    using file_name_plain [of p] by (cases "file_name p") (auto simp del: show_nat.simps)
  moreover have "CHR ''-'' \<in> set (show_nat i @ ''-'' @ unwrap_or (file_name p) ''file'')" by simp
  ultimately show ?thesis by (auto simp only: plain_name_def list.set insert_iff empty_iff char.inject)
qed

lemma built_sources:
  assumes wd: "is_absolute work_dir" and abs: "absolute_ok fs" and u: "show_uuid_ok show_uuid"
    and names: "list_all (mount_name_ok \<circ> m_name) (s_mounts service)"
    and ok: "build_service_mounts show_uuid fs work_dir app_id service w = (Inr ms, w')"
  shows "length ms = length (s_mounts service) + length (s_files service)"
    and "\<And>i. i < length (s_mounts service) \<Longrightarrow> host_path_of (s_mounts service ! i) = None \<Longrightarrow>
      components (bm_source (ms ! i)) = managed_dir show_uuid work_dir app_id service (s_mounts service ! i)"
    and "\<And>i. i < length (s_files service) \<Longrightarrow>
      components (bm_source (ms ! (length (s_mounts service) + i))) = file_place show_uuid work_dir app_id service i"
proof -
  define mr where "mr = path_join (app_root show_uuid work_dir app_id) (show_uuid (s_id service))"
  define sr where "sr = path_join (app_root show_uuid work_dir app_id) SHARED_MOUNTS_DIR"
  note root = app_root_components [OF wd u, of app_id]
  have mr: "components mr = components work_dir @ [Normal ''app-mounts'', Normal (show_uuid app_id), Normal (show_uuid (s_id service))]"
      "is_absolute mr"
    using components_join [OF root(2) show_uuid_plain(1) [OF u]] root(1) by (simp_all add: mr_def)
  have sr: "components sr = components work_dir @ [Normal ''app-mounts'', Normal (show_uuid app_id), Normal SHARED_MOUNTS_DIR]"
      "is_absolute sr"
    using components_join [OF root(2), of SHARED_MOUNTS_DIR] root(1)
    by (simp_all add: sr_def SHARED_MOUNTS_DIR_def plain_name_def)
  obtain bs fsm v v' where ms: "ms = bs @ fsm" and bs: "io_collect (s_mounts service) (build_mount fs mr sr) w = (Inr bs, v)"
    and fsm: "write_config_files fs mr service v = (Inr fsm, v')"
    using ok by (auto simp: build_service_mounts_def Let_def io_bind_Inr io_return_def mr_def [symmetric] sr_def [symmetric])
  note c = io_collect_Inr [OF bs]
  have files: "length fsm = length (s_files service) \<and> (\<forall>i < length (s_files service).
      components (bm_source (fsm ! i)) = file_place show_uuid work_dir app_id service i)"
  proof (cases "s_files service = []")
    case True
    then show ?thesis using fsm by (auto simp: write_config_files_def io_bind_Inr io_then_Inr io_return_def)
  next
    case False
    then obtain dir u1 u2 u3 where dir: "fs_absolute fs (path_join mr CONFIG_FILES_DIR) u1 = (Inr dir, u2)"
      and wf: "write_files fs dir 0 (s_files service) u3 = (Inr fsm, v')"
      using fsm by (auto simp: write_config_files_def io_bind_Inr io_then_Inr)
    have "plain_name CONFIG_FILES_DIR" by (simp add: plain_name_def CONFIG_FILES_DIR_def)
    note d = components_join [OF mr(2) this]
    have cd: "components dir = components mr @ [Normal CONFIG_FILES_DIR]"
      using absolute_okD [OF abs d(2) dir] d(1) by simp
    have "is_absolute dir"
      using cd mr(2) by (simp add: is_absolute_components)
    then show ?thesis
      using write_files_Inr [OF wf] components_join(1) [OF _ numbered_plain] cd mr(1)
      by (simp add: file_place_def del: show_nat.simps)
  qed
  show "length ms = length (s_mounts service) + length (s_files service)"
    using c files by (simp add: ms)
  show "components (bm_source (ms ! (length (s_mounts service) + i))) = file_place show_uuid work_dir app_id service i"
    if "i < length (s_files service)" for i
    using that c files by (simp add: ms nth_append)
  fix i assume i: "i < length (s_mounts service)" and h: "host_path_of (s_mounts service ! i) = None"
  let ?m = "s_mounts service ! i" and ?r = "if m_shared (s_mounts service ! i) then sr else mr"
  obtain v v' where "fs_absolute fs (path_join ?r (m_name ?m)) v = (Inr (bm_source (bs ! i)), v')"
    using c i build_mount_Inr h by fastforce
  moreover have "plain_name (m_name ?m)"
    using names i by (simp add: list_all_length mount_name_plain)
  then have "is_absolute (path_join ?r (m_name ?m))" "components (path_join ?r (m_name ?m)) = components ?r @ [Normal (m_name ?m)]"
    using components_join mr(2) sr(2) by auto
  ultimately have "components (bm_source (bs ! i)) = components ?r @ [Normal (m_name ?m)]"
    using absolute_okD [OF abs] by metis
  then show "components (bm_source (ms ! i)) = managed_dir show_uuid work_dir app_id service ?m"
    using c i mr(1) sr(1) by (simp add: ms nth_append managed_dir_def)
qed

text \<open>
  Whose directory the entry \<open>i\<close> of the mounts of a service is: \<open>None\<close> for a path of the host, \<open>Some None\<close>
  for a directory all services of the project share, \<open>Some (Some k)\<close> for the service \<open>k\<close>.
\<close>

definition mount_owner :: "container_service \<Rightarrow> nat \<Rightarrow> uuid option option" where
  "mount_owner service i =
     (if i < length (s_mounts service)
      then (if host_path_of (s_mounts service ! i) \<noteq> None then None
            else if m_shared (s_mounts service ! i) then Some None
            else Some (Some (s_id service)))
      else Some (Some (s_id service)))"

lemma built_source_dir:
  assumes "is_absolute work_dir" and "absolute_ok fs" and "show_uuid_ok show_uuid"
    and "list_all (mount_name_ok \<circ> m_name) (s_mounts service)"
    and "build_service_mounts show_uuid fs work_dir app_id service w = (Inr ms, w')"
    and "i < length ms" and "mount_owner service i = Some k"
  shows "\<exists>rest. components (bm_source (ms ! i)) =
    components work_dir @ Normal ''app-mounts'' # Normal (show_uuid app_id) #
      Normal (case k of None \<Rightarrow> SHARED_MOUNTS_DIR | Some j \<Rightarrow> show_uuid j) # rest"
proof (cases "i < length (s_mounts service)")
  case True
  then show ?thesis
    using built_sources(2) [OF assms(1-5) True] assms(7)
    by (auto simp: mount_owner_def managed_dir_def split: if_splits)
next
  case False
  then obtain j where "i = length (s_mounts service) + j" "j < length (s_files service)"
    using assms(6) built_sources(1) [OF assms(1-5)] by (metis add_diff_inverse_nat nat_add_left_cancel_less)
  then show ?thesis
    using built_sources(3) [OF assms(1-5)] assms(7) by (auto simp: mount_owner_def file_place_def)
qed

text \<open>
  C35. The data of services is kept apart: if two containers, of the same or of different projects, mount
  the same managed directory or config file, then they belong to the same project and either the
  directory is shared in both or both belong to the same service.
\<close>

theorem service_mounts_isolated:
  assumes "is_absolute work_dir" and "absolute_ok fs" and "show_uuid_ok show_uuid"
    and "list_all (mount_name_ok \<circ> m_name) (s_mounts s)" and "list_all (mount_name_ok \<circ> m_name) (s_mounts t)"
    and "build_service_mounts show_uuid fs work_dir a s v = (Inr ms, v')"
    and "build_service_mounts show_uuid fs work_dir b t w = (Inr ns, w')"
    and "i < length ms" and "j < length ns" and "mount_owner s i = Some k" and "mount_owner t j = Some l"
    and "components (bm_source (ms ! i)) = components (bm_source (ns ! j))"
  shows "a = b \<and> k = l"
proof -
  obtain r1 r2 where
    "components work_dir @ Normal ''app-mounts'' # Normal (show_uuid a) #
       Normal (case k of None \<Rightarrow> SHARED_MOUNTS_DIR | Some j \<Rightarrow> show_uuid j) # r1 =
     components work_dir @ Normal ''app-mounts'' # Normal (show_uuid b) #
       Normal (case l of None \<Rightarrow> SHARED_MOUNTS_DIR | Some j \<Rightarrow> show_uuid j) # r2"
    using built_source_dir [OF assms(1-4,6,8,10)] built_source_dir [OF assms(1-3,5,7,9,11)] assms(12) by metis
  then have "show_uuid a = show_uuid b"
      "(case k of None \<Rightarrow> SHARED_MOUNTS_DIR | Some j \<Rightarrow> show_uuid j) = (case l of None \<Rightarrow> SHARED_MOUNTS_DIR | Some j \<Rightarrow> show_uuid j)"
    by auto
  moreover have "inj show_uuid" using assms(3) by (simp add: show_uuid_ok_def)
  ultimately show ?thesis
    using show_uuid_plain(2) [OF assms(3)] show_uuid_plain(2) [OF assms(3), symmetric]
    by (auto simp: inj_eq split: option.splits)
qed

section \<open>Witnesses\<close>

text \<open>Concrete parameters: a cipher that does nothing, and two letters for every byte.\<close>

definition demo_encode :: "bytes \<Rightarrow> string" where
  "demo_encode bs = concat (map (\<lambda>b. [char_of (97 + unat b div 16), char_of (97 + unat b mod 16)]) bs)"

fun demo_decode :: "string \<Rightarrow> bytes option" where
  "demo_decode [] = Some []"
| "demo_decode [c] = None"
| "demo_decode (c # d # s) =
     map_option (\<lambda>bs. of_nat ((of_char c - 97) * 16 + (of_char d - 97)) # bs) (demo_decode s)"

definition demo_crypto :: crypto where
  "demo_crypto =
     \<lparr> cr_aead_encrypt = \<lambda>_ _ p. Inr p, cr_aead_decrypt = \<lambda>_ _ ct. Inr ct, cr_sha256 = \<lambda>_. replicate 32 7,
       cr_b64_encode = demo_encode, cr_b64_decode = demo_decode,
       cr_utf8 = map (\<lambda>c. of_nat (of_char c)), cr_from_utf8 = \<lambda>bs. Inr (map (\<lambda>b. char_of (unat b)) bs) \<rparr>"

lemma demo_decode_encode: "demo_decode (demo_encode bs) = Some bs"
proof (induction bs)
  case (Cons b bs)
  have b: "unat b < 256" using unsigned_less [of b, where 'a = nat] by simp
  then have "unat b div 16 < 16" by simp
  with Cons b show ?case
    by (simp add: demo_encode_def div_mult_mod_eq del: of_nat_add of_nat_mult)
qed (simp add: demo_encode_def)

lemma demo_encode_letters: "c \<in> set (demo_encode bs) \<Longrightarrow> \<not> is_whitespace c"
proof -
  assume "c \<in> set (demo_encode bs)"
  then obtain b where b: "c \<in> {char_of (97 + unat b div 16), char_of (97 + unat (b :: u8) mod 16)}"
    by (auto simp: demo_encode_def)
  have "unat b < 256" using unsigned_less [of b, where 'a = nat] by simp
  then have "unat b div 16 < 16" "unat b mod 16 < 16" by simp_all
  with b have "97 \<le> scalar c" "scalar c < 113" by auto
  then show ?thesis by (simp add: is_whitespace_def Let_def)
qed

lemma demo_crypto_ok: "crypto_ok demo_crypto"
proof -
  have "map (\<lambda>b. char_of (unat b)) (map (\<lambda>c. of_nat (of_char c) :: u8) s) = s" for s :: string
    by (induction s) (simp_all add: unat_of_nat)
  then show ?thesis
    by (auto simp: crypto_ok_def demo_crypto_def demo_decode_encode demo_encode_letters)
qed

theorem stored_secret_round_trip_witness:
  "decrypt_stored_secret demo_crypto (''  enc:'' @ demo_encode (replicate 12 1 @ [112, 119]) @ '' '') (Some ''key'') = Inr ''pw''"
proof -
  have "encrypt demo_crypto (replicate 12 1) ''pw'' (derive_key demo_crypto ''key'') =
      Inr (demo_encode (replicate 12 1 @ [112, 119]))"
    by (simp add: encrypt_def derive_key_def demo_crypto_def)
  then show ?thesis
    using stored_secret_round_trip [OF demo_crypto_ok, of "replicate 12 1" "''pw''" "''key''" _ "''  ''" "'' ''"]
    by (simp add: is_whitespace_def scalar_def)
qed

text \<open>A file system that grants everything, and 36 hexadecimal digits for an identifier.\<close>

definition demo_fs :: "'w fs_api" where
  "demo_fs =
     \<lparr> fs_exists = \<lambda>_ _. True, fs_create_dir_all = \<lambda>_. io_return (), fs_absolute = io_return,
       fs_remove_tree = \<lambda>_. io_return False, fs_set_permissions = \<lambda>_ _. io_return (), fs_write = \<lambda>_ _. io_return () \<rparr>"

fun hex_digits :: "nat \<Rightarrow> nat \<Rightarrow> string" where
  "hex_digits 0 n = []"
| "hex_digits (Suc k) n = (''0123456789abcdef'' ! (n mod 16)) # hex_digits k (n div 16)"

definition demo_show_uuid :: "uuid \<Rightarrow> string" where
  "demo_show_uuid u = hex_digits 36 (unat u)"

lemma length_hex_digits [simp]: "length (hex_digits k n) = k"
  by (induction k arbitrary: n) auto

lemma hex_digits_hex: "c \<in> set (hex_digits k n) \<Longrightarrow> is_ascii_hexdigit c"
proof (induction k arbitrary: n)
  case (Suc k)
  have "n mod 16 < length ''0123456789abcdef''" by simp
  then have "''0123456789abcdef'' ! (n mod 16) \<in> set ''0123456789abcdef''" by (rule nth_mem)
  with Suc show ?case by (auto simp: is_ascii_hexdigit_def is_ascii_digit_def scalar_def)
qed simp

lemma hex_digits_inj: "hex_digits k m = hex_digits k n \<Longrightarrow> m < 16 ^ k \<Longrightarrow> n < 16 ^ k \<Longrightarrow> m = n"
proof (induction k arbitrary: m n)
  case (Suc k)
  have "distinct ''0123456789abcdef''" by simp
  then have "m mod 16 = n mod 16"
    using Suc.prems(1) nth_eq_iff_index_eq [of "''0123456789abcdef''" "m mod 16" "n mod 16"] by simp
  moreover have "m div 16 = n div 16" using Suc by (intro Suc.IH) (auto simp: less_mult_imp_div_less mult.commute)
  ultimately show ?case by (metis div_mult_mod_eq)
qed simp

lemma demo_show_uuid_ok: "show_uuid_ok demo_show_uuid"
proof -
  have "unat u < 16 ^ 36" for u :: uuid
    using unsigned_less [of u, where 'a = nat] by simp
  then have "inj demo_show_uuid"
    by (intro injI) (metis demo_show_uuid_def hex_digits_inj word_unat_eq_iff)
  then show ?thesis
    using hex_digits_hex by (auto simp: show_uuid_ok_def list_all_iff demo_show_uuid_def)
qed

definition demo_volume :: "uuid \<Rightarrow> container_service" where
  "demo_volume i =
     (container_service_new i 0 1 ''db'' ''img'' 80)\<lparr> s_mounts :=
        [\<lparr> m_name = ''data'', m_target = ''/data'', m_read_only = False, m_host_path = None, m_shared = False \<rparr>] \<rparr>"

theorem service_mounts_isolated_witness:
  "components (path_join (path_join (app_root demo_show_uuid ''/w'' 1) (demo_show_uuid 2)) ''data'') \<noteq>
   components (path_join (path_join (app_root demo_show_uuid ''/w'' 1) (demo_show_uuid 3)) ''data'')"
proof
  let ?p = "\<lambda>i. path_join (path_join (app_root demo_show_uuid ''/w'' 1) (demo_show_uuid i)) ''data''"
  assume eq: "components (?p 2) = components (?p 3)"
  have b: "build_service_mounts demo_show_uuid demo_fs ''/w'' 1 (demo_volume i) () =
      (Inr [\<lparr> bm_source = ?p i, bm_target = ''/data'', bm_read_only = False, bm_seed_from_image = True \<rparr>], ())" for i
    by (simp add: build_service_mounts_def build_mount_def write_config_files_def demo_volume_def demo_fs_def Let_def
        container_service_new_def io_defs opt_filter_def)
  have abs: "absolute_ok demo_fs" by (simp add: absolute_ok_def demo_fs_def io_defs)
  have "is_absolute ''/w''" by (simp add: is_absolute_def starts_with_def)
  moreover have "list_all (mount_name_ok \<circ> m_name) (s_mounts (demo_volume i))" for i
    by (simp add: demo_volume_def mount_name_ok_def)
  moreover have "mount_owner (demo_volume i) 0 = Some (Some i)" for i
    by (simp add: mount_owner_def demo_volume_def host_path_of_def opt_filter_def container_service_new_def)
  ultimately have "(1 :: uuid) = 1 \<and> Some (2 :: uuid) = Some 3"
    using eq by (intro service_mounts_isolated [OF _ abs demo_show_uuid_ok _ _ b [of 2] b [of 3], where i = 0 and j = 0]) simp_all
  then show False by simp
qed

end
