(* ===== verification/Worker_Images.thy ===== *)
theory Worker_Images
  imports Service_Support
begin

text \<open>
  The images of a deployment, \<open>crates/containr-runtime/src/worker.rs\<close>: checking out the source, where a
  service is built and under which tag, which services share a build, which image a rollback and a
  partial build use. The state of the world is the database, the refresh messages sent to the proxy,
  and whatever the daemon, git and the file system keep (\<open>w_ext\<close>). The operations of the record \<open>host\<close>
  act on that state; since other tasks of the process run while the worker awaits one of them, an
  operation may also change the database.
\<close>

section \<open>The world of the worker\<close>

record 'x world =
  w_store :: store
  w_refreshes :: "uuid list"
  w_ext :: 'x

record 'x host =
  h_docker :: "'x world docker_api"
  h_fs :: "'x world fs_api"
  h_crypto :: crypto
  h_show_uuid :: "uuid \<Rightarrow> string"
  h_uuid_simple :: "uuid \<Rightarrow> string"
  h_show_db_error :: "db_error \<Rightarrow> string"
  h_show_time :: "timestamp \<Rightarrow> string"
  h_new_uuid :: "('x world, uuid) io"
  h_now :: "'x world \<Rightarrow> timestamp"
  h_git :: "string option \<Rightarrow> string option \<Rightarrow> string list \<Rightarrow> ('x world, string) io"
  h_is_dir :: "string \<Rightarrow> 'x world \<Rightarrow> bool"
  h_is_file :: "string \<Rightarrow> 'x world \<Rightarrow> bool"
  h_canonicalize :: "string \<Rightarrow> ('x world, string) io"
  h_build_image :: "string \<Rightarrow> image_build_config \<Rightarrow> 'x world \<Rightarrow> (string list \<times> (string + unit)) \<times> 'x world"
  h_pull_image :: "string \<Rightarrow> registry_credentials option \<Rightarrow> ('x world, unit) io"
  h_name_order :: "container_service list \<Rightarrow> string list"
  h_set_order :: "string list \<Rightarrow> string list"

record worker =
  wk_work_dir :: string
  wk_encryption_secret :: "string option"
  wk_stub_mode :: bool
  wk_proxy_updates :: bool

definition db_write :: "'x host \<Rightarrow> (store \<Rightarrow> db_error + store) \<Rightarrow> ('x world, unit) io" where
  "db_write h f w =
     (case f (w_store w) of
        Inl e \<Rightarrow> (Inl (h_show_db_error h e), w)
      | Inr st \<Rightarrow> (Inr (), w\<lparr> w_store := st \<rparr>))"

definition db_read :: "(store \<Rightarrow> 'a) \<Rightarrow> ('x world, 'a) io" where
  "db_read f = io_read (\<lambda>w. f (w_store w))"

definition log_deployment :: "'x host \<Rightarrow> uuid \<Rightarrow> string \<Rightarrow> ('x world, unit) io" where
  "log_deployment h i line = io_ignore (db_write h (\<lambda>st. append_deployment_log st i line))"

section \<open>Names and tags\<close>

definition UPLOADS_DIR_NAME :: string where
  "UPLOADS_DIR_NAME = ''uploads''"

text \<open>\<open>Path::starts_with\<close> and equality of paths compare components.\<close>

definition path_starts_with :: "string \<Rightarrow> string \<Rightarrow> bool" where
  "path_starts_with p base = (take (length (components base)) (components p) = components base)"

definition is_uploaded_source :: "string \<Rightarrow> string \<Rightarrow> bool" where
  "is_uploaded_source work_dir p =
     (let uploads = path_join work_dir UPLOADS_DIR_NAME
      in path_starts_with p uploads \<and> components p \<noteq> components uploads \<and> ParentDir \<notin> set (components p))"

definition short_deployment_id :: "'x host \<Rightarrow> uuid \<Rightarrow> string" where
  "short_deployment_id h i = take 8 (h_uuid_simple h i)"

definition commit_tag_prefix :: "string \<Rightarrow> string" where
  "commit_tag_prefix commit_sha =
     (let pre = take 8 (dropWhile (\<lambda>ch. ch \<in> {CHR ''.'', CHR ''-''})
                  (filter (\<lambda>ch. is_ascii_alphanumeric ch \<or> ch \<in> {CHR ''_'', CHR ''.'', CHR ''-''}) commit_sha))
      in if pre = [] then ''source'' else pre)"

definition looks_like_commit_sha :: "string \<Rightarrow> bool" where
  "looks_like_commit_sha value \<longleftrightarrow>
     7 \<le> str_len value \<and> str_len value \<le> 40 \<and> list_all is_ascii_hexdigit value"

definition sanitize_image_suffix :: "string \<Rightarrow> string" where
  "sanitize_image_suffix value =
     (let sanitized = map (\<lambda>ch. if is_ascii_alphanumeric ch \<or> ch = CHR ''-'' \<or> ch = CHR ''_'' then ch else CHR ''-'') value
      in if sanitized = [] then ''service'' else sanitized)"

text \<open>The tag of a built image; it is ASCII, so that \<open>truncate(128)\<close> cuts characters.\<close>

definition image_tag :: "'x host \<Rightarrow> string \<Rightarrow> uuid \<Rightarrow> string \<Rightarrow> string" where
  "image_tag h commit_sha deployment_id service_name =
     take 128 (commit_tag_prefix commit_sha @ ''-'' @ short_deployment_id h deployment_id @ ''-''
                 @ sanitize_image_suffix service_name)"

section \<open>Checking out the source\<close>

definition checkout_commit :: "'x host \<Rightarrow> string option \<Rightarrow> string \<Rightarrow> string \<Rightarrow> ('x world, unit) io" where
  "checkout_commit h token repo sha =
     io_bind (h_git h token (Some repo) [''rev-parse'', ''HEAD''])
       (\<lambda>head. if starts_with sha head then io_return ()
          else io_bind
                 (io_match (h_git h token (Some repo) [''rev-parse'', ''--verify'', ''--quiet'', sha @ ''^{commit}''])
                    (\<lambda>_. if str_len sha \<noteq> 40 then io_fail ''short sha not present in shallow clone''
                         else io_then (h_git h token (Some repo) [''fetch'', ''--depth'', ''1'', ''origin'', sha])
                                (io_return sha))
                    io_return)
                 (\<lambda>target. io_then (h_git h token (Some repo) [''checkout'', ''--force'', ''--detach'', target])
                             (io_return ())))"

definition clone_repo :: "'x host \<Rightarrow> worker \<Rightarrow> deployment_job \<Rightarrow> ('x world, string) io" where
  "clone_repo h wk job =
     (let repo_path = path_join (wk_work_dir wk)
            (h_show_uuid h (j_app_id job) @ ''_'' @ commit_tag_prefix (j_commit_sha job) @ ''_''
               @ short_deployment_id h (j_deployment_id job))
      in io_then (io_ignore (fs_remove_tree (h_fs h) repo_path))
           (let clone = (\<lambda>source_url token.
                  io_then (io_map_err (\<lambda>e. ''git clone failed: '' @ e)
                             (h_git h token None
                               [''clone'', ''--depth'', ''1'', ''--single-branch'', ''--branch'', j_branch job, ''--'',
                                source_url, repo_path]))
                    (let commit_sha = to_ascii_lowercase (trim (j_commit_sha job))
                     in if looks_like_commit_sha commit_sha
                        then io_then (io_ignore (checkout_commit h token repo_path commit_sha)) (io_return repo_path)
                        else io_return repo_path))
            in case j_source job of
                 LocalPath p \<Rightarrow> if is_uploaded_source (wk_work_dir wk) p then io_return p else clone p None
               | RemoteGit url token \<Rightarrow> clone url token
               | NoSource \<Rightarrow> io_fail ''clone_repo called for deployment without source checkout''))"

text \<open>Only directories below the uploads are removed.\<close>

definition cleanup_uploaded_source :: "'x host \<Rightarrow> worker \<Rightarrow> deployment_job \<Rightarrow> ('x world, unit) io" where
  "cleanup_uploaded_source h wk job =
     (case j_source job of
        LocalPath p \<Rightarrow>
          if is_uploaded_source (wk_work_dir wk) p then io_ignore (fs_remove_tree (h_fs h) p) else io_return ()
      | _ \<Rightarrow> io_return ())"

section \<open>Build configuration\<close>

definition show_component :: "path_component \<Rightarrow> string" where
  "show_component c = (case c of RootDir \<Rightarrow> [] | CurDir \<Rightarrow> ''.'' | ParentDir \<Rightarrow> ''..'' | Normal n \<Rightarrow> n)"

text \<open>\<open>Path::strip_prefix\<close>, with the rest written with single separators.\<close>

definition path_strip_prefix :: "string \<Rightarrow> string \<Rightarrow> string option" where
  "path_strip_prefix p base =
     (if path_starts_with p base
      then Some (join ''/'' (map show_component (drop (length (components base)) (components p))))
      else None)"

definition resolve_context_dockerfile_path :: "string \<Rightarrow> string \<Rightarrow> string + string" where
  "resolve_context_dockerfile_path context_rel dockerfile_path =
     (if context_rel = ''.'' then Inr dockerfile_path
      else (case path_strip_prefix dockerfile_path context_rel of
              Some stripped \<Rightarrow> Inr stripped
            | None \<Rightarrow>
                if is_absolute dockerfile_path then Inl ''dockerfile path must be relative''
                else Inr dockerfile_path))"

definition build_args_of :: "container_service \<Rightarrow> (string \<times> string) list" where
  "build_args_of service = foldl (\<lambda>args arg. AList.update (ba_key arg) (ba_value arg) args) [] (s_build_args service)"

definition resolve_service_build_config ::
  "'x host \<Rightarrow> string \<Rightarrow> container_service \<Rightarrow> ('x world, image_build_config) io" where
  "resolve_service_build_config h repo_path service =
     (let context_rel = unwrap_or (s_build_context service) ''.'';
          context_path = path_join repo_path context_rel
      in io_bind (io_read (\<lambda>w. (fs_exists (h_fs h) context_path w, h_is_dir h context_path w))) (\<lambda>(there, dir).
           if \<not> there
           then io_fail (''build context '' @ context_rel @ '' does not exist for service '' @ s_name service)
           else if \<not> dir
           then io_fail (''build context '' @ context_rel @ '' is not a directory for service '' @ s_name service)
           else
             io_bind (h_canonicalize h repo_path) (\<lambda>repo_root.
             io_bind (h_canonicalize h context_path) (\<lambda>context_path.
               if \<not> path_starts_with context_path repo_root
               then io_fail (''build context '' @ context_rel @ '' escapes the repository for service '' @ s_name service)
               else
                 io_bind (case s_dockerfile_path service of
                            None \<Rightarrow> io_return None
                          | Some p \<Rightarrow> io_bind (io_lift (resolve_context_dockerfile_path context_rel p)) (\<lambda>p. io_return (Some p)))
                   (\<lambda>dockerfile.
                      io_then
                        (case dockerfile of
                           None \<Rightarrow> io_return ()
                         | Some p \<Rightarrow>
                             io_bind (io_read (fs_exists (h_fs h) (path_join context_path p)))
                               (\<lambda>there. if there then io_return ()
                                        else io_fail (''dockerfile '' @ p @ '' does not exist for service '' @ s_name service)))
                        (io_return \<lparr> bc_context_path = context_path, bc_dockerfile = dockerfile,
                                     bc_target = s_build_target service, bc_build_args = build_args_of service \<rparr>))))))"

definition resolve_local_build_config ::
  "'x host \<Rightarrow> string \<Rightarrow> container_service \<Rightarrow> ('x world, image_build_config) io" where
  "resolve_local_build_config h source_root service =
     io_bind (h_canonicalize h source_root) (\<lambda>context_path.
     io_bind (io_read (\<lambda>w.
       (opt_filter (\<lambda>p. \<not> is_absolute p \<and> list_all (\<lambda>c. c \<notin> {RootDir, ParentDir}) (components p)
                        \<and> h_is_file h (path_join context_path p) w)
          (opt_filter (\<lambda>p. p \<noteq> []) (map_option trim (s_dockerfile_path service))),
        h_is_file h (path_join context_path ''Dockerfile'') w)))
       (\<lambda>(configured, default_there).
          let config = (\<lambda>dockerfile. \<lparr> bc_context_path = context_path, bc_dockerfile = Some dockerfile,
                                       bc_target = s_build_target service, bc_build_args = build_args_of service \<rparr>)
          in case configured of
               Some p \<Rightarrow> io_return (config p)
             | None \<Rightarrow>
                 if \<not> default_there then io_fail (''uploaded source for service '' @ s_name service @ '' has no Dockerfile'')
                 else io_return (config ''Dockerfile'')))"

definition service_build_cache_key :: "container_service \<Rightarrow> image_build_config \<Rightarrow> string" where
  "service_build_cache_key service build_config =
     (let build_args = sort (map (\<lambda>arg. ba_key arg @ ''='' @ ba_value arg) (s_build_args service))
      in bc_context_path build_config @ ''|'' @ unwrap_or (bc_dockerfile build_config) [] @ ''|''
           @ unwrap_or (bc_target build_config) [] @ ''|'' @ join '';'' build_args)"

section \<open>The images of a deployment\<close>

text \<open>\<open>sort_by\<close> is stable: running deployments first, then the newest first.\<close>

definition previous_service_image ::
  "uuid \<Rightarrow> uuid \<Rightarrow> container_service \<Rightarrow> store \<Rightarrow> string + string" where
  "previous_service_image app_id current_deployment_id service st =
     (let deployments = sort_key (\<lambda>d. (d_status d \<noteq> Running, - d_created_at d))
            (filter (\<lambda>d. d_id d \<noteq> current_deployment_id) (list_deployments_by_app st app_id))
      in ok_or (Option.bind
                  (List.find (\<lambda>sd. sd_service_id sd = s_id service \<and> sd_image_id sd \<noteq> None)
                     (concat (map d_service_deployments deployments)))
                  sd_image_id)
           (''service '' @ s_name service @ '' has no previously built image; deploy it from source first''))"

definition build_service_image ::
  "'x host \<Rightarrow> project \<Rightarrow> deployment \<Rightarrow> string option \<Rightarrow> string \<Rightarrow> bool \<Rightarrow> container_service \<Rightarrow>
     (string \<times> string) list \<Rightarrow> ('x world, string \<times> (string \<times> string) list) io" where
  "build_service_image h app deployment repo_path commit_sha is_local_target service built_by_key =
     io_bind (io_lift (ok_or repo_path
                (''service '' @ s_name service @ '' requires source checkout but no source was provided''))) (\<lambda>repo_path.
     io_bind (if is_local_target then resolve_local_build_config h repo_path service
              else resolve_service_build_config h repo_path service) (\<lambda>build_config.
       let build_key = service_build_cache_key service build_config
       in case map_of built_by_key build_key of
            Some existing_image \<Rightarrow> io_return (existing_image, built_by_key)
          | None \<Rightarrow>
              let image_name = ''containr/'' @ h_show_uuid h (p_id app) @ '':''
                    @ image_tag h commit_sha (d_id deployment) (s_name service)
              in io_then (log_deployment h (d_id deployment) (''building image for service '' @ s_name service))
                   (\<lambda>w. case h_build_image h image_name build_config w of
                      ((lines, result), w) \<Rightarrow>
                        io_then (io_for lines (log_deployment h (d_id deployment)))
                          (io_then (io_lift result)
                            (io_return (image_name, AList.update build_key image_name built_by_key))) w)))"

fun build_images_loop ::
  "'x host \<Rightarrow> project \<Rightarrow> deployment \<Rightarrow> string option \<Rightarrow> string \<Rightarrow> uuid option \<Rightarrow> container_service list \<Rightarrow>
     (string \<times> string) list \<Rightarrow> (uuid \<times> string) list \<Rightarrow> ('x world, (uuid \<times> string) list) io" where
  "build_images_loop h app deployment repo_path commit_sha local_build_service_id [] built_by_key service_images =
     io_return service_images"
| "build_images_loop h app deployment repo_path commit_sha local_build_service_id (service # services)
     built_by_key service_images =
     (let is_local_target = (local_build_service_id = Some (s_id service));
          continue = (\<lambda>built_by_key img. build_images_loop h app deployment repo_path commit_sha local_build_service_id
                        services built_by_key (AList.update (s_id service) img service_images))
      in if local_build_service_id \<noteq> None \<and> \<not> is_local_target
         then (if s_image service = []
               then io_bind (io_bind (db_read (previous_service_image (p_id app) (d_id deployment) service)) io_lift)
                      (continue built_by_key)
               else continue built_by_key (s_image service))
         else if \<not> is_local_target \<and> s_image service \<noteq> []
         then continue built_by_key (s_image service)
         else io_bind (build_service_image h app deployment repo_path commit_sha is_local_target service built_by_key)
                (\<lambda>(img, built_by_key). continue built_by_key img))"

definition build_service_images ::
  "'x host \<Rightarrow> project \<Rightarrow> deployment \<Rightarrow> string option \<Rightarrow> string \<Rightarrow> uuid option \<Rightarrow>
     ('x world, (uuid \<times> string) list) io" where
  "build_service_images h app deployment repo_path commit_sha local_build_service_id =
     (case local_build_service_id of
        Some target_id \<Rightarrow>
          if target_id \<notin> s_id ` set (p_services app)
          then io_fail (''target service '' @ h_show_uuid h target_id @ '' is not part of the app'')
          else build_images_loop h app deployment repo_path commit_sha local_build_service_id (p_services app) [] []
      | None \<Rightarrow> build_images_loop h app deployment repo_path commit_sha None (p_services app) [] [])"

definition source_images_of :: "deployment \<Rightarrow> (uuid \<times> string) list" where
  "source_images_of source =
     foldl (\<lambda>imgs sd. case sd_image_id sd of
              None \<Rightarrow> imgs
            | Some image_id \<Rightarrow> if map_of imgs (sd_service_id sd) = None then (sd_service_id sd, image_id) # imgs else imgs)
       [] (d_service_deployments source)"

fun rollback_images_loop ::
  "(uuid \<times> string) list \<Rightarrow> string option \<Rightarrow> container_service list \<Rightarrow> (uuid \<times> string) list \<Rightarrow>
     string + (uuid \<times> string) list" where
  "rollback_images_loop source_images image_id [] service_images = Inr service_images"
| "rollback_images_loop source_images image_id (service # services) service_images =
     (case map_of source_images (s_id service) of
        Some img \<Rightarrow> rollback_images_loop source_images image_id services (AList.update (s_id service) img service_images)
      | None \<Rightarrow>
          if s_image service \<noteq> []
          then rollback_images_loop source_images image_id services
                 (AList.update (s_id service) (s_image service) service_images)
          else (case image_id of
                  Some img \<Rightarrow> rollback_images_loop source_images image_id services
                                (AList.update (s_id service) img service_images)
                | None \<Rightarrow> Inl (''rollback source missing image artifact for service '' @ s_name service)))"

definition resolve_rollback_service_images :: "project \<Rightarrow> deployment \<Rightarrow> string + (uuid \<times> string) list" where
  "resolve_rollback_service_images app source =
     rollback_images_loop (source_images_of source) (d_image_id source) (p_services app) []"

definition resolve_deployment_app :: "project \<Rightarrow> deployment \<Rightarrow> deployment option \<Rightarrow> project" where
  "resolve_deployment_app current_app deployment rollback_source =
     unwrap_or (or_else (Option.bind rollback_source d_app_snapshot) (d_app_snapshot deployment)) current_app"

definition primary_deployment_image_id :: "(uuid \<times> string) list \<Rightarrow> string option" where
  "primary_deployment_image_id service_images =
     (case remdups (map snd service_images) of [img] \<Rightarrow> Some img | _ \<Rightarrow> None)"

section \<open>Tags are valid\<close>

text \<open>The alphabet of a Docker tag, and \<open>Uuid::simple\<close>: hexadecimal digits.\<close>

definition tag_char :: "char \<Rightarrow> bool" where
  "tag_char c \<longleftrightarrow> is_ascii_alphanumeric c \<or> c \<in> {CHR ''_'', CHR ''.'', CHR ''-''}"

definition uuid_simple_ok :: "'x host \<Rightarrow> bool" where
  "uuid_simple_ok h \<longleftrightarrow> (\<forall>u. length (h_uuid_simple h u) = 32 \<and> list_all is_ascii_hexdigit (h_uuid_simple h u))"

lemma hexdigit_alphanumeric: "is_ascii_hexdigit c \<Longrightarrow> is_ascii_alphanumeric c"
  by (auto simp: is_ascii_hexdigit_def is_ascii_alphanumeric_def is_ascii_uppercase_def is_ascii_lowercase_def Let_def)

lemma take_long_prefix: "length xs \<le> n \<Longrightarrow> take n (xs @ ys) = xs @ take (n - length xs) ys"
  by simp

lemma commit_tag_prefix_ok:
  "list_all tag_char (commit_tag_prefix s)" "commit_tag_prefix s \<noteq> []" "length (commit_tag_prefix s) \<le> 8"
  "hd (commit_tag_prefix s) \<notin> {CHR ''.'', CHR ''-''}"
proof -
  define xs where "xs = filter tag_char s"
  define ys where "ys = dropWhile (\<lambda>ch. ch \<in> {CHR ''.'', CHR ''-''}) xs"
  have p: "commit_tag_prefix s = (if take 8 ys = [] then ''source'' else take 8 ys)"
    unfolding commit_tag_prefix_def Let_def ys_def xs_def tag_char_def by (rule refl)
  have src: "list_all tag_char ''source''"
    by (simp add: tag_char_def is_ascii_alphanumeric_def is_ascii_lowercase_def scalar_def)
  have "set (take 8 ys) \<subseteq> set xs" unfolding ys_def using set_take_subset set_dropWhileD by fastforce
  then have "list_all tag_char (take 8 ys)" by (auto simp: list_all_iff xs_def)
  with src show "list_all tag_char (commit_tag_prefix s)" by (simp add: p)
  show "commit_tag_prefix s \<noteq> []" "length (commit_tag_prefix s) \<le> 8" by (simp_all add: p)
  have "hd (take 8 ys) = hd ys" if "ys \<noteq> []" using that by (cases ys) auto
  moreover have "hd ys \<notin> {CHR ''.'', CHR ''-''}" if "ys \<noteq> []"
    using that hd_dropWhile [of "\<lambda>ch. ch \<in> {CHR ''.'', CHR ''-''}" xs] by (simp add: ys_def)
  ultimately show "hd (commit_tag_prefix s) \<notin> {CHR ''.'', CHR ''-''}" by (auto simp: p)
qed

lemma sanitize_image_suffix_ok: "list_all tag_char (sanitize_image_suffix v)"
  by (auto simp: sanitize_image_suffix_def Let_def list_all_iff tag_char_def is_ascii_alphanumeric_def
      is_ascii_lowercase_def scalar_def)

text \<open>
  The tag of a built image is always one Docker accepts: one to 128 characters of letters, digits,
  underscore, dot and hyphen, with no dot or hyphen in front, whatever the commit and the service are
  called. It starts with the commit and the deployment, so that a later deployment of the same commit
  does not overwrite it.
\<close>

theorem image_tag_valid:
  assumes "uuid_simple_ok h"
  shows "1 \<le> length (image_tag h commit i name) \<and> length (image_tag h commit i name) \<le> 128 \<and>
    list_all tag_char (image_tag h commit i name) \<and> hd (image_tag h commit i name) \<notin> {CHR ''.'', CHR ''-''} \<and>
    (\<exists>rest. image_tag h commit i name = commit_tag_prefix commit @ ''-'' @ take 8 (h_uuid_simple h i) @ rest)"
proof -
  let ?c = "commit_tag_prefix commit" and ?u = "take 8 (h_uuid_simple h i)"
  have u: "length ?u = 8" "list_all is_ascii_hexdigit ?u"
    using assms by (auto simp: uuid_simple_ok_def list_all_iff dest: in_set_takeD)
  define t where "t = ?c @ ''-'' @ ?u @ ''-'' @ sanitize_image_suffix name"
  have tag: "image_tag h commit i name = take 128 t"
    by (simp add: image_tag_def t_def short_deployment_id_def)
  have all: "list_all tag_char t"
    using commit_tag_prefix_ok(1) sanitize_image_suffix_ok u(2) hexdigit_alphanumeric
    by (auto simp: t_def list_all_iff tag_char_def)
  have "length (?c @ ''-'' @ ?u) \<le> 128" using commit_tag_prefix_ok(3) [of commit] u(1) by simp
  from take_long_prefix [OF this, of "''-'' @ sanitize_image_suffix name"] have pre: "\<exists>rest. take 128 t = ?c @ ''-'' @ ?u @ rest"
    unfolding t_def append_assoc by blast
  have "length (take 128 t) \<ge> 1" using commit_tag_prefix_ok(2) [of commit] by (cases ?c) (simp_all add: t_def)
  moreover have "hd (take 128 t) = hd ?c" using commit_tag_prefix_ok(2) [of commit] by (cases ?c) (simp_all add: t_def)
  moreover have "list_all tag_char (take 128 t)" using all by (auto simp: list_all_iff dest: in_set_takeD)
  ultimately show ?thesis
    using pre commit_tag_prefix_ok(4) [of commit] by (simp add: tag)
qed

section \<open>Uploaded sources\<close>

lemma components_body: "c \<in> set (List.map_filter body_component ws) \<Longrightarrow> c \<noteq> RootDir \<and> c \<noteq> CurDir"
  by (auto simp: List.map_filter_def body_component_def split: if_splits)

lemma in_set_tlD: "x \<in> set (tl xs) \<Longrightarrow> x \<in> set xs"
  by (cases xs) auto

text \<open>
  The worker removes an uploaded source only below its uploads directory: a path that counts as
  uploaded has the components of the work directory, \<open>uploads\<close>, and at least one more name, and never
  \<open>..\<close>; any other source is left alone.
\<close>

theorem uploaded_source_below_uploads:
  assumes "is_absolute work_dir" and "is_uploaded_source work_dir p"
  shows "\<exists>rest. components p = components work_dir @ [Normal UPLOADS_DIR_NAME] @ rest \<and> rest \<noteq> [] \<and>
    (\<forall>c \<in> set rest. \<exists>name. c = Normal name)"
proof -
  have "plain_name UPLOADS_DIR_NAME" by (simp add: plain_name_def UPLOADS_DIR_NAME_def)
  then have u: "components (path_join work_dir UPLOADS_DIR_NAME) = components work_dir @ [Normal UPLOADS_DIR_NAME]"
    using components_join [OF assms(1)] by blast
  define rest where "rest = drop (length (components work_dir) + 1) (components p)"
  have "take (length (components work_dir) + 1) (components p) = components work_dir @ [Normal UPLOADS_DIR_NAME]"
    using assms(2) by (simp add: is_uploaded_source_def path_starts_with_def u)
  then have p: "components p = components work_dir @ [Normal UPLOADS_DIR_NAME] @ rest"
    by (metis append.assoc append_take_drop_id rest_def)
  have tl: "c \<noteq> RootDir \<and> c \<noteq> CurDir" if "c \<in> set (tl (components q))" for c q
    using that components_body by (auto simp: components_def split: if_splits dest: in_set_tlD)
  have "components work_dir \<noteq> []" using assms(1) by (auto simp: is_absolute_components)
  then have "set rest \<subseteq> set (tl (components p))" by (auto simp: p)
  moreover have "ParentDir \<notin> set (components p)" "components p \<noteq> components work_dir @ [Normal UPLOADS_DIR_NAME]"
    using assms(2) by (auto simp: is_uploaded_source_def u)
  ultimately show ?thesis
    using p tl [of _ p] by (metis append_Nil2 path_component.exhaust subsetD p Un_iff set_append)
qed

section \<open>Every service gets its image\<close>

lemma keys_update_new: "k \<notin> set (map fst al) \<Longrightarrow> map fst (AList.update k v al) = map fst al @ [k]"
  by (induction al) auto

lemma map_of_update_other: "k \<noteq> j \<Longrightarrow> map_of (AList.update k v al) j = map_of al j"
  by (simp add: update_conv')

text \<open>What image the loop chooses for a service, given the database at that moment.\<close>

definition chosen_image ::
  "project \<Rightarrow> deployment \<Rightarrow> uuid option \<Rightarrow> container_service \<Rightarrow> string \<Rightarrow> bool" where
  "chosen_image app deployment local service img \<longleftrightarrow>
     (if local = Some (s_id service) then True
      else if s_image service \<noteq> [] then img = s_image service
      else local \<noteq> None \<longrightarrow> (\<exists>st. previous_service_image (p_id app) (d_id deployment) service st = Inr img))"

lemma build_images_loop_images:
  assumes "build_images_loop h app deployment repo commit local services built imgs w = (Inr out, w')"
    and "distinct (map fst imgs @ map s_id services)"
  shows "map fst out = map fst imgs @ map s_id services \<and>
    (\<forall>j. j \<notin> s_id ` set services \<longrightarrow> map_of out j = map_of imgs j) \<and>
    (\<forall>s \<in> set services. \<exists>img. map_of out (s_id s) = Some img \<and> chosen_image app deployment local s img)"
  using assms
proof (induction services arbitrary: built imgs w)
  case (Cons service services)
  let ?i = "s_id service"
  obtain built' img w1
    where rest: "build_images_loop h app deployment repo commit local services built' (AList.update ?i img imgs) w1 = (Inr out, w')"
      and img: "chosen_image app deployment local service img"
    using Cons.prems(1)
    by (auto simp: Let_def io_bind_Inr db_read_def io_read_def chosen_image_def split: if_splits prod.splits)
  have new: "?i \<notin> set (map fst imgs)" using Cons.prems(2) by auto
  have "distinct (map fst (AList.update ?i img imgs) @ map s_id services)"
    using Cons.prems(2) by (auto simp: keys_update_new [OF new])
  note ih = Cons.IH [OF rest this]
  have "map_of out ?i = Some img"
    using ih Cons.prems(2) by (auto simp: update_conv')
  with ih img show ?case
    by (auto simp: keys_update_new [OF new] map_of_update_other)
qed (simp add: io_return_def)

text \<open>
  When the build succeeds every service of the project has an image, and no one else: a service with
  a configured image gets exactly that one unless it is the target of an upload, and when only one
  service is built the others without a configured image get one that an earlier deployment ran.
\<close>

theorem build_service_images_complete:
  assumes "distinct (map s_id (p_services app))"
    and "build_service_images h app deployment repo commit local w = (Inr imgs, w')"
  shows "map fst imgs = map s_id (p_services app) \<and>
    (\<forall>s \<in> set (p_services app). \<exists>img. map_of imgs (s_id s) = Some img \<and> chosen_image app deployment local s img)"
proof -
  have "build_images_loop h app deployment repo commit local (p_services app) [] [] w = (Inr imgs, w')"
    using assms(2) by (auto simp: build_service_images_def io_fail_def split: option.splits if_splits)
  moreover have "distinct (map fst ([] :: (uuid \<times> string) list) @ map s_id (p_services app))" using assms(1) by simp
  ultimately show ?thesis
    using build_images_loop_images [of h app deployment repo commit local "p_services app" "[]" "[]" w imgs w']
    unfolding list.map append_Nil by blast
qed

lemma find_bind_None:
  "Option.bind (List.find (\<lambda>x. P x \<and> f x \<noteq> None) xs) f = None \<longleftrightarrow> (\<forall>x \<in> set xs. P x \<longrightarrow> f x = None)"
  by (induction xs) auto

lemma map_of_source_images:
  "map_of (foldl (\<lambda>imgs sd. case sd_image_id sd of
              None \<Rightarrow> imgs
            | Some image_id \<Rightarrow> if map_of imgs (sd_service_id sd) = None then (sd_service_id sd, image_id) # imgs else imgs)
       imgs sds) i =
   (case map_of imgs i of
      Some img \<Rightarrow> Some img
    | None \<Rightarrow> Option.bind (List.find (\<lambda>sd. sd_service_id sd = i \<and> sd_image_id sd \<noteq> None) sds) sd_image_id)"
  by (induction sds arbitrary: imgs) (auto split: option.splits)

lemma rollback_images_loop_result:
  assumes "distinct (map fst imgs @ map s_id services)"
  shows "case rollback_images_loop sources image_id services imgs of
    Inr out \<Rightarrow> map fst out = map fst imgs @ map s_id services \<and>
      (\<forall>j. j \<notin> s_id ` set services \<longrightarrow> map_of out j = map_of imgs j) \<and>
      (\<forall>s \<in> set services. map_of out (s_id s) =
         or_else (map_of sources (s_id s)) (if s_image s \<noteq> [] then Some (s_image s) else image_id))
  | Inl _ \<Rightarrow> \<exists>s \<in> set services. map_of sources (s_id s) = None \<and> s_image s = [] \<and> image_id = None"
  using assms
proof (induction services arbitrary: imgs)
  case (Cons service services)
  let ?i = "s_id service"
  let ?o = "or_else (map_of sources ?i) (if s_image service \<noteq> [] then Some (s_image service) else image_id)"
  show ?case
  proof (cases ?o)
    case None
    then show ?thesis by (auto simp: or_else_def split: option.splits if_splits)
  next
    case (Some img)
    have new: "?i \<notin> set (map fst imgs)" using Cons.prems by auto
    have step: "rollback_images_loop sources image_id (service # services) imgs =
        rollback_images_loop sources image_id services (AList.update ?i img imgs)"
      using Some by (auto simp: or_else_def split: option.splits if_splits)
    have "distinct (map fst (AList.update ?i img imgs) @ map s_id services)"
      using Cons.prems by (auto simp: keys_update_new [OF new])
    from Cons.IH [OF this] Some Cons.prems show ?thesis
      unfolding step
      by (auto simp: keys_update_new [OF new] map_of_update_other update_conv' split: sum.splits)
  qed
qed simp

text \<open>
  A rollback runs what ran before: every service of the snapshot gets the image its first recorded
  replica of the source deployment ran, else its configured image, else the image of the source
  deployment as a whole; the rollback is refused exactly if a service has none of the three.
\<close>

theorem rollback_uses_recorded_images:
  assumes "distinct (map s_id (p_services app))"
  shows "case resolve_rollback_service_images app source of
    Inr imgs \<Rightarrow> map fst imgs = map s_id (p_services app) \<and>
      (\<forall>s \<in> set (p_services app). map_of imgs (s_id s) =
         or_else (Option.bind (List.find (\<lambda>sd. sd_service_id sd = s_id s \<and> sd_image_id sd \<noteq> None)
                     (d_service_deployments source)) sd_image_id)
           (if s_image s \<noteq> [] then Some (s_image s) else d_image_id source))
  | Inl _ \<Rightarrow> \<exists>s \<in> set (p_services app). s_image s = [] \<and> d_image_id source = None \<and>
      \<not> (\<exists>sd \<in> set (d_service_deployments source). sd_service_id sd = s_id s \<and> sd_image_id sd \<noteq> None)"
proof -
  have src: "map_of (source_images_of source) i =
      Option.bind (List.find (\<lambda>sd. sd_service_id sd = i \<and> sd_image_id sd \<noteq> None) (d_service_deployments source)) sd_image_id" for i
    unfolding source_images_of_def using map_of_source_images [of "[]"] by simp
  have none: "map_of (source_images_of source) i = None \<longleftrightarrow>
      \<not> (\<exists>sd \<in> set (d_service_deployments source). sd_service_id sd = i \<and> sd_image_id sd \<noteq> None)" for i
    unfolding src find_bind_None by auto
  note r = rollback_images_loop_result [of "[]" "p_services app" "source_images_of source" "d_image_id source"]
  show ?thesis
  proof (cases "resolve_rollback_service_images app source")
    case (Inl e)
    with r assms none show ?thesis by (simp add: resolve_rollback_service_images_def) blast
  next
    case (Inr imgs)
    with r assms src show ?thesis by (simp add: resolve_rollback_service_images_def)
  qed
qed

section \<open>Builds shared by services\<close>

text \<open>
  The key under which services share a build does not separate their build arguments: a service with
  the one argument \<open>a\<close> of value \<open>1;b=2\<close> has the same key as one with the arguments \<open>a\<close> of value \<open>1\<close> and
  \<open>b\<close> of value \<open>2\<close> in the same place, so once the first is built the second gets its image and is not
  built with its own arguments.
\<close>

theorem build_cache_key_ambiguous:
  assumes "s_build_args s = [\<lparr> ba_key = ''a'', ba_value = ''1;b=2'', ba_secret = False \<rparr>]"
    and "s_build_args t = [\<lparr> ba_key = ''a'', ba_value = ''1'', ba_secret = False \<rparr>, \<lparr> ba_key = ''b'', ba_value = ''2'', ba_secret = False \<rparr>]"
    and "resolve_service_build_config h repo t w = (Inr c, w')"
    and "map_of built (service_build_cache_key s c) = Some img"
  shows "build_args_of s \<noteq> build_args_of t \<and>
    build_service_image h app d (Some repo) commit False t built w = (Inr (img, built), w')"
proof -
  have "sort [''a=1'', ''b=2''] = [''a=1'', ''b=2'']" by code_simp
  then have "service_build_cache_key t c = service_build_cache_key s c"
    using assms(1,2) by (simp add: service_build_cache_key_def Let_def)
  moreover have "build_args_of s \<noteq> build_args_of t"
    using assms(1,2) by (simp add: build_args_of_def)
  ultimately show ?thesis
    using assms(3,4) by (simp add: build_service_image_def ok_or_def io_defs)
qed

section \<open>Witnesses\<close>

text \<open>A host over the demonstration daemon, where every other call succeeds.\<close>

definition lift_ext :: "('x, 'a) io \<Rightarrow> ('x world, 'a) io" where
  "lift_ext m w = (fst (m (w_ext w)), w\<lparr> w_ext := snd (m (w_ext w)) \<rparr>)"

definition lift_docker :: "'x docker_api \<Rightarrow> 'x world docker_api" where
  "lift_docker api =
     \<lparr> dk_create_network = \<lambda>n s. lift_ext (dk_create_network api n s), dk_list_subnets = lift_ext (dk_list_subnets api),
       dk_create_container = \<lambda>n b. lift_ext (dk_create_container api n b),
       dk_connect_network = \<lambda>n c a. lift_ext (dk_connect_network api n c a),
       dk_start_container = \<lambda>c. lift_ext (dk_start_container api c),
       dk_stop_container = \<lambda>c. lift_ext (dk_stop_container api c),
       dk_remove_container = \<lambda>c. lift_ext (dk_remove_container api c),
       dk_inspect_health = \<lambda>c. lift_ext (dk_inspect_health api c),
       dk_download_path = \<lambda>c p d. lift_ext (dk_download_path api c p d),
       fs_dir_is_empty = \<lambda>p. lift_ext (fs_dir_is_empty api p), fs_remove_file = \<lambda>p. lift_ext (fs_remove_file api p),
       fs_unpack_seed_archive = \<lambda>p d. lift_ext (fs_unpack_seed_archive api p d),
       clock_ms = \<lambda>w. clock_ms api (w_ext w), sleep_ms = \<lambda>ms w. w\<lparr> w_ext := sleep_ms api ms (w_ext w) \<rparr> \<rparr>"

definition demo_host :: "(string list \<times> int) host" where
  "demo_host =
     \<lparr> h_docker = lift_docker demo_docker, h_fs = demo_fs, h_crypto = demo_crypto, h_show_uuid = demo_show_uuid,
       h_uuid_simple = \<lambda>u. hex_digits 32 (unat u), h_show_db_error = \<lambda>_. ''database error'', h_show_time = \<lambda>_. ''now'',
       h_new_uuid = lift_ext (\<lambda>(cs, t). (Inr (of_int t), (cs, t + 1))), h_now = \<lambda>w. snd (w_ext w),
       h_git = \<lambda>_ _ _. io_return [], h_is_dir = \<lambda>_ _. True, h_is_file = \<lambda>_ _. True, h_canonicalize = io_return,
       h_build_image = \<lambda>_ _ w. (([''built''], Inr ()), w), h_pull_image = \<lambda>_ _. io_return (),
       h_name_order = map s_name, h_set_order = id \<rparr>"

definition demo_world :: "(string list \<times> int) world" where
  "demo_world = \<lparr> w_store = demo_store, w_refreshes = [], w_ext = ([], 100) \<rparr>"

theorem image_tag_valid_witness:
  "list_all tag_char (image_tag demo_host ''-feature/x'' 5 ''My App'') \<and> length (image_tag demo_host ''-feature/x'' 5 ''My App'') \<le> 128"
proof -
  have "uuid_simple_ok demo_host"
    using hex_digits_hex by (auto simp: uuid_simple_ok_def demo_host_def list_all_iff)
  from image_tag_valid [OF this] show ?thesis by blast
qed

theorem uploaded_source_below_uploads_witness:
  "\<exists>rest. components ''/w/uploads/src-1'' = components ''/w'' @ [Normal UPLOADS_DIR_NAME] @ rest \<and> rest \<noteq> [] \<and>
     (\<forall>c \<in> set rest. \<exists>name. c = Normal name)"
proof (rule uploaded_source_below_uploads)
  show "is_absolute ''/w''" by (simp add: is_absolute_def starts_with_def)
  show "is_uploaded_source ''/w'' ''/w/uploads/src-1''" by code_simp
qed

theorem build_service_images_complete_witness:
  "\<exists>img. map_of [(2 :: uuid, ''img'')] (s_id demo_web) = Some img \<and> chosen_image demo_app demo_deployment None demo_web img"
proof -
  have "build_service_images demo_host demo_app demo_deployment None ''abc'' None demo_world = (Inr [(2, ''img'')], demo_world)"
    by (simp add: build_service_images_def demo_app_def demo_web_def project_new_def container_service_new_def io_defs)
  moreover have "demo_web \<in> set (p_services demo_app)" "distinct (map s_id (p_services demo_app))"
    by (simp_all add: demo_app_def)
  ultimately show ?thesis
    using build_service_images_complete by blast
qed

theorem rollback_uses_recorded_images_witness:
  "\<exists>imgs. resolve_rollback_service_images demo_app demo_deployment = Inr imgs \<and> map fst imgs = [2] \<and>
     map_of imgs 2 = Some ''img''"
proof -
  have r: "resolve_rollback_service_images demo_app demo_deployment = Inr [(2, ''img'')]"
    by (simp add: resolve_rollback_service_images_def demo_app_def demo_web_def demo_deployment_def deployment_new_def
        project_new_def container_service_new_def source_images_of_def service_deployment_new_def)
  have "distinct (map s_id (p_services demo_app))" by (simp add: demo_app_def)
  from rollback_uses_recorded_images [OF this, of demo_deployment] show ?thesis
    unfolding r by (simp add: demo_app_def demo_web_def container_service_new_def)
qed

definition demo_arg :: "string \<Rightarrow> string \<Rightarrow> build_arg" where
  "demo_arg k v = \<lparr> ba_key = k, ba_value = v, ba_secret = False \<rparr>"

theorem build_cache_key_ambiguous_witness:
  "\<exists>s t built. build_args_of s \<noteq> build_args_of t \<and>
     build_service_image demo_host demo_app demo_deployment (Some ''/r'') ''abc'' False t built demo_world =
       (Inr (''image of s'', built), demo_world)"
proof -
  define s where "s = demo_web\<lparr> s_build_args := [demo_arg ''a'' ''1;b=2''] \<rparr>"
  define t where "t = demo_web\<lparr> s_build_args := [demo_arg ''a'' ''1'', demo_arg ''b'' ''2''] \<rparr>"
  have ct: "components ''/r/.'' = [RootDir, Normal ''r'']" "components ''/r'' = [RootDir, Normal ''r'']"
    by code_simp+
  have f: "s_build_context t = None" "s_dockerfile_path t = None"
    by (simp_all add: t_def demo_web_def container_service_new_def)
  obtain c where c: "resolve_service_build_config demo_host ''/r'' t demo_world = (Inr c, demo_world)"
    by (simp add: resolve_service_build_config_def demo_host_def demo_fs_def io_defs path_join_def is_absolute_def
        starts_with_def ends_with_def strip_suffix_def path_starts_with_def ct f Let_def)
  have "build_args_of s \<noteq> build_args_of t \<and>
      build_service_image demo_host demo_app demo_deployment (Some ''/r'') ''abc'' False t
        [(service_build_cache_key s c, ''image of s'')] demo_world =
      (Inr (''image of s'', [(service_build_cache_key s c, ''image of s'')]), demo_world)"
    by (rule build_cache_key_ambiguous [OF _ _ c]) (simp_all add: s_def t_def demo_arg_def)
  then show ?thesis by blast
qed

end
