(* ===== verification/Worker.thy ===== *)
theory Worker
  imports Worker_Images Toposort
begin

text \<open>
  The deployment worker, \<open>crates/containr-runtime/src/worker.rs\<close>: \<open>process_job\<close> takes a job from its
  row in the database to running containers, \<open>rollout_services\<close> starts the replicas in the order of
  their dependencies, \<open>deploy_services\<close> switches the deployments over or cleans up, and \<open>run\<close> marks a
  failed job. The vector of service deployments and the set of new container names that
  \<open>rollout_services\<close> fills through mutable references, also on its error paths, are part of the
  state of that function (\<open>rollout\<close>).
\<close>

section \<open>Bookkeeping\<close>

definition show_status :: "deployment_status \<Rightarrow> string" where
  "show_status s =
     (case s of Pending \<Rightarrow> ''Pending'' | Cloning \<Rightarrow> ''Cloning'' | Building \<Rightarrow> ''Building'' | Pushing \<Rightarrow> ''Pushing''
      | Starting \<Rightarrow> ''Starting'' | Running \<Rightarrow> ''Running'' | Failed \<Rightarrow> ''Failed'' | Stopped \<Rightarrow> ''Stopped'')"

definition update_status :: "'x host \<Rightarrow> deployment \<Rightarrow> deployment_status \<Rightarrow> ('x world, unit) io" where
  "update_status h deployment status =
     (let updated = deployment\<lparr> d_status := status \<rparr>
      in io_bind (io_read (h_now h)) (\<lambda>now.
           io_then (log_deployment h (d_id updated) (''['' @ h_show_time h now @ ''] status: '' @ show_status status))
             (db_write h (\<lambda>st. save_deployment st updated))))"

definition should_continue_deployment :: "'x host \<Rightarrow> uuid \<Rightarrow> string \<Rightarrow> ('x world, bool) io" where
  "should_continue_deployment h deployment_id message =
     io_bind (db_read (\<lambda>st. get_deployment st deployment_id))
       (\<lambda>found. case found of
          None \<Rightarrow> io_return False
        | Some deployment \<Rightarrow>
            if d_status deployment = Stopped
            then io_then (log_deployment h deployment_id message) (io_return False)
            else io_return True)"

definition send_proxy_refresh :: "worker \<Rightarrow> uuid \<Rightarrow> ('x world, unit) io" where
  "send_proxy_refresh wk app_id =
     io_modify (\<lambda>w. if wk_proxy_updates wk then w\<lparr> w_refreshes := w_refreshes w @ [app_id] \<rparr> else w)"

definition service_network_aliases :: "string \<Rightarrow> u32 \<Rightarrow> string list" where
  "service_network_aliases service_name replica_index =
     [service_name, service_name @ ''-'' @ show_word replica_index]"

definition get_previous_running_deployments :: "uuid \<Rightarrow> uuid \<Rightarrow> store \<Rightarrow> deployment list" where
  "get_previous_running_deployments app_id current_deployment_id st =
     filter (\<lambda>d. d_id d \<noteq> current_deployment_id \<and> d_status d = Running) (list_deployments_by_app st app_id)"

definition stop_service_deployment :: "timestamp \<Rightarrow> service_deployment \<Rightarrow> service_deployment" where
  "stop_service_deployment finished_at sd =
     sd\<lparr> sd_status := Stopped,
         sd_finished_at := (if sd_finished_at sd = None then Some finished_at else sd_finished_at sd) \<rparr>"

definition mark_deployment_stopped :: "'x host \<Rightarrow> deployment \<Rightarrow> ('x world, unit) io" where
  "mark_deployment_stopped h deployment =
     io_bind (io_read (h_now h)) (\<lambda>finished_at.
     io_bind (db_read (\<lambda>st. get_deployment st (d_id deployment))) (\<lambda>found.
       let stopped = (unwrap_or found deployment)
             \<lparr> d_status := Stopped, d_finished_at := Some finished_at,
               d_service_deployments :=
                 map (stop_service_deployment finished_at) (d_service_deployments (unwrap_or found deployment)) \<rparr>
       in db_write h (\<lambda>st. save_deployment st stopped)))"

definition restore_app_services :: "'x host \<Rightarrow> project \<Rightarrow> ('x world, unit) io" where
  "restore_app_services h snapshot =
     io_bind (db_read (\<lambda>st. get_app st (p_id snapshot)))
       (\<lambda>found. case found of
          None \<Rightarrow> io_fail ''app not found''
        | Some current \<Rightarrow>
            io_bind (io_read (h_now h)) (\<lambda>now.
              db_write h (\<lambda>st. save_app st
                (current\<lparr> p_services := p_services snapshot, p_env_vars := p_env_vars snapshot,
                          p_updated_at := now \<rparr>))))"

section \<open>Rolling out the services\<close>

record 'x rollout =
  ro_world :: "'x world"
  ro_sds :: "service_deployment list"
  ro_new :: "string list"

definition on_world :: "('x world, 'a) io \<Rightarrow> ('x rollout, 'a) io" where
  "on_world m s = (case m (ro_world s) of (r, w) \<Rightarrow> (r, s\<lparr> ro_world := w \<rparr>))"

definition save_service_deployment_best_effort :: "'x host \<Rightarrow> service_deployment \<Rightarrow> ('x world, unit) io" where
  "save_service_deployment_best_effort h sd = io_ignore (db_write h (\<lambda>st. save_service_deployment st sd))"

definition push_service_deployment :: "'x host \<Rightarrow> service_deployment \<Rightarrow> ('x rollout, unit) io" where
  "push_service_deployment h sd =
     io_then (on_world (save_service_deployment_best_effort h sd))
       (io_modify (\<lambda>s. s\<lparr> ro_sds := ro_sds s @ [sd] \<rparr>))"

definition replica_container_id :: "'x host \<Rightarrow> project \<Rightarrow> deployment \<Rightarrow> container_service \<Rightarrow> u32 \<Rightarrow> string" where
  "replica_container_id h app deployment service replica_idx =
     ''containr-'' @ h_show_uuid h (p_id app) @ ''-'' @ s_name service @ ''-'' @ show_word replica_idx @ ''-''
       @ short_deployment_id h (d_id deployment)"

definition replica_env_vars :: "(string \<times> string) list \<Rightarrow> container_service \<Rightarrow> u32 \<Rightarrow> (string \<times> string) list" where
  "replica_env_vars shared_env_vars service replica_idx =
     (let env = AList.update ''REPLICA_INDEX'' (show_word replica_idx)
                  (AList.update ''SERVICE_NAME'' (s_name service) shared_env_vars);
          env = (if s_port service > 0 then AList.update ''PORT'' (show_word (s_port service)) env else env)
      in foldl (\<lambda>env e. AList.update (ev_key e) (ev_value e) env) env (s_env_vars service))"

definition replica_health_check :: "container_service \<Rightarrow> health_check_command option" where
  "replica_health_check service =
     Option.bind (s_health_check service) (\<lambda>hc.
       if s_port service = 0 then None
       else Some \<lparr> hcc_cmd = [''curl'', ''-f'', ''http://localhost:'' @ show_word (s_port service) @ hc_path hc],
                   hcc_interval_secs = hc_interval_secs hc, hcc_timeout_secs = hc_timeout_secs hc,
                   hcc_retries = hc_retries hc \<rparr>)"

definition restart_policy_text :: "restart_policy \<Rightarrow> string" where
  "restart_policy_text p =
     (case p of Never \<Rightarrow> ''no'' | Always \<Rightarrow> ''always'' | OnFailure \<Rightarrow> ''on-failure'' | UnlessStopped \<Rightarrow> ''unless-stopped'')"

text \<open>Whether the old container of a replica has to go before the new one is created.\<close>

definition replaced_first :: "rollout_strategy \<Rightarrow> container_service \<Rightarrow> u32 \<Rightarrow> bool" where
  "replaced_first rollout_strategy service replica_idx \<longleftrightarrow>
     rollout_strategy = StopFirst \<or> service_port_mappings service replica_idx \<noteq> []"

definition remove_old :: "'x host \<Rightarrow> worker \<Rightarrow> string \<Rightarrow> ('x world, unit) io" where
  "remove_old h wk old =
     io_then (io_ignore (stop_container (h_docker h) (wk_stub_mode wk) old))
       (io_ignore (remove_container (h_docker h) (wk_stub_mode wk) old))"

definition pull_service_image ::
  "'x host \<Rightarrow> worker \<Rightarrow> project \<Rightarrow> deployment \<Rightarrow> container_service \<Rightarrow> string \<Rightarrow> ('x world, unit) io" where
  "pull_service_image h wk app deployment service service_image =
     (if should_pull_service_image service service_image
      then io_bind (io_bind (db_read (\<lambda>st. resolve_registry_credentials (h_crypto h) (Some st) (p_owner_id app) service
                      service_image (wk_encryption_secret wk))) io_lift)
             (\<lambda>registry_credentials.
                io_then (log_deployment h (d_id deployment) (''pulling service image '' @ service_image))
                  (h_pull_image h service_image registry_credentials))
      else io_return ())"

definition replica_config ::
  "'x host \<Rightarrow> project \<Rightarrow> deployment \<Rightarrow> string \<Rightarrow> container_service \<Rightarrow> string \<Rightarrow> (string \<times> string) list \<Rightarrow> u32 \<Rightarrow>
     docker_bind_mount list \<Rightarrow> docker_container_config" where
  "replica_config h app deployment network service service_image shared_env_vars replica_idx mounts =
     \<lparr> dc_id = replica_container_id h app deployment service replica_idx,
       dc_image = service_image,
       dc_env_vars = replica_env_vars shared_env_vars service replica_idx,
       dc_port = s_port service,
       dc_additional_ports = s_additional_ports service,
       dc_port_mappings = service_port_mappings service replica_idx,
       dc_command = s_command service,
       dc_entrypoint = s_entrypoint service,
       dc_working_dir = s_working_dir service,
       dc_memory_limit = s_memory_limit service,
       dc_cpu_limit = s_cpu_limit service,
       dc_network = Some \<lparr> na_name = network, na_aliases = service_network_aliases (s_name service) replica_idx \<rparr>,
       dc_mounts = mounts,
       dc_additional_networks = [],
       dc_health_check = replica_health_check service,
       dc_restart_policy = restart_policy_text (s_restart_policy service) \<rparr>"

definition rollout_replica ::
  "'x host \<Rightarrow> worker \<Rightarrow> project \<Rightarrow> deployment \<Rightarrow> string \<Rightarrow> (string \<times> string) list \<Rightarrow> rollout_strategy \<Rightarrow>
     ((uuid \<times> u32) \<times> string) list \<Rightarrow> container_service \<Rightarrow> string \<Rightarrow> u32 \<Rightarrow> ('x rollout, unit) io" where
  "rollout_replica h wk app deployment network shared_env_vars rollout_strategy old_containers service
     service_image replica_idx =
     (let container_id = replica_container_id h app deployment service replica_idx
      in io_then
           (if replaced_first rollout_strategy service replica_idx
            then (case map_of old_containers (s_id service, replica_idx) of
                    Some old \<Rightarrow> on_world (remove_old h wk old)
                  | None \<Rightarrow> io_return ())
            else io_return ())
         (io_then (on_world (pull_service_image h wk app deployment service service_image))
         (io_bind (on_world (build_service_mounts (h_show_uuid h) (h_fs h) (wk_work_dir wk) (p_id app) service)) (\<lambda>mounts.
          io_then (io_modify (\<lambda>s. s\<lparr> ro_new := push_new (ro_new s) container_id \<rparr>))
         (io_bind (on_world (create_container (h_docker h) (wk_stub_mode wk)
                     (replica_config h app deployment network service service_image shared_env_vars replica_idx mounts)))
           (\<lambda>container_info.
          io_then (if s_health_check service \<noteq> None
                   then io_bind (on_world (wait_for_healthy (h_docker h) (wk_stub_mode wk) container_id 60))
                          (\<lambda>healthy. if healthy then io_return ()
                             else io_fail (''service '' @ s_name service @ '' replica '' @ show_word replica_idx
                                             @ '' failed health check''))
                   else io_return ())
         (io_bind (on_world (h_new_uuid h)) (\<lambda>i.
          io_bind (on_world (io_read (h_now h))) (\<lambda>now.
          push_service_deployment h
            ((service_deployment_new i now (s_id service) (d_id deployment) replica_idx)
               \<lparr> sd_container_id := Some (ci_id container_info), sd_image_id := Some service_image,
                 sd_status := Running, sd_started_at := Some now \<rparr>))))))))))"

definition rollout_service ::
  "'x host \<Rightarrow> worker \<Rightarrow> project \<Rightarrow> deployment \<Rightarrow> string \<Rightarrow> (uuid \<times> string) list \<Rightarrow> (string \<times> string) list \<Rightarrow>
     rollout_strategy \<Rightarrow> ((uuid \<times> u32) \<times> string) list \<Rightarrow> container_service \<Rightarrow> ('x rollout, unit) io" where
  "rollout_service h wk app deployment network service_images shared_env_vars rollout_strategy old_containers service =
     io_bind (io_lift (ok_or (map_of service_images (s_id service)) (''missing image for service '' @ s_name service)))
       (\<lambda>service_image.
          if is_cron_job service
          then io_then (on_world (log_deployment h (d_id deployment)
                          (''registered cron job '' @ s_name service @ '' on schedule '' @ unwrap_or (s_schedule service) [])))
                 (io_bind (on_world (h_new_uuid h)) (\<lambda>i.
                  io_bind (on_world (io_read (h_now h))) (\<lambda>now.
                  push_service_deployment h
                    ((service_deployment_new i now (s_id service) (d_id deployment) 0)
                       \<lparr> sd_image_id := Some service_image, sd_status := Stopped \<rparr>))))
          else io_for (map of_nat [0..<unat (s_replicas service)])
                 (rollout_replica h wk app deployment network shared_env_vars rollout_strategy old_containers
                    service service_image))"

definition rollout_services ::
  "'x host \<Rightarrow> worker \<Rightarrow> project \<Rightarrow> deployment \<Rightarrow> string \<Rightarrow> container_service list \<Rightarrow> (uuid \<times> string) list \<Rightarrow>
     (string \<times> string) list \<Rightarrow> rollout_strategy \<Rightarrow> ((uuid \<times> u32) \<times> string) list \<Rightarrow> ('x rollout, unit) io" where
  "rollout_services h wk app deployment network sorted_services service_images shared_env_vars rollout_strategy
     old_containers =
     io_for sorted_services
       (rollout_service h wk app deployment network service_images shared_env_vars rollout_strategy old_containers)"

section \<open>Switching over\<close>

text \<open>The containers of the running deployments, by replica (the first one found) and all of them.\<close>

definition old_container_step ::
  "((uuid \<times> u32) \<times> string) list \<times> string list \<Rightarrow> service_deployment \<Rightarrow> ((uuid \<times> u32) \<times> string) list \<times> string list" where
  "old_container_step acc sd =
     (case sd_container_id sd of
        None \<Rightarrow> acc
      | Some container_id \<Rightarrow>
          (let key = (sd_service_id sd, sd_replica_index sd)
           in (if map_of (fst acc) key = None then (key, container_id) # fst acc else fst acc,
               push_new (snd acc) container_id)))"

definition collect_old_containers ::
  "deployment list \<Rightarrow> ((uuid \<times> u32) \<times> string) list \<times> string list" where
  "collect_old_containers previous_running =
     foldl old_container_step ([], []) (concat (map d_service_deployments previous_running))"

definition fail_rollout :: "'x host \<Rightarrow> worker \<Rightarrow> 'x rollout \<Rightarrow> string \<Rightarrow> (string + unit) \<times> 'x world" where
  "fail_rollout h wk s e =
     io_then (io_for (h_set_order h (ro_new s))
                (\<lambda>container_id. io_ignore (remove_container (h_docker h) (wk_stub_mode wk) container_id)))
       (io_bind (io_read (h_now h)) (\<lambda>finished_at.
        io_then (io_for (ro_sds s) (\<lambda>sd. io_ignore (db_write h (\<lambda>st. save_service_deployment st
                   (sd\<lparr> sd_status := Failed, sd_finished_at := Some finished_at \<rparr>)))))
          (io_fail e))) (ro_world s)"

definition finish_rollout ::
  "'x host \<Rightarrow> worker \<Rightarrow> project \<Rightarrow> deployment \<Rightarrow> (uuid \<times> string) list \<Rightarrow> bool \<Rightarrow> deployment list \<Rightarrow> string list \<Rightarrow>
     service_deployment list \<Rightarrow> string list \<Rightarrow> ('x world, unit) io" where
  "finish_rollout h wk app deployment service_images restore_app_config previous_running all_old_containers
     service_deployments new_container_ids =
     io_then (if restore_app_config then restore_app_services h app else io_return ())
    (io_bind (db_read (\<lambda>st. map s_id (list_services_by_app st (p_id app)))) (\<lambda>existing_services.
     io_bind (io_read (h_now h)) (\<lambda>now.
     io_then (db_write h (\<lambda>st. save_deployment st
                (deployment\<lparr> d_status := Running,
                   d_service_deployments := filter (\<lambda>sd. sd_service_id sd \<in> set existing_services) service_deployments,
                   d_image_id := primary_deployment_image_id service_images,
                   d_app_snapshot := Some app, d_started_at := Some now, d_finished_at := Some now \<rparr>)))
    (io_then (send_proxy_refresh wk (p_id app))
    (io_then (io_for (h_set_order h all_old_containers)
                (\<lambda>old. if old \<in> set new_container_ids then io_return () else remove_old h wk old))
       (io_for previous_running (mark_deployment_stopped h)))))))"

text \<open>A panic of the sort (\<open>None\<close>) never happens, see \<open>topological_sort_correct\<close>.\<close>

definition deploy_services ::
  "'x host \<Rightarrow> worker \<Rightarrow> project \<Rightarrow> deployment \<Rightarrow> string \<Rightarrow> (uuid \<times> string) list \<Rightarrow> (string \<times> string) list \<Rightarrow>
     rollout_strategy \<Rightarrow> bool \<Rightarrow> ('x world, unit) io" where
  "deploy_services h wk app deployment network service_images shared_env_vars rollout_strategy restore_app_config =
     (case topological_sort_services (h_name_order h (p_services app)) (p_services app) of
        None \<Rightarrow> io_fail ''panic''
      | Some (Inl e) \<Rightarrow> io_fail e
      | Some (Inr sorted_services) \<Rightarrow>
          io_bind (db_read (get_previous_running_deployments (p_id app) (d_id deployment))) (\<lambda>previous_running w.
            let (old_containers, all_old_containers) = collect_old_containers previous_running;
                (result, s) = rollout_services h wk app deployment network sorted_services service_images
                  shared_env_vars rollout_strategy old_containers \<lparr> ro_world = w, ro_sds = [], ro_new = [] \<rparr>
            in (case result of
                  Inl e \<Rightarrow> fail_rollout h wk s e
                | Inr _ \<Rightarrow> finish_rollout h wk app deployment service_images restore_app_config previous_running
                            all_old_containers (ro_sds s) (ro_new s) (ro_world s))))"

section \<open>A job\<close>

definition rollback_source_of :: "deployment_job \<Rightarrow> ('x world, deployment option) io" where
  "rollback_source_of job =
     (case j_rollback_from_deployment_id job of
        None \<Rightarrow> io_return None
      | Some source_deployment_id \<Rightarrow>
          io_bind (db_read (\<lambda>st. get_deployment st source_deployment_id))
            (\<lambda>found. case found of
               None \<Rightarrow> io_fail ''rollback source deployment not found''
             | Some source \<Rightarrow>
                 if d_app_id source \<noteq> j_app_id job then io_fail ''rollback source does not belong to app''
                 else io_return (Some source)))"

text \<open>The images of a job that is no rollback; \<open>None\<close> if the deployment was superseded meanwhile.\<close>

definition build_job_images ::
  "'x host \<Rightarrow> worker \<Rightarrow> deployment_job \<Rightarrow> deployment \<Rightarrow> project \<Rightarrow> ('x world, (uuid \<times> string) list option) io" where
  "build_job_images h wk job deployment effective_app =
     io_bind (if j_source job = NoSource then io_return None
              else io_then (update_status h deployment Cloning)
                     (io_bind (clone_repo h wk job) (\<lambda>repo. io_return (Some repo)))) (\<lambda>repo_path.
       let cleanup = (case repo_path of None \<Rightarrow> io_return () | Some repo \<Rightarrow> io_ignore (fs_remove_tree (h_fs h) repo))
       in io_bind (should_continue_deployment h (d_id deployment) ''deployment skipped: superseded after source checkout'')
            (\<lambda>go. if \<not> go then io_then cleanup (io_return None)
               else
                 io_then (update_status h deployment Building)
                (io_bind (build_service_images h effective_app deployment repo_path (j_commit_sha job)
                            (j_local_build_service_id job)) (\<lambda>service_images.
                 io_then cleanup
                (io_bind (should_continue_deployment h (d_id deployment) ''deployment skipped: superseded after image build'')
                   (\<lambda>go. io_return (if go then Some service_images else None)))))))"

definition start_rollout ::
  "'x host \<Rightarrow> worker \<Rightarrow> deployment_job \<Rightarrow> deployment \<Rightarrow> project \<Rightarrow> bool \<Rightarrow> (uuid \<times> string) list \<Rightarrow> ('x world, unit) io" where
  "start_rollout h wk job deployment effective_app is_rollback service_images =
     io_then (update_status h deployment Starting)
    (io_bind (should_continue_deployment h (d_id deployment) ''deployment skipped: superseded before rollout'') (\<lambda>go.
       if \<not> go then io_return ()
       else
         let env_vars = foldl (\<lambda>env e. AList.update (ev_key e) (ev_value e) env) [] (p_env_vars effective_app);
             network = network_name (h_show_uuid h) effective_app
         in io_then (create_network (h_docker h) (wk_stub_mode wk) network)
              (deploy_services h wk effective_app deployment network service_images env_vars
                 (j_rollout_strategy job) is_rollback)))"

definition process_job :: "'x host \<Rightarrow> worker \<Rightarrow> deployment_job \<Rightarrow> ('x world, unit) io" where
  "process_job h wk job =
     io_bind (io_bind (db_read (\<lambda>st. get_deployment st (j_deployment_id job)))
                (\<lambda>found. io_lift (ok_or found ''deployment not found''))) (\<lambda>deployment.
       if d_app_id deployment \<noteq> j_app_id job then io_fail ''deployment app mismatch''
       else
         io_bind (should_continue_deployment h (d_id deployment) ''deployment skipped: superseded before execution'') (\<lambda>go.
           if \<not> go then io_return ()
           else
             io_bind (io_bind (db_read (\<lambda>st. get_app st (j_app_id job))) (\<lambda>found. io_lift (ok_or found ''app not found'')))
               (\<lambda>current_app.
             io_bind (rollback_source_of job) (\<lambda>rollback_source.
               let effective_app = resolve_deployment_app current_app deployment rollback_source
               in case rollback_source of
                    Some source \<Rightarrow>
                      io_then (log_deployment h (d_id deployment)
                                 (''rollback: using service snapshot from deployment '' @ h_show_uuid h (d_id source)))
                        (io_bind (io_lift (resolve_rollback_service_images effective_app source))
                           (start_rollout h wk job deployment effective_app True))
                  | None \<Rightarrow>
                      io_bind (build_job_images h wk job deployment effective_app) (\<lambda>built.
                        case built of
                          None \<Rightarrow> io_return ()
                        | Some service_images \<Rightarrow>
                            start_rollout h wk job deployment effective_app False service_images)))))"

text \<open>One turn of the loop of \<open>run\<close> after \<open>begin_deployment\<close>.\<close>

definition mark_failed :: "'x host \<Rightarrow> deployment_job \<Rightarrow> string \<Rightarrow> ('x world, unit) io" where
  "mark_failed h job e =
     io_bind (db_read (\<lambda>st. get_deployment st (j_deployment_id job)))
       (\<lambda>found. case found of
          None \<Rightarrow> io_return ()
        | Some deployment \<Rightarrow>
            if d_status deployment = Stopped then io_return ()
            else
              io_bind (io_read (h_now h)) (\<lambda>now.
              io_then (log_deployment h (d_id deployment) (''error: '' @ e))
                (io_ignore (db_write h (\<lambda>st. save_deployment st
                   (deployment\<lparr> d_status := Failed, d_finished_at := Some now \<rparr>))))))"

definition run_job :: "'x host \<Rightarrow> worker \<Rightarrow> deployment_job \<Rightarrow> 'x world \<Rightarrow> 'x world" where
  "run_job h wk job w =
     (let (result, w) = process_job h wk job w;
          w = snd (cleanup_uploaded_source h wk job w)
      in case result of Inl e \<Rightarrow> snd (mark_failed h job e w) | Inr _ \<Rightarrow> w)"

end
