(* ===== verification/Worker_Safety.thy ===== *)
theory Worker_Safety
  imports Worker Store_Rows
begin

text \<open>
  What a deployment does to the containers and to the database. A relation between states that is kept
  by the operations of the host and by the writes to the database is kept by every part of the worker
  (\<open>host_keeps\<close>); instantiated with the containers this gives what a failed and a successful rollout
  leave behind, instantiated with the database that the worker only takes steps of the store.
\<close>

section \<open>Relations kept by the host\<close>

text \<open>
  The operations of the host outside the container manager, and together with the writes of the worker
  itself.
\<close>

definition host_ops_keep :: "('x world \<Rightarrow> 'x world \<Rightarrow> bool) \<Rightarrow> 'x host \<Rightarrow> bool" where
  "host_ops_keep R h \<longleftrightarrow>
     (\<forall>p. io_keeps R (fs_create_dir_all (h_fs h) p)) \<and> (\<forall>p. io_keeps R (fs_absolute (h_fs h) p)) \<and>
     (\<forall>p. io_keeps R (fs_remove_tree (h_fs h) p)) \<and> (\<forall>p m. io_keeps R (fs_set_permissions (h_fs h) p m)) \<and>
     (\<forall>p c. io_keeps R (fs_write (h_fs h) p c)) \<and>
     io_keeps R (h_new_uuid h) \<and> (\<forall>t d a. io_keeps R (h_git h t d a)) \<and> (\<forall>p. io_keeps R (h_canonicalize h p)) \<and>
     (\<forall>n c w. R w (snd (h_build_image h n c w))) \<and> (\<forall>i c. io_keeps R (h_pull_image h i c))"

text \<open>\<open>host_notes\<close> is what the rollout itself writes: log lines and service deployments.\<close>

definition host_notes :: "('x world \<Rightarrow> 'x world \<Rightarrow> bool) \<Rightarrow> 'x host \<Rightarrow> bool" where
  "host_notes R h \<longleftrightarrow>
     io_relation R \<and>
     (\<forall>i l. io_keeps R (db_write h (\<lambda>st. append_deployment_log st i l))) \<and>
     (\<forall>sd. io_keeps R (db_write h (\<lambda>st. save_service_deployment st sd))) \<and>
     host_ops_keep R h"

definition host_keeps :: "('x world \<Rightarrow> 'x world \<Rightarrow> bool) \<Rightarrow> 'x host \<Rightarrow> bool" where
  "host_keeps R h \<longleftrightarrow>
     host_notes R h \<and>
     (\<forall>w r. R w (w\<lparr> w_refreshes := r \<rparr>)) \<and>
     (\<forall>d. io_keeps R (db_write h (\<lambda>st. save_deployment st d))) \<and>
     (\<forall>a. io_keeps R (db_write h (\<lambda>st. save_app st a)))"

lemma host_notesD:
  assumes "host_notes R h"
  shows "io_relation R" "io_keeps R (db_write h (\<lambda>st. append_deployment_log st i l))"
    "io_keeps R (db_write h (\<lambda>st. save_service_deployment st sd))"
    "io_keeps R (fs_create_dir_all (h_fs h) p)"
    "io_keeps R (fs_absolute (h_fs h) p)" "io_keeps R (fs_remove_tree (h_fs h) p)"
    "io_keeps R (fs_set_permissions (h_fs h) p m)" "io_keeps R (fs_write (h_fs h) p c)"
    "io_keeps R (h_new_uuid h)" "io_keeps R (h_git h t dir args)" "io_keeps R (h_canonicalize h p)"
    "io_keeps R (h_pull_image h img cred)" and "R w (snd (h_build_image h n bc w))"
  using assms by (simp_all add: host_notes_def host_ops_keep_def)

lemma host_keepsD:
  assumes "host_keeps R h"
  shows "host_notes R h" "io_relation R"
    "io_keeps R (db_write h (\<lambda>st. save_deployment st d))" "io_keeps R (db_write h (\<lambda>st. save_app st a))"
    and "R w (w\<lparr> w_refreshes := r \<rparr>)"
  using assms by (simp_all add: host_keeps_def host_notes_def)

lemma keeps_db_read: "io_relation R \<Longrightarrow> io_keeps R (db_read f)"
  by (simp add: db_read_def io_relation.keeps_read)

lemma keeps_prod:
  "(\<And>x y. v = (x, y) \<Longrightarrow> io_keeps R (f x y)) \<Longrightarrow> io_keeps R (case v of (x, y) \<Rightarrow> f x y)"
  by (cases v) auto

lemma keeps_let: "(\<And>x. io_keeps R (f x)) \<Longrightarrow> io_keeps R (let x = v in f x)"
  by simp

lemma keeps_source:
  "(\<And>u t. io_keeps R (f u t)) \<Longrightarrow> (\<And>p. io_keeps R (g p)) \<Longrightarrow> io_keeps R m \<Longrightarrow>
     io_keeps R (case s of RemoteGit u t \<Rightarrow> f u t | LocalPath p \<Rightarrow> g p | NoSource \<Rightarrow> m)"
  by (cases s) auto

text \<open>The rules of \<open>io_relation\<close> and of the host for one relation.\<close>

lemma host_notes_rules:
  assumes "host_notes R h"
  shows "io_keeps R (io_return x)" "io_keeps R (io_fail e)" "io_keeps R (io_read f)" "io_keeps R (io_lift r)"
    "io_keeps R (db_read g)" "io_keeps R (log_deployment h i l)"
    and "io_keeps R (m :: ('x world, 'a) io) \<Longrightarrow> (\<And>x. io_keeps R (k x)) \<Longrightarrow> io_keeps R (io_bind m k)"
    and "io_keeps R m \<Longrightarrow> io_keeps R n \<Longrightarrow> io_keeps R (io_then m n)"
    and "io_keeps R m \<Longrightarrow> io_keeps R (io_ignore m)"
    and "io_keeps R m \<Longrightarrow> io_keeps R (io_map_err q m)"
    and "io_keeps R m \<Longrightarrow> (\<And>e. io_keeps R (u e)) \<Longrightarrow> (\<And>x. io_keeps R (v x)) \<Longrightarrow> io_keeps R (io_match m u v)"
    and "(\<And>y. y \<in> set ys \<Longrightarrow> io_keeps R (z y)) \<Longrightarrow> io_keeps R (io_for ys z)"
    and "(\<And>y. y \<in> set as \<Longrightarrow> io_keeps R (b y)) \<Longrightarrow> io_keeps R (io_collect as b)"
  using host_notesD [OF assms]
  by (auto simp: db_read_def log_deployment_def intro: io_relation.keeps_intros)

lemmas host_notes_all = host_notes_rules host_notesD(2-12)

lemmas host_keeps_rules = host_notes_rules [OF host_keepsD(1)]

lemmas host_keeps_all = host_notes_all [OF host_keepsD(1)] host_keepsD(3,4)

lemma io_keeps_if: "(b \<Longrightarrow> io_keeps R m) \<Longrightarrow> (\<not> b \<Longrightarrow> io_keeps R n) \<Longrightarrow> io_keeps R (if b then m else n)"
  by simp

lemma io_keeps_option:
  "(v = None \<Longrightarrow> io_keeps R m) \<Longrightarrow> (\<And>x. v = Some x \<Longrightarrow> io_keeps R (f x)) \<Longrightarrow>
     io_keeps R (case v of None \<Rightarrow> m | Some x \<Rightarrow> f x)"
  by (cases v) auto

lemmas keeps_cases = io_keeps_if io_keeps_option keeps_prod keeps_source

lemma host_keeps_update_status: "host_keeps R h \<Longrightarrow> io_keeps R (update_status h d s)"
  unfolding update_status_def Let_def by (intro host_keeps_all)

lemma host_keeps_should_continue: "host_keeps R h \<Longrightarrow> io_keeps R (should_continue_deployment h i m)"
  unfolding should_continue_deployment_def by (intro keeps_cases host_keeps_all)

lemma host_keeps_clone_repo: "host_keeps R h \<Longrightarrow> io_keeps R (clone_repo h wk job)"
  unfolding clone_repo_def checkout_commit_def Let_def by (intro keeps_cases host_keeps_all)

lemma host_notes_mounts: "host_notes R h \<Longrightarrow> io_keeps R (build_service_mounts show_uuid (h_fs h) dir a s)"
proof -
  assume h: "host_notes R h"
  have "io_keeps R (write_files (h_fs h) d k fs)" for d k fs
  proof (induction fs arbitrary: k)
    case (Cons f fs)
    then show ?case
      unfolding write_files.simps Let_def by (intro host_notes_all [OF h])
  qed (simp add: host_notes_rules [OF h])
  then show ?thesis
    unfolding build_service_mounts_def build_mount_def write_config_files_def Let_def
    by (intro keeps_cases host_notes_all [OF h])
qed

lemma host_keeps_build_config:
  assumes h: "host_keeps R h"
  shows "io_keeps R (resolve_service_build_config h repo s)" "io_keeps R (resolve_local_build_config h repo s)"
  unfolding resolve_service_build_config_def resolve_local_build_config_def Let_def
  by (intro keeps_cases host_keeps_all [OF h])+

lemma host_keeps_build_service_image:
  assumes h: "host_keeps R h"
  shows "io_keeps R (build_service_image h app d repo commit is_local s built)"
proof -
  have "io_keeps R (\<lambda>w. case h_build_image h n bc w of
      ((lines, result), w) \<Rightarrow> io_then (io_for lines (log_deployment h i)) (io_then (io_lift result) (io_return r)) w)" for n bc i r
  proof -
    have "io_keeps R (io_then (io_for lines (log_deployment h i)) (io_then (io_lift result) (io_return r)))"
      for lines and result :: "string + unit"
      by (intro host_keeps_all [OF h])
    note after = io_keepsD [OF this]
    show ?thesis
      unfolding io_keeps_def
    proof
      fix w
      obtain lines result w1 where b: "h_build_image h n bc w = ((lines, result), w1)" by (metis prod.exhaust)
      have "R w w1" using host_notesD(13) [OF host_keepsD(1) [OF h], of w n bc] by (simp add: b)
      from io_relation.R_trans [OF host_keepsD(2) [OF h] this after [where lines1 = lines and result1 = result]]
      show "R w (snd (case h_build_image h n bc w of
          ((lines, result), w) \<Rightarrow> io_then (io_for lines (log_deployment h i)) (io_then (io_lift result) (io_return r)) w))"
        by (simp add: b)
    qed
  qed
  then show ?thesis
    unfolding build_service_image_def Let_def
    by (intro keeps_cases host_keeps_all [OF h] host_keeps_build_config [OF h])
qed

lemma host_keeps_build_images:
  assumes h: "host_keeps R h"
  shows "io_keeps R (build_service_images h app d repo commit local)"
proof -
  have "io_keeps R (build_images_loop h app d repo commit local ss built imgs)" for local ss built imgs
  proof (induction ss arbitrary: built imgs)
    case (Cons s ss)
    then show ?case
      unfolding build_images_loop.simps Let_def
      by (intro keeps_cases host_keeps_all [OF h] host_keeps_build_service_image [OF h])
  qed (simp add: host_keeps_rules [OF h])
  then show ?thesis
    unfolding build_service_images_def by (intro keeps_cases host_keeps_rules [OF h])
qed

lemma host_keeps_build_job_images:
  assumes h: "host_keeps R h"
  shows "io_keeps R (build_job_images h wk job d app)"
  unfolding build_job_images_def Let_def
  by (intro keeps_cases host_keeps_all [OF h] host_keeps_update_status [OF h] host_keeps_clone_repo [OF h]
      host_keeps_should_continue [OF h] host_keeps_build_images [OF h])

lemma host_notes_replica:
  assumes h: "host_notes R h"
  shows "io_keeps R (pull_service_image h wk a d s img)" "io_keeps R (save_service_deployment_best_effort h sd)"
  unfolding pull_service_image_def save_service_deployment_best_effort_def
  by (intro keeps_cases host_notes_all [OF h])+

lemma host_keeps_bookkeeping:
  assumes h: "host_keeps R h"
  shows "io_keeps R (mark_deployment_stopped h d)" "io_keeps R (restore_app_services h a)"
    "io_keeps R (cleanup_uploaded_source h wk job)" "io_keeps R (mark_failed h job e)"
    "io_keeps R (rollback_source_of job)"
  unfolding mark_deployment_stopped_def restore_app_services_def cleanup_uploaded_source_def mark_failed_def rollback_source_of_def Let_def
  by (intro keeps_cases host_keeps_all [OF h])+

lemma host_keeps_refresh: "host_keeps R h \<Longrightarrow> io_keeps R (send_proxy_refresh wk a)"
  using host_keepsD(5) [of R h] io_relation.R_refl [OF host_keepsD(2)]
  by (auto simp: send_proxy_refresh_def io_keeps_def io_defs)

section \<open>Relations kept by the container manager as well\<close>

definition docker_keeps :: "('w \<Rightarrow> 'w \<Rightarrow> bool) \<Rightarrow> 'w docker_api \<Rightarrow> bool" where
  "docker_keeps R api \<longleftrightarrow>
     (\<forall>n s. io_keeps R (dk_create_network api n s)) \<and> io_keeps R (dk_list_subnets api) \<and>
     (\<forall>n b. io_keeps R (dk_create_container api n b)) \<and> (\<forall>n c a. io_keeps R (dk_connect_network api n c a)) \<and>
     (\<forall>c. io_keeps R (dk_start_container api c)) \<and> (\<forall>c. io_keeps R (dk_stop_container api c)) \<and>
     (\<forall>c. io_keeps R (dk_remove_container api c)) \<and> (\<forall>c. io_keeps R (dk_inspect_health api c)) \<and>
     (\<forall>c p d. io_keeps R (dk_download_path api c p d)) \<and> (\<forall>p. io_keeps R (fs_dir_is_empty api p)) \<and>
     (\<forall>p. io_keeps R (fs_remove_file api p)) \<and> (\<forall>p d. io_keeps R (fs_unpack_seed_archive api p d)) \<and>
     (\<forall>ms w. R w (sleep_ms api ms w))"

lemma docker_keepsD:
  assumes "docker_keeps R api"
  shows "io_keeps R (dk_create_network api n s)" "io_keeps R (dk_list_subnets api)" "io_keeps R (dk_create_container api n b)"
    "io_keeps R (dk_connect_network api n c a)" "io_keeps R (dk_start_container api c)" "io_keeps R (dk_stop_container api c)"
    "io_keeps R (dk_remove_container api c)" "io_keeps R (dk_inspect_health api c)" "io_keeps R (dk_download_path api c q d)"
    "io_keeps R (fs_dir_is_empty api f)" "io_keeps R (fs_remove_file api p)" "io_keeps R (fs_unpack_seed_archive api p f)"
    and "R w (sleep_ms api ms w)"
  using assms by (simp_all add: docker_keeps_def)

lemma docker_keeps_containers:
  assumes r: "io_relation R" and k: "docker_keeps R api"
  shows "io_keeps R (stop_container api stub c)" "io_keeps R (remove_container api stub c)"
    "io_keeps R (create_network api stub n)" "io_keeps R (create_container api stub config)"
    "io_keeps R (is_healthy api stub c)"
  unfolding stop_container_def remove_container_def create_network_def create_bridge_network_def is_healthy_def
    find_available_network_subnet_def create_container_def seed_bind_mount_def try_seed_bind_mount_def Let_def
  by (intro io_relation.keeps_intros [OF r] docker_keepsD(1-12) [OF k])+

lemma docker_keeps_wait:
  assumes r: "io_relation R" and k: "docker_keeps R api"
  shows "io_keeps R (wait_for_healthy api stub c t)"
proof -
  have "R w (snd (wait_healthy_loop api start timeout c n w))" for start timeout n w
  proof (induction n arbitrary: w)
    case (Suc n)
    let ?w = "snd (is_healthy api False c w)"
    have "R w ?w" using docker_keeps_containers(5) [OF r k] by (rule io_keepsD)
    moreover have "R ?w (sleep_ms api 2000 ?w)" by (rule docker_keepsD(13) [OF k])
    ultimately have rest: "R w (snd (wait_healthy_loop api start timeout c n (sleep_ms api 2000 ?w)))"
      using Suc.IH [of "sleep_ms api 2000 ?w"] by (blast intro: io_relation.R_trans [OF r])
    obtain b where "fst (is_healthy api False c w) = Inr b" by (rule exE [OF is_healthy_result])
    then show ?case
      using rest \<open>R w ?w\<close> io_relation.R_refl [OF r] by (cases b) (simp_all add: io_bind_apply io_apply)
  qed (simp add: io_relation.R_refl [OF r])
  then show ?thesis
    by (simp add: io_keeps_def wait_for_healthy_def io_relation.R_refl [OF r] del: wait_healthy_loop.simps)
qed

section \<open>The whole job\<close>

definition on_roll :: "('x world \<Rightarrow> 'x world \<Rightarrow> bool) \<Rightarrow> 'x rollout \<Rightarrow> 'x rollout \<Rightarrow> bool" where
  "on_roll R s s' \<longleftrightarrow> R (ro_world s) (ro_world s')"

lemma on_roll_relation: "io_relation R \<Longrightarrow> io_relation (on_roll R)"
  unfolding io_relation_def on_roll_def by blast

lemma on_world_apply [io_defs]: "on_world m s = (fst (m (ro_world s)), s\<lparr> ro_world := snd (m (ro_world s)) \<rparr>)"
  by (simp add: on_world_def split: prod.splits)

lemma keeps_on_world: "io_keeps R m \<Longrightarrow> io_keeps (on_roll R) (on_world m)"
  by (simp add: io_keeps_def on_roll_def io_defs)

lemma keeps_notes:
  "io_relation R \<Longrightarrow> io_keeps (on_roll R) (io_modify (\<lambda>s. s\<lparr> ro_sds := f s \<rparr>))"
  "io_relation R \<Longrightarrow> io_keeps (on_roll R) (io_modify (\<lambda>s. s\<lparr> ro_new := g s \<rparr>))"
  by (simp_all add: io_keeps_def on_roll_def io_defs io_relation.R_refl)

lemma keeps_remove_old:
  "io_relation R \<Longrightarrow> docker_keeps R (h_docker h) \<Longrightarrow> io_keeps R (remove_old h wk c)"
  unfolding remove_old_def by (intro io_relation.keeps_intros docker_keeps_containers) assumption+

lemma keeps_push_service_deployment:
  assumes h: "host_notes R h"
  shows "io_keeps (on_roll R) (push_service_deployment h sd)"
  unfolding push_service_deployment_def
  by (intro io_relation.keeps_then [OF on_roll_relation [OF host_notesD(1) [OF h]]] keeps_on_world
      host_notes_replica [OF h] keeps_notes host_notesD(1) [OF h])

lemma keeps_rollout_services:
  assumes h: "host_notes R h" and d: "docker_keeps R (h_docker h)"
  shows "io_keeps (on_roll R) (rollout_services h wk app dep network ss imgs env strategy olds)"
proof -
  note r = host_notesD(1) [OF h]
  note k = io_relation.keeps_intros [OF on_roll_relation [OF r]]
  have replica: "io_keeps (on_roll R) (rollout_replica h wk app dep network env strategy olds s img n)" for s img n
    unfolding rollout_replica_def Let_def
    by (intro k keeps_on_world keeps_notes r keeps_remove_old [OF r d] host_notes_replica [OF h]
        host_notes_mounts [OF h] docker_keeps_containers [OF r d] docker_keeps_wait [OF r d]
        host_notesD(9) [OF h] host_notes_rules(3) [OF h] keeps_push_service_deployment [OF h])
  show ?thesis
    unfolding rollout_services_def rollout_service_def
    by (intro k keeps_on_world replica host_notes_rules(3,6) [OF h] host_notesD(9) [OF h]
        keeps_push_service_deployment [OF h])
qed

lemma keeps_deploy_services:
  assumes h: "host_keeps R h" and d: "docker_keeps R (h_docker h)"
  shows "io_keeps R (deploy_services h wk app dep network imgs env strategy restore)"
proof -
  note r = host_keepsD(2) [OF h]
  note k = io_relation.keeps_intros [OF r]
  have fail: "R (ro_world s) (snd (fail_rollout h wk s e))" for s e
    unfolding fail_rollout_def
    by (rule io_keepsD) (intro k docker_keeps_containers [OF r d] host_keeps_all [OF h])
  have finish: "io_keeps R (finish_rollout h wk app dep imgs restore prev olds sds new)" for prev olds sds new
    unfolding finish_rollout_def
    by (intro k host_keeps_all [OF h] host_keeps_bookkeeping [OF h] host_keeps_refresh [OF h] keeps_remove_old [OF r d])
  have roll: "R (ro_world s) (ro_world s')"
    if "rollout_services h wk app dep network ss imgs env strategy olds s = (x, s')" for ss olds s x s'
    using io_keepsD [OF keeps_rollout_services [OF host_keepsD(1) [OF h] d], of s wk app dep network ss imgs env strategy olds] that
    by (simp add: on_roll_def)
  have "io_keeps R (\<lambda>w. let (old_containers, all_old_containers) = collect_old_containers prev;
      (result, s) = rollout_services h wk app dep network ss imgs env strategy old_containers
        \<lparr> ro_world = w, ro_sds = [], ro_new = [] \<rparr>
    in (case result of
          Inl e \<Rightarrow> fail_rollout h wk s e
        | Inr _ \<Rightarrow> finish_rollout h wk app dep imgs restore prev all_old_containers (ro_sds s) (ro_new s) (ro_world s)))"
    for prev ss
    unfolding io_keeps_def
    by (auto simp: Let_def split: prod.splits sum.splits dest!: roll
        intro: io_relation.R_trans [OF r] fail io_keepsD [OF finish])
  then show ?thesis
    unfolding deploy_services_def
    by (auto intro: k keeps_db_read [OF r] split: option.splits sum.splits)
qed

lemma keeps_run_job:
  assumes h: "host_keeps R h" and d: "docker_keeps R (h_docker h)"
  shows "io_keeps R (process_job h wk job)" and "R w (run_job h wk job w)"
proof -
  note r = host_keepsD(2) [OF h]
  have start: "io_keeps R (start_rollout h wk job dep app rb imgs)" for dep app rb imgs
    unfolding start_rollout_def Let_def
    by (intro keeps_cases host_keeps_rules [OF h] host_keeps_update_status [OF h] host_keeps_should_continue [OF h]
        docker_keeps_containers [OF r d] keeps_deploy_services [OF h d])
  show p: "io_keeps R (process_job h wk job)"
    unfolding process_job_def Let_def
    by (intro keeps_cases host_keeps_rules [OF h] host_keeps_should_continue [OF h] host_keeps_bookkeeping [OF h]
        host_keeps_build_job_images [OF h] start)
  obtain x w1 where w1: "process_job h wk job w = (x, w1)" by (metis prod.exhaust)
  have "R w w1" using io_keepsD [OF p, of w] by (simp add: w1)
  moreover have "R w1 (snd (cleanup_uploaded_source h wk job w1))"
    by (rule io_keepsD [OF host_keeps_bookkeeping(3) [OF h]])
  ultimately have "R w (snd (cleanup_uploaded_source h wk job w1))" by (rule io_relation.R_trans [OF r])
  moreover have "R u (snd (mark_failed h job e u))" for e u
    by (rule io_keepsD [OF host_keeps_bookkeeping(4) [OF h]])
  ultimately show "R w (run_job h wk job w)"
    by (auto simp: run_job_def w1 Let_def split: sum.splits intro: io_relation.R_trans [OF r])
qed

section \<open>The database\<close>

text \<open>The database only changes by the writes of the program, by whatever task.\<close>

definition evolves :: "'x world \<Rightarrow> 'x world \<Rightarrow> bool" where
  "evolves w w' \<longleftrightarrow> store_step\<^sup>*\<^sup>* (w_store w) (w_store w')"

interpretation evolves: io_relation evolves
  by unfold_locales (auto simp: evolves_def)

lemma evolves_db_write:
  "(\<And>st st'. f st = Inr st' \<Longrightarrow> store_step st st') \<Longrightarrow> io_keeps evolves (db_write h f)"
  by (auto simp: io_keeps_def evolves_def db_write_def split: sum.splits)

lemma evolves_host: "host_ops_keep evolves h \<Longrightarrow> host_keeps evolves h"
  unfolding host_keeps_def host_notes_def
  by (auto simp: evolves_def evolves.io_relation_axioms intro!: evolves_db_write intro: store_step.intros)

lemma evolves_reachable: "evolves w w' \<Longrightarrow> store_reachable (w_store w) \<Longrightarrow> store_reachable (w_store w')"
  unfolding evolves_def by (induction rule: rtranclp_induct) (auto intro: store_reachable.intros)

section \<open>The containers\<close>

text \<open>
  \<open>conts\<close> sees the containers of the daemon; only the calls that create and remove containers change
  them.
\<close>

definition containers_ok :: "'x host \<Rightarrow> ('x world \<Rightarrow> string set) \<Rightarrow> bool" where
  "containers_ok h conts \<longleftrightarrow>
     docker_ok (h_docker h) conts \<and> host_ops_keep (same conts) h \<and>
     (\<forall>w st. conts (w\<lparr> w_store := st \<rparr>) = conts w) \<and> (\<forall>w r. conts (w\<lparr> w_refreshes := r \<rparr>) = conts w)"

lemma containers_okD:
  assumes "containers_ok h conts"
  shows "docker_ok (h_docker h) conts" and "host_keeps (same conts) h"
  using assms
  by (auto simp: containers_ok_def host_keeps_def host_notes_def same.io_relation_axioms same_def db_write_def io_keeps_def
      split: sum.splits)

text \<open>
  What a rollout may do to the containers: it adds only names it has noted down before, and removes only
  old containers in \<open>Q\<close>.
\<close>

definition rolls :: "('x world \<Rightarrow> string set) \<Rightarrow> string set \<Rightarrow> 'x rollout \<Rightarrow> 'x rollout \<Rightarrow> bool" where
  "rolls conts Q s s' \<longleftrightarrow>
     set (ro_new s) \<subseteq> set (ro_new s') \<and> conts (ro_world s') \<subseteq> conts (ro_world s) \<union> set (ro_new s') \<and>
     conts (ro_world s) - Q \<subseteq> conts (ro_world s')"

interpretation rolls: io_relation "rolls conts Q" for conts Q
  by unfold_locales (auto simp: rolls_def)

lemma rolls_on_world: "io_keeps (same conts) m \<Longrightarrow> io_keeps (rolls conts Q) (on_world m)"
  by (simp add: io_keeps_def same_def rolls_def io_defs)

lemma rolls_notes: "io_keeps (rolls conts Q) (io_modify (\<lambda>s. s\<lparr> ro_sds := f s \<rparr>))"
  by (simp add: io_keeps_def rolls_def io_defs)

lemma rolls_push_service_deployment:
  "containers_ok h conts \<Longrightarrow> io_keeps (rolls conts Q) (push_service_deployment h sd)"
  unfolding push_service_deployment_def
  by (intro rolls.keeps_then rolls_on_world rolls_notes host_notes_replica(2) host_keepsD(1) containers_okD(2))

lemma names_remove_old:
  assumes "containers_ok h conts" and "\<not> wk_stub_mode wk"
  shows "conts w - {c} \<subseteq> conts (snd (remove_old h wk c w))" and "conts (snd (remove_old h wk c w)) \<subseteq> conts w"
    and "c \<notin> refused (h_docker h) conts \<Longrightarrow> c \<notin> conts (snd (remove_old h wk c w))"
proof -
  note d = containers_okD(1) [OF assms(1)]
  let ?u = "snd (stop_container (h_docker h) False c w)"
  have r: "conts (snd (remove_old h wk c w)) = conts (snd (remove_container (h_docker h) False c ?u))"
    using assms(2) by (simp add: remove_old_def io_defs)
  have u: "conts ?u = conts w" by (rule names_stop_container [OF d])
  note rm = names_remove_container [OF d, where w = ?u and i = c, unfolded u]
  show "conts w - {c} \<subseteq> conts (snd (remove_old h wk c w))" and "conts (snd (remove_old h wk c w)) \<subseteq> conts w"
    unfolding r by (rule rm)+
  show "c \<notin> conts (snd (remove_old h wk c w))" if "c \<notin> refused (h_docker h) conts"
    unfolding r using rm(3) [OF that] by blast
qed

lemma rolls_remove_old:
  assumes "containers_ok h conts" and "\<not> wk_stub_mode wk" and "c \<in> Q"
  shows "io_keeps (rolls conts Q) (on_world (remove_old h wk c))"
  using assms(3) names_remove_old(1,2) [OF assms(1,2)] by (fastforce simp: io_keeps_def rolls_def io_defs)

text \<open>Noting the name down, creating the container, and then \<open>rest\<close>.\<close>

definition note_and_create ::
  "'x host \<Rightarrow> docker_container_config \<Rightarrow> (docker_container_info \<Rightarrow> ('x rollout, unit) io) \<Rightarrow> ('x rollout, unit) io" where
  "note_and_create h config rest =
     io_then (io_modify (\<lambda>s. s\<lparr> ro_new := push_new (ro_new s) (dc_id config) \<rparr>))
       (io_bind (on_world (create_container (h_docker h) False config)) rest)"

lemma rolls_note_and_create:
  assumes c: "containers_ok h conts" and n: "\<not> seed_helper (dc_id config)"
    and rest: "\<And>info. io_keeps (rolls conts Q) (rest info)"
  shows "io_keeps (rolls conts Q) (note_and_create h config rest)"
proof -
  let ?s1 = "\<lambda>s. s\<lparr> ro_new := push_new (ro_new s) (dc_id config) \<rparr>"
  let ?c = "create_container (h_docker h) False config"
  have created: "rolls conts Q s (snd (on_world ?c (?s1 s)))" for s
    using names_create_container(1,2) [OF containers_okD(1) [OF c] n, of "ro_world s"]
    by (auto simp: rolls_def io_defs)
  show ?thesis
    unfolding io_keeps_def
  proof
    fix s
    show "rolls conts Q s (snd (note_and_create h config rest s))"
      using created [of s] rolls.R_trans [OF created [of s] io_keepsD [OF rest]]
      by (auto simp: note_and_create_def io_then_def io_bind_def io_modify_def split: prod.splits sum.splits)
  qed
qed

lemma note_and_create_Inr:
  assumes c: "containers_ok h conts" and n: "\<not> seed_helper (dc_id config)"
    and rest: "\<And>info. io_keeps (rolls conts Q) (rest info)" "\<And>info. io_keeps (same ro_new) (rest info)"
    and ok: "note_and_create h config rest s = (Inr (), s')"
  shows "set (ro_new s') = insert (dc_id config) (set (ro_new s))" and "dc_id config \<in> conts (ro_world s') \<union> Q"
proof -
  obtain info w where w: "create_container (h_docker h) False config (ro_world s) = (Inr info, w)"
    and r: "rest info (s\<lparr> ro_new := push_new (ro_new s) (dc_id config), ro_world := w \<rparr>) = (Inr (), s')"
    using ok by (auto simp: note_and_create_def io_then_Inr io_bind_Inr io_modify_def on_world_def split: prod.splits)
  show "set (ro_new s') = insert (dc_id config) (set (ro_new s))"
    using io_keepsD [OF rest(2) [of info], of "s\<lparr> ro_new := push_new (ro_new s) (dc_id config), ro_world := w \<rparr>"]
    by (simp add: r same_def)
  have "dc_id config \<in> conts w"
    using names_create_container(3) [OF containers_okD(1) [OF c] n, of "ro_world s" info] by (simp add: w)
  then show "dc_id config \<in> conts (ro_world s') \<union> Q"
    using io_keepsD [OF rest(1) [of info], of "s\<lparr> ro_new := push_new (ro_new s) (dc_id config), ro_world := w \<rparr>"]
    by (auto simp: r rolls_def)
qed

text \<open>The part of \<open>rollout_replica\<close> after the creation.\<close>

definition replica_rest ::
  "'x host \<Rightarrow> worker \<Rightarrow> deployment \<Rightarrow> container_service \<Rightarrow> string \<Rightarrow> string \<Rightarrow> u32 \<Rightarrow> docker_container_info \<Rightarrow> ('x rollout, unit) io" where
  "replica_rest h wk deployment service service_image container_id replica_idx container_info =
     io_then (if s_health_check service \<noteq> None
              then io_bind (on_world (wait_for_healthy (h_docker h) (wk_stub_mode wk) container_id 60))
                     (\<lambda>healthy. if healthy then io_return ()
                        else io_fail (''service '' @ s_name service @ '' replica '' @ show_word replica_idx
                                        @ '' failed health check''))
              else io_return ())
    (io_bind (on_world (h_new_uuid h)) (\<lambda>i.
     io_bind (on_world (io_read (h_now h))) (\<lambda>now.
     push_service_deployment h
       ((service_deployment_new i now (s_id service) (d_id deployment) replica_idx)
          \<lparr> sd_container_id := Some (ci_id container_info), sd_image_id := Some service_image,
            sd_status := Running, sd_started_at := Some now \<rparr>))))"

lemma rollout_replica_eq:
  assumes "\<not> wk_stub_mode wk"
  shows "rollout_replica h wk app dep network env strategy olds s img n =
    io_then (if replaced_first strategy s n
             then (case map_of olds (s_id s, n) of Some old \<Rightarrow> on_world (remove_old h wk old) | None \<Rightarrow> io_return ())
             else io_return ())
   (io_then (on_world (pull_service_image h wk app dep s img))
   (io_bind (on_world (build_service_mounts (h_show_uuid h) (h_fs h) (wk_work_dir wk) (p_id app) s)) (\<lambda>mounts.
      note_and_create h (replica_config h app dep network s img env n mounts)
        (replica_rest h wk dep s img (replica_container_id h app dep s n) n))))"
proof -
  have st: "wk_stub_mode wk = False" using assms by simp
  have i: "dc_id (replica_config h app dep network s img env n m) = replica_container_id h app dep s n" for m
    by (simp add: replica_config_def)
  show ?thesis
    unfolding rollout_replica_def note_and_create_def replica_rest_def [abs_def] Let_def i st by (rule refl)
qed

lemma same_new_on_world: "io_keeps (same ro_new) (on_world m)"
  by (simp add: io_keeps_def same_def io_defs)

lemma same_new_push: "io_keeps (same ro_new) (push_service_deployment h sd)"
  unfolding push_service_deployment_def
  by (intro same.keeps_then same_new_on_world) (simp add: io_keeps_def same_def io_defs)

lemmas same_new = same_new_on_world same_new_push

lemma replica_rest_keeps:
  assumes c: "containers_ok h conts"
  shows "io_keeps (rolls conts Q) (replica_rest h wk dep s img cid n info)"
    and "io_keeps (same ro_new) (replica_rest h wk dep s img cid n info)"
proof -
  note d = containers_okD(1) [OF c] and k = containers_okD(2) [OF c]
  show "io_keeps (rolls conts Q) (replica_rest h wk dep s img cid n info)"
    unfolding replica_rest_def
    by (intro rolls.keeps_intros rolls_on_world rolls_push_service_deployment [OF c] host_keeps_all [OF k]
        keeps_namesI names_wait_for_healthy [OF d])
  show "io_keeps (same ro_new) (replica_rest h wk dep s img cid n info)"
    unfolding replica_rest_def by (intro same.keeps_intros same_new)
qed

text \<open>Old containers that go before their successors are created.\<close>

definition replaced :: "rollout_strategy \<Rightarrow> container_service list \<Rightarrow> ((uuid \<times> u32) \<times> string) list \<Rightarrow> string set" where
  "replaced strategy ss olds =
     {c. \<exists>s \<in> set ss. \<exists>n. replaced_first strategy s n \<and> map_of olds (s_id s, n) = Some c}"

lemma rollout_replica_step:
  assumes c: "containers_ok h conts" and ns: "\<not> wk_stub_mode wk"
    and n: "\<not> seed_helper (replica_container_id h app dep s n)" and s: "s \<in> set ss"
  shows "io_keeps (rolls conts (replaced strategy ss olds)) (rollout_replica h wk app dep network env strategy olds s img n)"
    and "rollout_replica h wk app dep network env strategy olds s img n st = (Inr (), st') \<Longrightarrow>
      set (ro_new st') = insert (replica_container_id h app dep s n) (set (ro_new st)) \<and>
      replica_container_id h app dep s n \<in> conts (ro_world st') \<union> replaced strategy ss olds"
proof -
  let ?Q = "replaced strategy ss olds" and ?cfg = "replica_config h app dep network s img env n"
  let ?rest = "replica_rest h wk dep s img (replica_container_id h app dep s n) n"
  note d = containers_okD(1) [OF c] and k = containers_okD(2) [OF c]
  have id: "dc_id (?cfg m) = replica_container_id h app dep s n" for m by (simp add: replica_config_def)
  have old: "io_keeps (rolls conts ?Q) (if replaced_first strategy s n
      then (case map_of olds (s_id s, n) of Some old \<Rightarrow> on_world (remove_old h wk old) | None \<Rightarrow> io_return ())
      else io_return ())"
    using s by (auto simp: replaced_def intro!: rolls.keeps_return rolls_remove_old [OF c ns] split: option.splits)
  note rest = replica_rest_keeps [OF c]
  show "io_keeps (rolls conts ?Q) (rollout_replica h wk app dep network env strategy olds s img n)"
    unfolding rollout_replica_eq [OF ns]
    by (intro rolls.keeps_then rolls.keeps_bind old rolls_on_world host_notes_replica(1) [OF host_keepsD(1) [OF k]] host_notes_mounts [OF host_keepsD(1) [OF k]]
        rolls_note_and_create [OF c]) (simp_all add: id n rest)
  assume "rollout_replica h wk app dep network env strategy olds s img n st = (Inr (), st')"
  then obtain mounts u where u: "note_and_create h (?cfg mounts) ?rest u = (Inr (), st')" and "ro_new u = ro_new st"
    unfolding rollout_replica_eq [OF ns]
    by (auto simp: io_then_Inr io_bind_Inr io_return_def on_world_def split: if_splits option.splits prod.splits)
  then show "set (ro_new st') = insert (replica_container_id h app dep s n) (set (ro_new st)) \<and>
      replica_container_id h app dep s n \<in> conts (ro_world st') \<union> ?Q"
    using note_and_create_Inr [OF c _ rest u] n id by simp
qed

text \<open>A loop of steps that each note down and create the names \<open>ids x\<close>.\<close>

lemma io_for_creates:
  assumes "\<And>x. x \<in> set xs \<Longrightarrow> io_keeps (rolls conts Q) (f x)"
    and "\<And>x s s'. x \<in> set xs \<Longrightarrow> f x s = (Inr (), s') \<Longrightarrow>
      set (ro_new s') = ids x \<union> set (ro_new s) \<and> ids x \<subseteq> conts (ro_world s') \<union> Q"
    and "io_for xs f s = (Inr (), s')"
  shows "set (ro_new s') = (\<Union>x \<in> set xs. ids x) \<union> set (ro_new s) \<and> (\<Union>x \<in> set xs. ids x) \<subseteq> conts (ro_world s') \<union> Q"
  using assms
proof (induction xs arbitrary: s)
  case (Cons x xs)
  obtain u where u: "f x s = (Inr (), u)" and xs: "io_for xs f u = (Inr (), s')"
    using Cons.prems(3) by (auto simp: io_then_Inr)
  have "io_keeps (rolls conts Q) (io_for xs f)" using Cons.prems(1) by (simp add: rolls.keeps_for)
  from io_keepsD [OF this, of u] have "rolls conts Q u s'" by (simp add: xs)
  moreover have "set (ro_new s') = (\<Union>x \<in> set xs. ids x) \<union> set (ro_new u) \<and> (\<Union>x \<in> set xs. ids x) \<subseteq> conts (ro_world s') \<union> Q"
    using Cons.IH [OF _ _ xs] Cons.prems(1,2) by simp
  moreover have "set (ro_new u) = ids x \<union> set (ro_new s) \<and> ids x \<subseteq> conts (ro_world u) \<union> Q"
    using Cons.prems(2) [OF _ u] by simp
  ultimately show ?case by (auto simp: rolls_def)
qed (simp add: io_return_def)

lemma replica_no_seed_helper:
  assumes "uuid_simple_ok h"
  shows "\<not> seed_helper (replica_container_id h app dep s n)"
proof
  let ?u = "take 8 (h_uuid_simple h (d_id dep))"
  have u: "length ?u = 8" "\<forall>c \<in> set ?u. is_ascii_hexdigit c"
    using assms by (auto simp: uuid_simple_ok_def list_all_iff dest: in_set_takeD)
  assume "seed_helper (replica_container_id h app dep s n)"
  then obtain a t where "a @ ?u = t @ ''-seed''"
    unfolding seed_helper_def ends_with_iff replica_container_id_def short_deployment_id_def by (metis append_assoc)
  then obtain v where "?u = v @ ''-seed''"
    using u(1) by (auto simp: append_eq_append_conv2 append_eq_Cons_conv dest: arg_cong [where f = length])
  then have "CHR ''-'' \<in> set ?u" by simp
  with u(2) show False by (auto simp: is_ascii_hexdigit_def is_ascii_digit_def scalar_def)
qed

text \<open>The containers a service is rolled out to.\<close>

definition service_containers :: "'x host \<Rightarrow> project \<Rightarrow> deployment \<Rightarrow> container_service \<Rightarrow> string set" where
  "service_containers h app dep s =
     (if is_cron_job s then {}
      else replica_container_id h app dep s ` set (map of_nat [0..<unat (s_replicas s)]))"

lemma rollout_service_step:
  assumes c: "containers_ok h conts" and ns: "\<not> wk_stub_mode wk" and u: "uuid_simple_ok h" and s: "s \<in> set ss"
  shows "io_keeps (rolls conts (replaced strategy ss olds))
      (rollout_service h wk app dep network imgs env strategy olds s)"
    and "rollout_service h wk app dep network imgs env strategy olds s st = (Inr (), st') \<Longrightarrow>
      set (ro_new st') = service_containers h app dep s \<union> set (ro_new st) \<and>
      service_containers h app dep s \<subseteq> conts (ro_world st') \<union> replaced strategy ss olds"
proof -
  let ?Q = "replaced strategy ss olds"
  note k = containers_okD(2) [OF c]
  note replica = rollout_replica_step [OF c ns replica_no_seed_helper [OF u] s]
  show "io_keeps (rolls conts ?Q) (rollout_service h wk app dep network imgs env strategy olds s)"
    unfolding rollout_service_def
    by (intro rolls.keeps_intros rolls_on_world rolls_push_service_deployment [OF c] host_keeps_all [OF k] replica(1))
  assume ok: "rollout_service h wk app dep network imgs env strategy olds s st = (Inr (), st')"
  then obtain img where img: "map_of imgs (s_id s) = Some img"
    by (auto simp: rollout_service_def io_bind_Inr ok_or_def split: option.splits)
  show "set (ro_new st') = service_containers h app dep s \<union> set (ro_new st) \<and>
      service_containers h app dep s \<subseteq> conts (ro_world st') \<union> ?Q"
  proof (cases "is_cron_job s")
    case True
    have "io_keeps (same ro_new) (rollout_service h wk app dep network imgs env strategy olds s)"
      unfolding rollout_service_def using True
      by (simp only: if_True) (intro same.keeps_intros same_new)
    from io_keepsD [OF this, of st] True show ?thesis by (simp add: ok same_def service_containers_def)
  next
    case False
    let ?ns = "map of_nat [0..<unat (s_replicas s)]"
    have "io_for ?ns (rollout_replica h wk app dep network env strategy olds s img) st = (Inr (), st')"
      using ok False by (auto simp: rollout_service_def img ok_or_def io_bind_Inr)
    from io_for_creates [where ids = "\<lambda>n. {replica_container_id h app dep s n}", OF replica(1) _ this] replica(2)
    show ?thesis using False by (auto simp: service_containers_def)
  qed
qed

lemma rollout_services_step:
  assumes c: "containers_ok h conts" and ns: "\<not> wk_stub_mode wk" and u: "uuid_simple_ok h"
  shows "rolls conts (replaced strategy ss olds) s
      (snd (rollout_services h wk app dep network ss imgs env strategy olds s))"
    and "rollout_services h wk app dep network ss imgs env strategy olds s = (Inr (), s') \<Longrightarrow>
      set (ro_new s') = (\<Union>x \<in> set ss. service_containers h app dep x) \<union> set (ro_new s) \<and>
      (\<Union>x \<in> set ss. service_containers h app dep x) \<subseteq> conts (ro_world s') \<union> replaced strategy ss olds"
proof -
  note step = rollout_service_step [OF c ns u]
  show "rolls conts (replaced strategy ss olds) s
      (snd (rollout_services h wk app dep network ss imgs env strategy olds s))"
    unfolding rollout_services_def by (rule io_keepsD) (intro rolls.keeps_for step(1))
  assume "rollout_services h wk app dep network ss imgs env strategy olds s = (Inr (), s')"
  then show "set (ro_new s') = (\<Union>x \<in> set ss. service_containers h app dep x) \<union> set (ro_new s) \<and>
      (\<Union>x \<in> set ss. service_containers h app dep x) \<subseteq> conts (ro_world s') \<union> replaced strategy ss olds"
    unfolding rollout_services_def by (intro io_for_creates [OF step(1) step(2)]) auto
qed

text \<open>The sorted services are the services of the project.\<close>

lemma topological_sort_set:
  assumes "set order = names services" and "topological_sort_services order services = Some (Inr ss)"
  shows "set ss = set services" and "distinct (map s_name services)"
proof -
  obtain vs where vs: "distinct vs" "set vs \<subseteq> names services"
    and r: "topological_sort_services order services =
      Some (if length vs \<noteq> length services then Inl ''circular dependency detected in services''
            else Inr (map (the \<circ> collect_map s_name services) vs))"
    using topological_sort_result [OF assms(1)] by blast
  from r assms(2) have l: "length vs = length services" and ss: "ss = map (the \<circ> collect_map s_name services) vs"
    by (auto split: if_splits)
  have "card (names services) \<le> length services" unfolding names_def by (metis card_length length_map set_map)
  moreover have "card (set vs) \<le> card (names services)" using vs(2) by (simp add: card_mono)
  ultimately have c: "card (names services) = length services"
    using vs(1) l distinct_card [of vs] by simp
  then show d: "distinct (map s_name services)"
    by (metis card_distinct length_map names_def set_map)
  have "set vs = names services"
    using vs l c by (metis card_subset_eq distinct_card finite_names)
  then have "set ss = (the \<circ> collect_map s_name services) ` s_name ` set services" by (simp add: ss names_def)
  also have "\<dots> = set services" using collect_map_distinct [OF d] by (force simp: image_iff)
  finally show "set ss = set services" .
qed

text \<open>Only planned names are noted down.\<close>

definition noted :: "string set \<Rightarrow> 'x rollout \<Rightarrow> 'x rollout \<Rightarrow> bool" where
  "noted P s s' \<longleftrightarrow> set (ro_new s') \<subseteq> set (ro_new s) \<union> P"

interpretation noted: io_relation "noted P" for P
  by unfold_locales (auto simp: noted_def)

lemma noted_same: "io_keeps (same ro_new) m \<Longrightarrow> io_keeps (noted P) m"
  by (simp add: io_keeps_def noted_def same_def)

lemma noted_services:
  "io_keeps (noted (\<Union>x \<in> set ss. service_containers h app dep x))
     (rollout_services h wk app dep network ss imgs env strategy olds)"
proof -
  let ?P = "\<Union>x \<in> set ss. service_containers h app dep x"
  have replica: "io_keeps (noted ?P) (rollout_replica h wk app dep network env strategy olds s img n)"
    if "replica_container_id h app dep s n \<in> ?P" for s img n
  proof -
    have m: "io_keeps (noted ?P) (io_modify (\<lambda>st. st\<lparr> ro_new := push_new (ro_new st) (replica_container_id h app dep s n) \<rparr>))"
      using that by (auto simp: io_keeps_def noted_def io_defs)
    show ?thesis
      unfolding rollout_replica_def Let_def
      by (intro noted.keeps_intros m noted_same [OF same_new_on_world] noted_same [OF same_new_push])
  qed
  have "io_keeps (noted ?P) (rollout_service h wk app dep network imgs env strategy olds s)" if "s \<in> set ss" for s
    unfolding rollout_service_def
    by (intro noted.keeps_intros replica noted_same [OF same_new_on_world] noted_same [OF same_new_push])
      (use that in \<open>auto simp: service_containers_def\<close>)
  then show ?thesis unfolding rollout_services_def by (rule noted.keeps_for)
qed

text \<open>The containers whose removal the daemon answers with an error when they are removed one after another.\<close>

fun failed_removals :: "'w docker_api \<Rightarrow> string list \<Rightarrow> 'w \<Rightarrow> string set" where
  "failed_removals api [] w = {}"
| "failed_removals api (c # cs) w =
     (if isl (fst (dk_remove_container api c (snd (stop_container api False c w)))) then {c} else {})
       \<union> failed_removals api cs (snd (remove_container api False c w))"

lemma conts_remove_all:
  assumes c: "containers_ok h conts" and ns: "\<not> wk_stub_mode wk"
  defines "all_removed cs w \<equiv> snd (io_for cs (\<lambda>c. io_ignore (remove_container (h_docker h) (wk_stub_mode wk) c)) w)"
  shows "conts (all_removed cs w) \<subseteq> conts w" and "conts w - set cs \<subseteq> conts (all_removed cs w)"
    and "set cs \<inter> conts (all_removed cs w) \<subseteq> failed_removals (h_docker h) cs w"
proof -
  note rm = names_remove_container [OF containers_okD(1) [OF c]]
  have "conts (all_removed cs w) \<subseteq> conts w \<and> conts w - set cs \<subseteq> conts (all_removed cs w) \<and>
      set cs \<inter> conts (all_removed cs w) \<subseteq> failed_removals (h_docker h) cs w"
  proof (induction cs arbitrary: w)
    case (Cons x cs)
    let ?u = "snd (remove_container (h_docker h) False x w)"
    have "all_removed (x # cs) w = all_removed cs ?u" using ns by (simp add: all_removed_def io_defs)
    moreover have "conts w - {x} \<subseteq> conts ?u" "conts ?u \<subseteq> conts w" by (rule rm)+
    moreover have "x \<notin> conts ?u" if "\<not> isl (fst (dk_remove_container (h_docker h) x (snd (stop_container (h_docker h) False x w))))"
      using that by (rule rm(4))
    ultimately show ?case using Cons.IH [of ?u] by auto
  qed (simp add: all_removed_def io_defs)
  then show "conts (all_removed cs w) \<subseteq> conts w" and "conts w - set cs \<subseteq> conts (all_removed cs w)"
    and "set cs \<inter> conts (all_removed cs w) \<subseteq> failed_removals (h_docker h) cs w" by blast+
qed

lemma conts_fail_rollout:
  fixes h :: "'x host"
  assumes c: "containers_ok h conts" and ns: "\<not> wk_stub_mode wk" and o: "\<And>xs. set (h_set_order h xs) = set xs"
  shows "fst (fail_rollout h wk s e) = Inl e" and "conts (snd (fail_rollout h wk s e)) \<subseteq> conts (ro_world s)"
    and "conts (ro_world s) - set (ro_new s) \<subseteq> conts (snd (fail_rollout h wk s e))"
    and "set (ro_new s) \<inter> conts (snd (fail_rollout h wk s e)) \<subseteq>
      failed_removals (h_docker h) (h_set_order h (ro_new s)) (ro_world s)"
proof -
  let ?rm = "io_for (h_set_order h (ro_new s)) (\<lambda>c. io_ignore (remove_container (h_docker h) (wk_stub_mode wk) c))
    :: ('x world, unit) io"
  have ok: "fst (io_for xs (\<lambda>x. io_ignore (f x)) w) = Inr ()" for xs and f :: "'y \<Rightarrow> ('x world, unit) io" and w
    by (induction xs arbitrary: w) (simp_all add: io_defs)
  have k: "io_keeps (same conts)
      (io_for (ro_sds s) (\<lambda>sd. io_ignore (db_write h (\<lambda>st. save_service_deployment st (f sd)))) :: ('x world, unit) io)" for f
    by (intro host_keeps_all [OF containers_okD(2) [OF c]])
  show "fst (fail_rollout h wk s e) = Inl e"
    unfolding fail_rollout_def io_bind_apply(2) ok sum.case io_bind_apply(1) io_apply(2,3) fst_conv snd_conv by simp
  have r: "conts (snd (fail_rollout h wk s e)) = conts (snd (?rm (ro_world s)))"
    unfolding fail_rollout_def io_bind_apply(2) ok sum.case io_bind_apply(1) io_apply(2,3) fst_conv snd_conv
    using keeps_names [OF k] by simp
  note rm = conts_remove_all [OF c ns, where cs = "h_set_order h (ro_new s)" and w = "ro_world s", unfolded o]
  show "conts (snd (fail_rollout h wk s e)) \<subseteq> conts (ro_world s)"
    and "conts (ro_world s) - set (ro_new s) \<subseteq> conts (snd (fail_rollout h wk s e))"
    and "set (ro_new s) \<inter> conts (snd (fail_rollout h wk s e)) \<subseteq>
      failed_removals (h_docker h) (h_set_order h (ro_new s)) (ro_world s)"
    unfolding r by (rule rm)+
qed

lemma conts_remove_unused:
  assumes c: "containers_ok h conts" and ns: "\<not> wk_stub_mode wk"
  shows "conts w - (set cs - N) \<subseteq> conts (snd (io_for cs (\<lambda>old. if old \<in> N then io_return () else remove_old h wk old) w)) \<and>
    conts (snd (io_for cs (\<lambda>old. if old \<in> N then io_return () else remove_old h wk old) w)) \<subseteq>
      conts w - (set cs - N - refused (h_docker h) conts)"
proof (induction cs arbitrary: w)
  case (Cons x cs)
  let ?u = "snd ((if x \<in> N then io_return () else remove_old h wk x) w)"
  have "fst ((if x \<in> N then io_return () else remove_old h wk x) w) = Inr ()" by (simp add: io_defs remove_old_def)
  then have "snd (io_for (x # cs) (\<lambda>old. if old \<in> N then io_return () else remove_old h wk old) w) =
      snd (io_for cs (\<lambda>old. if old \<in> N then io_return () else remove_old h wk old) ?u)"
    by (simp add: io_then_def io_bind_apply)
  moreover have "conts w - ({x} - N) \<subseteq> conts ?u" "conts ?u \<subseteq> conts w"
      "x \<notin> N \<Longrightarrow> x \<notin> refused (h_docker h) conts \<Longrightarrow> x \<notin> conts ?u"
    using names_remove_old [OF c ns, where c = x and w = w] by (auto simp: io_defs)
  ultimately show ?case using Cons.IH [of ?u] by auto
qed (simp add: io_defs)

lemma conts_finish_rollout:
  assumes c: "containers_ok h conts" and ns: "\<not> wk_stub_mode wk" and o: "\<And>xs. set (h_set_order h xs) = set xs"
    and ok: "finish_rollout h wk app dep imgs restore prev olds sds new w = (Inr (), w')"
  shows "conts w - (set olds - set new) \<subseteq> conts w'"
    and "conts w' \<subseteq> conts w - (set olds - set new - refused (h_docker h) conts)"
proof -
  note k = containers_okD(2) [OF c]
  have keep: "conts v' = conts v" if "m v = (x, v')" "io_keeps (same conts) m" for m :: "('a world, unit) io" and v x v'
    using keeps_names [OF that(2), of v] that(1) by simp
  obtain w1 w2 w3 w4 d where w1: "(if restore then restore_app_services h app else io_return ()) w = (Inr (), w1)"
    and w2: "db_write h (\<lambda>st. save_deployment st d) w1 = (Inr (), w2)"
    and w3: "send_proxy_refresh wk (p_id app) w2 = (Inr (), w3)"
    and w4: "io_for (h_set_order h olds) (\<lambda>old. if old \<in> set new then io_return () else remove_old h wk old) w3 = (Inr (), w4)"
    and w': "io_for prev (mark_deployment_stopped h) w4 = (Inr (), w')"
    using ok unfolding finish_rollout_def
    by (auto simp: io_then_Inr io_bind_Inr db_read_def io_read_def)
  have "conts w1 = conts w"
    by (rule keep [where m = "if restore then restore_app_services h app else io_return ()", OF w1]) (intro io_keeps_if host_keeps_bookkeeping(2) [OF k] host_keeps_rules(1) [OF k])
  moreover have "conts w2 = conts w1" by (rule keep [OF w2 host_keepsD(3) [OF k]])
  moreover have "conts w3 = conts w2" by (rule keep [OF w3 host_keeps_refresh [OF k]])
  moreover have "conts w3 - (set olds - set new) \<subseteq> conts w4 \<and>
      conts w4 \<subseteq> conts w3 - (set olds - set new - refused (h_docker h) conts)"
    using conts_remove_unused [OF c ns, where cs = "h_set_order h olds" and N = "set new" and w = w3, unfolded w4 snd_conv o] .
  moreover have "conts w' = conts w4"
    by (rule keep [where m = "io_for prev (mark_deployment_stopped h)", OF w']) (intro host_keeps_rules(12) [OF k] host_keeps_bookkeeping(1) [OF k])
  ultimately show "conts w - (set olds - set new) \<subseteq> conts w'"
    and "conts w' \<subseteq> conts w - (set olds - set new - refused (h_docker h) conts)" by simp_all
qed

lemma old_containers_all:
  assumes "map_of (fst (collect_old_containers ds)) key = Some c"
  shows "c \<in> set (snd (collect_old_containers ds))"
proof -
  have "\<forall>key c. map_of (fst (foldl old_container_step acc sds)) key = Some c \<longrightarrow> c \<in> set (snd (foldl old_container_step acc sds))"
    if "\<forall>key c. map_of (fst acc) key = Some c \<longrightarrow> c \<in> set (snd acc)" for acc sds
    using that
  proof (induction sds arbitrary: acc)
    case (Cons sd sds)
    have "\<forall>key c. map_of (fst (old_container_step acc sd)) key = Some c \<longrightarrow> c \<in> set (snd (old_container_step acc sd))"
      using Cons.prems by (auto simp: old_container_step_def Let_def split: option.splits)
    from Cons.IH [OF this] show ?case by simp
  qed simp
  from this [of "([], [])"] assms show ?thesis by (cases key) (auto simp: collect_old_containers_def)
qed

text \<open>The running deployments of the project, and their containers, when a rollout begins.\<close>

definition previous_of :: "project \<Rightarrow> deployment \<Rightarrow> 'x world \<Rightarrow> deployment list" where
  "previous_of app dep w = get_previous_running_deployments (p_id app) (d_id dep) (w_store w)"

definition planned_containers :: "'x host \<Rightarrow> project \<Rightarrow> deployment \<Rightarrow> string set" where
  "planned_containers h app dep = (\<Union>x \<in> set (p_services app). service_containers h app dep x)"

lemma deploy_services_eq:
  assumes "topological_sort_services (h_name_order h (p_services app)) (p_services app) = Some (Inr ss)"
    and "rollout_services h wk app dep network ss imgs env strategy (fst (collect_old_containers (previous_of app dep w)))
      \<lparr> ro_world = w, ro_sds = [], ro_new = [] \<rparr> = (r, s)"
  shows "deploy_services h wk app dep network imgs env strategy restore w =
    (case r of
       Inl e \<Rightarrow> fail_rollout h wk s e
     | Inr _ \<Rightarrow> finish_rollout h wk app dep imgs restore (previous_of app dep w)
         (snd (collect_old_containers (previous_of app dep w))) (ro_sds s) (ro_new s) (ro_world s))"
  using assms
  by (cases r) (simp_all add: deploy_services_def previous_of_def [symmetric] io_bind_apply db_read_def io_apply case_prod_unfold Let_def)

text \<open>
  C6. A rollout that fails cleans up: of the containers it created only those are left whose removal
  during the clean-up the daemon answered with an error (\<open>failed_removals\<close>; \<open>remove_container\<close> only
  logs it), and of the containers that were there only those went that a stop-first rollout, or a
  service that binds ports of the host, had to replace first. A start-first rollout of services without
  host ports that fails leaves every container that was there, so the running deployment goes on
  serving, and nothing else but containers the daemon would not remove.
\<close>

theorem failed_rollout_restores_containers:
  assumes "containers_ok h conts" and "\<not> wk_stub_mode wk" and "uuid_simple_ok h"
    and "\<forall>xs. set (h_set_order h xs) = set xs" and "\<forall>ss. set (h_name_order h ss) = names ss"
    and "topological_sort_services (h_name_order h (p_services app)) (p_services app) = Some (Inr ss)"
    and "rollout_services h wk app dep network ss imgs env strategy (fst (collect_old_containers (previous_of app dep w)))
      \<lparr> ro_world = w, ro_sds = [], ro_new = [] \<rparr> = (Inl e, s)"
    and "conts w \<inter> planned_containers h app dep = {}"
  shows "\<exists>w'. deploy_services h wk app dep network imgs env strategy restore w = (Inl e, w') \<and>
    conts w' \<subseteq> conts w \<union> (planned_containers h app dep \<inter> failed_removals (h_docker h) (h_set_order h (ro_new s)) (ro_world s)) \<and>
    conts w - replaced strategy (p_services app) (fst (collect_old_containers (previous_of app dep w))) \<subseteq> conts w' \<and>
    (strategy = StartFirst \<and> (\<forall>x \<in> set (p_services app). s_port_mappings x = []) \<longrightarrow>
      conts w' = conts w \<union> (conts w' \<inter> failed_removals (h_docker h) (h_set_order h (ro_new s)) (ro_world s)))"
proof -
  let ?olds = "fst (collect_old_containers (previous_of app dep w))"
  let ?Q = "replaced strategy (p_services app) ?olds" and ?w' = "snd (fail_rollout h wk s e)"
  have o: "set (h_set_order h xs) = set xs" for xs using assms(4) by blast
  have ss: "set ss = set (p_services app)" using topological_sort_set [OF _ assms(6)] assms(5) by blast
  then have Q: "replaced strategy ss ?olds = ?Q" by (simp add: replaced_def)
  have "rolls conts ?Q \<lparr> ro_world = w, ro_sds = [], ro_new = [] \<rparr> s"
    using rollout_services_step(1) [OF assms(1-3), of strategy ss ?olds "\<lparr> ro_world = w, ro_sds = [], ro_new = [] \<rparr>" app dep network imgs env]
      assms(7) by (simp add: Q)
  then have r: "conts (ro_world s) \<subseteq> conts w \<union> set (ro_new s)" "conts w - ?Q \<subseteq> conts (ro_world s)"
    by (auto simp: rolls_def)
  have n: "set (ro_new s) \<subseteq> planned_containers h app dep"
    using io_keepsD [OF noted_services, of h app dep ss "\<lparr> ro_world = w, ro_sds = [], ro_new = [] \<rparr>" wk network imgs env strategy ?olds]
      assms(7) ss by (simp add: noted_def planned_containers_def)
  note f = conts_fail_rollout(2-4) [OF assms(1,2) o, of s e]
  have "?Q = {}" if "strategy = StartFirst" "\<forall>x \<in> set (p_services app). s_port_mappings x = []"
    using that by (auto simp: replaced_def replaced_first_def service_port_mappings_def split: if_splits)
  moreover have "deploy_services h wk app dep network imgs env strategy restore w = (Inl e, ?w')"
    using deploy_services_eq [OF assms(6,7), of restore] conts_fail_rollout(1) [OF assms(1,2) o, of s e]
    by (simp add: prod_eq_iff)
  ultimately show ?thesis
    using f r n assms(8) by (intro exI [of _ ?w'] conjI impI) blast+
qed

text \<open>
  The name of a container tells its service and its replica apart: the number has no dash, and the suffix
  has the same length in both names.
\<close>

lemma split_at_last_dash:
  assumes "a @ CHR ''-'' # x = b @ CHR ''-'' # y" and "CHR ''-'' \<notin> set x" and "CHR ''-'' \<notin> set y"
  shows "a = b \<and> x = y"
proof -
  have take: "takeWhile (\<lambda>c. c \<noteq> CHR ''-'') (rev (u @ CHR ''-'' # v)) = rev v" if "CHR ''-'' \<notin> set v" for u v :: string
    using that by (auto simp: takeWhile_tail takeWhile_eq_all_conv)
  have "rev x = rev y" using take [OF assms(2), of a] take [OF assms(3), of b] assms(1) by simp
  then show ?thesis using assms(1) by simp
qed

lemma replica_container_id_inject:
  assumes "replica_container_id h app dep s m = replica_container_id h app dep t n"
  shows "s_name s = s_name t \<and> m = n"
proof -
  have "s_name s @ CHR ''-'' # show_word m = s_name t @ CHR ''-'' # show_word n"
    using assms by (simp add: replica_container_id_def)
  moreover have "CHR ''-'' \<notin> set (show_word k)" for k :: u32
    using show_nat_digits [of "CHR ''-''" "unat k"] by (auto simp: show_word_def is_ascii_digit_def scalar_def)
  ultimately have "s_name s = s_name t \<and> show_word m = show_word n" by (metis split_at_last_dash)
  then show ?thesis by simp
qed

lemma card_planned_containers:
  assumes "distinct (map s_name (p_services app))"
  shows "card (planned_containers h app dep) = (\<Sum>x \<leftarrow> p_services app. if is_cron_job x then 0 else unat (s_replicas x))"
proof -
  let ?n = "\<lambda>x. if is_cron_job x then 0 else unat (s_replicas x)"
  have "card (service_containers h app dep x) = ?n x" for x
  proof -
    have "inj_on (of_nat :: nat \<Rightarrow> u32) {0..<unat (s_replicas x)}"
    proof (rule inj_onI)
      fix i j assume "i \<in> {0..<unat (s_replicas x)}" "j \<in> {0..<unat (s_replicas x)}" "(of_nat i :: u32) = of_nat j"
      moreover have "unat (of_nat k :: u32) = k" if "k < unat (s_replicas x)" for k
        using order_less_trans [OF that unsigned_less [of "s_replicas x", where 'a = nat]]
        by (simp add: unsigned_of_nat take_bit_nat_eq_self)
      ultimately show "i = j" by (metis atLeastLessThan_iff)
    qed
    moreover have "inj_on (replica_container_id h app dep x) A" for A
      by (rule inj_onI) (metis replica_container_id_inject)
    ultimately show ?thesis by (simp add: service_containers_def card_image)
  qed
  moreover have "service_containers h app dep x \<inter> service_containers h app dep y = {}" if "s_name x \<noteq> s_name y" for x y
    using that by (auto simp: service_containers_def dest!: replica_container_id_inject)
  moreover have "s_name x \<noteq> s_name y" if "x \<in> set (p_services app)" "y \<in> set (p_services app)" "x \<noteq> y" for x y
    using assms that by (auto simp: distinct_map dest: inj_onD)
  moreover have "finite (service_containers h app dep x)" for x by (simp add: service_containers_def)
  ultimately have "card (planned_containers h app dep) = (\<Sum>x \<in> set (p_services app). ?n x)"
    unfolding planned_containers_def by (subst card_UN_disjoint) auto
  then show ?thesis using assms by (simp add: distinct_map sum_list_distinct_conv_sum_set)
qed

text \<open>
  C7. A rollout that succeeds switches the containers over: afterwards the containers are those that
  were there before, without the containers of the deployments that were running, and with exactly one
  container per replica of every service of the new one (none for a cron job): the names of the
  containers are different for different services and replicas, so there are as many as the replicas
  of the services add up to. This holds as long as no container of a running deployment has a name the
  new deployment uses; an old container the daemon may keep when it is asked to remove it
  (\<open>refused\<close>) may stay, since \<open>remove_container\<close> only logs the error.
\<close>

theorem successful_deployment_switches_containers:
  assumes "containers_ok h conts" and "\<not> wk_stub_mode wk" and "uuid_simple_ok h"
    and "\<forall>xs. set (h_set_order h xs) = set xs" and "\<forall>ss. set (h_name_order h ss) = names ss"
    and "deploy_services h wk app dep network imgs env strategy restore w = (Inr (), w')"
    and "set (snd (collect_old_containers (previous_of app dep w))) \<inter> planned_containers h app dep = {}"
  shows "(conts w - set (snd (collect_old_containers (previous_of app dep w)))) \<union> planned_containers h app dep \<subseteq> conts w' \<and>
    conts w' \<subseteq> (conts w - (set (snd (collect_old_containers (previous_of app dep w))) - refused (h_docker h) conts))
      \<union> planned_containers h app dep \<and>
    card (planned_containers h app dep) = (\<Sum>x \<leftarrow> p_services app. if is_cron_job x then 0 else unat (s_replicas x))"
proof -
  let ?olds = "fst (collect_old_containers (previous_of app dep w))"
  let ?all = "snd (collect_old_containers (previous_of app dep w))"
  let ?Q = "replaced strategy (p_services app) ?olds" and ?P = "planned_containers h app dep"
  let ?s0 = "\<lparr> ro_world = w, ro_sds = [], ro_new = [] \<rparr>"
  have o: "set (h_set_order h xs) = set xs" for xs using assms(4) by blast
  obtain ss where sort: "topological_sort_services (h_name_order h (p_services app)) (p_services app) = Some (Inr ss)"
    using assms(6) by (auto simp: deploy_services_def io_fail_def split: option.splits sum.splits)
  have ss: "set ss = set (p_services app)" and d: "distinct (map s_name (p_services app))"
    using topological_sort_set [OF _ sort] assms(5) by blast+
  have Q: "replaced strategy ss ?olds = ?Q" by (simp add: replaced_def ss)
  obtain r s where rs: "rollout_services h wk app dep network ss imgs env strategy ?olds ?s0 = (r, s)" by fastforce
  note eq = deploy_services_eq [OF sort rs, of restore]
  have r: "r = Inr ()"
  proof (cases r)
    case (Inl e)
    then have "fst (Inr (), w') = Inl e"
      using eq assms(6) conts_fail_rollout(1) [OF assms(1,2) o, of s e] by simp
    then show ?thesis by simp
  qed simp
  have fin: "finish_rollout h wk app dep imgs restore (previous_of app dep w) ?all (ro_sds s) (ro_new s) (ro_world s) = (Inr (), w')"
    using eq assms(6) by (simp add: r)
  have roll: "conts (ro_world s) \<subseteq> conts w \<union> set (ro_new s)" "conts w - ?Q \<subseteq> conts (ro_world s)"
    using rollout_services_step(1) [OF assms(1-3), of strategy ss ?olds ?s0 app dep network imgs env] rs
    by (auto simp: rolls_def Q)
  have new: "set (ro_new s) = ?P" "?P \<subseteq> conts (ro_world s) \<union> ?Q"
    using rollout_services_step(2) [OF assms(1-3) rs [unfolded r]] ss by (simp_all add: planned_containers_def Q)
  have q: "?Q \<subseteq> set ?all" using old_containers_all by (auto simp: replaced_def)
  note f = conts_finish_rollout [OF assms(1,2) o fin]
  have "(conts w - set ?all) \<union> ?P \<subseteq> conts w'"
    using f(1) roll new assms(7) q by blast
  moreover have "conts w' \<subseteq> (conts w - (set ?all - refused (h_docker h) conts)) \<union> ?P"
    using f(2) roll(1) new(1) assms(7) by blast
  ultimately show ?thesis using card_planned_containers [OF d] by simp
qed

section \<open>Witnesses\<close>

definition demo_worker :: worker where
  "demo_worker = \<lparr> wk_work_dir = ''/w'', wk_encryption_secret = None, wk_stub_mode = False, wk_proxy_updates = True \<rparr>"

lemma demo_web_fields [simp]:
  "s_id demo_web = 2" "s_name demo_web = ''web''" "s_image demo_web = ''img''" "s_port_mappings demo_web = []"
  "s_replicas demo_web = 1" "is_cron_job demo_web = False" "s_health_check demo_web = None" "s_mounts demo_web = []"
  "s_files demo_web = []" "s_registry_auth demo_web = None" "s_depends_on demo_web = []"
  by (simp_all add: demo_web_def container_service_new_def is_cron_job_def)

lemma demo_app_fields [simp]: "p_services demo_app = [demo_web]" "p_id demo_app = 1"
  by (simp_all add: demo_app_def project_new_def)

lemma demo_deployment_id [simp]: "d_id demo_deployment = 3"
  by (simp add: demo_deployment_def deployment_new_def)

lemma demo_sort: "topological_sort_services (h_name_order demo_host (p_services demo_app)) (p_services demo_app) = Some (Inr [demo_web])"
  by (simp add: topological_sort_services_def build_graph_def init_graph_def demo_host_def collect_map_def kahn.simps Let_def)

lemma demo_host_sel [simp]:
  "h_docker demo_host = lift_docker demo_docker" "h_fs demo_host = demo_fs" 
  "h_new_uuid demo_host = lift_ext (\<lambda>(cs, t). (Inr (of_int t), (cs, t + 1)))" "h_now demo_host w = snd (w_ext w)"
  "h_set_order demo_host = id"
  by (simp_all add: demo_host_def)

lemma demo_create:
  assumes "dc_mounts c = []" "dc_additional_networks c = []" "dc_id c \<notin> set (fst (w_ext w))"
  shows "create_container (lift_docker demo_docker) False c w =
    (Inr \<lparr> ci_id = dc_id c, ci_image = dc_image c, ci_container_id = dc_id c \<rparr>, w\<lparr> w_ext := (dc_id c # fst (w_ext w), snd (w_ext w)) \<rparr>)"
  using assms by (cases "w_ext w") (simp add: create_container_def lift_docker_def lift_ext_def demo_docker_def io_defs)

lemma demo_mounts: "build_service_mounts u demo_fs d a demo_web w = (Inr [], w)"
  by (simp add: build_service_mounts_def write_config_files_def demo_fs_def io_defs)

definition demo_container :: string where
  "demo_container = replica_container_id demo_host demo_app demo_deployment demo_web 0"

definition demo_sd :: service_deployment where
  "demo_sd = (service_deployment_new 100 101 2 3 0)
     \<lparr> sd_container_id := Some demo_container, sd_image_id := Some ''other'', sd_status := Running, sd_started_at := Some 101 \<rparr>"

lemma best_effort_ok: "fst (save_service_deployment_best_effort h sd w) = Inr ()"
  by (simp add: save_service_deployment_best_effort_def io_apply)

lemma demo_rollout:
  assumes "w_ext w = ([], 100)"
  shows "rollout_services demo_host demo_worker demo_app demo_deployment ''net'' [demo_web] [(2, ''other'')] [] StartFirst []
     \<lparr> ro_world = w, ro_sds = [], ro_new = [] \<rparr> = (Inr (),
      \<lparr> ro_world = snd (save_service_deployment_best_effort demo_host demo_sd (w\<lparr> w_ext := ([demo_container], 101) \<rparr>)),
        ro_sds = [demo_sd], ro_new = [demo_container] \<rparr>)"
proof -
  have c: "create_container (lift_docker demo_docker) False (replica_config demo_host demo_app demo_deployment ''net'' demo_web ''other'' [] 0 []) w =
    (Inr \<lparr> ci_id = demo_container, ci_image = ''other'', ci_container_id = demo_container \<rparr>, w\<lparr> w_ext := ([demo_container], 100) \<rparr>)"
    using assms by (subst demo_create) (simp_all add: replica_config_def demo_container_def)
  have p: "should_pull_service_image demo_web ''other'' = False"
    by (simp add: should_pull_service_image_def trim_def trim_start_def trim_end_def is_whitespace_def scalar_def)
  show ?thesis
    by (simp add: rollout_services_def rollout_service_def ok_or_def rollout_replica_def Let_def replaced_first_def service_port_mappings_def
      io_bind_apply io_apply on_world_apply demo_mounts c p pull_service_image_def push_service_deployment_def push_new_def demo_worker_def lift_ext_def
      demo_sd_def demo_container_def [symmetric] best_effort_ok)
qed

lemma demo_deploy:
  assumes "w_ext w = ([], 100)" "w_store w = demo_store"
  shows "fst (deploy_services demo_host demo_worker demo_app demo_deployment ''net'' [(2, ''other'')] [] StartFirst False w) = Inr ()"
proof -
  have prev: "previous_of demo_app demo_deployment w = []"
    using assms(2) by (simp add: previous_of_def get_previous_running_deployments_def list_deployments_by_app_def
      demo_store_def demo_deployment_def deployment_row_def deployment_new_def load_deployment_def)
  have "save_service_deployment demo_store demo_sd = Inr (demo_store\<lparr> st_service_deployments := st_service_deployments demo_store @ [demo_sd] \<rparr>)"
    by (simp add: save_service_deployment_def upsert_service_deployment_def demo_sd_def service_deployment_new_def demo_store_def demo_store1_def upsert_def
      deployment_row_def)
  then have w: "w_store (snd (save_service_deployment_best_effort demo_host demo_sd (w\<lparr> w_ext := ([demo_container], 101) \<rparr>))) =
     demo_store\<lparr> st_service_deployments := st_service_deployments demo_store @ [demo_sd] \<rparr>"
    by (simp add: save_service_deployment_best_effort_def io_apply db_write_def assms(2))
  have roll: "rollout_services demo_host demo_worker demo_app demo_deployment ''net'' [demo_web] [(2, ''other'')] [] StartFirst
      (fst (collect_old_containers (previous_of demo_app demo_deployment w))) \<lparr> ro_world = w, ro_sds = [], ro_new = [] \<rparr> = (Inr (),
      \<lparr> ro_world = snd (save_service_deployment_best_effort demo_host demo_sd (w\<lparr> w_ext := ([demo_container], 101) \<rparr>)),
        ro_sds = [demo_sd], ro_new = [demo_container] \<rparr>)"
    using demo_rollout [OF assms(1)] by (simp add: prev collect_old_containers_def)
  have sv: "\<exists>st'. save_deployment (demo_store\<lparr> st_service_deployments := sds \<rparr>)
      (demo_deployment\<lparr> d_status := a, d_service_deployments := filter P xs, d_image_id := b, d_app_snapshot := c,
         d_started_at := d, d_finished_at := e \<rparr>) = Inr st'" if "set xs \<subseteq> {demo_sd}" for sds a P xs b c d e
  proof -
    have "d_rollback_from_deployment_id demo_deployment = None" "d_app_id demo_deployment = 1" "p_id (app_row demo_app) = 1"
      by (simp_all add: demo_deployment_def deployment_new_def app_row_def)
    moreover have "\<exists>st'. insert_service_deployments st 3 (filter P xs) = Inr st'"
      if "st_services st = [demo_web]" "3 \<in> d_id ` set (st_deployments st)" for st
      using that \<open>set xs \<subseteq> {demo_sd}\<close>
      by (intro insert_service_deployments_succeeds) (auto simp: demo_sd_def service_deployment_new_def)
    moreover have "d_id (deployment_row x) = d_id x" for x by (simp add: deployment_row_def)
    ultimately show ?thesis
      by (simp add: save_deployment_def Let_def demo_store_def demo_store1_def deployments.keys_upsert)
  qed
  have "fst (finish_rollout demo_host demo_worker demo_app demo_deployment imgs False [] [] xs new v) = Inr ()"
    if v: "w_store v = demo_store\<lparr> st_service_deployments := sds \<rparr>" and x: "set xs \<subseteq> {demo_sd}" for v sds xs imgs new
  proof -
    obtain st' where "save_deployment (w_store v) (demo_deployment\<lparr> d_status := Running,
        d_service_deployments := filter (\<lambda>sd. sd_service_id sd \<in> set (map s_id (list_services_by_app (w_store v) (p_id demo_app)))) xs,
        d_image_id := primary_deployment_image_id imgs, d_app_snapshot := Some demo_app,
        d_started_at := Some (h_now demo_host v), d_finished_at := Some (h_now demo_host v) \<rparr>) = Inr st'"
      using sv [OF x] unfolding v by blast
    then show ?thesis
      unfolding finish_rollout_def io_bind_apply if_False io_apply db_read_def db_write_def fst_conv snd_conv sum.case
      by (simp add: send_proxy_refresh_def io_apply)
  qed
  then show ?thesis
    using deploy_services_eq [OF demo_sort roll, of False] w by (simp add: prev collect_old_containers_def)
qed

definition demo_conts :: "(string list \<times> int) world \<Rightarrow> string set" where
  "demo_conts w = {n \<in> set (fst (w_ext w)). \<not> seed_helper n}"

lemma lift_ext_keeps: "(\<And>x. f (snd (m x)) = f x) \<Longrightarrow> io_keeps (same (\<lambda>w. f (w_ext w))) (lift_ext m)"
  by (simp add: io_keeps_def same_def lift_ext_def)

lemma demo_docker_ok: "docker_ok (lift_docker demo_docker) demo_conts"
  unfolding docker_ok_def demo_conts_def lift_docker_def demo_docker_def docker_api.select_convs
  by (auto simp: io_keeps_def same_def lift_ext_def io_apply split: prod.splits)

lemma demo_ops:
  assumes "\<And>w x. R w (w\<lparr> w_ext := x \<rparr>)" and "\<And>w. R w w"
  shows "host_ops_keep R demo_host"
  using assms by (simp add: host_ops_keep_def demo_host_def demo_fs_def io_keeps_def io_apply lift_ext_def)

lemma demo_containers_ok: "containers_ok demo_host demo_conts"
  unfolding containers_ok_def demo_host_sel(1)
  by (auto simp: demo_docker_ok host_ops_keep_def demo_host_def demo_fs_def io_keeps_def io_apply lift_ext_def
      same_def demo_conts_def split: prod.splits)

lemma demo_docker_keeps:
  assumes "\<And>w x. R w (w\<lparr> w_ext := x \<rparr>)" and "\<And>w. R w w"
  shows "docker_keeps R (lift_docker demo_docker)"
  using assms by (simp add: docker_keeps_def lift_docker_def demo_docker_def io_keeps_def io_apply lift_ext_def)

lemma demo_orders:
  "uuid_simple_ok demo_host" "\<forall>xs. set (h_set_order demo_host xs) = set xs" "\<forall>ss. set (h_name_order demo_host ss) = names ss"
  using hex_digits_hex by (auto simp: uuid_simple_ok_def demo_host_def list_all_iff names_def)

definition demo_job :: deployment_job where
  "demo_job =
     \<lparr> j_deployment_id = 3, j_app_id = 1, j_commit_sha = ''abc'', j_commit_message = None, j_branch = ''main'',
       j_source = NoSource, j_rollout_strategy = StartFirst, j_rollback_from_deployment_id = None,
       j_local_build_service_id = None \<rparr>"

definition demo_running :: "(string list \<times> int) world" where
  "demo_running = demo_world\<lparr> w_ext := ([''old''], 100) \<rparr>"

lemma demo_planned: "planned_containers demo_host demo_app demo_deployment = {demo_container}"
  by (simp add: planned_containers_def service_containers_def demo_container_def)

lemma demo_container_name: "demo_container \<noteq> ''old''"
  by (simp add: demo_container_def replica_container_id_def)

text \<open>A daemon that creates containers but does not start them.\<close>

definition failing_host :: "(string list \<times> int) host" where
  "failing_host = demo_host\<lparr> h_docker := (lift_docker demo_docker)\<lparr> dk_start_container := \<lambda>_. io_fail ''no memory'' \<rparr> \<rparr>"

lemma failing_containers_ok: "containers_ok failing_host demo_conts"
proof -
  have "docker_ok (h_docker failing_host) demo_conts"
    using demo_docker_ok by (simp add: docker_ok_def failing_host_def io_keeps_def same_def io_apply)
  then show ?thesis
    using demo_containers_ok by (simp add: containers_ok_def host_ops_keep_def failing_host_def)
qed

lemma failing_docker: "h_docker failing_host = (lift_docker demo_docker)\<lparr> dk_start_container := \<lambda>_. io_fail ''no memory'' \<rparr>"
  by (simp add: failing_host_def)

lemma failing_ids [simp]: "replica_container_id failing_host = replica_container_id demo_host"
  by (simp add: fun_eq_iff replica_container_id_def short_deployment_id_def failing_host_def)

lemma failing_rollout:
  "rollout_services failing_host demo_worker demo_app demo_deployment ''net'' [demo_web] [(2, ''other'')] [] StartFirst []
     \<lparr> ro_world = demo_running, ro_sds = [], ro_new = [] \<rparr> =
   (Inl ''operation failed: docker start failed: no memory'',
    \<lparr> ro_world = demo_running\<lparr> w_ext := ([demo_container, ''old''], 100) \<rparr>, ro_sds = [], ro_new = [demo_container] \<rparr>)"
proof -
  have c: "create_container (h_docker failing_host) False (replica_config failing_host demo_app demo_deployment ''net'' demo_web ''other'' [] 0 []) demo_running =
    (Inl ''operation failed: docker start failed: no memory'', demo_running\<lparr> w_ext := ([demo_container, ''old''], 100) \<rparr>)"
    using demo_container_name
    by (simp add: create_container_def replica_config_def demo_container_def [symmetric] failing_docker lift_docker_def lift_ext_def
        demo_docker_def demo_running_def demo_world_def operation_failed_def io_defs)
  have p: "should_pull_service_image demo_web ''other'' = False"
    by (simp add: should_pull_service_image_def trim_def trim_start_def trim_end_def is_whitespace_def scalar_def)
  have fs: "h_fs failing_host = demo_fs" by (simp add: failing_host_def)
  show ?thesis
    by (simp add: rollout_services_def rollout_service_def ok_or_def rollout_replica_def Let_def replaced_first_def service_port_mappings_def
      io_bind_apply io_apply on_world_apply demo_mounts fs c p pull_service_image_def push_new_def demo_worker_def demo_container_def [symmetric])
qed

theorem failed_rollout_restores_containers_witness:
  "\<exists>s w'. rollout_services failing_host demo_worker demo_app demo_deployment ''net'' [demo_web] [(2, ''other'')] [] StartFirst
       (fst (collect_old_containers (previous_of demo_app demo_deployment demo_running)))
       \<lparr> ro_world = demo_running, ro_sds = [], ro_new = [] \<rparr> = (Inl ''operation failed: docker start failed: no memory'', s) \<and>
     demo_container \<in> demo_conts (ro_world s) - demo_conts demo_running \<and>
     deploy_services failing_host demo_worker demo_app demo_deployment ''net'' [(2, ''other'')] [] StartFirst False demo_running =
       (Inl ''operation failed: docker start failed: no memory'', w') \<and> demo_conts w' = demo_conts demo_running"
proof -
  have "previous_of demo_app demo_deployment demo_running = []"
    by (simp add: previous_of_def get_previous_running_deployments_def list_deployments_by_app_def demo_running_def demo_world_def
        demo_store_def demo_deployment_def deployment_row_def deployment_new_def load_deployment_def)
  then have olds: "fst (collect_old_containers (previous_of demo_app demo_deployment demo_running)) = []"
    by (simp add: collect_old_containers_def)
  let ?s = "\<lparr> ro_world = demo_running\<lparr> w_ext := ([demo_container, ''old''], 100) \<rparr>, ro_sds = [], ro_new = [demo_container] \<rparr>"
  have seed: "\<not> seed_helper demo_container"
    unfolding demo_container_def using demo_orders(1) by (rule replica_no_seed_helper)
  have planned: "planned_containers failing_host demo_app demo_deployment = {demo_container}"
    using demo_planned by (simp add: planned_containers_def service_containers_def)
  then have "demo_conts demo_running \<inter> planned_containers failing_host demo_app demo_deployment = {}"
    using demo_container_name by (auto simp: demo_conts_def demo_running_def)
  moreover have "\<not> wk_stub_mode demo_worker" by (simp add: demo_worker_def)
  moreover have "failed_removals (h_docker failing_host) (h_set_order failing_host (ro_new ?s)) (ro_world ?s) = {}"
    by (simp add: failing_host_def demo_host_def lift_docker_def lift_ext_def demo_docker_def io_defs case_prod_beta)
  moreover have "uuid_simple_ok failing_host" "\<forall>xs. set (h_set_order failing_host xs) = set xs"
      "\<forall>ss. set (h_name_order failing_host ss) = names ss"
      "topological_sort_services (h_name_order failing_host (p_services demo_app)) (p_services demo_app) = Some (Inr [demo_web])"
    using demo_orders demo_sort by (simp_all add: failing_host_def uuid_simple_ok_def)
  ultimately obtain w' where "deploy_services failing_host demo_worker demo_app demo_deployment ''net'' [(2, ''other'')] [] StartFirst False demo_running =
       (Inl ''operation failed: docker start failed: no memory'', w')" "demo_conts w' = demo_conts demo_running"
    using failed_rollout_restores_containers [OF failing_containers_ok _ _ _ _ _ failing_rollout [folded olds], of False] by auto
  moreover have "demo_container \<in> demo_conts (ro_world ?s) - demo_conts demo_running"
    using seed demo_container_name by (simp add: demo_conts_def demo_running_def)
  ultimately show ?thesis using failing_rollout unfolding olds by blast
qed

theorem successful_deployment_switches_containers_witness:
  "\<exists>w'. deploy_services demo_host demo_worker demo_app demo_deployment ''net'' [(2, ''other'')] [] StartFirst False demo_world =
       (Inr (), w') \<and> demo_conts w' = {demo_container}"
proof -
  have "w_ext demo_world = ([], 100)" "w_store demo_world = demo_store" by (simp_all add: demo_world_def)
  from demo_deploy [OF this] obtain w' where
    w': "deploy_services demo_host demo_worker demo_app demo_deployment ''net'' [(2, ''other'')] [] StartFirst False demo_world = (Inr (), w')"
    by (metis prod.collapse)
  have "previous_of demo_app demo_deployment demo_world = []"
    by (simp add: previous_of_def get_previous_running_deployments_def list_deployments_by_app_def demo_world_def
        demo_store_def demo_deployment_def deployment_row_def deployment_new_def load_deployment_def)
  then have old: "snd (collect_old_containers (previous_of demo_app demo_deployment demo_world)) = []"
    by (simp add: collect_old_containers_def)
  moreover have "\<not> wk_stub_mode demo_worker" by (simp add: demo_worker_def)
  ultimately have "demo_conts w' = demo_conts demo_world \<union> planned_containers demo_host demo_app demo_deployment"
    using successful_deployment_switches_containers [OF demo_containers_ok _ demo_orders w'] by auto
  then show ?thesis using w' by (auto simp: demo_planned demo_conts_def demo_world_def)
qed

end
