(* ===== verification/Worker_Switch.thy ===== *)
theory Worker_Switch
  imports Worker_Safety Store_Rows
begin

text \<open>
  What a job leaves in the database when no other task writes meanwhile: after a successful deployment
  it is the one that runs, a superseded one is skipped, and a failed one is marked.
\<close>

section \<open>No other task writes\<close>

definition quiet :: "'x host \<Rightarrow> bool" where
  "quiet h \<longleftrightarrow> host_ops_keep (same w_store) h \<and> docker_keeps (same w_store) (h_docker h)"

text \<open>A host that keeps the database keeps everything that is read from it, and lets it evolve.\<close>

lemma quiet_keeps:
  assumes R: "\<And>w w' :: 'x world. w_store w' = w_store w \<Longrightarrow> R w w'" and q: "quiet h"
  shows "host_ops_keep R h" and "docker_keeps R (h_docker h)"
  using q by (simp_all add: quiet_def host_ops_keep_def docker_keeps_def io_keeps_def same_def R)

abbreviation deps :: "'x world \<Rightarrow> deployment list" where
  "deps w \<equiv> st_deployments (w_store w)"

lemma quiet_notes:
  assumes "quiet h"
  shows "host_notes (same deps) h" and "docker_keeps (same deps) (h_docker h)"
proof -
  note k = quiet_keeps [of "same deps" h, OF _ assms]
  show "docker_keeps (same deps) (h_docker h)" by (rule k(2)) (simp add: same_def)
  have "host_ops_keep (same deps) h" by (rule k(1)) (simp add: same_def)
  then show "host_notes (same deps) h"
    by (auto simp: host_notes_def same.io_relation_axioms io_keeps_def same_def db_write_def append_deployment_log_def
        save_service_deployment_def upsert_service_deployment_def split: sum.splits if_splits)
qed

lemma quiet_evolves:
  assumes "quiet h"
  shows "host_keeps evolves h" and "docker_keeps evolves (h_docker h)"
  using quiet_keeps [of evolves h, OF _ assms] evolves_host by (auto simp: evolves_def)

section \<open>After a successful deployment\<close>

lemma mark_stopped_step:
  assumes "mark_deployment_stopped h d w = (Inr (), w')"
  shows "\<exists>r. d_status r = Stopped \<and>
    (\<forall>j. deployment_of (w_store w') j = (if j = d_id d then Some r else deployment_of (w_store w) j))"
proof -
  let ?f = "unwrap_or (get_deployment (w_store w) (d_id d)) d"
  obtain t where t: "save_deployment (w_store w) t = Inr (w_store w')" "d_id t = d_id ?f" "d_status t = Stopped"
    using assms by (auto simp: mark_deployment_stopped_def Let_def io_bind_Inr io_read_def db_read_def db_write_def
        split: sum.splits)
  have "d_id ?f = d_id d"
    using get_deployment_id by (cases "get_deployment (w_store w) (d_id d)") auto
  then have "\<forall>j. deployment_of (w_store w') j = (if j = d_id d then Some (deployment_row t) else deployment_of (w_store w) j)"
    using save_deployment_of [OF t(1)] t(2) by simp
  moreover have "d_status (deployment_row t) = Stopped" by (simp add: deployment_row_def t(3))
  ultimately show ?thesis by blast
qed

lemma mark_stopped_all:
  "io_for ds (mark_deployment_stopped h) w = (Inr (), w') \<Longrightarrow>
     (\<forall>j. if j \<in> d_id ` set ds then \<exists>r. deployment_of (w_store w') j = Some r \<and> d_status r = Stopped
          else deployment_of (w_store w') j = deployment_of (w_store w) j)"
proof (induction ds arbitrary: w)
  case (Cons d ds)
  obtain w1 where w1: "mark_deployment_stopped h d w = (Inr (), w1)" and rest: "io_for ds (mark_deployment_stopped h) w1 = (Inr (), w')"
    using Cons.prems by (auto simp: io_then_Inr)
  from mark_stopped_step [OF w1] Cons.IH [OF rest] show ?case by (auto split: if_splits)
qed (simp add: io_return_def)

lemma finish_rollout_rows:
  assumes q: "quiet h" and fin: "finish_rollout h wk app dep imgs restore prev olds sds new w = (Inr (), w')"
  shows "\<exists>r. d_status r = Running \<and> d_app_snapshot r = Some app \<and>
    (\<forall>j. if j \<in> d_id ` set prev then \<exists>r. deployment_of (w_store w') j = Some r \<and> d_status r = Stopped
         else deployment_of (w_store w') j = (if j = d_id dep then Some r else deployment_of (w_store w) j))"
proof -
  note d = quiet_notes(2) [OF q]
  obtain w1 w2 w3 w4 t where w1: "(if restore then restore_app_services h app else io_return ()) w = (Inr (), w1)"
    and w2: "db_write h (\<lambda>st. save_deployment st t) w1 = (Inr (), w2)"
    and t: "d_id t = d_id dep" "d_status t = Running" "d_app_snapshot t = Some app"
    and w3: "send_proxy_refresh wk (p_id app) w2 = (Inr (), w3)"
    and w4: "io_for (h_set_order h olds) (\<lambda>old. if old \<in> set new then io_return () else remove_old h wk old) w3 = (Inr (), w4)"
    and w': "io_for prev (mark_deployment_stopped h) w4 = (Inr (), w')"
    using fin unfolding finish_rollout_def by (auto simp: io_then_Inr io_bind_Inr db_read_def io_read_def)
  have "deps w1 = deps w"
    using w1 by (auto simp: restore_app_services_def io_bind_Inr db_read_def io_read_def db_write_def io_fail_def
        io_return_def save_app_deployments split: if_splits option.splits sum.splits)
  moreover have "deployment_of (w_store w2) j = (if j = d_id dep then Some (deployment_row t) else deployment_of (w_store w1) j)" for j
    using w2 t(1) save_deployment_of by (auto simp: db_write_def split: sum.splits)
  moreover have "w_store w3 = w_store w2"
    using w3 by (auto simp: send_proxy_refresh_def io_modify_def)
  moreover have "io_keeps (same deps) (io_for (h_set_order h olds) (\<lambda>old. if old \<in> set new then io_return () else remove_old h wk old))"
    by (intro same.keeps_intros keeps_remove_old d same.io_relation_axioms)
  from io_keepsD [OF this, of w3] have "deps w4 = deps w3" by (simp add: w4 same_def)
  ultimately have "deployment_of (w_store w4) j = (if j = d_id dep then Some (deployment_row t) else deployment_of (w_store w) j)" for j
    by (simp add: deployment_of_def)
  moreover have "d_status (deployment_row t) = Running" "d_app_snapshot (deployment_row t) = Some app"
    using t by (simp_all add: deployment_row_def)
  ultimately show ?thesis using mark_stopped_all [OF w'] by (intro exI [of _ "deployment_row t"]) auto
qed

text \<open>
  C8. A deployment that succeeds becomes the running one: of all deployments of the project it alone is
  marked as running, so the ones that ran before no longer are, and it records the project it deployed. This
  is for the case that no other task writes to the database meanwhile.
\<close>

theorem deployment_becomes_the_running_one:
  assumes "store_reachable (w_store w)" and "quiet h"
    and "deploy_services h wk app dep network imgs env strategy restore w = (Inr (), w')"
  shows "(\<forall>d \<in> set (list_deployments_by_app (w_store w') (p_id app)). d_status d = Running \<longrightarrow> d_id d = d_id dep) \<and>
    (\<exists>d. get_deployment (w_store w') (d_id dep) = Some d \<and> d_status d = Running \<and> d_app_snapshot d = Some app)"
proof -
  let ?prev = "previous_of app dep w" and ?s0 = "\<lparr> ro_world = w, ro_sds = [], ro_new = [] \<rparr>"
  obtain ss where sort: "topological_sort_services (h_name_order h (p_services app)) (p_services app) = Some (Inr ss)"
    using assms(3) by (auto simp: deploy_services_def io_fail_def split: option.splits sum.splits)
  obtain r s where rs: "rollout_services h wk app dep network ss imgs env strategy
      (fst (collect_old_containers ?prev)) ?s0 = (r, s)" by fastforce
  have "fst (fail_rollout h wk s e) \<noteq> Inr ()" for e
    by (auto simp: fail_rollout_def io_bind_apply io_apply split: sum.splits)
  then obtain olds where fin: "finish_rollout h wk app dep imgs restore ?prev olds (ro_sds s) (ro_new s) (ro_world s) = (Inr (), w')"
    using deploy_services_eq [OF sort rs, of restore] assms(3) by (cases r) (auto, metis fst_conv)
  have "deps (ro_world s) = deps w"
    using io_keepsD [OF keeps_rollout_services [OF quiet_notes [OF assms(2)]], of ?s0] rs
    by (simp add: on_roll_def same_def) (metis snd_conv rollout.select_convs(1))
  then have same: "deployment_of (w_store (ro_world s)) j = deployment_of (w_store w) j" for j
    by (simp add: deployment_of_def)
  obtain x where x: "d_status x = Running" "d_app_snapshot x = Some app"
    and rows: "\<And>j. if j \<in> d_id ` set ?prev then \<exists>y. deployment_of (w_store w') j = Some y \<and> d_status y = Stopped
         else deployment_of (w_store w') j = (if j = d_id dep then Some x else deployment_of (w_store w) j)"
    using finish_rollout_rows [OF assms(2) fin] unfolding same by blast
  have reach: "store_reachable (w_store w')"
    using io_keepsD [OF keeps_deploy_services [OF quiet_evolves [OF assms(2)]], of w] assms(1,3) evolves_reachable
    by (metis snd_conv)
  have dep: "d_id dep \<notin> d_id ` set ?prev"
    by (auto simp: previous_of_def get_previous_running_deployments_def)
  have "d_id y \<in> d_id ` set ?prev \<or> d_id y = d_id dep"
    if "y \<in> set (deps w)" "d_app_id y = p_id app" "d_status y = Running" for y
    using that by (auto simp: previous_of_def get_previous_running_deployments_def list_deployments_by_app_def
        load_deployment_def image_iff)
  then have "d_id y = d_id dep" if "y \<in> set (deps w')" "d_app_id y = p_id app" "d_status y = Running" for y
    using that rows [of "d_id y"] deployment_of_iff [OF reach, of "d_id y" y] deployment_of_iff [OF assms(1), of "d_id y" y]
    by (auto split: if_splits)
  moreover have "deployment_of (w_store w') (d_id dep) = Some x" using rows [of "d_id dep"] dep by simp
  ultimately show ?thesis
    using x by (auto simp: list_deployments_by_app_def load_deployment_def get_deployment_def deployment_of_def)
qed

section \<open>Superseded and failed jobs\<close>

text \<open>
  A deployment that was superseded before the worker got to it is skipped: the job ends without an
  error, one line is added to the log of the deployment, and nothing else changes, neither in the
  database nor outside.
\<close>

theorem superseded_deployment_skipped:
  assumes "get_deployment (w_store w) (j_deployment_id job) = Some d" and "d_app_id d = j_app_id job" and "d_status d = Stopped"
    and "append_deployment_log (w_store w) (d_id d) ''deployment skipped: superseded before execution'' = Inr st"
  shows "process_job h wk job w = (Inr (), w\<lparr> w_store := st \<rparr>)"
proof -
  have "d_id d = j_deployment_id job" using get_deployment_id [OF assms(1)] .
  then show ?thesis
    using assms
    by (simp add: process_job_def should_continue_deployment_def log_deployment_def db_read_def db_write_def ok_or_def io_defs)
qed

text \<open>A deployment that was read can be written back with another status.\<close>

text \<open>
  C9. A job that fails is not lost: if no other task writes meanwhile, afterwards its deployment is marked
  as failed, unless it was stopped before, then it stays stopped; a deployment that is gone stays gone.
\<close>

theorem failed_job_is_marked:
  assumes "store_reachable (w_store w)" and "quiet h" and "process_job h wk job w = (Inl e, w1)"
  shows "case get_deployment (w_store w1) (j_deployment_id job) of
      None \<Rightarrow> get_deployment (w_store (run_job h wk job w)) (j_deployment_id job) = None
    | Some d \<Rightarrow> \<exists>d'. get_deployment (w_store (run_job h wk job w)) (j_deployment_id job) = Some d' \<and>
        d_status d' = (if d_status d = Stopped then Stopped else Failed)"
proof -
  let ?i = "j_deployment_id job" and ?w2 = "snd (cleanup_uploaded_source h wk job w1)"
  have k: "io_keeps (same w_store) (cleanup_uploaded_source h wk job)"
    unfolding cleanup_uploaded_source_def using assms(2)
    by (auto simp: quiet_def host_ops_keep_def intro: same.keeps_ignore same.keeps_return split: deployment_source.splits)
  have w2: "w_store ?w2 = w_store w1" using io_keepsD [OF k, of w1] by (simp add: same_def)
  have inv: "store_inv (w_store w1)"
    using io_keepsD [OF keeps_run_job(1) [OF quiet_evolves [OF assms(2)]], of w wk job] assms(1,3)
      evolves_reachable store_reachable_inv by (metis snd_conv)
  have run: "run_job h wk job w = snd (mark_failed h job e ?w2)" by (simp add: run_job_def assms(3))
  show ?thesis
  proof (cases "get_deployment (w_store w1) ?i")
    case None
    then show ?thesis by (simp add: run mark_failed_def db_read_def io_defs w2)
  next
    case (Some d)
    have i: "d_id d = ?i" using get_deployment_id [OF Some] .
    show ?thesis
    proof (cases "d_status d = Stopped")
      case True
      with Some show ?thesis by (simp add: run mark_failed_def db_read_def io_defs w2)
    next
      case False
      obtain w3 where w3: "snd (log_deployment h (d_id d) (''error: '' @ e) ?w2) = w3" by blast
      have get3: "get_deployment (w_store w3) ?i = Some d \<and> store_inv (w_store w3)"
      proof (cases "append_deployment_log (w_store w1) (d_id d) (''error: '' @ e)")
        case (Inr st)
        then have "w_store w3 = st" using w3 by (auto simp: log_deployment_def db_write_def io_defs w2)
        then show ?thesis
          using append_log_deployments [OF Inr] Some inv_store_step [OF store_step.intros(12) [OF Inr] inv] by simp
      qed (use w3 Some inv in \<open>auto simp: log_deployment_def db_write_def io_defs w2\<close>)
      then obtain st where st: "save_deployment (w_store w3) (d\<lparr> d_status := Failed, d_finished_at := Some (h_now h ?w2) \<rparr>) = Inr st"
        using save_status_again by blast
      have "w_store (run_job h wk job w) = st"
        using Some False w3 st by (simp add: run mark_failed_def db_read_def db_write_def log_deployment_def io_defs w2)
      moreover have "deployment_of st ?i = Some (deployment_row (d\<lparr> d_status := Failed, d_finished_at := Some (h_now h ?w2) \<rparr>))"
        using save_deployment_of [OF st] i by simp
      ultimately have "\<exists>d'. get_deployment (w_store (run_job h wk job w)) ?i = Some d' \<and> d_status d' = Failed"
        by (simp add: get_deployment_def deployment_of_def load_deployment_def deployment_row_def)
      then show ?thesis using Some False by simp
    qed
  qed
qed

section \<open>Witnesses\<close>

lemma demo_quiet: "quiet demo_host"
  unfolding quiet_def demo_host_sel(1) by (intro conjI demo_ops demo_docker_keeps) (simp_all add: same_def)

theorem deployment_becomes_the_running_one_witness:
  "\<exists>w'. deploy_services demo_host demo_worker demo_app demo_deployment ''net'' [(2, ''other'')] [] StartFirst False demo_world =
       (Inr (), w') \<and> (\<exists>d. get_deployment (w_store w') 3 = Some d \<and> d_status d = Running)"
proof -
  have w: "w_ext demo_world = ([], 100)" "w_store demo_world = demo_store" by (simp_all add: demo_world_def)
  from demo_deploy [OF this] obtain w' where
    w': "deploy_services demo_host demo_worker demo_app demo_deployment ''net'' [(2, ''other'')] [] StartFirst False demo_world = (Inr (), w')"
    by (metis prod.collapse)
  have "store_reachable (w_store demo_world)" using w(2) demo_store_reachable(3) by simp
  from deployment_becomes_the_running_one [OF this demo_quiet w'] w' show ?thesis by auto
qed

definition demo_stopped :: "(string list \<times> int) world" where
  "demo_stopped = demo_world\<lparr> w_store := demo_store\<lparr> st_deployments := [demo_deployment\<lparr> d_status := Stopped \<rparr>] \<rparr> \<rparr>"

theorem superseded_deployment_skipped_witness:
  "\<exists>st. process_job demo_host demo_worker demo_job demo_stopped = (Inr (), demo_stopped\<lparr> w_store := st \<rparr>)"
proof -
  let ?d = "load_deployment (w_store demo_stopped) (demo_deployment\<lparr> d_status := Stopped \<rparr>)"
  have g: "get_deployment (w_store demo_stopped) (j_deployment_id demo_job) = Some ?d"
    by (simp add: get_deployment_def demo_stopped_def demo_job_def select_row_def)
  have f: "d_app_id ?d = j_app_id demo_job" "d_status ?d = Stopped" "d_id ?d = 3"
    by (simp_all add: load_deployment_def demo_job_def demo_deployment_def deployment_new_def)
  obtain st where "append_deployment_log (w_store demo_stopped) (d_id ?d) ''deployment skipped: superseded before execution'' = Inr st"
    unfolding f(3) by (simp add: append_deployment_log_def demo_stopped_def)
  from superseded_deployment_skipped [OF g f(1,2) this] show ?thesis by blast
qed

theorem failed_job_is_marked_witness:
  "\<exists>d. get_deployment (w_store (run_job demo_host demo_worker (demo_job\<lparr> j_app_id := 9 \<rparr>) demo_world)) 3 = Some d \<and> d_status d = Failed"
proof -
  let ?job = "demo_job\<lparr> j_app_id := 9 \<rparr>"
  obtain d where g: "get_deployment (w_store demo_world) 3 = Some d" and d: "d_app_id d = 1" "d_status d = Pending"
    by (simp add: get_deployment_def demo_world_def demo_store_def select_row_def deployment_row_def load_deployment_def)
      (simp add: demo_deployment_def deployment_new_def)
  have "process_job demo_host demo_worker ?job demo_world = (Inl ''deployment app mismatch'', demo_world)"
    using g d by (simp add: process_job_def demo_job_def db_read_def ok_or_def io_bind_apply io_apply)
  moreover have "store_reachable (w_store demo_world)" using demo_store_reachable(3) by (simp add: demo_world_def)
  ultimately show ?thesis
    using failed_job_is_marked [OF _ demo_quiet, of demo_world demo_worker ?job] g d by (simp add: demo_job_def)
qed

end
