(* ===== verification/Service_Requests.thy ===== *)
theory Service_Requests
  imports Models Service_Support
begin

text \<open>
  The service API's requests (\<open>containr-api/src/domain/services/mod.rs\<close>): the JSON bodies as records,
  the check and normalization of every field, and \<open>build_services\<close>, which turns the requests of a project
  into its services, keeping what a request leaves out. Also the way back: the settings response with its
  masked secrets, and \<open>service_request_from_model\<close>, the request that an update submits for the services
  of the project it does not change. \<open>security.rs\<close>, which encrypts registry passwords, is here as well.

  Errors are the HTTP status and the text of the answer.
\<close>

section \<open>Errors\<close>

type_synonym api_error = "u16 \<times> string"

definition bad_request :: "string \<Rightarrow> api_error" where
  "bad_request message = (400, message)"

definition forbidden :: "string \<Rightarrow> api_error" where
  "forbidden message = (403, message)"

definition conflict :: "string \<Rightarrow> api_error" where
  "conflict message = (409, message)"

definition internal_error :: "'e \<Rightarrow> api_error" where
  "internal_error e = (500, ''internal server error'')"

text \<open>
  The \<open>Debug\<close> form of a \<open>str\<close> (\<open>{:?}\<close>): quotes, backslashes and the common control characters have
  escapes of their own, other characters that do not print are written as their code point.
\<close>

definition hex_digit_char :: "nat \<Rightarrow> char" where
  "hex_digit_char n = (if n < 10 then char_of (48 + n) else char_of (87 + n))"

fun show_hex :: "nat \<Rightarrow> string" where
  "show_hex n = (if n < 16 then [hex_digit_char n] else show_hex (n div 16) @ [hex_digit_char (n mod 16)])"

definition escape_debug :: "char \<Rightarrow> string" where
  "escape_debug c =
     (if scalar c = 0 then [CHR 0x5C, CHR ''0'']
      else if scalar c = 9 then [CHR 0x5C, CHR ''t'']
      else if scalar c = 13 then [CHR 0x5C, CHR ''r'']
      else if scalar c = 10 then [CHR 0x5C, CHR ''n'']
      else if c = CHR 0x22 \<or> c = CHR 0x5C then [CHR 0x5C, c]
      else if scalar c < 32 \<or> 127 \<le> scalar c \<and> scalar c \<le> 160 \<or> scalar c = 173
        then [CHR 0x5C, CHR ''u'', CHR ''{''] @ show_hex (scalar c) @ ''}''
      else [c])"

definition debug_str :: "string \<Rightarrow> string" where
  "debug_str s = [CHR 0x22] @ concat (map escape_debug s) @ [CHR 0x22]"

section \<open>Requests\<close>

record config_file_request =
  fr_path :: string
  fr_content :: string

record port_mapping_request =
  pr_host_port :: u16
  pr_container_port :: u16
  pr_protocol :: "string option"

record basic_auth_request =
  br_username :: "string option"
  br_password :: "string option"

record login_gate_request =
  lr_scope :: "string option"

record env_var_request =
  er_key :: string
  er_value :: string
  er_secret :: "bool option"

record health_check_request =
  hr_path :: string
  hr_interval_secs :: "u32 option"
  hr_timeout_secs :: "u32 option"
  hr_retries :: "u32 option"

record service_mount_request =
  mr_name :: string
  mr_target :: string
  mr_read_only :: "bool option"
  mr_host_path :: "string option"
  mr_shared :: "bool option"

record service_registry_auth_request =
  rr_server :: "string option"
  rr_username :: "string option"
  rr_password :: "string option"

record service_request =
  sr_name :: string
  sr_image :: "string option"
  sr_service_type :: "string option"
  sr_port :: u16
  sr_expose_http :: "bool option"
  sr_domains :: "string list option"
  sr_domain :: "string option"
  sr_http_only_domains :: "string list option"
  sr_additional_ports :: "u16 list option"
  sr_replicas :: "u32 option"
  sr_memory_limit_mb :: "u64 option"
  sr_cpu_limit :: "f64 option"
  sr_depends_on :: "string list option"
  sr_health_check :: "health_check_request option"
  sr_restart_policy :: "string option"
  sr_registry_auth :: "service_registry_auth_request option"
  sr_env_vars :: "env_var_request list option"
  sr_build_context :: "string option"
  sr_dockerfile_path :: "string option"
  sr_build_target :: "string option"
  sr_build_args :: "env_var_request list option"
  sr_command :: "string list option"
  sr_entrypoint :: "string list option"
  sr_working_dir :: "string option"
  sr_schedule :: "string option"
  sr_mounts :: "service_mount_request list option"
  sr_notes :: "string option option"
  sr_basic_auth :: "basic_auth_request option option"
  sr_login_gate :: "login_gate_request option option"
  sr_port_mappings :: "port_mapping_request list option"
  sr_files :: "config_file_request list option"

section \<open>Encryption of registry passwords\<close>

definition ENCRYPTED_PREFIX :: string where
  "ENCRYPTED_PREFIX = ''enc:''"

text \<open>The environment variable and the configured key are arguments.\<close>

definition resolve_encryption_secret :: "string option \<Rightarrow> string \<Rightarrow> string option" where
  "resolve_encryption_secret env_key encryption_key =
     or_else (opt_filter (\<lambda>value. value \<noteq> []) env_key)
       (let value = trim encryption_key in if value = [] then None else Some value)"

definition encrypt_value :: "crypto \<Rightarrow> bytes \<Rightarrow> string option \<Rightarrow> string \<Rightarrow> string + string" where
  "encrypt_value c nonce secret value =
     and_then (ok_or secret ''encryption key is not configured'') (\<lambda>secret.
     and_then (encrypt c nonce value (derive_key c secret)) (\<lambda>encrypted.
       Inr (ENCRYPTED_PREFIX @ encrypted)))"

definition decrypt_value :: "crypto \<Rightarrow> string option \<Rightarrow> string \<Rightarrow> string + string" where
  "decrypt_value c secret value =
     (let trimmed = trim value;
          has_prefix = starts_with ENCRYPTED_PREFIX trimmed;
          payload = unwrap_or (strip_prefix ENCRYPTED_PREFIX trimmed) trimmed
      in case secret of
           Some secret \<Rightarrow>
             (case decrypt c payload (derive_key c secret) of
                Inr plaintext \<Rightarrow> Inr plaintext
              | Inl e \<Rightarrow> if has_prefix then Inl (''failed to decrypt value: '' @ e) else Inr payload)
         | None \<Rightarrow> if has_prefix then Inl ''encryption key is not configured'' else Inr payload)"

section \<open>The fields of a service\<close>

text \<open>
  What the handlers take from outside: the cipher, the secret that \<open>resolve_encryption_secret\<close> found,
  the cron parser (the text of its error), and per service of the request the random bytes, the password
  hash with its random salt, the new id and the clock.
\<close>

record build_env =
  be_crypto :: crypto
  be_secret :: "string option"
  be_cron :: "string \<Rightarrow> string option"
  be_nonce :: "nat \<Rightarrow> bytes"
  be_hash_password :: "nat \<Rightarrow> string \<Rightarrow> string + string"
  be_new_id :: "nat \<Rightarrow> uuid"
  be_now :: "nat \<Rightarrow> timestamp"

definition normalize_optional_string :: "string option \<Rightarrow> string option" where
  "normalize_optional_string value =
     Option.bind value (\<lambda>value. let trimmed = trim value in if trimmed = [] then None else Some trimmed)"

definition parse_restart_policy :: "string option \<Rightarrow> restart_policy" where
  "parse_restart_policy value =
     (let v = to_lowercase (unwrap_or value ''always'') in
        if v \<in> {''never'', ''no''} then Never
        else if v \<in> {''onfailure'', ''on-failure'', ''on_failure''} then OnFailure
        else if v \<in> {''unless-stopped'', ''unless_stopped'', ''unlessstopped''} then UnlessStopped
        else Always)"

definition restart_policy_label :: "restart_policy \<Rightarrow> string" where
  "restart_policy_label value =
     (case value of
        Never \<Rightarrow> ''never'' | Always \<Rightarrow> ''always'' | OnFailure \<Rightarrow> ''on-failure'' | UnlessStopped \<Rightarrow> ''unless-stopped'')"

definition SECRET_MASK :: string where
  "SECRET_MASK = ''********''"

definition mask_secret_value :: "bool \<Rightarrow> string \<Rightarrow> string" where
  "mask_secret_value secret value = (if secret \<and> value \<noteq> [] then SECRET_MASK else value)"

definition parse_service_type :: "string \<Rightarrow> service_type option" where
  "parse_service_type value =
     (let v = to_ascii_lowercase (trim value) in
        if v \<in> {''web_service'', ''web-service'', ''webservice'', ''web''} then Some WebService
        else if v \<in> {''private_service'', ''private-service'', ''privateservice'', ''private''}
          then Some PrivateService
        else if v \<in> {''background_worker'', ''background-worker'', ''backgroundworker'', ''worker'', ''background''}
          then Some BackgroundWorker
        else if v \<in> {''cron_job'', ''cron-job'', ''cronjob'', ''cron''} then Some CronJob
        else None)"

definition resolve_service_type :: "service_request \<Rightarrow> container_service option \<Rightarrow> api_error + service_type" where
  "resolve_service_type request existing =
     (case sr_service_type request of
        Some service_type \<Rightarrow>
          ok_or (parse_service_type service_type)
            (400, ''invalid service type. use web_service, private_service, background_worker, or cron_job'')
      | None \<Rightarrow>
          if sr_expose_http request = Some True then Inr WebService
          else if sr_expose_http request = Some False then
            (if sr_port request = 0 then Inr BackgroundWorker else Inr PrivateService)
          else if sr_port request = 0 then Inr BackgroundWorker
          else Inr (unwrap_or (map_option s_service_type existing) PrivateService))"

definition validate_mount_name :: "string \<Rightarrow> bool" where
  "validate_mount_name name \<longleftrightarrow>
     name \<noteq> [] \<and> list_all (\<lambda>ch. is_ascii_alphanumeric ch \<or> ch = CHR ''-'' \<or> ch = CHR ''_'') name"

definition normalize_host_path :: "string option \<Rightarrow> api_error + string option" where
  "normalize_host_path value =
     (case normalize_optional_string value of
        None \<Rightarrow> Inr None
      | Some value \<Rightarrow>
          if \<not> is_absolute value then Inl (bad_request ''mount host_path must be an absolute path'')
          else if ParentDir \<in> set (components value) then Inl (bad_request (''mount host_path cannot contain '..'' @ [CHR 0x27]))
          else Inr (Some value))"

definition check_mount ::
  "service_mount list \<Rightarrow> bool \<Rightarrow> service_mount list \<Rightarrow> service_mount_request \<Rightarrow> api_error + service_mount" where
  "check_mount existing is_admin parsed mount =
     (let name = trim (mr_name mount); target = trim (mr_target mount) in
      if \<not> validate_mount_name name then
        Inl (400, ''invalid mount name. use letters, numbers, hyphens, or underscores'')
      else if \<not> starts_with ''/'' target then Inl (400, ''mount target must be an absolute container path'')
      else if name \<in> m_name ` set parsed then Inl (400, ''duplicate mount name: '' @ name)
      else if target \<in> m_target ` set parsed then Inl (400, ''duplicate mount target: '' @ target)
      else
        and_then (normalize_host_path (mr_host_path mount)) (\<lambda>host_path.
          let shared = unwrap_or (mr_shared mount) False in
          if shared \<and> host_path \<noteq> None then
            Inl (bad_request ''a host path mount cannot also be a shared volume'')
          else if host_path \<noteq> None \<and> \<not> is_admin
                  \<and> \<not> list_ex (\<lambda>e. m_name e = name \<and> m_host_path e = host_path) existing then
            Inl (forbidden ''only admins can mount host paths'')
          else
            Inr \<lparr> m_name = name, m_target = target, m_read_only = unwrap_or (mr_read_only mount) False,
                  m_host_path = host_path, m_shared = shared \<rparr>))"

definition build_service_mount_list ::
  "service_mount_request list option \<Rightarrow> service_mount list \<Rightarrow> bool \<Rightarrow> api_error + service_mount list" where
  "build_service_mount_list mounts existing is_admin =
     try_loop (check_mount existing is_admin) [] (unwrap_or mounts [])"

definition MAX_CONFIG_FILES :: nat where
  "MAX_CONFIG_FILES = 32"

definition MAX_CONFIG_FILE_BYTES :: nat where
  "MAX_CONFIG_FILE_BYTES = 256 * 1024"

definition shadowed_by :: "service_mount \<Rightarrow> string \<Rightarrow> bool" where
  "shadowed_by mount path =
     (let target = trim_end_char CHR ''/'' (m_target mount)
      in path = target \<or> starts_with (target @ ''/'') path)"

definition check_config_file ::
  "service_mount list \<Rightarrow> config_file list \<Rightarrow> config_file_request \<Rightarrow> api_error + config_file" where
  "check_config_file mounts parsed file =
     (let path = trim (fr_path file);
          valid = starts_with ''/'' path \<and> \<not> ends_with ''/'' path \<and> ParentDir \<notin> set (components path)
      in if \<not> valid then
           Inl (bad_request (''config file path must be an absolute file path: '' @ debug_str path))
         else if str_len (fr_content file) > MAX_CONFIG_FILE_BYTES then
           Inl (bad_request (''config file '' @ path @ '' is larger than ''
                  @ show_nat (MAX_CONFIG_FILE_BYTES div 1024) @ '' KiB''))
         else if path \<in> cf_path ` set parsed then
           Inl (bad_request (''duplicate config file path: '' @ path))
         else if list_ex (\<lambda>mount. shadowed_by mount path) mounts then
           Inl (bad_request (''config file '' @ path @ '' is inside a volume; put it outside the volume's path''))
         else Inr \<lparr> cf_path = path, cf_content = fr_content file \<rparr>)"

definition build_config_files ::
  "config_file_request list \<Rightarrow> service_mount list \<Rightarrow> api_error + config_file list" where
  "build_config_files files mounts =
     (if length files > MAX_CONFIG_FILES then
        Inl (bad_request (''a service can have at most '' @ show_nat MAX_CONFIG_FILES @ '' config files''))
      else try_loop (check_config_file mounts) [] files)"

definition config_file_request :: "config_file \<Rightarrow> config_file_request" where
  "config_file_request file = \<lparr> fr_path = cf_path file, fr_content = cf_content file \<rparr>"

definition MAX_NOTES_CHARS :: nat where
  "MAX_NOTES_CHARS = 4000"

definition resolve_service_notes :: "string option option \<Rightarrow> string option \<Rightarrow> api_error + string option" where
  "resolve_service_notes value existing =
     (case value of
        None \<Rightarrow> Inr existing
      | Some value \<Rightarrow>
          let notes = normalize_optional_string value in
          if is_some_and notes (\<lambda>notes. length notes > MAX_NOTES_CHARS) then
            Inl (bad_request (''notes must be at most '' @ show_nat MAX_NOTES_CHARS @ '' characters''))
          else Inr notes)"

definition login_gate_scope_name :: "login_gate_scope \<Rightarrow> string" where
  "login_gate_scope_name scope = (case scope of OwnerScope \<Rightarrow> ''owner'' | AllUsers \<Rightarrow> ''all_users'')"

definition resolve_login_gate ::
  "login_gate_request option option \<Rightarrow> login_gate option \<Rightarrow> api_error + login_gate option" where
  "resolve_login_gate requested existing =
     (case requested of
        None \<Rightarrow> Inr existing
      | Some None \<Rightarrow> Inr None
      | Some (Some request) \<Rightarrow>
          (case map_option trim (lr_scope request) of
             None \<Rightarrow> Inr (Some \<lparr> lg_scope = OwnerScope \<rparr>)
           | Some scope \<Rightarrow>
               if scope = [] \<or> scope = ''owner'' then Inr (Some \<lparr> lg_scope = OwnerScope \<rparr>)
               else if scope = ''all_users'' then Inr (Some \<lparr> lg_scope = AllUsers \<rparr>)
               else Inl (bad_request (''unknown login gate scope '' @ scope @ ''; use owner or all_users''))))"

definition resolve_service_basic_auth ::
  "(string \<Rightarrow> string + string) \<Rightarrow> basic_auth_request option option \<Rightarrow> basic_auth option \<Rightarrow>
     api_error + basic_auth option" where
  "resolve_service_basic_auth hash value existing =
     (case value of
        None \<Rightarrow> Inr existing
      | Some None \<Rightarrow> Inr None
      | Some (Some request) \<Rightarrow>
          (case normalize_optional_string (br_username request) of
             None \<Rightarrow> Inr None
           | Some username \<Rightarrow>
               if CHR '':'' \<in> set username then Inl (bad_request (''basic auth username cannot contain ':'' @ [CHR 0x27]))
               else
                 and_then
                   (case opt_filter (\<lambda>password. password \<noteq> []) (br_password request) of
                      Some password \<Rightarrow>
                        (case hash password of Inl e \<Rightarrow> Inl (internal_error e) | Inr password_hash \<Rightarrow> Inr password_hash)
                    | None \<Rightarrow>
                        ok_or (map_option bau_password_hash existing)
                          (bad_request ''basic auth password is required when enabling it''))
                   (\<lambda>password_hash.
                      Inr (Some \<lparr> bau_username = username, bau_password_hash = password_hash \<rparr>))))"

definition check_port_mapping ::
  "port_mapping list \<Rightarrow> port_mapping_request \<Rightarrow> api_error + port_mapping" where
  "check_port_mapping mappings request =
     (if pr_host_port request = 0 \<or> pr_container_port request = 0 then
        Inl (bad_request ''port mapping ports must be between 1 and 65535'')
      else
        and_then
          (case map_option trim (pr_protocol request) of
             None \<Rightarrow> Inr Tcp
           | Some value \<Rightarrow>
               if value = [] then Inr Tcp
               else ok_or (port_protocol_parse value) (bad_request ''port mapping protocol must be tcp or udp''))
          (\<lambda>protocol.
             if (pr_host_port request, protocol) \<in> (\<lambda>m. (pm_host_port m, pm_protocol m)) ` set mappings then
               Inl (bad_request (''duplicate host port mapping: '' @ show_word (pr_host_port request) @ ''/''
                      @ port_protocol_as_str protocol))
             else
               Inr \<lparr> pm_host_port = pr_host_port request, pm_container_port = pr_container_port request,
                     pm_protocol = protocol \<rparr>))"

definition resolve_port_mappings ::
  "port_mapping_request list option \<Rightarrow> port_mapping list \<Rightarrow> service_type \<Rightarrow> api_error + port_mapping list" where
  "resolve_port_mappings value existing service_type =
     (case value of
        None \<Rightarrow> Inr existing
      | Some requests \<Rightarrow>
          and_then (try_loop check_port_mapping [] requests) (\<lambda>mappings.
            if mappings \<noteq> [] \<and> service_type = CronJob then
              Inl (bad_request ''cron jobs cannot publish host ports'')
            else Inr mappings))"

definition normalize_cron_schedule ::
  "(string \<Rightarrow> string option) \<Rightarrow> string option \<Rightarrow> string option \<Rightarrow> api_error + string option" where
  "normalize_cron_schedule cron value existing =
     (case value of
        Some value \<Rightarrow>
          let trimmed = trim value in
          if trimmed = [] then Inr None
          else (case cron trimmed of
                  Some e \<Rightarrow> Inl (400, ''invalid cron schedule: '' @ e)
                | None \<Rightarrow> Inr (Some trimmed))
      | None \<Rightarrow> Inr existing)"

definition normalize_optional_args :: "string list option \<Rightarrow> string list option \<Rightarrow> string list option" where
  "normalize_optional_args value existing =
     (case value of
        Some value \<Rightarrow>
          let normalized = filter (\<lambda>entry. entry \<noteq> []) (map trim value)
          in if normalized = [] then None else Some normalized
      | None \<Rightarrow> existing)"

definition check_additional_port :: "u16 \<Rightarrow> u16 list \<Rightarrow> u16 \<Rightarrow> api_error + u16" where
  "check_additional_port primary_port normalized port =
     (if port = 0 then Inl (400, ''additional service ports must be between 1 and 65535'')
      else if port = primary_port then
        Inl (400, ''additional port '' @ show_word port @ '' duplicates the primary port'')
      else if port \<in> set normalized then Inl (400, ''duplicate additional port: '' @ show_word port)
      else Inr port)"

definition normalize_additional_ports :: "u16 list option \<Rightarrow> u16 list \<Rightarrow> u16 \<Rightarrow> api_error + u16 list" where
  "normalize_additional_ports value existing primary_port =
     try_loop (check_additional_port primary_port) [] (unwrap_or value existing)"

definition normalize_working_dir :: "string option \<Rightarrow> string option \<Rightarrow> api_error + string option" where
  "normalize_working_dir value existing =
     (case value of
        Some value \<Rightarrow>
          let trimmed = trim value in
          if trimmed = [] then Inr None
          else if \<not> starts_with ''/'' trimmed then
            Inl (400, ''working directory must be an absolute container path'')
          else Inr (Some trimmed)
      | None \<Rightarrow> Inr existing)"

definition normalize_repo_relative_path ::
  "string \<Rightarrow> string option \<Rightarrow> string option \<Rightarrow> api_error + string option" where
  "normalize_repo_relative_path field value existing =
     (case value of
        Some value \<Rightarrow>
          let trimmed = trim value in
          if trimmed = [] then Inr None
          else if is_absolute trimmed then Inl (400, field @ '' must be relative to the repository root'')
          else if list_ex (\<lambda>component. component = ParentDir \<or> component = RootDir) (components trimmed) then
            Inl (400, field @ '' cannot contain parent traversal or absolute components'')
          else Inr (Some trimmed)
      | None \<Rightarrow> Inr existing)"

definition resolve_masked_value ::
  "string \<Rightarrow> bool option \<Rightarrow> (string \<times> bool) option \<Rightarrow> string \<Rightarrow> string \<Rightarrow> api_error + (string \<times> bool)" where
  "resolve_masked_value value secret existing label key =
     (if value = SECRET_MASK \<and> is_some_and existing snd then
        Inr (fst (the existing), True)
      else
        let secret = unwrap_or secret (unwrap_or (map_option snd existing) False) in
        if secret \<and> value = SECRET_MASK then
          and_then (ok_or (map_option fst existing)
                     (400, ''missing original value for masked '' @ label @ '' '' @ key))
            (\<lambda>existing_value. Inr (existing_value, secret))
        else Inr (value, secret))"

text \<open>
  \<open>build_service_env_vars\<close> and \<open>build_app_env_vars\<close> differ in the words of their errors, \<open>label\<close> here.
\<close>

definition check_env_var ::
  "string \<Rightarrow> env_var list \<Rightarrow> env_var list \<Rightarrow> env_var_request \<Rightarrow> api_error + env_var" where
  "check_env_var label existing env_vars request =
     (let key = trim (er_key request) in
      if key = [] then Inl (400, label @ '' key cannot be empty'')
      else if key \<in> ev_key ` set env_vars then Inl (400, ''duplicate '' @ label @ '' key: '' @ key)
      else
        and_then
          (resolve_masked_value (er_value request) (er_secret request)
             (map_option (\<lambda>item. (ev_value item, ev_secret item)) (collect_map ev_key existing key)) label key)
          (\<lambda>(value, secret). Inr \<lparr> ev_key = key, ev_value = value, ev_secret = secret \<rparr>))"

definition build_env_vars ::
  "string \<Rightarrow> env_var_request list option \<Rightarrow> env_var list \<Rightarrow> api_error + env_var list" where
  "build_env_vars label requests existing =
     (case requests of
        None \<Rightarrow> Inr existing
      | Some requests \<Rightarrow> try_loop (check_env_var label existing) [] requests)"

definition build_service_env_vars :: "env_var_request list option \<Rightarrow> env_var list \<Rightarrow> api_error + env_var list" where
  "build_service_env_vars = build_env_vars ''service env var''"

definition build_app_env_vars :: "env_var_request list option \<Rightarrow> env_var list \<Rightarrow> api_error + env_var list" where
  "build_app_env_vars = build_env_vars ''shared env var''"

definition check_build_arg :: "build_arg list \<Rightarrow> build_arg list \<Rightarrow> env_var_request \<Rightarrow> api_error + build_arg" where
  "check_build_arg existing build_args request =
     (let key = trim (er_key request) in
      if key = [] then Inl (400, ''service build arg key cannot be empty'')
      else if key \<in> ba_key ` set build_args then Inl (400, ''duplicate service build arg key: '' @ key)
      else
        and_then
          (resolve_masked_value (er_value request) (er_secret request)
             (map_option (\<lambda>item. (ba_value item, ba_secret item)) (collect_map ba_key existing key))
             ''service build arg'' key)
          (\<lambda>(value, secret). Inr \<lparr> ba_key = key, ba_value = value, ba_secret = secret \<rparr>))"

definition build_service_build_args ::
  "env_var_request list option \<Rightarrow> build_arg list \<Rightarrow> api_error + build_arg list" where
  "build_service_build_args requests existing =
     (case requests of
        None \<Rightarrow> Inr existing
      | Some requests \<Rightarrow> try_loop (check_build_arg existing) [] requests)"

definition build_service_registry_auth ::
  "(string \<Rightarrow> string + string) \<Rightarrow> service_registry_auth option \<Rightarrow> service_registry_auth_request option \<Rightarrow>
     api_error + service_registry_auth option" where
  "build_service_registry_auth encrypt_password existing_auth registry_auth =
     (case registry_auth of
        None \<Rightarrow> Inr existing_auth
      | Some registry_auth \<Rightarrow>
          let server = normalize_optional_string (rr_server registry_auth);
              username = normalize_optional_string (rr_username registry_auth);
              password = normalize_optional_string (rr_password registry_auth)
          in if server = None \<and> username = None \<and> password = None then Inr None
             else
               and_then (ok_or username (400, ''registry username is required when registry auth is set'')) (\<lambda>username.
               and_then
                 (if password = None \<or> password = Some SECRET_MASK then
                    ok_or (map_option ra_password existing_auth)
                      (400, ''registry password is required for new registry auth'')
                  else (case encrypt_password (the password) of Inl e \<Rightarrow> Inl (500, e) | Inr stored \<Rightarrow> Inr stored))
                 (\<lambda>password.
                    Inr (Some \<lparr> ra_server = server, ra_username = username, ra_password = password \<rparr>))))"

section \<open>Domains\<close>

definition normalize_domain :: "string \<Rightarrow> string option" where
  "normalize_domain input =
     (let trimmed = trim_end_char CHR ''.''
            (split_first CHR ''/'' (trim_start_matches ''http://'' (trim_start_matches ''https://'' (trim input))))
      in if trimmed = [] then None else Some (to_lowercase trimmed))"

definition normalize_domains :: "string list \<Rightarrow> string list" where
  "normalize_domains domains =
     foldl (\<lambda>normalized domain. case normalize_domain domain of
              None \<Rightarrow> normalized
            | Some value \<Rightarrow> push_new normalized value) [] domains"

definition normalize_http_only_domains :: "string list \<Rightarrow> string list \<Rightarrow> string list" where
  "normalize_http_only_domains http_only_domains domains =
     filter (\<lambda>domain. domain \<in> set domains) (normalize_domains http_only_domains)"

definition merge_domains :: "string option \<Rightarrow> string list option \<Rightarrow> string list" where
  "merge_domains domain domains =
     normalize_domains (unwrap_or domains [] @ (case domain of None \<Rightarrow> [] | Some d \<Rightarrow> [d]))"

definition requested_service_domains :: "service_request \<Rightarrow> string list option" where
  "requested_service_domains request =
     (if sr_domain request = None \<and> sr_domains request = None then None
      else Some (merge_domains (sr_domain request) (sr_domains request)))"

definition requested_http_only_domains :: "service_request \<Rightarrow> string list option" where
  "requested_http_only_domains request = map_option normalize_domains (sr_http_only_domains request)"

section \<open>Services\<close>

text \<open>
  The rules on the combination of fields, in the order of the loop body: what background workers and cron
  jobs may not have, and what cron jobs need.
\<close>

definition check_service_kind ::
  "service_request \<Rightarrow> service_type \<Rightarrow> string list option \<Rightarrow> string option \<Rightarrow> api_error + unit" where
  "check_service_kind request service_type requested_domains schedule =
     (let port = sr_port request;
          background = service_type \<in> {BackgroundWorker, CronJob};
          with_domains = is_some_and requested_domains (\<lambda>domains. domains \<noteq> [])
      in if background \<and> sr_expose_http request = Some True then
           Inl (400, ''background workers cannot receive public http traffic'')
         else if background \<and> with_domains then Inl (400, ''only web services can use custom domains'')
         else if \<not> background \<and> port = 0 then Inl (400, ''web and private services require a container port'')
         else if service_type = PrivateService \<and> with_domains then
           Inl (400, ''only web services can use custom domains'')
         else if background \<and> port = 0 \<and> sr_health_check request \<noteq> None then
           Inl (400, ''background workers need a port before enabling http health checks'')
         else if service_type = CronJob then
           (if port \<noteq> 0 then Inl (400, ''cron jobs must use port 0'')
            else if unwrap_or (sr_replicas request) 1 \<noteq> 1 then Inl (400, ''cron jobs support exactly one replica'')
            else if is_some_and (sr_additional_ports request) (\<lambda>ports. ports \<noteq> []) then
              Inl (400, ''cron jobs cannot expose additional ports'')
            else if schedule = None then Inl (400, ''cron jobs require a schedule'')
            else Inr ())
         else if schedule \<noteq> None then Inl (400, ''schedule is only supported for cron jobs'')
         else Inr ())"

text \<open>
  The assignments of the loop body. Every field is computed from the request and from the field's value
  before the assignment.
\<close>

definition apply_service_request ::
  "build_env \<Rightarrow> nat \<Rightarrow> uuid \<Rightarrow> bool \<Rightarrow> service_request \<Rightarrow> string \<Rightarrow> service_type \<Rightarrow> string list option \<Rightarrow>
     string list option \<Rightarrow> string option \<Rightarrow> container_service \<Rightarrow> api_error + container_service" where
  "apply_service_request env n app_id is_admin request service_name service_type requested_domains
     requested_http_only schedule service =
     (let service = service\<lparr> s_app_id := app_id, s_name := service_name, s_image := unwrap_or (sr_image request) [],
                             s_service_type := service_type, s_port := sr_port request \<rparr>;
          service = service\<lparr> s_expose_http := is_public_http service \<rparr>
      in
      and_then (normalize_additional_ports (sr_additional_ports request) (s_additional_ports service) (s_port service))
        (\<lambda>additional_ports.
      let service = service\<lparr> s_additional_ports := additional_ports, s_replicas := unwrap_or (sr_replicas request) 1,
                             s_memory_limit := map_option (\<lambda>m. m * 1024 * 1024) (sr_memory_limit_mb request),
                             s_cpu_limit := sr_cpu_limit request, s_depends_on := unwrap_or (sr_depends_on request) [] \<rparr>
      in
      and_then (build_service_registry_auth (encrypt_value (be_crypto env) (be_nonce env n) (be_secret env))
                  (s_registry_auth service) (sr_registry_auth request)) (\<lambda>registry_auth.
      and_then (build_service_env_vars (sr_env_vars request) (s_env_vars service)) (\<lambda>env_vars.
      let domains = (if service_type = WebService
                     then unwrap_or requested_domains (service_custom_domains service) else []);
          service = service\<lparr> s_registry_auth := registry_auth, s_env_vars := env_vars, s_domains := domains \<rparr>;
          http_only = (if service_type = WebService
                       then normalize_http_only_domains
                              (unwrap_or requested_http_only (service_http_only_domains service)) (s_domains service)
                       else []);
          service = service\<lparr> s_http_only_domains := http_only \<rparr>
      in
      and_then (normalize_repo_relative_path ''service build context'' (sr_build_context request)
                  (s_build_context service)) (\<lambda>build_context.
      and_then (normalize_repo_relative_path ''service dockerfile path'' (sr_dockerfile_path request)
                  (s_dockerfile_path service)) (\<lambda>dockerfile_path.
      let build_target = (case sr_build_target request of
                            Some build_target \<Rightarrow> normalize_optional_string (Some build_target)
                          | None \<Rightarrow> s_build_target service)
      in
      and_then (build_service_build_args (sr_build_args request) (s_build_args service)) (\<lambda>build_args.
      let service = service\<lparr> s_build_context := build_context, s_dockerfile_path := dockerfile_path,
                             s_build_target := build_target, s_build_args := build_args,
                             s_command := normalize_optional_args (sr_command request) (s_command service),
                             s_entrypoint := normalize_optional_args (sr_entrypoint request) (s_entrypoint service) \<rparr>
      in
      and_then (normalize_working_dir (sr_working_dir request) (s_working_dir service)) (\<lambda>working_dir.
      and_then (build_service_mount_list (sr_mounts request) (s_mounts service) is_admin) (\<lambda>mounts.
      and_then (resolve_service_notes (sr_notes request) (s_notes service)) (\<lambda>notes.
      and_then (resolve_service_basic_auth (be_hash_password env n) (sr_basic_auth request) (s_basic_auth service))
        (\<lambda>basic_auth.
      and_then (resolve_login_gate (sr_login_gate request) (s_login_gate service)) (\<lambda>login_gate.
      if basic_auth \<noteq> None \<and> login_gate \<noteq> None then
        Inl (bad_request (''service '' @ s_name service @ '' can use basic auth or the containr login, not both''))
      else
      and_then (resolve_port_mappings (sr_port_mappings request) (s_port_mappings service) service_type)
        (\<lambda>port_mappings.
      let files = unwrap_or (sr_files request) (map config_file_request (s_files service))
      in
      and_then (build_config_files files mounts) (\<lambda>files.
      Inr (service\<lparr> s_working_dir := working_dir, s_schedule := schedule, s_mounts := mounts, s_notes := notes,
                    s_basic_auth := basic_auth, s_login_gate := login_gate, s_port_mappings := port_mappings,
                    s_files := files,
                    s_health_check := map_option (\<lambda>hc. \<lparr> hc_path = hr_path hc,
                        hc_interval_secs = unwrap_or (hr_interval_secs hc) 30,
                        hc_timeout_secs = unwrap_or (hr_timeout_secs hc) 5,
                        hc_retries = unwrap_or (hr_retries hc) 3 \<rparr>) (sr_health_check request),
                    s_restart_policy := parse_restart_policy (sr_restart_policy request),
                    s_updated_at := be_now env n \<rparr>)))))))))))))))"

text \<open>One round of the loop. A new service starts from \<open>ContainerService::new\<close>.\<close>

definition build_service ::
  "build_env \<Rightarrow> uuid \<Rightarrow> container_service list \<Rightarrow> bool \<Rightarrow> container_service list \<Rightarrow> service_request \<Rightarrow>
     api_error + container_service" where
  "build_service env app_id existing_services is_admin services request =
     (let n = length services; service_name = trim (sr_name request) in
      if service_name = [] then Inl (400, ''service name cannot be empty'')
      else if service_name \<in> s_name ` set services then Inl (400, ''duplicate service name: '' @ service_name)
      else
        let service = unwrap_or (collect_map s_name existing_services service_name)
              (container_service_new (be_new_id env n) (be_now env n) app_id service_name
                 (unwrap_or (sr_image request) []) (sr_port request))
        in
        and_then (resolve_service_type request (Some service)) (\<lambda>service_type.
        let requested_domains = requested_service_domains request;
            requested_http_only = requested_http_only_domains request
        in
        and_then (normalize_cron_schedule (be_cron env) (sr_schedule request) (s_schedule service)) (\<lambda>schedule.
        and_then (check_service_kind request service_type requested_domains schedule) (\<lambda>_.
          apply_service_request env n app_id is_admin request service_name service_type requested_domains
            requested_http_only schedule service))))"

definition build_services ::
  "build_env \<Rightarrow> uuid \<Rightarrow> container_service list \<Rightarrow> service_request list \<Rightarrow> bool \<Rightarrow>
     api_error + container_service list" where
  "build_services env app_id existing_services requests is_admin =
     (if requests = [] then Inl (400, ''services must define at least one service'')
      else try_loop (build_service env app_id existing_services is_admin) [] requests)"

section \<open>The request of a stored service\<close>

definition mount_request_from_model :: "service_mount \<Rightarrow> service_mount_request" where
  "mount_request_from_model mount =
     \<lparr> mr_name = m_name mount, mr_target = m_target mount, mr_read_only = Some (m_read_only mount),
       mr_host_path = m_host_path mount, mr_shared = Some (m_shared mount) \<rparr>"

definition env_var_request_from_model :: "env_var \<Rightarrow> env_var_request" where
  "env_var_request_from_model v =
     \<lparr> er_key = ev_key v, er_value = mask_secret_value (ev_secret v) (ev_value v), er_secret = Some (ev_secret v) \<rparr>"

definition build_arg_request_from_model :: "build_arg \<Rightarrow> env_var_request" where
  "build_arg_request_from_model v =
     \<lparr> er_key = ba_key v, er_value = mask_secret_value (ba_secret v) (ba_value v), er_secret = Some (ba_secret v) \<rparr>"

text \<open>\<open>if xs.is_empty() { None } else { Some(xs.map(f)) }\<close>.\<close>

definition some_unless_empty :: "('a \<Rightarrow> 'b) \<Rightarrow> 'a list \<Rightarrow> 'b list option" where
  "some_unless_empty f xs = (if xs = [] then None else Some (map f xs))"

definition service_request_from_model :: "container_service \<Rightarrow> service_request" where
  "service_request_from_model s =
     \<lparr> sr_name = s_name s,
       sr_image = normalize_optional_string (Some (s_image s)),
       sr_service_type = Some (service_type_name (s_service_type s)),
       sr_port = s_port s,
       sr_expose_http = Some (s_expose_http s),
       sr_domains = some_unless_empty (\<lambda>d. d) (s_domains s),
       sr_domain = None,
       sr_http_only_domains = some_unless_empty (\<lambda>d. d) (service_http_only_domains s),
       sr_additional_ports = some_unless_empty (\<lambda>p. p) (s_additional_ports s),
       sr_replicas = Some (s_replicas s),
       sr_memory_limit_mb = map_option (\<lambda>value. value div 1024 div 1024) (s_memory_limit s),
       sr_cpu_limit = s_cpu_limit s,
       sr_depends_on = some_unless_empty (\<lambda>d. d) (s_depends_on s),
       sr_health_check = map_option (\<lambda>hc. \<lparr> hr_path = hc_path hc, hr_interval_secs = Some (hc_interval_secs hc),
           hr_timeout_secs = Some (hc_timeout_secs hc), hr_retries = Some (hc_retries hc) \<rparr>) (s_health_check s),
       sr_restart_policy = Some (restart_policy_label (s_restart_policy s)),
       sr_registry_auth = map_option (\<lambda>auth. \<lparr> rr_server = ra_server auth, rr_username = Some (ra_username auth),
           rr_password = Some (mask_secret_value True (ra_password auth)) \<rparr>) (s_registry_auth s),
       sr_env_vars = some_unless_empty env_var_request_from_model (s_env_vars s),
       sr_build_context = s_build_context s,
       sr_dockerfile_path = s_dockerfile_path s,
       sr_build_target = s_build_target s,
       sr_build_args = some_unless_empty build_arg_request_from_model (s_build_args s),
       sr_command = s_command s,
       sr_entrypoint = s_entrypoint s,
       sr_working_dir = s_working_dir s,
       sr_schedule = s_schedule s,
       sr_mounts = some_unless_empty mount_request_from_model (s_mounts s),
       sr_notes = Some (s_notes s),
       sr_basic_auth = Some (map_option (\<lambda>auth. \<lparr> br_username = Some (bau_username auth), br_password = None \<rparr>)
           (s_basic_auth s)),
       sr_login_gate = Some (map_option (\<lambda>gate. \<lparr> lr_scope = Some (login_gate_scope_name (lg_scope gate)) \<rparr>)
           (s_login_gate s)),
       sr_port_mappings = Some (map (\<lambda>m. \<lparr> pr_host_port = pm_host_port m, pr_container_port = pm_container_port m,
           pr_protocol = Some (port_protocol_as_str (pm_protocol m)) \<rparr>) (s_port_mappings s)),
       sr_files = Some (map config_file_request (s_files s)) \<rparr>"

section \<open>Settings responses\<close>

record editable_env_var_response =
  vr_key :: string
  vr_value :: string
  vr_secret :: bool

definition masked_env_var_response :: "env_var \<Rightarrow> editable_env_var_response" where
  "masked_env_var_response v =
     \<lparr> vr_key = ev_key v, vr_value = mask_secret_value (ev_secret v) (ev_value v), vr_secret = ev_secret v \<rparr>"

definition masked_build_arg_response :: "build_arg \<Rightarrow> editable_env_var_response" where
  "masked_build_arg_response v =
     \<lparr> vr_key = ba_key v, vr_value = mask_secret_value (ba_secret v) (ba_value v), vr_secret = ba_secret v \<rparr>"

record service_settings_service_response =
  ss_name :: string
  ss_image :: "string option"
  ss_service_type :: string
  ss_port :: u16
  ss_expose_http :: bool
  ss_domains :: "string list"
  ss_http_only_domains :: "string list"
  ss_additional_ports :: "u16 list"
  ss_replicas :: u32
  ss_memory_limit_mb :: "u64 option"
  ss_cpu_limit :: "f64 option"
  ss_depends_on :: "string list"
  ss_health_check :: "health_check option"
  ss_restart_policy :: string
  ss_registry_auth :: "(string option \<times> string \<times> string) option"
  ss_env_vars :: "editable_env_var_response list"
  ss_build_context :: "string option"
  ss_dockerfile_path :: "string option"
  ss_build_target :: "string option"
  ss_build_args :: "editable_env_var_response list"
  ss_command :: "string list option"
  ss_entrypoint :: "string list option"
  ss_working_dir :: "string option"
  ss_schedule :: "string option"
  ss_mounts :: "service_mount_request list"
  ss_notes :: "string option"
  ss_basic_auth :: "string option"
  ss_login_gate :: "string option"
  ss_port_mappings :: "(u16 \<times> u16 \<times> string) list"
  ss_files :: "config_file_request list"

definition service_settings_response :: "container_service \<Rightarrow> service_settings_service_response" where
  "service_settings_response s =
     \<lparr> ss_name = s_name s,
       ss_image = normalize_optional_string (Some (s_image s)),
       ss_service_type = service_type_name (s_service_type s),
       ss_port = s_port s,
       ss_expose_http = s_expose_http s,
       ss_domains = s_domains s,
       ss_http_only_domains = service_http_only_domains s,
       ss_additional_ports = s_additional_ports s,
       ss_replicas = s_replicas s,
       ss_memory_limit_mb = map_option (\<lambda>value. value div 1024 div 1024) (s_memory_limit s),
       ss_cpu_limit = s_cpu_limit s,
       ss_depends_on = s_depends_on s,
       ss_health_check = s_health_check s,
       ss_restart_policy = restart_policy_label (s_restart_policy s),
       ss_registry_auth = map_option (\<lambda>auth. (ra_server auth, ra_username auth, mask_secret_value True (ra_password auth)))
         (s_registry_auth s),
       ss_env_vars = map masked_env_var_response (s_env_vars s),
       ss_build_context = s_build_context s,
       ss_dockerfile_path = s_dockerfile_path s,
       ss_build_target = s_build_target s,
       ss_build_args = map masked_build_arg_response (s_build_args s),
       ss_command = s_command s,
       ss_entrypoint = s_entrypoint s,
       ss_working_dir = s_working_dir s,
       ss_schedule = s_schedule s,
       ss_mounts = map mount_request_from_model (s_mounts s),
       ss_notes = s_notes s,
       ss_basic_auth = map_option bau_username (s_basic_auth s),
       ss_login_gate = map_option (\<lambda>gate. login_gate_scope_name (lg_scope gate)) (s_login_gate s),
       ss_port_mappings = map (\<lambda>m. (pm_host_port m, pm_container_port m, port_protocol_as_str (pm_protocol m)))
         (s_port_mappings s),
       ss_files = map config_file_request (s_files s) \<rparr>"

end
