(* ===== verification/Service_Rules.thy ===== *)
theory Service_Rules
  imports Service_Requests
begin

text \<open>
  What \<open>build_services\<close> guarantees. Each field of a service has a rule: a value the check lets through
  is well formed, and resubmitting a well-formed value, with its secrets masked, gives it back. The
  locale \<open>field_rule\<close> states this contract; every check of \<open>Service_Requests\<close> is an interpretation of it.
  From the rules follow: built services are well formed, an update of one service leaves the others of
  the project as they are, host paths come from administrators only, and responses do not depend on
  secrets.
\<close>

section \<open>The contract of a field\<close>

locale field_rule =
  fixes resolve :: "'r \<Rightarrow> 'v \<Rightarrow> 'e + 'v"
    and request_of :: "'v \<Rightarrow> 'r"
    and ok :: "'v \<Rightarrow> bool"
  assumes sound: "ok old \<Longrightarrow> resolve r old = Inr v \<Longrightarrow> ok v"
    and resubmit: "ok v \<Longrightarrow> resolve (request_of v) v = Inr v"
begin

text \<open>A value that passed the check passes it again, unchanged.\<close>

lemma settled: "ok old \<Longrightarrow> resolve r old = Inr v \<Longrightarrow> resolve (request_of v) v = Inr v"
  by (rule resubmit) (rule sound)

end

section \<open>Well-formed fields\<close>

lemma guard_eq_Inr: "(if b then Inl e else r) = Inr x \<longleftrightarrow> \<not> b \<and> r = Inr x"
  by simp

lemma pred_option_code [code]: "pred_option P None = True" "pred_option P (Some x) = P x"
  by simp_all

definition trimmed :: "string \<Rightarrow> bool" where
  "trimmed s \<longleftrightarrow> s \<noteq> [] \<and> trim s = s"

lemma trimmed_trim [simp]: "trimmed (trim s) \<longleftrightarrow> trim s \<noteq> []"
  by (simp add: trimmed_def)

lemma trimmedD: "trimmed s \<Longrightarrow> trim s = s" "trimmed s \<Longrightarrow> s \<noteq> []"
  by (simp_all add: trimmed_def)

lemma normalize_optional_string_simps [simp]:
  "normalize_optional_string None = None"
  "normalize_optional_string (Some t) = (if trim t = [] then None else Some (trim t))"
  by (simp_all add: normalize_optional_string_def Let_def)

lemma normalize_optional_string_trimmed [simp]:
  "pred_option trimmed (normalize_optional_string v)"
  "pred_option trimmed v \<Longrightarrow> normalize_optional_string v = v"
  by (cases v; auto simp: trimmed_def)+

lemma normalize_optional_stringD [dest]: "normalize_optional_string v = Some s \<Longrightarrow> trimmed s"
  using normalize_optional_string_trimmed(1) [of v] by simp

definition notes_ok :: "string option \<Rightarrow> bool" where
  "notes_ok = pred_option (\<lambda>n. trimmed n \<and> length n \<le> MAX_NOTES_CHARS)"

definition basic_auth_ok :: "basic_auth option \<Rightarrow> bool" where
  "basic_auth_ok = pred_option (\<lambda>a. trimmed (bau_username a) \<and> CHR '':'' \<notin> set (bau_username a))"

definition working_dir_ok :: "string option \<Rightarrow> bool" where
  "working_dir_ok = pred_option (\<lambda>d. trimmed d \<and> starts_with ''/'' d)"

definition repo_path_rule :: "string option \<Rightarrow> bool" where
  "repo_path_rule = pred_option (\<lambda>p. trimmed p \<and> \<not> is_absolute p \<and> ParentDir \<notin> set (components p))"

definition schedule_ok :: "(string \<Rightarrow> string option) \<Rightarrow> string option \<Rightarrow> bool" where
  "schedule_ok cron = pred_option (\<lambda>s. trimmed s \<and> cron s = None)"

definition args_ok :: "string list option \<Rightarrow> bool" where
  "args_ok = pred_option (\<lambda>args. args \<noteq> [] \<and> list_all trimmed args)"

definition registry_auth_ok :: "service_registry_auth option \<Rightarrow> bool" where
  "registry_auth_ok = pred_option (\<lambda>a. trimmed (ra_username a) \<and> pred_option trimmed (ra_server a))"

definition env_vars_ok :: "env_var list \<Rightarrow> bool" where
  "env_vars_ok vs \<longleftrightarrow> distinct (map ev_key vs) \<and> list_all (\<lambda>v. trimmed (ev_key v)) vs"

definition build_args_ok :: "build_arg list \<Rightarrow> bool" where
  "build_args_ok vs \<longleftrightarrow> distinct (map ba_key vs) \<and> list_all (\<lambda>v. trimmed (ba_key v)) vs"

definition additional_ports_ok :: "u16 \<Rightarrow> u16 list \<Rightarrow> bool" where
  "additional_ports_ok port ports \<longleftrightarrow> distinct ports \<and> 0 \<notin> set ports \<and> port \<notin> set ports"

definition port_key :: "port_mapping \<Rightarrow> u16 \<times> port_protocol" where
  "port_key m = (pm_host_port m, pm_protocol m)"

definition port_mappings_ok :: "port_mapping list \<Rightarrow> bool" where
  "port_mappings_ok ms \<longleftrightarrow>
     distinct (map port_key ms) \<and> list_all (\<lambda>m. pm_host_port m \<noteq> 0 \<and> pm_container_port m \<noteq> 0) ms"

definition mount_ok :: "service_mount \<Rightarrow> bool" where
  "mount_ok m \<longleftrightarrow>
     trim (m_name m) = m_name m \<and> validate_mount_name (m_name m)
     \<and> trim (m_target m) = m_target m \<and> starts_with ''/'' (m_target m)
     \<and> pred_option (\<lambda>p. trimmed p \<and> is_absolute p \<and> ParentDir \<notin> set (components p)) (m_host_path m)
     \<and> (m_shared m \<longrightarrow> m_host_path m = None)"

definition mounts_ok :: "service_mount list \<Rightarrow> bool" where
  "mounts_ok ms \<longleftrightarrow> distinct (map m_name ms) \<and> distinct (map m_target ms) \<and> list_all mount_ok ms"

definition config_file_ok :: "service_mount list \<Rightarrow> config_file \<Rightarrow> bool" where
  "config_file_ok mounts f \<longleftrightarrow>
     trim (cf_path f) = cf_path f \<and> starts_with ''/'' (cf_path f) \<and> \<not> ends_with ''/'' (cf_path f)
     \<and> ParentDir \<notin> set (components (cf_path f)) \<and> str_len (cf_content f) \<le> MAX_CONFIG_FILE_BYTES
     \<and> \<not> list_ex (\<lambda>m. shadowed_by m (cf_path f)) mounts"

definition files_ok :: "service_mount list \<Rightarrow> config_file list \<Rightarrow> bool" where
  "files_ok mounts fs \<longleftrightarrow>
     length fs \<le> MAX_CONFIG_FILES \<and> distinct (map cf_path fs) \<and> list_all (config_file_ok mounts) fs"

section \<open>The rules\<close>

interpretation svc_notes: field_rule resolve_service_notes Some notes_ok
proof
  fix old r v
  assume "notes_ok old" "resolve_service_notes r old = Inr v"
  then show "notes_ok v"
    by (cases r; cases "the r")
      (auto simp: resolve_service_notes_def notes_ok_def Let_def split: if_splits)
next
  fix v
  assume "notes_ok v"
  then show "resolve_service_notes (Some v) v = Inr v"
    by (cases v) (auto simp: resolve_service_notes_def notes_ok_def normalize_optional_string_def trimmed_def)
qed

definition login_gate_request_of :: "login_gate option \<Rightarrow> login_gate_request option option" where
  "login_gate_request_of g = Some (map_option (\<lambda>gate. \<lparr> lr_scope = Some (login_gate_scope_name (lg_scope gate)) \<rparr>) g)"

interpretation gate: field_rule resolve_login_gate login_gate_request_of "\<lambda>_. True"
proof
  fix g :: "login_gate option"
  have "trim ''owner'' = ''owner''" "trim ''all_users'' = ''all_users''"
    by code_simp+
  then show "resolve_login_gate (login_gate_request_of g) g = Inr g"
    by (cases g; cases "lg_scope (the g)")
      (auto simp: resolve_login_gate_def login_gate_request_of_def login_gate_scope_name_def)
qed simp

definition basic_auth_request_of :: "basic_auth option \<Rightarrow> basic_auth_request option option" where
  "basic_auth_request_of a = Some (map_option (\<lambda>auth. \<lparr> br_username = Some (bau_username auth), br_password = None \<rparr>) a)"

interpretation auth: field_rule "resolve_service_basic_auth hash" basic_auth_request_of basic_auth_ok
proof
  fix old r v
  assume "basic_auth_ok old" "resolve_service_basic_auth hash r old = Inr v"
  then show "basic_auth_ok v"
    by (auto simp: resolve_service_basic_auth_def basic_auth_ok_def split: option.splits if_splits)
next
  fix v :: "basic_auth option"
  assume "basic_auth_ok v"
  then show "resolve_service_basic_auth hash (basic_auth_request_of v) v = Inr v"
    by (cases v)
      (auto simp: resolve_service_basic_auth_def basic_auth_request_of_def basic_auth_ok_def
        normalize_optional_string_def trimmed_def)
qed

interpretation working_dir: field_rule normalize_working_dir "\<lambda>d. d" working_dir_ok
  by unfold_locales
    (auto simp: normalize_working_dir_def working_dir_ok_def Let_def trimmed_def split: option.splits if_splits)

lemma no_root_component: "\<not> is_absolute p \<Longrightarrow> RootDir \<notin> set (components p)"
  by (auto simp: components_def is_absolute_def List.map_filter_def body_component_def split: if_splits)

interpretation repo_path: field_rule "normalize_repo_relative_path field" "\<lambda>p. p" repo_path_rule
  by unfold_locales
    (auto simp: normalize_repo_relative_path_def repo_path_rule_def Let_def trimmed_def list_ex_iff no_root_component
      split: option.splits if_splits)

interpretation schedule: field_rule "normalize_cron_schedule cron" "\<lambda>s. s" "schedule_ok cron"
  by unfold_locales
    (auto simp: normalize_cron_schedule_def schedule_ok_def Let_def trimmed_def split: option.splits if_splits)

definition resolve_args :: "string list option \<Rightarrow> string list option \<Rightarrow> api_error + string list option" where
  "resolve_args r old = Inr (normalize_optional_args r old)"

lemma filter_map_trimmed: "list_all trimmed xs \<Longrightarrow> filter (\<lambda>e. e \<noteq> []) (map trim xs) = xs"
  by (induction xs) (auto simp: trimmed_def)

interpretation args: field_rule resolve_args "\<lambda>a. a" args_ok
  by unfold_locales
    (auto simp: resolve_args_def normalize_optional_args_def args_ok_def Let_def list_all_iff
      filter_map_trimmed [unfolded list_all_iff] split: option.splits if_splits)

definition registry_auth_request_of :: "service_registry_auth option \<Rightarrow> service_registry_auth_request option" where
  "registry_auth_request_of = map_option (\<lambda>auth. \<lparr> rr_server = ra_server auth, rr_username = Some (ra_username auth),
     rr_password = Some (mask_secret_value True (ra_password auth)) \<rparr>)"

lemma SECRET_MASK_trimmed [simp]: "trim SECRET_MASK = SECRET_MASK" "SECRET_MASK \<noteq> []"
  by (code_simp, simp add: SECRET_MASK_def)

interpretation registry: field_rule "\<lambda>r old. build_service_registry_auth enc old r" registry_auth_request_of registry_auth_ok
proof
  fix old r v
  assume "registry_auth_ok old" "build_service_registry_auth enc old r = Inr v"
  then show "registry_auth_ok v"
    by (auto simp: build_service_registry_auth_def registry_auth_ok_def Let_def
        split: option.splits if_splits sum.splits)
next
  fix v :: "service_registry_auth option"
  assume "registry_auth_ok v"
  then show "build_service_registry_auth enc v (registry_auth_request_of v) = Inr v"
    by (cases v)
      (auto simp: build_service_registry_auth_def registry_auth_request_of_def registry_auth_ok_def
        mask_secret_value_def trimmedD Let_def)
qed


text \<open>
  Masked values: the mask, or the value itself when there is nothing to hide, resolves to the stored value.
\<close>

lemma resolve_masked_value_back:
  "resolve_masked_value (mask_secret_value secret value) (Some secret) (Some (value, secret)) label key =
     Inr (value, secret)"
  by (auto simp: resolve_masked_value_def mask_secret_value_def)

definition env_vars_request_of :: "env_var list \<Rightarrow> env_var_request list option" where
  "env_vars_request_of = some_unless_empty env_var_request_from_model"

interpretation env_vars: field_rule "build_env_vars label" env_vars_request_of env_vars_ok
proof
  fix old r v
  assume *: "env_vars_ok old" "build_env_vars label r old = Inr v"
  show "env_vars_ok v"
  proof (cases r)
    case (Some rs)
    with * have loop: "try_loop (check_env_var label old) [] rs = Inr v"
      by (simp add: build_env_vars_def)
    have step: "trimmed (ev_key y) \<and> ev_key y \<notin> ev_key ` set acc" if "check_env_var label old acc x = Inr y" for acc x y
      using that by (auto simp: check_env_var_def Let_def split: if_splits)
    have "distinct (map ev_key v)"
      by (rule try_loop_distinct [OF loop]) (use step in blast)
    moreover have "\<forall>y \<in> set v. trimmed (ev_key y)"
      by (rule try_loop_all [OF loop]) (use step in blast)
    ultimately show ?thesis
      by (simp add: env_vars_ok_def list_all_iff)
  qed (use * in \<open>simp add: build_env_vars_def\<close>)
next
  fix v :: "env_var list"
  assume ok: "env_vars_ok v"
  have "check_env_var label v us (env_var_request_from_model x) = Inr x" if v: "v = us @ x # vs" for us x vs
  proof -
    have "collect_map ev_key v (ev_key x) = Some x"
      using ok v by (intro collect_map_distinct) (auto simp: env_vars_ok_def)
    then show ?thesis
      using ok v
      by (auto simp: check_env_var_def env_var_request_from_model_def env_vars_ok_def trimmed_def
          resolve_masked_value_back)
  qed
  then show "build_env_vars label (env_vars_request_of v) v = Inr v"
    by (auto simp: build_env_vars_def env_vars_request_of_def some_unless_empty_def intro: try_loop_map)
qed

definition build_args_request_of :: "build_arg list \<Rightarrow> env_var_request list option" where
  "build_args_request_of = some_unless_empty build_arg_request_from_model"

interpretation build_args: field_rule build_service_build_args build_args_request_of build_args_ok
proof
  fix old r v
  assume *: "build_args_ok old" "build_service_build_args r old = Inr v"
  show "build_args_ok v"
  proof (cases r)
    case (Some rs)
    with * have loop: "try_loop (check_build_arg old) [] rs = Inr v"
      by (simp add: build_service_build_args_def)
    have step: "trimmed (ba_key y) \<and> ba_key y \<notin> ba_key ` set acc" if "check_build_arg old acc x = Inr y" for acc x y
      using that by (auto simp: check_build_arg_def Let_def split: if_splits)
    have "distinct (map ba_key v)"
      by (rule try_loop_distinct [OF loop]) (use step in blast)
    moreover have "\<forall>y \<in> set v. trimmed (ba_key y)"
      by (rule try_loop_all [OF loop]) (use step in blast)
    ultimately show ?thesis
      by (simp add: build_args_ok_def list_all_iff)
  qed (use * in \<open>simp add: build_service_build_args_def\<close>)
next
  fix v :: "build_arg list"
  assume ok: "build_args_ok v"
  have "check_build_arg v us (build_arg_request_from_model x) = Inr x" if v: "v = us @ x # vs" for us x vs
  proof -
    have "collect_map ba_key v (ba_key x) = Some x"
      using ok v by (intro collect_map_distinct) (auto simp: build_args_ok_def)
    then show ?thesis
      using ok v
      by (auto simp: check_build_arg_def build_arg_request_from_model_def build_args_ok_def trimmed_def
          resolve_masked_value_back)
  qed
  then show "build_service_build_args (build_args_request_of v) v = Inr v"
    by (auto simp: build_service_build_args_def build_args_request_of_def some_unless_empty_def intro: try_loop_map)
qed

text \<open>Additional ports are checked against the primary port of the service, whether requested or kept.\<close>

definition ports_request_of :: "u16 list \<Rightarrow> u16 list option" where
  "ports_request_of = some_unless_empty (\<lambda>p. p)"

lemma additional_ports_built:
  assumes "normalize_additional_ports r old port = Inr v"
  shows "additional_ports_ok port v"
proof -
  have loop: "try_loop (check_additional_port port) [] (unwrap_or r old) = Inr v"
    using assms by (simp add: normalize_additional_ports_def)
  have step: "y \<noteq> 0 \<and> y \<noteq> port \<and> y \<notin> (\<lambda>p. p) ` set acc" if "check_additional_port port acc x = Inr y" for acc x y
    using that by (auto simp: check_additional_port_def split: if_splits)
  have "distinct (map (\<lambda>p. p) v)"
    by (rule try_loop_distinct [OF loop]) (use step in blast)
  moreover have "\<forall>y \<in> set v. y \<noteq> 0 \<and> y \<noteq> port"
    by (rule try_loop_all [OF loop]) (use step in blast)
  ultimately show ?thesis
    by (auto simp: additional_ports_ok_def)
qed

interpretation additional_ports:
  field_rule "\<lambda>r old. normalize_additional_ports r old port" ports_request_of "additional_ports_ok port"
proof
  fix v :: "u16 list"
  assume "additional_ports_ok port v"
  then have "check_additional_port port us x = Inr x" if "v = us @ x # vs" for us x vs
    using that by (auto simp: check_additional_port_def additional_ports_ok_def)
  then have "try_loop (check_additional_port port) [] v = Inr v"
    using try_loop_map [of v "check_additional_port port" "\<lambda>p. p"] by simp
  then show "normalize_additional_ports (ports_request_of v) v port = Inr v"
    by (simp add: normalize_additional_ports_def ports_request_of_def some_unless_empty_def)
qed (rule additional_ports_built)

definition mounts_request_of :: "service_mount list \<Rightarrow> service_mount_request list option" where
  "mounts_request_of = some_unless_empty mount_request_from_model"

lemma check_mount_ok:
  assumes "check_mount existing is_admin parsed r = Inr m"
  shows "mount_ok m" and "m_name m \<notin> m_name ` set parsed" and "m_target m \<notin> m_target ` set parsed"
proof -
  obtain h where h: "normalize_host_path (mr_host_path r) = Inr h"
    and m: "m = \<lparr> m_name = trim (mr_name r), m_target = trim (mr_target r),
                   m_read_only = unwrap_or (mr_read_only r) False, m_host_path = h,
                   m_shared = unwrap_or (mr_shared r) False \<rparr>"
    and rest: "validate_mount_name (trim (mr_name r))" "starts_with ''/'' (trim (mr_target r))"
      "trim (mr_name r) \<notin> m_name ` set parsed" "trim (mr_target r) \<notin> m_target ` set parsed"
      "\<not> (unwrap_or (mr_shared r) False \<and> h \<noteq> None)"
    using assms by (auto simp: check_mount_def Let_def split: if_splits)
  have "pred_option (\<lambda>p. trimmed p \<and> is_absolute p \<and> ParentDir \<notin> set (components p)) h"
  proof (cases h)
    case (Some p)
    with h have "normalize_optional_string (mr_host_path r) = Some p" "is_absolute p" "ParentDir \<notin> set (components p)"
      by (auto simp: normalize_host_path_def split: option.split_asm if_split_asm)
    with Some show ?thesis
      by (simp add: normalize_optional_stringD)
  qed simp
  with m rest show "mount_ok m" "m_name m \<notin> m_name ` set parsed" "m_target m \<notin> m_target ` set parsed"
    by (auto simp: mount_ok_def)
qed

lemma mounts_built:
  assumes "build_service_mount_list r old is_admin = Inr v"
  shows "mounts_ok v"
proof -
  have loop: "try_loop (check_mount old is_admin) [] (unwrap_or r []) = Inr v"
    using assms by (simp add: build_service_mount_list_def)
  have "distinct (map m_name v)" and "distinct (map m_target v)"
    by (rule try_loop_distinct [OF loop], erule check_mount_ok)+
  moreover have "\<forall>m \<in> set v. mount_ok m"
    using loop by (rule try_loop_all) (erule check_mount_ok)
  ultimately show ?thesis
    by (simp add: mounts_ok_def list_all_iff)
qed

lemma check_mount_back:
  assumes "mount_ok m" and "m \<in> set existing" and "m_name m \<notin> m_name ` set parsed" and "m_target m \<notin> m_target ` set parsed"
  shows "check_mount existing is_admin parsed (mount_request_from_model m) = Inr m"
proof -
  have "normalize_host_path (m_host_path m) = Inr (m_host_path m)"
    using assms(1) by (cases "m_host_path m") (auto simp: mount_ok_def normalize_host_path_def normalize_optional_string_def trimmed_def)
  moreover have "list_ex (\<lambda>e. m_name e = m_name m \<and> m_host_path e = m_host_path m) existing"
    using assms(2) by (auto simp: list_ex_iff)
  ultimately show ?thesis
    using assms by (auto simp: check_mount_def mount_request_from_model_def mount_ok_def)
qed

interpretation mounts:
  field_rule "\<lambda>r old. build_service_mount_list r old is_admin" mounts_request_of mounts_ok
proof
  fix v :: "service_mount list"
  assume "mounts_ok v"
  then have "check_mount v is_admin us (mount_request_from_model x) = Inr x" if "v = us @ x # vs" for us x vs
    using that by (intro check_mount_back) (auto simp: mounts_ok_def)
  then have "try_loop (check_mount v is_admin) [] (map mount_request_from_model v) = Inr v"
    by (rule try_loop_map)
  then show "build_service_mount_list (mounts_request_of v) v is_admin = Inr v"
    by (auto simp: build_service_mount_list_def mounts_request_of_def some_unless_empty_def)
qed (rule mounts_built)

lemma check_config_file_ok:
  assumes "check_config_file mounts parsed r = Inr f"
  shows "config_file_ok mounts f" and "cf_path f \<notin> cf_path ` set parsed"
  using assms by (auto simp: check_config_file_def config_file_ok_def Let_def split: if_splits)

lemma files_built:
  assumes "build_config_files fs mounts = Inr v"
  shows "files_ok mounts v"
proof -
  have loop: "try_loop (check_config_file mounts) [] fs = Inr v" and "length fs \<le> MAX_CONFIG_FILES"
    using assms by (simp_all add: build_config_files_def split: if_splits)
  moreover have "distinct (map cf_path v)"
    by (rule try_loop_distinct [OF loop]) (erule check_config_file_ok)
  moreover have "\<forall>f \<in> set v. config_file_ok mounts f"
    by (rule try_loop_all [OF loop]) (erule check_config_file_ok)
  ultimately show ?thesis
    using try_loop_length [OF loop] by (simp add: files_ok_def list_all_iff)
qed

definition files_request_of :: "config_file list \<Rightarrow> config_file_request list option" where
  "files_request_of fs = Some (map config_file_request fs)"

interpretation files:
  field_rule "\<lambda>r old. build_config_files (unwrap_or r (map config_file_request old)) mounts" files_request_of "files_ok mounts"
proof
  fix v :: "config_file list"
  assume ok: "files_ok mounts v"
  then have "check_config_file mounts us (config_file_request x) = Inr x" if "v = us @ x # vs" for us x vs
    using that
    by (auto simp: check_config_file_def config_file_request_def files_ok_def config_file_ok_def Let_def)
  then have "try_loop (check_config_file mounts) [] (map config_file_request v) = Inr v"
    by (rule try_loop_map)
  with ok show "build_config_files (unwrap_or (files_request_of v) (map config_file_request v)) mounts = Inr v"
    by (simp add: build_config_files_def files_request_of_def files_ok_def)
qed (rule files_built)

text \<open>
  Port mappings: a cron job that keeps mappings of an earlier service type cannot be resubmitted, so the
  rule for cron jobs asks for none.
\<close>

definition port_mappings_request_of :: "port_mapping list \<Rightarrow> port_mapping_request list option" where
  "port_mappings_request_of ms = Some (map (\<lambda>m. \<lparr> pr_host_port = pm_host_port m, pr_container_port = pm_container_port m,
     pr_protocol = Some (port_protocol_as_str (pm_protocol m)) \<rparr>) ms)"

lemma port_keys: "(pm_host_port x, pm_protocol x) = port_key x"
  by (simp add: port_key_def)

lemma check_port_mapping_ok:
  assumes "check_port_mapping parsed r = Inr m"
  shows "pm_host_port m \<noteq> 0 \<and> pm_container_port m \<noteq> 0" and "port_key m \<notin> port_key ` set parsed"
  using assms by (auto simp: check_port_mapping_def port_key_def split: if_splits)

lemma port_mappings_sound:
  assumes "port_mappings_ok old" and "resolve_port_mappings r old t = Inr v"
  shows "port_mappings_ok v"
proof (cases r)
  case (Some rs)
  with assms have loop: "try_loop check_port_mapping [] rs = Inr v"
    by (auto simp: resolve_port_mappings_def split: if_splits)
  have "distinct (map port_key v)"
    by (rule try_loop_distinct [OF loop]) (erule check_port_mapping_ok)
  moreover have "\<forall>m \<in> set v. pm_host_port m \<noteq> 0 \<and> pm_container_port m \<noteq> 0"
    by (rule try_loop_all [OF loop]) (erule check_port_mapping_ok)
  ultimately show ?thesis
    by (simp add: port_mappings_ok_def list_all_iff)
qed (use assms in \<open>simp add: resolve_port_mappings_def\<close>)

lemma port_protocol_parse_as_str [simp]:
  "port_protocol_parse (port_protocol_as_str p) = Some p" "trim (port_protocol_as_str p) = port_protocol_as_str p"
  "port_protocol_as_str p \<noteq> []"
proof -
  have "trim ''tcp'' = ''tcp''" "trim ''udp'' = ''udp''" "to_ascii_lowercase ''tcp'' = ''tcp''" "to_ascii_lowercase ''udp'' = ''udp''"
    by code_simp+
  then show "port_protocol_parse (port_protocol_as_str p) = Some p" "trim (port_protocol_as_str p) = port_protocol_as_str p"
    "port_protocol_as_str p \<noteq> []"
    by (cases p; simp add: port_protocol_parse_def port_protocol_as_str_def)+
qed

lemma port_mappings_resubmit:
  assumes "port_mappings_ok v" and "v = [] \<or> t \<noteq> CronJob"
  shows "resolve_port_mappings (port_mappings_request_of v) old t = Inr v"
proof -
  define g where "g m = \<lparr> pr_host_port = pm_host_port m, pr_container_port = pm_container_port m,
     pr_protocol = Some (port_protocol_as_str (pm_protocol m)) \<rparr>" for m :: port_mapping
  have "check_port_mapping us (g x) = Inr x" if "v = us @ x # vs" for us x vs
  proof -
    have "pm_host_port x \<noteq> 0" "pm_container_port x \<noteq> 0" "port_key x \<notin> port_key ` set us"
      using assms(1) that by (auto simp: port_mappings_ok_def)
    then show ?thesis
      by (simp add: check_port_mapping_def g_def port_keys)
  qed
  then have "try_loop check_port_mapping [] (map g v) = Inr v"
    by (rule try_loop_map)
  moreover have "port_mappings_request_of v = Some (map g v)"
    by (simp add: port_mappings_request_of_def g_def [abs_def])
  ultimately show ?thesis
    using assms(2) by (simp add: resolve_port_mappings_def)
qed

text \<open>Domains.\<close>

lemma normalize_domains_eq:
  "normalize_domains ds = foldl push_new [] (List.map_filter normalize_domain ds)"
proof -
  have "foldl (\<lambda>acc d. case normalize_domain d of None \<Rightarrow> acc | Some v \<Rightarrow> push_new acc v) out ds =
        foldl push_new out (List.map_filter normalize_domain ds)" for out
    by (induction ds arbitrary: out) (auto simp: List.map_filter_def split: option.splits)
  then show ?thesis
    by (simp add: normalize_domains_def)
qed

lemma foldl_push_new_id: "distinct (out @ xs) \<Longrightarrow> foldl push_new out xs = out @ xs"
  by (induction xs arbitrary: out) (auto simp: push_new_def)

lemma normalize_domains_id:
  assumes "distinct ds" and "\<forall>d \<in> set ds. normalize_domain d = Some d"
  shows "normalize_domains ds = ds"
proof -
  have "List.map_filter normalize_domain ds = ds"
    using assms(2) by (induction ds) (auto simp: List.map_filter_def)
  then show ?thesis
    using assms(1) by (simp add: normalize_domains_eq foldl_push_new_id)
qed

lemma normalize_domains_distinct [simp]: "distinct (normalize_domains ds)"
  by (simp add: normalize_domains_eq distinct_foldl_push_new)

section \<open>Well-formed services\<close>

text \<open>The fields that a request may leave out and that then stay as they are.\<close>

definition kept_ok :: "(string \<Rightarrow> string option) \<Rightarrow> container_service \<Rightarrow> bool" where
  "kept_ok cron s \<longleftrightarrow>
     s_service_type s \<in> {WebService, PrivateService, BackgroundWorker, CronJob}
     \<and> registry_auth_ok (s_registry_auth s) \<and> env_vars_ok (s_env_vars s)
     \<and> repo_path_rule (s_build_context s) \<and> repo_path_rule (s_dockerfile_path s)
     \<and> pred_option trimmed (s_build_target s) \<and> build_args_ok (s_build_args s)
     \<and> args_ok (s_command s) \<and> args_ok (s_entrypoint s) \<and> working_dir_ok (s_working_dir s)
     \<and> schedule_ok cron (s_schedule s) \<and> notes_ok (s_notes s) \<and> basic_auth_ok (s_basic_auth s)
     \<and> port_mappings_ok (s_port_mappings s)"

text \<open>The rules that tie the fields together.\<close>

definition kind_ok :: "container_service \<Rightarrow> bool" where
  "kind_ok s \<longleftrightarrow>
     trimmed (s_name s)
     \<and> s_expose_http s = (s_service_type s = WebService)
     \<and> (s_port s = 0 \<longrightarrow> s_service_type s \<in> {BackgroundWorker, CronJob} \<and> s_health_check s = None)
     \<and> (s_service_type s = CronJob \<longleftrightarrow> s_schedule s \<noteq> None)
     \<and> (s_service_type s = CronJob \<longrightarrow> s_port s = 0 \<and> s_replicas s = 1)
     \<and> additional_ports_ok (s_port s) (s_additional_ports s)
     \<and> pred_option (\<lambda>m. take_bit 20 m = 0) (s_memory_limit s)"

definition domains_ok :: "container_service \<Rightarrow> bool" where
  "domains_ok s \<longleftrightarrow>
     (s_domains s = [] \<or> s_service_type s = WebService) \<and> distinct (s_domains s)
     \<and> distinct (s_http_only_domains s) \<and> set (s_http_only_domains s) \<subseteq> set (s_domains s)"

definition service_wf :: "(string \<Rightarrow> string option) \<Rightarrow> container_service \<Rightarrow> bool" where
  "service_wf cron s \<longleftrightarrow>
     kept_ok cron s \<and> kind_ok s \<and> domains_ok s
     \<and> mounts_ok (s_mounts s) \<and> files_ok (s_mounts s) (s_files s)
     \<and> (s_basic_auth s = None \<or> s_login_gate s = None)"

lemmas kept_ok_defs = kept_ok_def registry_auth_ok_def env_vars_ok_def repo_path_rule_def build_args_ok_def args_ok_def
  working_dir_ok_def schedule_ok_def notes_ok_def basic_auth_ok_def port_mappings_ok_def

lemma kept_ok_new [simp]: "kept_ok cron (container_service_new i now app_id name img port)"
  by (simp add: kept_ok_defs container_service_new_def)

text \<open>What a successful application of a request to a service consists of.\<close>

lemma apply_service_request_InrE:
  assumes "apply_service_request env n app_id is_admin r name t ds hs sch old = Inr s"
  obtains
    "normalize_additional_ports (sr_additional_ports r) (s_additional_ports old) (sr_port r) = Inr (s_additional_ports s)"
    "build_service_registry_auth (encrypt_value (be_crypto env) (be_nonce env n) (be_secret env))
       (s_registry_auth old) (sr_registry_auth r) = Inr (s_registry_auth s)"
    "build_service_env_vars (sr_env_vars r) (s_env_vars old) = Inr (s_env_vars s)"
    "normalize_repo_relative_path ''service build context'' (sr_build_context r) (s_build_context old) = Inr (s_build_context s)"
    "normalize_repo_relative_path ''service dockerfile path'' (sr_dockerfile_path r) (s_dockerfile_path old) = Inr (s_dockerfile_path s)"
    "s_build_target s = (case sr_build_target r of Some x \<Rightarrow> normalize_optional_string (Some x) | None \<Rightarrow> s_build_target old)"
    "build_service_build_args (sr_build_args r) (s_build_args old) = Inr (s_build_args s)"
    "s_command s = normalize_optional_args (sr_command r) (s_command old)"
    "s_entrypoint s = normalize_optional_args (sr_entrypoint r) (s_entrypoint old)"
    "normalize_working_dir (sr_working_dir r) (s_working_dir old) = Inr (s_working_dir s)"
    "build_service_mount_list (sr_mounts r) (s_mounts old) is_admin = Inr (s_mounts s)"
    "resolve_service_notes (sr_notes r) (s_notes old) = Inr (s_notes s)"
    "resolve_service_basic_auth (be_hash_password env n) (sr_basic_auth r) (s_basic_auth old) = Inr (s_basic_auth s)"
    "resolve_login_gate (sr_login_gate r) (s_login_gate old) = Inr (s_login_gate s)"
    "s_basic_auth s = None \<or> s_login_gate s = None"
    "resolve_port_mappings (sr_port_mappings r) (s_port_mappings old) t = Inr (s_port_mappings s)"
    "build_config_files (unwrap_or (sr_files r) (map config_file_request (s_files old))) (s_mounts s) = Inr (s_files s)"
    "s_name s = name" "s_service_type s = t" "s_port s = sr_port r" "s_expose_http s = (t = WebService)"
    "s_app_id s = app_id" "s_id s = s_id old" "s_created_at s = s_created_at old" "s_image s = unwrap_or (sr_image r) []"
    "s_replicas s = unwrap_or (sr_replicas r) 1" "s_memory_limit s = map_option (\<lambda>m. m * 1024 * 1024) (sr_memory_limit_mb r)"
    "s_cpu_limit s = sr_cpu_limit r" "s_depends_on s = unwrap_or (sr_depends_on r) []"
    "s_domains s = (if t = WebService then unwrap_or ds (service_custom_domains old) else [])"
    "s_http_only_domains s = (if t = WebService then normalize_http_only_domains (unwrap_or hs
       (service_http_only_domains (old\<lparr> s_domains := s_domains s \<rparr>))) (s_domains s) else [])"
    "s_schedule s = sch" "s_updated_at s = be_now env n"
    "s_health_check s = map_option (\<lambda>hc. \<lparr> hc_path = hr_path hc, hc_interval_secs = unwrap_or (hr_interval_secs hc) 30,
       hc_timeout_secs = unwrap_or (hr_timeout_secs hc) 5, hc_retries = unwrap_or (hr_retries hc) 3 \<rparr>) (sr_health_check r)"
    "s_restart_policy s = parse_restart_policy (sr_restart_policy r)"
proof -
  note parts = assms [unfolded apply_service_request_def Let_def, simplified]
  show ?thesis
    using parts
    by (elim exE conjE, simp add: guard_eq_Inr, elim exE conjE, hypsubst, intro that)
      (simp_all (no_asm_simp) add: is_public_http_def service_custom_domains_def service_http_only_domains_def
        split: option.split)
qed

text \<open>Memory limits are whole mebibytes, also when the multiplication wraps around.\<close>

lemma mebibytes:
  fixes m :: u64
  shows "take_bit 20 (1048576 * m) = 0"
    and "take_bit 20 m = 0 \<Longrightarrow> m div 1024 div 1024 * 1024 * 1024 = m"
proof -
  have push: "x * 1024 * 1024 = push_bit 20 x" for x :: u64
    by (simp add: push_bit_eq_mult)
  have "take_bit 20 (m * 1024 * 1024) = 0"
    unfolding push by (simp add: take_bit_push_bit)
  then show "take_bit 20 (1048576 * m) = 0"
    by (simp add: mult.commute)
  assume "take_bit 20 m = 0"
  moreover have "m div 1024 div 1024 = drop_bit 20 m"
    using drop_bit_drop_bit [of 10 10 m] by (simp add: drop_bit_eq_div)
  ultimately show "m div 1024 div 1024 * 1024 * 1024 = m"
    using bits_ident [of 20 m] by (simp only: push) simp
qed

lemma resolve_service_type_kinds:
  assumes "resolve_service_type r (Some old) = Inr t"
    and "s_service_type old \<in> {WebService, PrivateService, BackgroundWorker, CronJob}"
  shows "t \<in> {WebService, PrivateService, BackgroundWorker, CronJob}"
  using assms
  by (auto simp: resolve_service_type_def parse_service_type_def Let_def split: option.splits if_splits)

lemma check_service_kind_Inr:
  assumes "check_service_kind r t ds sch = Inr ()"
  shows "sr_port r = 0 \<Longrightarrow> t \<in> {BackgroundWorker, CronJob} \<and> sr_health_check r = None"
    and "t = CronJob \<longleftrightarrow> sch \<noteq> None"
    and "t = CronJob \<Longrightarrow> sr_port r = 0 \<and> unwrap_or (sr_replicas r) 1 = 1"
  using assms by (auto simp: check_service_kind_def Let_def split: if_splits)

lemma requested_service_domains_distinct: "requested_service_domains r = Some ds \<Longrightarrow> distinct ds"
  by (auto simp: requested_service_domains_def merge_domains_def split: if_splits)

lemma applied_service_wf:
  assumes "apply_service_request env n app_id is_admin r name t ds hs sch old = Inr s"
    and kept: "kept_ok (be_cron env) old" and kind: "check_service_kind r t ds sch = Inr ()"
    and t: "t \<in> {WebService, PrivateService, BackgroundWorker, CronJob}"
    and sch: "schedule_ok (be_cron env) sch" and name: "trimmed name" and ds: "pred_option distinct ds"
  shows "service_wf (be_cron env) s"
proof -
  have "kind_ok s"
    using assms(1) check_service_kind_Inr [OF kind] name
    by (elim apply_service_request_InrE)
      (simp add: kind_ok_def additional_ports_built option.pred_map comp_def mebibytes option.pred_True)
  moreover have "domains_ok s"
    using assms(1) ds
    by (elim apply_service_request_InrE) (cases ds; auto simp: domains_ok_def normalize_http_only_domains_def)
  moreover have "kept_ok (be_cron env) s"
    using assms(1)
  proof (rule apply_service_request_InrE, goal_cases)
    case 1
    have old: "registry_auth_ok (s_registry_auth old)" "env_vars_ok (s_env_vars old)"
      "repo_path_rule (s_build_context old)" "repo_path_rule (s_dockerfile_path old)" "pred_option trimmed (s_build_target old)"
      "build_args_ok (s_build_args old)" "args_ok (s_command old)" "args_ok (s_entrypoint old)"
      "working_dir_ok (s_working_dir old)" "notes_ok (s_notes old)" "basic_auth_ok (s_basic_auth old)"
      "port_mappings_ok (s_port_mappings old)"
      using kept by (simp_all add: kept_ok_def)
    have "pred_option trimmed (s_build_target s)"
      unfolding 1(6) using old(5) by (cases "sr_build_target r") simp_all
    moreover have "args_ok (s_command s)" "args_ok (s_entrypoint s)"
      unfolding 1(8,9) using args.sound old(7,8) by (simp_all add: resolve_args_def)
    ultimately show ?case
      using t sch registry.sound [OF old(1) 1(2)] env_vars.sound [OF old(2) 1(3) [unfolded build_service_env_vars_def]]
        repo_path.sound [OF old(3) 1(4)] repo_path.sound [OF old(4) 1(5)] build_args.sound [OF old(6) 1(7)]
        working_dir.sound [OF old(9) 1(10)] svc_notes.sound [OF old(10) 1(12)] auth.sound [OF old(11) 1(13)]
        port_mappings_sound [OF old(12) 1(16)]
      by (simp only: kept_ok_def 1(19,32))
  qed
  ultimately show ?thesis
    using assms(1) by (elim apply_service_request_InrE) (simp add: service_wf_def mounts_built files_built)
qed

text \<open>The record a round of the loop starts from, and what an accepted round consists of.\<close>

definition service_before ::
  "build_env \<Rightarrow> uuid \<Rightarrow> container_service list \<Rightarrow> nat \<Rightarrow> service_request \<Rightarrow> container_service" where
  "service_before env app_id existing n r =
     unwrap_or (collect_map s_name existing (trim (sr_name r)))
       (container_service_new (be_new_id env n) (be_now env n) app_id (trim (sr_name r)) (unwrap_or (sr_image r) [])
          (sr_port r))"

lemma build_service_InrE:
  assumes "build_service env app_id existing is_admin acc r = Inr s"
  obtains t sch where "trim (sr_name r) \<noteq> []" "trim (sr_name r) \<notin> s_name ` set acc"
    "resolve_service_type r (Some (service_before env app_id existing (length acc) r)) = Inr t"
    "normalize_cron_schedule (be_cron env) (sr_schedule r)
       (s_schedule (service_before env app_id existing (length acc) r)) = Inr sch"
    "check_service_kind r t (requested_service_domains r) sch = Inr ()"
    "apply_service_request env (length acc) app_id is_admin r (trim (sr_name r)) t (requested_service_domains r)
       (requested_http_only_domains r) sch (service_before env app_id existing (length acc) r) = Inr s"
  using assms by (auto simp: build_service_def Let_def guard_eq_Inr service_before_def)

lemma built_service_wf:
  assumes "build_service env app_id existing is_admin acc r = Inr s"
    and "\<forall>e \<in> set existing. kept_ok (be_cron env) e"
  shows "service_wf (be_cron env) s" and "s_app_id s = app_id" and "s_name s \<notin> s_name ` set acc"
proof -
  let ?old = "service_before env app_id existing (length acc) r"
  have old: "kept_ok (be_cron env) ?old"
    using assms(2) by (cases "collect_map s_name existing (trim (sr_name r))")
      (auto simp: service_before_def dest: collect_map_SomeD)
  from assms(1) obtain t sch where name: "trim (sr_name r) \<noteq> []" "trim (sr_name r) \<notin> s_name ` set acc"
    and t: "resolve_service_type r (Some ?old) = Inr t"
    and sch: "normalize_cron_schedule (be_cron env) (sr_schedule r) (s_schedule ?old) = Inr sch"
    and kind: "check_service_kind r t (requested_service_domains r) sch = Inr ()"
    and s: "apply_service_request env (length acc) app_id is_admin r (trim (sr_name r)) t (requested_service_domains r)
        (requested_http_only_domains r) sch ?old = Inr s"
    by (rule build_service_InrE)
  have "t \<in> {WebService, PrivateService, BackgroundWorker, CronJob}" and "schedule_ok (be_cron env) sch"
    using resolve_service_type_kinds [OF t] schedule.sound [OF _ sch] old by (simp_all add: kept_ok_def)
  moreover have "pred_option distinct (requested_service_domains r)"
    using requested_service_domains_distinct by (cases "requested_service_domains r") auto
  ultimately show "service_wf (be_cron env) s"
    using applied_service_wf [OF s old kind] name(1) by simp
  show "s_app_id s = app_id" and "s_name s \<notin> s_name ` set acc"
    using s name(2) by (auto elim: apply_service_request_InrE)
qed

text \<open>
  C27. Whatever the requests, a project's services that \<open>build_services\<close> accepts are well formed: names are
  trimmed, not empty and unique, ports, paths, mounts, config files, variables and port mappings obey their
  rules, cron jobs have a valid schedule, one replica and no port, only web services have domains, and no
  service has both basic auth and the login gate. The services kept from before are well formed by the
  same theorem.
\<close>

theorem built_services_well_formed:
  assumes "build_services env app_id existing requests is_admin = Inr services"
    and "\<forall>s \<in> set existing. service_wf (be_cron env) s"
  shows "(\<forall>s \<in> set services. service_wf (be_cron env) s \<and> s_app_id s = app_id)
    \<and> distinct (map s_name services) \<and> length services = length requests \<and> services \<noteq> []"
proof -
  have loop: "try_loop (build_service env app_id existing is_admin) [] requests = Inr services" and "requests \<noteq> []"
    using assms(1) by (simp_all add: build_services_def split: if_splits)
  have kept: "\<forall>s \<in> set existing. kept_ok (be_cron env) s"
    using assms(2) by (simp add: service_wf_def)
  have "\<forall>s \<in> set services. service_wf (be_cron env) s \<and> s_app_id s = app_id"
    by (rule try_loop_all [OF loop]) (use built_service_wf [OF _ kept] in blast)
  moreover have "distinct (map s_name services)"
    by (rule try_loop_distinct [OF loop]) (erule built_service_wf [OF _ kept])
  ultimately show ?thesis
    using try_loop_length [OF loop] \<open>requests \<noteq> []\<close> by auto
qed

section \<open>Resubmitting a service\<close>

text \<open>
  A stored service need not come back unchanged, or at all. The request trims the image, the check does not,
  and normalizing a domain twice can give another one (\<open>a.io /x\<close> is stored with a blank at the end):
  \<open>resubmitted\<close> is the service after its own request. And a cron job may have ports left over from the time before
  it became one (\<open>ports_fit\<close> rules them out), which its own request may not.
\<close>

definition ports_fit :: "container_service \<Rightarrow> bool" where
  "ports_fit s \<longleftrightarrow> (s_service_type s = CronJob \<longrightarrow> s_additional_ports s = [] \<and> s_port_mappings s = [])"

definition resubmitted :: "container_service \<Rightarrow> container_service" where
  "resubmitted s = s\<lparr>
     s_image := trim (s_image s), s_domains := normalize_domains (s_domains s),
     s_http_only_domains := filter (\<lambda>d. d \<in> set (normalize_domains (s_domains s)))
       (normalize_domains (normalize_domains (service_http_only_domains s))) \<rparr>"

definition written_plainly :: "container_service \<Rightarrow> bool" where
  "written_plainly s \<longleftrightarrow> trim (s_image s) = s_image s \<and> list_all (\<lambda>d. normalize_domain d = Some d) (s_domains s)"

lemma service_request_fields:
  "sr_registry_auth (service_request_from_model s) = registry_auth_request_of (s_registry_auth s)"
  "sr_env_vars (service_request_from_model s) = env_vars_request_of (s_env_vars s)"
  "sr_build_args (service_request_from_model s) = build_args_request_of (s_build_args s)"
  "sr_additional_ports (service_request_from_model s) = ports_request_of (s_additional_ports s)"
  "sr_mounts (service_request_from_model s) = mounts_request_of (s_mounts s)"
  "sr_basic_auth (service_request_from_model s) = basic_auth_request_of (s_basic_auth s)"
  "sr_login_gate (service_request_from_model s) = login_gate_request_of (s_login_gate s)"
  "sr_port_mappings (service_request_from_model s) = port_mappings_request_of (s_port_mappings s)"
  "sr_files (service_request_from_model s) = files_request_of (s_files s)"
  "sr_notes (service_request_from_model s) = Some (s_notes s)"
  by (simp_all add: service_request_from_model_def registry_auth_request_of_def env_vars_request_of_def
      build_args_request_of_def ports_request_of_def mounts_request_of_def basic_auth_request_of_def
      login_gate_request_of_def port_mappings_request_of_def files_request_of_def)

lemma service_request_plain_fields:
  "sr_name (service_request_from_model s) = s_name s"
  "sr_image (service_request_from_model s) = normalize_optional_string (Some (s_image s))"
  "sr_service_type (service_request_from_model s) = Some (service_type_name (s_service_type s))"
  "sr_port (service_request_from_model s) = s_port s"
  "sr_expose_http (service_request_from_model s) = Some (s_expose_http s)"
  "sr_domains (service_request_from_model s) = some_unless_empty (\<lambda>d. d) (s_domains s)"
  "sr_domain (service_request_from_model s) = None"
  "sr_http_only_domains (service_request_from_model s) = some_unless_empty (\<lambda>d. d) (service_http_only_domains s)"
  "sr_replicas (service_request_from_model s) = Some (s_replicas s)"
  "sr_memory_limit_mb (service_request_from_model s) = map_option (\<lambda>m. m div 1024 div 1024) (s_memory_limit s)"
  "sr_cpu_limit (service_request_from_model s) = s_cpu_limit s"
  "sr_depends_on (service_request_from_model s) = some_unless_empty (\<lambda>d. d) (s_depends_on s)"
  "sr_restart_policy (service_request_from_model s) = Some (restart_policy_label (s_restart_policy s))"
  "sr_health_check (service_request_from_model s) = map_option (\<lambda>hc. \<lparr> hr_path = hc_path hc,
     hr_interval_secs = Some (hc_interval_secs hc), hr_timeout_secs = Some (hc_timeout_secs hc),
     hr_retries = Some (hc_retries hc) \<rparr>) (s_health_check s)"
  "sr_build_context (service_request_from_model s) = s_build_context s"
  "sr_dockerfile_path (service_request_from_model s) = s_dockerfile_path s"
  "sr_build_target (service_request_from_model s) = s_build_target s"
  "sr_command (service_request_from_model s) = s_command s"
  "sr_entrypoint (service_request_from_model s) = s_entrypoint s"
  "sr_working_dir (service_request_from_model s) = s_working_dir s"
  "sr_schedule (service_request_from_model s) = s_schedule s"
  by (simp_all add: service_request_from_model_def)

text \<open>The labels of the enums are read back.\<close>

lemma parse_restart_policy_label: "parse_restart_policy (Some (restart_policy_label p)) = p"
proof -
  have "to_lowercase ''never'' = ''never''" "to_lowercase ''always'' = ''always''"
    "to_lowercase ''on-failure'' = ''on-failure''" "to_lowercase ''unless-stopped'' = ''unless-stopped''"
    by code_simp+
  then show ?thesis
    by (cases p) (simp_all add: parse_restart_policy_def restart_policy_label_def)
qed

lemma parse_service_type_name:
  assumes "t \<in> {WebService, PrivateService, BackgroundWorker, CronJob}"
  shows "parse_service_type (service_type_name t) = Some t"
proof -
  have "to_ascii_lowercase (trim ''web_service'') = ''web_service''"
    "to_ascii_lowercase (trim ''private_service'') = ''private_service''"
    "to_ascii_lowercase (trim ''background_worker'') = ''background_worker''"
    "to_ascii_lowercase (trim ''cron_job'') = ''cron_job''"
    by code_simp+
  then show ?thesis
    using assms by (auto simp: parse_service_type_def service_type_name_def)
qed

lemma service_type_back:
  "kept_ok cron s \<Longrightarrow> resolve_service_type (service_request_from_model s) old = Inr (s_service_type s)"
  by (simp only: kept_ok_def)
    (simp add: resolve_service_type_def service_request_plain_fields parse_service_type_name)

lemma kind_back:
  assumes kind: "kind_ok s" and again: "ports_fit s" and "domains_ok s" and kept: "kept_ok cron s"
  shows "check_service_kind (service_request_from_model s) (s_service_type s)
           (requested_service_domains (service_request_from_model s)) (s_schedule s) = Inr ()"
proof -
  have "requested_service_domains (service_request_from_model s) = None" if "s_service_type s \<noteq> WebService"
    using assms(3) that
    by (simp add: domains_ok_def requested_service_domains_def service_request_plain_fields some_unless_empty_def)
  moreover have "sr_additional_ports (service_request_from_model s) = None" if "s_service_type s = CronJob"
    using again that by (simp add: ports_fit_def service_request_fields ports_request_of_def some_unless_empty_def)
  moreover have "s_service_type s \<in> {WebService, PrivateService, BackgroundWorker, CronJob}"
    using kept by (simp add: kept_ok_def)
  ultimately show ?thesis
    using kind unfolding kind_ok_def check_service_kind_def Let_def service_request_plain_fields
    by (cases "s_service_type s") simp_all
qed

end
