(* ===== verification/Service_Updates.thy ===== *)
theory Service_Updates
  imports Service_Rules
begin

text \<open>
  Updates of a project's services: resubmitting stored services gives them back, so that an update of one
  service leaves the others as they are, and every service keeps its id. Host paths can only be set by
  administrators, and what the API shows of a service does not depend on its secrets.
\<close>

section \<open>Resubmission\<close>

lemma domains_back:
  assumes "domains_ok s"
  shows "(if s_service_type s = WebService
          then unwrap_or (requested_service_domains (service_request_from_model s)) (service_custom_domains s) else []) =
    normalize_domains (s_domains s)"
  using assms
  by (auto simp: domains_ok_def requested_service_domains_def service_request_plain_fields
      some_unless_empty_def merge_domains_def service_custom_domains_def normalize_domains_def)

lemma domain_not_blank: "normalize_domain d = Some d \<Longrightarrow> trim d \<noteq> []"
proof -
  assume d: "normalize_domain d = Some d"
  have "trim_start_matches ''https://'' [] = []" "trim_start_matches ''http://'' [] = []"
    by code_simp+
  then have "normalize_domain d = None" if "trim d = []"
    using that by (simp add: normalize_domain_def split_first_def trim_end_char_def)
  with d show "trim d \<noteq> []"
    by auto
qed

lemma http_only_domains_back:
  assumes "domains_ok s"
  shows "normalize_http_only_domains (unwrap_or (requested_http_only_domains (service_request_from_model s))
      (service_http_only_domains (s\<lparr> s_domains := ds \<rparr>))) ds =
    filter (\<lambda>d. d \<in> set ds) (normalize_domains (normalize_domains (service_http_only_domains s)))"
proof (cases "service_http_only_domains s = []")
  case True
  then have "set (service_http_only_domains s) = {}" by simp
  then have "set (service_http_only_domains (s\<lparr> s_domains := ds \<rparr>)) = {}"
    using assms by (auto simp: set_service_http_only_domains set_service_custom_domains domains_ok_def)
  then show ?thesis
    using True by (simp add: requested_http_only_domains_def service_request_plain_fields some_unless_empty_def
        normalize_http_only_domains_def normalize_domains_def)
qed (simp add: requested_http_only_domains_def service_request_plain_fields some_unless_empty_def normalize_http_only_domains_def)

lemma resubmitted_plain:
  assumes "written_plainly s" and "domains_ok s"
  shows "resubmitted s = s"
proof -
  have ok: "\<forall>d \<in> set (s_domains s). normalize_domain d = Some d"
    using assms(1) by (simp add: written_plainly_def list_all_iff)
  have "service_custom_domains s = s_domains s"
    using ok assms(2) domain_not_blank
    by (simp add: service_custom_domains_eq domains_ok_def foldl_push_new_id filter_id_conv)
  then have only: "service_http_only_domains s = s_http_only_domains s"
    using assms(2) by (simp add: service_http_only_domains_eq domains_ok_def foldl_push_new_id filter_id_conv subset_iff)
  have "normalize_domains (s_http_only_domains s) = s_http_only_domains s" "normalize_domains (s_domains s) = s_domains s"
    using ok assms(2) by (auto intro!: normalize_domains_id simp: domains_ok_def)
  moreover have "filter (\<lambda>d. d \<in> set (s_domains s)) (s_http_only_domains s) = s_http_only_domains s"
    using assms(2) by (auto simp: domains_ok_def filter_id_conv)
  ultimately show ?thesis
    using assms(1) by (simp add: resubmitted_def only written_plainly_def)
qed

lemma apply_service_request_back:
  assumes wf: "service_wf (be_cron env) s" and again: "ports_fit s" and "s_app_id s = app_id"
  shows "apply_service_request env n app_id is_admin (service_request_from_model s) (s_name s) (s_service_type s)
           (requested_service_domains (service_request_from_model s))
           (requested_http_only_domains (service_request_from_model s)) (s_schedule s) s =
         Inr ((resubmitted s)\<lparr> s_updated_at := be_now env n \<rparr>)"
proof -
  have kept: "kept_ok (be_cron env) s" and kind: "kind_ok s" and domains: "domains_ok s"
    and rest: "mounts_ok (s_mounts s)" "files_ok (s_mounts s) (s_files s)" "s_basic_auth s = None \<or> s_login_gate s = None"
    using wf by (simp_all add: service_wf_def)
  have fields: "registry_auth_ok (s_registry_auth s)" "env_vars_ok (s_env_vars s)" "repo_path_rule (s_build_context s)"
    "repo_path_rule (s_dockerfile_path s)" "pred_option trimmed (s_build_target s)" "build_args_ok (s_build_args s)"
    "args_ok (s_command s)" "args_ok (s_entrypoint s)" "working_dir_ok (s_working_dir s)" "notes_ok (s_notes s)"
    "basic_auth_ok (s_basic_auth s)" "port_mappings_ok (s_port_mappings s)"
    and ports: "additional_ports_ok (s_port s) (s_additional_ports s)"
    and memory: "pred_option (\<lambda>m. take_bit 20 m = 0) (s_memory_limit s)"
    using kept kind by (simp_all only: kept_ok_def kind_ok_def)
  let ?r = "service_request_from_model s"
  have envs: "build_service_env_vars (env_vars_request_of (s_env_vars s)) (s_env_vars s) = Inr (s_env_vars s)"
    using env_vars.resubmit [OF fields(2)] by (simp add: build_service_env_vars_def)
  have mappings: "resolve_port_mappings (port_mappings_request_of (s_port_mappings s)) (s_port_mappings s) (s_service_type s) =
      Inr (s_port_mappings s)"
    using again by (intro port_mappings_resubmit fields(12)) (auto simp: ports_fit_def)
  note checks = additional_ports.resubmit [OF ports] registry.resubmit [OF fields(1)] repo_path.resubmit [OF fields(3)]
    repo_path.resubmit [OF fields(4)] build_args.resubmit [OF fields(6)] working_dir.resubmit [OF fields(9)]
    mounts.resubmit [OF rest(1)] svc_notes.resubmit [OF fields(10)] auth.resubmit [OF fields(11)] gate.resubmit
    files.resubmit [OF rest(2)] envs mappings
  obtain s' where s': "apply_service_request env n app_id is_admin ?r (s_name s) (s_service_type s)
      (requested_service_domains ?r) (requested_http_only_domains ?r) (s_schedule s) s = Inr s'"
    using rest(3) by (simp add: apply_service_request_def Let_def service_request_fields service_request_plain_fields checks)
  from s' have "s' = (resubmitted s)\<lparr> s_updated_at := be_now env n \<rparr>"
  proof (rule apply_service_request_InrE, goal_cases)
    case 1
    have d: "s_domains s' = normalize_domains (s_domains s)"
      using 1(30) domains_back [OF domains] by (simp only:)
    moreover have "s_http_only_domains s' = filter (\<lambda>d. d \<in> set (normalize_domains (s_domains s)))
        (normalize_domains (normalize_domains (service_http_only_domains s)))"
    proof (cases "s_service_type s = WebService")
      case True
      then show ?thesis using 1(31) http_only_domains_back [OF domains, of "s_domains s'"] unfolding d by simp
    next
      case False
      then have "s_domains s = []" using domains by (simp add: domains_ok_def)
      then show ?thesis using 1(31) False by (simp add: normalize_domains_def)
    qed
    moreover have "normalize_optional_args (s_command s) (s_command s) = s_command s"
      "normalize_optional_args (s_entrypoint s) (s_entrypoint s) = s_entrypoint s"
      using args.resubmit [OF fields(7)] args.resubmit [OF fields(8)] by (simp_all add: resolve_args_def)
    moreover have "s_build_target s' = s_build_target s"
      unfolding 1(6) service_request_plain_fields using fields(5) by (cases "s_build_target s") (simp_all add: trimmedD)
    moreover have "s_memory_limit s' = s_memory_limit s"
      unfolding 1(27) service_request_plain_fields
      using memory by (cases "s_memory_limit s") (simp_all only: option.map option.pred_inject mebibytes)
    moreover have "s_image s' = trim (s_image s)"
      using 1(25) by (simp add: service_request_plain_fields split: if_splits)
    moreover have "s_depends_on s' = s_depends_on s"
      using 1(29) by (simp add: service_request_plain_fields some_unless_empty_def split: if_splits)
    moreover have "s_health_check s' = s_health_check s"
      unfolding 1(34) service_request_plain_fields by (cases "s_health_check s") simp_all
    moreover have "s_expose_http s' = s_expose_http s"
      using 1(21) kind by (simp add: kind_ok_def)
    moreover have "s_additional_ports s' = s_additional_ports s" "s_registry_auth s' = s_registry_auth s"
      "s_env_vars s' = s_env_vars s" "s_build_context s' = s_build_context s" "s_dockerfile_path s' = s_dockerfile_path s"
      "s_build_args s' = s_build_args s" "s_working_dir s' = s_working_dir s" "s_notes s' = s_notes s"
      "s_basic_auth s' = s_basic_auth s" "s_login_gate s' = s_login_gate s" "s_port_mappings s' = s_port_mappings s"
      using 1(1-5,7,10,12-14,16) by (simp_all add: service_request_fields service_request_plain_fields checks)
    moreover have mounts: "s_mounts s' = s_mounts s"
      using 1(11) by (simp add: service_request_fields checks)
    moreover have "s_files s' = s_files s"
      using 1(17) by (simp add: service_request_fields checks mounts)
    ultimately show ?case
      using 1(8,9,18-20,22-24,26,28,32,33,35) assms(3)
      by (intro container_service.equality) (simp_all add: resubmitted_def service_request_plain_fields parse_restart_policy_label)
  qed
  with s' show ?thesis
    by simp
qed

lemma build_service_back:
  assumes wf: "service_wf (be_cron env) s" and "ports_fit s" and "s_app_id s = app_id"
    and "collect_map s_name existing (s_name s) = Some s" and "s_name s \<notin> s_name ` set acc"
  shows "build_service env app_id existing is_admin acc (service_request_from_model s) =
           Inr ((resubmitted s)\<lparr> s_updated_at := be_now env (length acc) \<rparr>)"
proof -
  have wf': "kept_ok (be_cron env) s" "kind_ok s" "domains_ok s"
    using wf by (simp_all add: service_wf_def)
  have "trim (s_name s) = s_name s" "s_name s \<noteq> []"
    using wf'(2) by (simp_all add: kind_ok_def trimmed_def)
  moreover have "normalize_cron_schedule (be_cron env) (s_schedule s) (s_schedule s) = Inr (s_schedule s)"
    using wf'(1) by (intro schedule.resubmit) (simp add: kept_ok_def)
  ultimately show ?thesis
    using assms(4,5) kind_back [OF wf'(2) assms(2) wf'(3,1)] service_type_back [OF wf'(1)]
      apply_service_request_back [OF wf assms(2,3)]
    by (simp add: build_service_def service_request_plain_fields)
qed

lemma distinct_take_nth: "distinct (map f xs) \<Longrightarrow> i < length xs \<Longrightarrow> f (xs ! i) \<notin> f ` set (take i xs)"
  using distinct_take [of "map f xs" "Suc i"] by (simp add: take_map take_Suc_conv_app_nth)

text \<open>
  C28. Saving a project's services as they are shown keeps them: for well-formed services, of which no cron job has
  ports left, the requests made from them, with every secret masked, are accepted and give the services back,
  secrets, ids and creation times included, with a new modification time, the image trimmed and the domains
  normalized again; a service whose image and domains are already written that way does not change beyond the
  time. Anyone may do so, host paths set by an administrator included. Both restrictions are needed: a cron job that kept
  its ports is refused (\<open>cron_job_with_ports_blocks_updates\<close>), and the code stores images and domains that come back
  different (\<open>padded_image_changes_on_resubmission\<close>).
\<close>

theorem resubmitted_services_unchanged:
  assumes "\<forall>s \<in> set services. service_wf (be_cron env) s \<and> ports_fit s \<and> s_app_id s = app_id"
    and "distinct (map s_name services)" and "services \<noteq> []"
  shows "build_services env app_id services (map service_request_from_model services) is_admin =
      Inr (map (\<lambda>i. (resubmitted (services ! i))\<lparr> s_updated_at := be_now env i \<rparr>) [0..<length services]) \<and>
    (\<forall>s \<in> set services. written_plainly s \<longrightarrow> resubmitted s = s)"
proof -
  let ?new = "map (\<lambda>i. (resubmitted (services ! i))\<lparr> s_updated_at := be_now env i \<rparr>) [0..<length services]"
  have "build_service env app_id services is_admin (take i ?new) (map service_request_from_model services ! i) = Inr (?new ! i)"
    if "i < length services" for i
  proof -
    have "map s_name ?new = map s_name services"
      by (rule nth_equalityI) (simp_all add: resubmitted_def)
    then have "s_name (?new ! i) \<notin> s_name ` set (take i ?new)"
      using assms(2) that by (intro distinct_take_nth) simp_all
    moreover have "collect_map s_name services (s_name (services ! i)) = Some (services ! i)"
      using assms(2) that by (intro collect_map_distinct) simp_all
    ultimately show ?thesis
      using build_service_back [of env "services ! i" app_id services "take i ?new"] assms(1) that
      by (simp add: resubmitted_def)
  qed
  then have "try_loop (build_service env app_id services is_admin) [] (map service_request_from_model services) = Inr ?new"
    by (intro try_loop_nthI) simp_all
  moreover have "resubmitted s = s" if "s \<in> set services" "written_plainly s" for s
    using that assms(1) by (intro resubmitted_plain) (simp_all add: service_wf_def)
  ultimately show ?thesis
    using assms(3) by (simp add: build_services_def)
qed

section \<open>Updating one service\<close>

text \<open>
  The block of \<open>update_service\<close> that rebuilds the services: the other services are resubmitted, and the
  record of the updated one carries its new name, so that \<open>build_services\<close> finds it.
\<close>

fun rename_first :: "uuid \<Rightarrow> string \<Rightarrow> container_service list \<Rightarrow> container_service list" where
  "rename_first i name [] = []"
| "rename_first i name (s # ss) = (if s_id s = i then s\<lparr> s_name := name \<rparr> # ss else s # rename_first i name ss)"

definition update_project_services ::
  "build_env \<Rightarrow> project \<Rightarrow> uuid \<Rightarrow> service_request \<Rightarrow> bool \<Rightarrow> api_error + container_service list" where
  "update_project_services env app service_id request is_admin =
     build_services env (p_id app) (rename_first service_id (trim (sr_name request)) (p_services app))
       (map (\<lambda>s. if s_id s = service_id then request else service_request_from_model s) (p_services app)) is_admin"

lemma rename_first_distinct:
  "distinct (map s_id ss) \<Longrightarrow> rename_first i name ss = map (\<lambda>s. if s_id s = i then s\<lparr> s_name := name \<rparr> else s) ss"
  by (induction ss) (auto intro!: map_idI [symmetric] simp: image_iff)

lemma build_service_fields:
  assumes "build_service env app_id existing is_admin acc r = Inr s"
  shows "s_name s = trim (sr_name r)"
    and "s_name s \<notin> s_name ` set acc"
    and "\<And>e. collect_map s_name existing (trim (sr_name r)) = Some e \<Longrightarrow> s_id s = s_id e"
proof -
  obtain t sch where "trim (sr_name r) \<notin> s_name ` set acc"
    and s: "apply_service_request env (length acc) app_id is_admin r (trim (sr_name r)) t (requested_service_domains r)
        (requested_http_only_domains r) sch (service_before env app_id existing (length acc) r) = Inr s"
    using assms by (rule build_service_InrE)
  moreover have "s_name s = trim (sr_name r)" "s_id s = s_id (service_before env app_id existing (length acc) r)"
    using s by (rule apply_service_request_InrE, simp)+
  ultimately show "s_name s = trim (sr_name r)" "s_name s \<notin> s_name ` set acc"
    "\<And>e. collect_map s_name existing (trim (sr_name r)) = Some e \<Longrightarrow> s_id s = s_id e"
    by (simp_all add: service_before_def)
qed

text \<open>A cron job whose request is accepted has no ports.\<close>

lemma accepted_ports_fit:
  assumes built: "build_service env app_id existing is_admin acc (service_request_from_model s) = Inr s'" and kept: "kept_ok cron s"
  shows "ports_fit s"
proof -
  let ?r = "service_request_from_model s"
  obtain t sch where t: "resolve_service_type ?r (Some (service_before env app_id existing (length acc) ?r)) = Inr t"
    and kind: "check_service_kind ?r t (requested_service_domains ?r) sch = Inr ()"
    and applied: "apply_service_request env (length acc) app_id is_admin ?r (trim (sr_name ?r)) t (requested_service_domains ?r)
       (requested_http_only_domains ?r) sch (service_before env app_id existing (length acc) ?r) = Inr s'"
    using built by (rule build_service_InrE)
  have "t = s_service_type s" using t service_type_back [OF kept] by simp
  moreover have "s_additional_ports s = []" if "t = CronJob"
    using kind that
    by (auto simp: check_service_kind_def Let_def service_request_fields ports_request_of_def some_unless_empty_def split: if_splits)
  moreover have "s_port_mappings s = []" if "t = CronJob"
  proof -
    have "resolve_port_mappings (port_mappings_request_of (s_port_mappings s))
        (s_port_mappings (service_before env app_id existing (length acc) ?r)) t = Inr (s_port_mappings s')"
      using applied unfolding service_request_fields(8) [symmetric] by (rule apply_service_request_InrE)
    then show ?thesis
      using that by (auto simp: resolve_port_mappings_def port_mappings_request_of_def some_unless_empty_def dest!: try_loop_length split: if_splits)
  qed
  ultimately show ?thesis by (simp add: ports_fit_def)
qed

text \<open>
  C26. An update of one service changes no other beyond the spelling of its image and domains: when it is accepted,
  the project has the same services in the same order, under the same ids, also when the updated service is
  renamed, and every other service is what it was, secrets included, with a new modification time, the image
  trimmed and the domains normalized again (\<open>resubmitted\<close>); if they were written that way already, nothing else
  changes. That a stored image or domain can be written otherwise is \<open>padded_image_changes_on_resubmission\<close>.
\<close>

theorem update_keeps_other_services:
  assumes "update_project_services env app service_id request is_admin = Inr services"
    and "\<forall>s \<in> set (p_services app). service_wf (be_cron env) s \<and> s_app_id s = p_id app"
    and "distinct (map s_id (p_services app))"
  shows "map s_id services = map s_id (p_services app)
    \<and> (\<forall>i < length services. s_id (p_services app ! i) \<noteq> service_id \<longrightarrow>
         services ! i = (resubmitted (p_services app ! i))\<lparr> s_updated_at := be_now env i \<rparr> \<and>
         (written_plainly (p_services app ! i) \<longrightarrow> services ! i = (p_services app ! i)\<lparr> s_updated_at := be_now env i \<rparr>))"
proof -
  let ?old = "p_services app" and ?f = "\<lambda>s. if s_id s = service_id then s\<lparr> s_name := trim (sr_name request) \<rparr> else s"
  let ?rs = "map (\<lambda>s. if s_id s = service_id then request else service_request_from_model s) ?old"
  let ?build = "build_service env (p_id app) (map ?f ?old) is_admin"
  have loop: "try_loop ?build [] ?rs = Inr services"
    using assms(1) rename_first_distinct [OF assms(3)]
    by (simp add: update_project_services_def build_services_def split: if_splits)
  have len: "length services = length ?old"
    using try_loop_length [OF loop] by simp
  have step: "?build (take i services) (?rs ! i) = Inr (services ! i)" if "i < length ?old" for i
    using try_loop_nthD [OF loop, of i] that by simp
  have wf: "service_wf (be_cron env) (?old ! i)" "s_app_id (?old ! i) = p_id app" if "i < length ?old" for i
    using assms(2) that by simp_all
  have trimmed: "trim (s_name (?old ! i)) = s_name (?old ! i)" if "i < length ?old" for i
    using wf(1) [OF that] by (simp add: service_wf_def kind_ok_def trimmed_def)
  have names: "s_name (services ! i) = s_name (?f (?old ! i))" if "i < length ?old" for i
    using build_service_fields(1) [OF step [OF that]] trimmed [OF that] that by (auto simp: service_request_plain_fields)
  have "distinct (map s_name services)"
    by (rule try_loop_distinct [OF loop]) (rule build_service_fields(2))
  moreover have "map s_name services = map s_name (map ?f ?old)"
    by (rule nth_equalityI) (simp_all add: len names)
  ultimately have uniq: "collect_map s_name (map ?f ?old) (s_name (?f (?old ! i))) = Some (?f (?old ! i))" if "i < length ?old" for i
    using collect_map_distinct [of s_name "map ?f ?old" "?f (?old ! i)"] that by simp
  have "s_id (services ! i) = s_id (?old ! i)" if "i < length ?old" for i
    using build_service_fields(3) [OF step [OF that]] uniq [OF that] trimmed [OF that] that
    by (auto simp: service_request_plain_fields split: if_splits)
  then have ids: "map s_id services = map s_id ?old"
    by (intro nth_equalityI) (simp_all add: len)
  have others: "services ! i = (resubmitted (?old ! i))\<lparr> s_updated_at := be_now env i \<rparr>"
    if i: "i < length ?old" "s_id (?old ! i) \<noteq> service_id" for i
  proof -
    have "ports_fit (?old ! i)"
      using step [OF i(1)] i wf(1) [OF i(1)] by (intro accepted_ports_fit) (auto simp: service_wf_def)

    moreover have "s_name (?old ! i) \<notin> s_name ` set (take i services)"
      using distinct_take_nth [OF \<open>distinct (map s_name services)\<close>, of i] names [OF i(1)] i len by simp
    ultimately have "?build (take i services) (?rs ! i) = Inr ((resubmitted (?old ! i))\<lparr> s_updated_at := be_now env i \<rparr>)"
      using build_service_back [OF wf(1) [OF i(1)] _ wf(2) [OF i(1)], of "map ?f ?old" "take i services" is_admin] uniq [OF i(1)] i len
      by simp
    then show ?thesis
      using step [OF i(1)] by simp
  qed
  moreover have "resubmitted (?old ! i) = ?old ! i" if "i < length ?old" "written_plainly (?old ! i)" for i
    using that wf(1) by (intro resubmitted_plain) (simp_all add: service_wf_def)
  ultimately show ?thesis
    using ids len by (metis (no_types, lifting))
qed

text \<open>
  The check stores an image with the blanks around it, while the request of a stored service has none. So an accepted
  update of one service rewrites the image of another, as for the padded image here.
\<close>

lemma normalizing_twice_differs:
  "normalize_domain ''a.io /x'' = Some ''a.io ''" "normalize_domain ''a.io '' = Some ''a.io''"
  by code_simp+

theorem padded_image_changes_on_resubmission:
  assumes "service_wf (be_cron env) s" and "ports_fit s" and "s_app_id s = app_id" and "trim (s_image s) \<noteq> s_image s"
  shows "\<exists>s'. build_services env app_id [s] [service_request_from_model s] is_admin = Inr [s'] \<and> s_image s' \<noteq> s_image s"
proof -
  have "build_service env app_id [s] is_admin [] (service_request_from_model s) = Inr ((resubmitted s)\<lparr> s_updated_at := be_now env 0 \<rparr>)"
    using build_service_back [OF assms(1-3), of "[s]" "[]"] collect_map_distinct [of s_name "[s]" s] by simp
  then show ?thesis
    using assms(4) by (simp add: build_services_def resubmitted_def)
qed

section \<open>Host paths\<close>

lemma check_mount_host_path:
  assumes "check_mount existing False parsed r = Inr m" and "m_host_path m \<noteq> None"
  shows "\<exists>e \<in> set existing. m_name e = m_name m \<and> m_host_path e = m_host_path m"
  using assms by (auto simp: check_mount_def Let_def list_ex_iff split: if_splits)

text \<open>
  C29. Only administrators mount directories of the host: in the services built for another user, a mount
  with a host path is one that the service of that name already had, under the same mount name and with the same
  host path.
\<close>

theorem host_paths_set_by_admins:
  assumes "build_services env app_id existing requests False = Inr services"
    and "s \<in> set services" and "m \<in> set (s_mounts s)" and "m_host_path m \<noteq> None"
  shows "\<exists>e \<in> set existing. s_name e = s_name s
    \<and> (\<exists>m' \<in> set (s_mounts e). m_name m' = m_name m \<and> m_host_path m' = m_host_path m)"
proof -
  let ?P = "\<lambda>s. \<forall>m \<in> set (s_mounts s). m_host_path m \<noteq> None \<longrightarrow> (\<exists>e \<in> set existing. s_name e = s_name s
    \<and> (\<exists>m' \<in> set (s_mounts e). m_name m' = m_name m \<and> m_host_path m' = m_host_path m))"
  have loop: "try_loop (build_service env app_id existing False) [] requests = Inr services"
    using assms(1) by (simp add: build_services_def split: if_splits)
  have "?P s" if built: "build_service env app_id existing False acc r = Inr s" for acc r s
  proof -
    let ?old = "service_before env app_id existing (length acc) r"
    obtain t sch where "apply_service_request env (length acc) app_id False r (trim (sr_name r)) t
        (requested_service_domains r) (requested_http_only_domains r) sch ?old = Inr s"
      using built by (rule build_service_InrE)
    then have mounts: "try_loop (check_mount (s_mounts ?old) False) [] (unwrap_or (sr_mounts r) []) = Inr (s_mounts s)"
      and name: "s_name s = trim (sr_name r)"
      by (rule apply_service_request_InrE, simp add: build_service_mount_list_def)+
    have old: "?old \<in> set existing \<and> s_name ?old = s_name s" if "s_mounts ?old \<noteq> []"
      using that name collect_map_SomeD [of s_name existing "trim (sr_name r)"]
      by (cases "collect_map s_name existing (trim (sr_name r))") (auto simp: service_before_def container_service_new_def)
    have "\<forall>m \<in> set (s_mounts s). m_host_path m \<noteq> None \<longrightarrow>
        (\<exists>e \<in> set (s_mounts ?old). m_name e = m_name m \<and> m_host_path e = m_host_path m)"
      by (rule try_loop_all [OF mounts]) (use check_mount_host_path in blast)
    with old show ?thesis
      by (metis empty_iff empty_set)
  qed
  then have "\<forall>s \<in> set services. ?P s"
    by (rule try_loop_all [OF loop])
  with assms(2-4) show ?thesis
    by blast
qed

section \<open>Secrets\<close>

text \<open>
  \<open>t\<close> differs from \<open>s\<close> in secrets only: a secret that is not empty may be any other that is not empty, and the hash of the
  basic auth password may be any.
\<close>

definition other_value :: "bool \<Rightarrow> string \<Rightarrow> string \<Rightarrow> bool" where
  "other_value secret v w \<longleftrightarrow> w = v \<or> secret \<and> v \<noteq> [] \<and> w \<noteq> []"

definition differs_in_secrets :: "container_service \<Rightarrow> container_service \<Rightarrow> bool" where
  "differs_in_secrets s t \<longleftrightarrow>
     t = s\<lparr> s_env_vars := s_env_vars t, s_build_args := s_build_args t, s_registry_auth := s_registry_auth t,
            s_basic_auth := s_basic_auth t \<rparr> \<and>
     list_all2 (\<lambda>v w. ev_key w = ev_key v \<and> ev_secret w = ev_secret v \<and> other_value (ev_secret v) (ev_value v) (ev_value w))
       (s_env_vars s) (s_env_vars t) \<and>
     list_all2 (\<lambda>v w. ba_key w = ba_key v \<and> ba_secret w = ba_secret v \<and> other_value (ba_secret v) (ba_value v) (ba_value w))
       (s_build_args s) (s_build_args t) \<and>
     rel_option (\<lambda>a b. ra_server b = ra_server a \<and> ra_username b = ra_username a \<and> other_value True (ra_password a) (ra_password b))
       (s_registry_auth s) (s_registry_auth t) \<and>
     rel_option (\<lambda>a b. bau_username b = bau_username a) (s_basic_auth s) (s_basic_auth t)"

lemma map_eq_list_all2: "list_all2 P xs ys \<Longrightarrow> (\<And>x y. P x y \<Longrightarrow> f x = f y) \<Longrightarrow> map f xs = map f ys"
  by (induction rule: list_all2_induct) simp_all

lemma map_option_eq_rel: "rel_option P x y \<Longrightarrow> (\<And>a b. P a b \<Longrightarrow> f a = f b) \<Longrightarrow> map_option f x = map_option f y"
  by (cases x; cases y) simp_all

text \<open>
  C30. The settings that the API shows of a service do not depend on its secrets: whoever sees them cannot tell two services
  apart that differ only in the values of secret variables and build arguments, in the registry password or in the
  hash of the basic auth password, except that it shows whether a secret is empty.
\<close>

theorem settings_response_hides_secrets:
  assumes "differs_in_secrets s t"
  shows "service_settings_response s = service_settings_response t"
proof -
  have t: "t = s\<lparr> s_env_vars := s_env_vars t, s_build_args := s_build_args t, s_registry_auth := s_registry_auth t,
      s_basic_auth := s_basic_auth t \<rparr>"
    using assms by (simp only: differs_in_secrets_def)
  have "map masked_env_var_response (s_env_vars s) = map masked_env_var_response (s_env_vars t)"
    "map masked_build_arg_response (s_build_args s) = map masked_build_arg_response (s_build_args t)"
    using assms unfolding differs_in_secrets_def
    by (auto elim!: map_eq_list_all2 simp: masked_env_var_response_def masked_build_arg_response_def other_value_def mask_secret_value_def)
  moreover have "map_option (\<lambda>auth. (ra_server auth, ra_username auth, mask_secret_value True (ra_password auth))) (s_registry_auth s) =
      map_option (\<lambda>auth. (ra_server auth, ra_username auth, mask_secret_value True (ra_password auth))) (s_registry_auth t)"
    "map_option bau_username (s_basic_auth s) = map_option bau_username (s_basic_auth t)"
    using assms unfolding differs_in_secrets_def
    by (auto elim!: map_option_eq_rel simp: other_value_def mask_secret_value_def)
  ultimately show ?thesis
    by (subst t) (simp add: service_settings_response_def service_http_only_domains_def service_custom_domains_def)
qed

section \<open>Ports of cron jobs\<close>

lemma additional_ports_kept: "normalize_additional_ports None old port = Inr v \<Longrightarrow> v = old"
proof -
  assume "normalize_additional_ports None old port = Inr v"
  then have loop: "try_loop (check_additional_port port) [] old = Inr v"
    by (simp add: normalize_additional_ports_def)
  have "v ! i = old ! i" if "i < length old" for i
    using try_loop_nthD [OF loop that] by (auto simp: check_additional_port_def split: if_splits)
  then show "v = old"
    using try_loop_length [OF loop] by (simp add: nth_equalityI)
qed

text \<open>
  A request that turns a service with additional ports into a cron job and does not mention the ports is
  accepted, although a cron job must not have any: the ports stay. From then on every update of the
  project is refused, because the cron job is resubmitted with its ports.
\<close>

theorem cron_job_with_ports_blocks_updates:
  assumes "build_service env app_id existing is_admin acc r = Inr s" and "s_service_type s = CronJob"
    and "sr_additional_ports r = None" and "collect_map s_name existing (trim (sr_name r)) = Some old"
    and "s_additional_ports old \<noteq> []"
  shows "s_additional_ports s = s_additional_ports old
    \<and> isl (build_service env app_id' existing' is_admin' acc' (service_request_from_model s))"
proof -
  obtain t sch where "apply_service_request env (length acc) app_id is_admin r (trim (sr_name r)) t
      (requested_service_domains r) (requested_http_only_domains r) sch (service_before env app_id existing (length acc) r) = Inr s"
    using assms(1) by (rule build_service_InrE)
  then have "normalize_additional_ports (sr_additional_ports r)
      (s_additional_ports (service_before env app_id existing (length acc) r)) (sr_port r) = Inr (s_additional_ports s)"
    by (rule apply_service_request_InrE)
  then have kept: "s_additional_ports s = s_additional_ports old"
    using assms(3,4) by (simp add: service_before_def additional_ports_kept)
  have "build_service env app_id' existing' is_admin' acc' (service_request_from_model s) \<noteq> Inr s'" for s'
  proof
    assume "build_service env app_id' existing' is_admin' acc' (service_request_from_model s) = Inr s'"
    then obtain t sch where "resolve_service_type (service_request_from_model s)
        (Some (service_before env app_id' existing' (length acc') (service_request_from_model s))) = Inr t"
      and "check_service_kind (service_request_from_model s) t (requested_service_domains (service_request_from_model s)) sch = Inr ()"
      by (rule build_service_InrE)
    then show False
      using kept assms(2,5) parse_service_type_name [of CronJob]
      by (auto simp: resolve_service_type_def check_service_kind_def Let_def service_request_plain_fields
          service_request_fields ports_request_of_def some_unless_empty_def split: if_splits)
  qed
  with kept show ?thesis
    by (metis isl_def sum.exhaust)
qed

section \<open>Witnesses\<close>

definition demo_env :: build_env where
  "demo_env = \<lparr> be_crypto = demo_crypto, be_secret = Some ''key'', be_cron = (\<lambda>s. if s = ''0 3 * * *'' then None else Some ''bad''),
     be_nonce = (\<lambda>_. replicate 12 1), be_hash_password = (\<lambda>_ p. Inr (''hash:'' @ p)), be_new_id = (\<lambda>n. of_nat n + 7),
     be_now = (\<lambda>n. int n + 100) \<rparr>"

definition demo_service :: container_service where
  "demo_service = (container_service_new 7 50 1 ''api'' ''nginx'' 80)\<lparr>
     s_service_type := WebService, s_expose_http := True, s_domains := [''a.io''], s_memory_limit := Some 1048576,
     s_env_vars := [\<lparr> ev_key = ''KEY'', ev_value = ''s3cret'', ev_secret = True \<rparr>],
     s_mounts := [\<lparr> m_name = ''data'', m_target = ''/data'', m_read_only = False, m_host_path = Some ''/srv'', m_shared = False \<rparr>] \<rparr>"

definition demo_worker :: container_service where
  "demo_worker = (container_service_new 8 50 1 ''jobs'' ''busybox'' 0)\<lparr>
     s_service_type := BackgroundWorker, s_additional_ports := [9000] \<rparr>"

definition demo_cron_request :: service_request where
  "demo_cron_request = (service_request_from_model demo_worker)\<lparr>
     sr_service_type := Some ''cron'', sr_schedule := Some ''0 3 * * *'', sr_additional_ports := None \<rparr>"

lemma demo_built:
  "build_services demo_env 1 [demo_service] [service_request_from_model demo_service] False =
     Inr [demo_service\<lparr> s_updated_at := 100 \<rparr>]"
  by code_simp

lemma demo_services_ok:
  "service_wf (be_cron demo_env) demo_service \<and> ports_fit demo_service \<and> written_plainly demo_service"
  "service_wf (be_cron demo_env) demo_worker \<and> ports_fit demo_worker \<and> written_plainly demo_worker"
  by code_simp+

lemma demo_app_ids: "s_app_id demo_service = 1" "s_app_id demo_worker = 1" "s_id demo_service = 7" "s_id demo_worker = 8"
  "s_name demo_service = ''api''" "s_name demo_worker = ''jobs''"
  by (simp_all add: demo_service_def demo_worker_def container_service_new_def)

theorem built_services_well_formed_witness:
  "service_wf (be_cron demo_env) (demo_service\<lparr> s_updated_at := 100 \<rparr>)"
  using built_services_well_formed [OF demo_built] demo_services_ok by simp

theorem resubmitted_services_unchanged_witness:
  "build_services demo_env 1 [demo_service, demo_worker] (map service_request_from_model [demo_service, demo_worker]) False =
     Inr [demo_service\<lparr> s_updated_at := 100 \<rparr>, demo_worker\<lparr> s_updated_at := 101 \<rparr>]"
  using resubmitted_services_unchanged [of "[demo_service, demo_worker]" demo_env 1 False] demo_services_ok
  by (simp add: demo_app_ids) (simp add: demo_env_def upt_conv_Cons)

text \<open>Another secret in the same place, and a service whose image is stored with blanks.\<close>

theorem settings_response_hides_secrets_witness:
  "service_settings_response demo_service =
     service_settings_response (demo_service\<lparr> s_env_vars := [\<lparr> ev_key = ''KEY'', ev_value = ''0ther'', ev_secret = True \<rparr>] \<rparr>)"
  by (rule settings_response_hides_secrets)
    (simp add: differs_in_secrets_def other_value_def demo_service_def container_service_new_def)

lemma demo_padded_image:
  "\<exists>s'. build_services demo_env 1 [demo_service\<lparr> s_image := '' nginx '' \<rparr>]
     [service_request_from_model (demo_service\<lparr> s_image := '' nginx '' \<rparr>)] False = Inr [s'] \<and> s_image s' \<noteq> '' nginx ''"
  "(case build_services demo_env 1 [demo_service] [(service_request_from_model demo_service)\<lparr> sr_image := Some '' nginx '' \<rparr>] True of
      Inr [s] \<Rightarrow> s_image s = '' nginx '' | _ \<Rightarrow> False)"
proof -
  have "service_wf (be_cron demo_env) (demo_service\<lparr> s_image := '' nginx '' \<rparr>)" "ports_fit (demo_service\<lparr> s_image := '' nginx '' \<rparr>)"
    "trim (s_image (demo_service\<lparr> s_image := '' nginx '' \<rparr>)) \<noteq> s_image (demo_service\<lparr> s_image := '' nginx '' \<rparr>)"
    by code_simp+
  from padded_image_changes_on_resubmission [OF this(1,2) _ this(3), of 1 False]
  show "\<exists>s'. build_services demo_env 1 [demo_service\<lparr> s_image := '' nginx '' \<rparr>]
     [service_request_from_model (demo_service\<lparr> s_image := '' nginx '' \<rparr>)] False = Inr [s'] \<and> s_image s' \<noteq> '' nginx ''"
    by (simp add: demo_app_ids)
  show "(case build_services demo_env 1 [demo_service] [(service_request_from_model demo_service)\<lparr> sr_image := Some '' nginx '' \<rparr>] True of
      Inr [s] \<Rightarrow> s_image s = '' nginx '' | _ \<Rightarrow> False)"
    by code_simp
qed

definition demo_update_project :: project where
  "demo_update_project = (project_new 1 0 ''tok'' ''demo'' [] 3)\<lparr> p_services := [demo_service, demo_worker] \<rparr>"

definition demo_rename :: service_request where
  "demo_rename = (service_request_from_model demo_worker)\<lparr> sr_name := '' queue '', sr_replicas := Some 3 \<rparr>"

lemma demo_update:
  "update_project_services demo_env demo_update_project 8 demo_rename False =
     Inr [demo_service\<lparr> s_updated_at := 100 \<rparr>, demo_worker\<lparr> s_name := ''queue'', s_replicas := 3, s_updated_at := 101 \<rparr>]"
  by code_simp

theorem update_keeps_other_services_witness:
  "map s_id [demo_service\<lparr> s_updated_at := 100 \<rparr>, demo_worker\<lparr> s_name := ''queue'', s_replicas := 3, s_updated_at := 101 \<rparr>] =
     map s_id (p_services demo_update_project)"
proof -
  have "p_services demo_update_project = [demo_service, demo_worker]" "p_id demo_update_project = 1"
    by (simp_all add: demo_update_project_def project_new_def)
  then show ?thesis
    using update_keeps_other_services [OF demo_update] demo_services_ok by (simp add: demo_app_ids)
qed

theorem host_paths_set_by_admins_witness:
  "\<exists>e \<in> set [demo_service]. s_name e = ''api'' \<and> (\<exists>m' \<in> set (s_mounts e). m_name m' = ''data'' \<and> m_host_path m' = Some ''/srv'')"
  using host_paths_set_by_admins [OF demo_built, of "demo_service\<lparr> s_updated_at := 100 \<rparr>"
      "\<lparr> m_name = ''data'', m_target = ''/data'', m_read_only = False, m_host_path = Some ''/srv'', m_shared = False \<rparr>"]
  by (simp add: demo_service_def container_service_new_def)

definition demo_cron_job :: container_service where
  "demo_cron_job = demo_worker\<lparr> s_service_type := CronJob, s_schedule := Some ''0 3 * * *'', s_updated_at := 100 \<rparr>"

lemma demo_cron_built: "build_service demo_env 1 [demo_worker] False [] demo_cron_request = Inr demo_cron_job"
  by code_simp

theorem cron_job_with_ports_blocks_updates_witness:
  "isl (build_service demo_env 1 [demo_cron_job] True [] (service_request_from_model demo_cron_job))"
proof -
  have "sr_additional_ports demo_cron_request = None" "trim (sr_name demo_cron_request) = ''jobs''"
    "collect_map s_name [demo_worker] ''jobs'' = Some demo_worker" "s_service_type demo_cron_job = CronJob"
    "s_additional_ports demo_worker = [9000]"
    by code_simp+
  then show ?thesis
    using cron_job_with_ports_blocks_updates [OF demo_cron_built] by simp
qed

end
