(* ===== verification/Api_State.thy ===== *)
theory Api_State
  imports Worker_Images Service_Requests Service_Inventory
begin

text \<open>
  What the handlers of the dashboard's API share: the state they act on (\<open>AppState\<close> of
  \<open>containr-api/src/state.rs\<close>), who owns what (\<open>resolve_owned_service_record\<close> of
  \<open>domain/services/mod.rs\<close>), and where the source of a project is fetched from
  (\<open>deployment_source.rs\<close> with the GitHub client of \<open>github.rs\<close>).

  The state is the world of the worker, the jobs sent to the worker, whether the worker still receives,
  and the certificate requests sent. HTTP, the JSON parsers, the JWT signature, DNS and the parser of
  UUIDs are parameters (\<open>github_api\<close>, \<open>api_env\<close>). A handler that waits for a place in the channel
  of the jobs is not interleaved with others.
\<close>

section \<open>The state of the API\<close>

record 'x api =
  a_world :: "'x world"
  a_jobs :: "deployment_job list"
  a_worker_up :: bool
  a_cert_requests :: "string list"

text \<open>The settings the handlers read.\<close>

record config =
  cf_server_port :: u16
  cf_http_port :: u16
  cf_https_port :: u16
  cf_base_domain :: string
  cf_public_ip :: "string option"
  cf_webhook_secret :: string
  cf_encryption_key :: string
  cf_data_dir :: string

record http_reply =
  hr_status :: nat
  hr_status_text :: string
  hr_body :: string

record app_jwt_claims =
  jc_iat :: int
  jc_exp :: int
  jc_iss :: string

record installation_info =
  ii_id :: i64
  ii_login :: string
  ii_account_type :: string
  ii_repository_selection :: string
  ii_repositories_url :: string

record github_repo =
  gr_id :: i64
  gr_name :: string
  gr_full_name :: string
  gr_html_url :: string
  gr_clone_url :: string
  gr_private :: bool
  gr_default_branch :: string
  gr_description :: "string option"

text \<open>
  Requests to GitHub: the URL and the bearer token give a reply or the text of an error. The parsers
  read the body of a reply; \<open>gh_page_fuel\<close> bounds the pages that are followed.
\<close>

record 'x github_api =
  gh_get :: "string \<Rightarrow> string \<Rightarrow> ('x world, http_reply) io"
  gh_post :: "string \<Rightarrow> string \<Rightarrow> ('x world, http_reply) io"
  gh_rsa_key :: "string \<Rightarrow> string + bytes"
  gh_sign_jwt :: "app_jwt_claims \<Rightarrow> bytes \<Rightarrow> string + string"
  gh_parse_token :: "string \<Rightarrow> string + string"
  gh_parse_installations :: "string \<Rightarrow> string + installation_info list"
  gh_parse_repos :: "string \<Rightarrow> string + github_repo list"
  gh_page_fuel :: nat

record 'x api_env =
  e_host :: "'x host"
  e_config :: config
  e_env_key :: "string option"
  e_data_dir :: string
  e_proxy_updates :: bool
  e_certificates :: bool
  e_github :: "'x github_api"
  e_parse_uuid :: "string \<Rightarrow> uuid option"
  e_path_exists :: "string \<Rightarrow> 'x world \<Rightarrow> bool"
  e_show_int :: "i64 \<Rightarrow> string"

type_synonym ('x, 'a) handler = "('x api, api_error, 'a) eio"

definition a_store :: "'x api \<Rightarrow> store" where
  "a_store s = w_store (a_world s)"

definition in_world :: "('x world, 'e, 'a) eio \<Rightarrow> ('x api, 'e, 'a) eio" where
  "in_world m s = (fst (m (a_world s)), s\<lparr> a_world := snd (m (a_world s)) \<rparr>)"

definition api_read :: "(store \<Rightarrow> 'a) \<Rightarrow> ('x, 'a) handler" where
  "api_read f = io_read (\<lambda>s. f (a_store s))"

definition put_store :: "store \<Rightarrow> 'x api \<Rightarrow> 'x api" where
  "put_store st s = s\<lparr> a_world := (a_world s)\<lparr> w_store := st \<rparr> \<rparr>"

text \<open>A write whose error becomes the answer \<open>internal server error\<close>.\<close>

definition api_write :: "(store \<Rightarrow> db_error + store) \<Rightarrow> ('x, unit) handler" where
  "api_write f s = (case f (a_store s) of Inl e \<Rightarrow> (Inl (internal_error e), s) | Inr st \<Rightarrow> (Inr (), put_store st s))"

definition api_now :: "'x api_env \<Rightarrow> ('x, timestamp) handler" where
  "api_now e = io_read (\<lambda>s. h_now (e_host e) (a_world s))"

definition api_uuid :: "'x api_env \<Rightarrow> ('x, uuid) handler" where
  "api_uuid e = in_world (io_map_err internal_error (h_new_uuid (e_host e)))"

definition not_found :: "string \<Rightarrow> api_error" where
  "not_found message = (404, message)"

definition unauthorized :: "string \<Rightarrow> api_error" where
  "unauthorized message = (401, message)"

definition env_secret :: "'x api_env \<Rightarrow> string option" where
  "env_secret e = resolve_encryption_secret (e_env_key e) (cf_encryption_key (e_config e))"

definition refresh_proxy_routes :: "'x api_env \<Rightarrow> uuid \<Rightarrow> ('x, unit) handler" where
  "refresh_proxy_routes e app_id =
     io_modify (\<lambda>s. if e_proxy_updates e
                    then s\<lparr> a_world := (a_world s)\<lparr> w_refreshes := w_refreshes (a_world s) @ [app_id] \<rparr> \<rparr> else s)"

definition request_certificates :: "'x api_env \<Rightarrow> string list \<Rightarrow> ('x, unit) handler" where
  "request_certificates e domains =
     io_modify (\<lambda>s. if e_certificates e then s\<lparr> a_cert_requests := a_cert_requests s @ domains \<rparr> else s)"

section \<open>Ownership\<close>

datatype owned_service_record =
    OwnedApp project container_service
  | OwnedDatabase managed_database
  | OwnedQueue managed_queue

definition resolve_group_id :: "'x api_env \<Rightarrow> uuid \<Rightarrow> string option \<Rightarrow> store \<Rightarrow> api_error + uuid option" where
  "resolve_group_id e user_id group_id st =
     (case opt_filter (\<lambda>value. value \<noteq> []) (map_option trim group_id) of
        None \<Rightarrow> Inr None
      | Some group_id \<Rightarrow>
          and_then (ok_or (e_parse_uuid e group_id) (bad_request ''group_id must be a valid uuid'')) (\<lambda>group_id.
          and_then (ok_or (get_app st group_id) (not_found ''group not found'')) (\<lambda>group.
            if p_owner_id group \<noteq> user_id then Inl (forbidden ''access denied'') else Inr (Some group_id))))"

definition resolve_owned_service_record :: "uuid \<Rightarrow> uuid \<Rightarrow> store \<Rightarrow> api_error + owned_service_record" where
  "resolve_owned_service_record user_id service_id st =
     (case get_service st service_id of
        Some service \<Rightarrow>
          and_then (ok_or (get_app st (s_app_id service)) (not_found ''service group not found'')) (\<lambda>app.
            if p_owner_id app \<noteq> user_id then Inl (forbidden ''access denied'')
            else Inr (OwnedApp app
                   (unwrap_or (find (\<lambda>candidate. s_id candidate = service_id) (p_services app)) service)))
      | None \<Rightarrow>
          (case get_managed_database st service_id of
             Some database \<Rightarrow>
               if md_owner_id database \<noteq> user_id then Inl (forbidden ''access denied'') else Inr (OwnedDatabase database)
           | None \<Rightarrow>
               (case get_managed_queue st service_id of
                  Some queue \<Rightarrow>
                    if mq_owner_id queue \<noteq> user_id then Inl (forbidden ''access denied'') else Inr (OwnedQueue queue)
                | None \<Rightarrow> Inl (not_found ''service not found''))))"

definition resolve_owned_app_service_record ::
  "uuid \<Rightarrow> uuid \<Rightarrow> store \<Rightarrow> api_error + project \<times> container_service" where
  "resolve_owned_app_service_record user_id service_id st =
     and_then (resolve_owned_service_record user_id service_id st) (\<lambda>r.
       case r of
         OwnedApp app service \<Rightarrow> Inr (app, service)
       | _ \<Rightarrow> Inl (bad_request ''deployments are only supported for repository services''))"

text \<open>The start of every handler of a service: the service of the caller, or the answer.\<close>

definition owned_app_service :: "uuid \<Rightarrow> uuid \<Rightarrow> (project \<times> container_service \<Rightarrow> ('x, 'a) handler) \<Rightarrow> ('x, 'a) handler" where
  "owned_app_service user_id service_id f =
     io_bind (\<lambda>s. (resolve_owned_app_service_record user_id service_id (a_store s), s)) f"

definition user_is_admin :: "uuid \<Rightarrow> store \<Rightarrow> bool" where
  "user_is_admin user_id st = unwrap_or (map_option u_is_admin (get_user st user_id)) False"

section \<open>GitHub\<close>

definition GITHUB_PAGE_SIZE :: nat where
  "GITHUB_PAGE_SIZE = 100"

definition http_success :: "http_reply \<Rightarrow> bool" where
  "http_success r \<longleftrightarrow> 200 \<le> hr_status r \<and> hr_status r < 300"

definition generate_app_jwt :: "'x api_env \<Rightarrow> i64 \<Rightarrow> string \<Rightarrow> ('x world, string) io" where
  "generate_app_jwt e app_id private_key_pem =
     io_bind (io_read (\<lambda>w. h_now (e_host e) w div 1000000000)) (\<lambda>now.
     io_lift (and_then (map_sum (\<lambda>err. ''invalid private key: '' @ err) id (gh_rsa_key (e_github e) private_key_pem)) (\<lambda>key.
       map_sum (\<lambda>err. ''failed to generate jwt: '' @ err) id
         (gh_sign_jwt (e_github e) \<lparr> jc_iat = now - 60, jc_exp = now + 600, jc_iss = e_show_int e app_id \<rparr> key))))"

definition github_failure :: "http_reply \<Rightarrow> string" where
  "github_failure r = ''github api failed: '' @ hr_status_text r @ '' - '' @ hr_body r"

definition get_installation_token :: "'x api_env \<Rightarrow> string \<Rightarrow> i64 \<Rightarrow> ('x world, string) io" where
  "get_installation_token e jwt installation_id =
     io_bind (io_map_err (\<lambda>err. ''failed to get installation token: '' @ err)
                (gh_post (e_github e)
                   (''https://api.github.com/app/installations/'' @ e_show_int e installation_id @ ''/access_tokens'') jwt))
       (\<lambda>reply. if \<not> http_success reply then io_fail (github_failure reply)
          else io_lift (map_sum (\<lambda>err. ''failed to parse token: '' @ err) id (gh_parse_token (e_github e) (hr_body reply))))"

text \<open>The pages of a list: the next one is asked for as long as a page is full.\<close>

definition OUT_OF_PAGES :: string where
  "OUT_OF_PAGES = ''page bound reached''"

fun github_pages ::
  "nat \<Rightarrow> (nat \<Rightarrow> ('x world, http_reply) io) \<Rightarrow> (string \<Rightarrow> string + 'a list) \<Rightarrow> nat \<Rightarrow> ('x world, 'a list) io" where
  "github_pages 0 fetch parse page = io_fail OUT_OF_PAGES"
| "github_pages (Suc fuel) fetch parse page =
     io_bind (fetch page) (\<lambda>reply.
       if \<not> http_success reply then io_fail (github_failure reply)
       else io_bind (io_lift (parse (hr_body reply))) (\<lambda>items.
              if length items < GITHUB_PAGE_SIZE then io_return items
              else io_bind (github_pages fuel fetch parse (page + 1)) (\<lambda>more. io_return (items @ more))))"

definition list_app_installations :: "'x api_env \<Rightarrow> string \<Rightarrow> ('x world, installation_info list) io" where
  "list_app_installations e jwt =
     github_pages (gh_page_fuel (e_github e))
       (\<lambda>page. io_map_err (\<lambda>err. ''failed to list installations: '' @ err)
          (gh_get (e_github e) (''https://api.github.com/app/installations?per_page='' @ show_nat GITHUB_PAGE_SIZE
             @ ''&page='' @ show_nat page) jwt))
       (\<lambda>body. map_sum (\<lambda>err. ''failed to parse installations: '' @ err) id (gh_parse_installations (e_github e) body)) 1"

definition get_installation_repos :: "'x api_env \<Rightarrow> string \<Rightarrow> ('x world, github_repo list) io" where
  "get_installation_repos e token =
     github_pages (gh_page_fuel (e_github e))
       (\<lambda>page. io_map_err (\<lambda>err. ''failed to get repos: '' @ err)
          (gh_get (e_github e) (''https://api.github.com/installation/repositories?per_page='' @ show_nat GITHUB_PAGE_SIZE
             @ ''&page='' @ show_nat page) token))
       (\<lambda>body. map_sum (\<lambda>err. ''failed to parse repos: '' @ err) id (gh_parse_repos (e_github e) body)) 1"

definition repo_matches :: "string \<Rightarrow> github_repo \<Rightarrow> bool" where
  "repo_matches repo_url repo \<longleftrightarrow> same_repo_url repo_url (gr_clone_url repo) \<or> same_repo_url repo_url (gr_html_url repo)"

fun installation_token_for :: "'x api_env \<Rightarrow> string \<Rightarrow> string \<Rightarrow> i64 list \<Rightarrow> ('x world, string option) io" where
  "installation_token_for e jwt repo_url [] = io_return None"
| "installation_token_for e jwt repo_url (i # ids) =
     io_bind (get_installation_token e jwt i) (\<lambda>token.
     io_bind (get_installation_repos e token) (\<lambda>repos.
       if list_ex (repo_matches repo_url) repos then io_return (Some token)
       else installation_token_for e jwt repo_url ids))"

definition get_repo_installation_token ::
  "'x api_env \<Rightarrow> github_app_config \<Rightarrow> string \<Rightarrow> string \<Rightarrow> ('x world, string option) io" where
  "get_repo_installation_token e app_config private_key_pem repo_url =
     io_bind (generate_app_jwt e (ga_app_id app_config) private_key_pem) (\<lambda>jwt.
     io_match (list_app_installations e jwt)
       (\<lambda>_. installation_token_for e jwt repo_url (map gi_id (ga_installations app_config)))
       (\<lambda>installations. installation_token_for e jwt repo_url (map ii_id installations)))"

section \<open>The source of a project\<close>

definition is_local_source_path :: "'x api_env \<Rightarrow> string \<Rightarrow> 'x world \<Rightarrow> bool" where
  "is_local_source_path e source w \<longleftrightarrow>
     trim source \<noteq> [] \<and> \<not> contains_str ''://'' source \<and> (is_absolute source \<or> e_path_exists e source w)"

definition resolve_remote_git_token :: "'x api_env \<Rightarrow> uuid \<Rightarrow> string \<Rightarrow> ('x, string option) handler" where
  "resolve_remote_git_token e owner_id repo_url =
     (let decrypt = (\<lambda>value. io_lift (map_sum internal_error id (decrypt_value (h_crypto (e_host e)) (env_secret e) value)));
          user_token =
            io_bind (api_read (\<lambda>st. get_user st owner_id)) (\<lambda>user.
              case Option.bind user u_github_access_token of
                Some access_token \<Rightarrow> io_bind (decrypt access_token) (\<lambda>token. io_return (Some token))
              | None \<Rightarrow> io_return None)
      in io_bind (api_read (\<lambda>st. get_github_app st owner_id)) (\<lambda>app_config.
           case app_config of
             None \<Rightarrow> user_token
           | Some app_config \<Rightarrow>
               io_bind (decrypt (ga_private_key app_config)) (\<lambda>private_key_pem.
               io_bind (in_world (io_map_err (\<lambda>err. (502, ''github api error: github error: '' @ err))
                                    (get_repo_installation_token e app_config private_key_pem repo_url)))
                 (\<lambda>token. if token \<noteq> None then io_return token else user_token))))"

definition resolve_remote_source_deployment :: "'x api_env \<Rightarrow> uuid \<Rightarrow> string \<Rightarrow> ('x, deployment_source) handler" where
  "resolve_remote_source_deployment e owner_id source_url =
     io_bind (resolve_remote_git_token e owner_id source_url) (\<lambda>token. io_return (RemoteGit source_url token))"

definition resolve_remote_deployment_source :: "'x api_env \<Rightarrow> uuid \<Rightarrow> project \<Rightarrow> ('x, deployment_source) handler" where
  "resolve_remote_deployment_source e owner_id app = resolve_remote_source_deployment e owner_id (p_github_url app)"

definition resolve_source_deployment_source :: "'x api_env \<Rightarrow> uuid \<Rightarrow> string \<Rightarrow> ('x, deployment_source) handler" where
  "resolve_source_deployment_source e owner_id source_url =
     io_bind (io_read (\<lambda>s. is_local_source_path e source_url (a_world s))) (\<lambda>local_path.
       if local_path then io_return (LocalPath source_url)
       else resolve_remote_source_deployment e owner_id source_url)"

definition resolve_app_deployment_source :: "'x api_env \<Rightarrow> uuid \<Rightarrow> project \<Rightarrow> ('x, deployment_source) handler" where
  "resolve_app_deployment_source e owner_id app =
     (if \<not> project_requires_source_checkout app then io_return NoSource
      else if trim (p_github_url app) = []
      then io_fail (bad_request ''github_url is required when a service needs source checkout'')
      else resolve_source_deployment_source e owner_id (p_github_url app))"

end
