(* ===== verification/Deployments_Api.thy ===== *)
theory Deployments_Api
  imports Api_State
begin

text \<open>
  Deployments as the API sees them, \<open>containr-api/src/handlers/deployments.rs\<close> and the deployment
  handlers of \<open>domain/services/mod.rs\<close>: a deployment is saved and its job is sent to the worker, or
  neither; a newer one supersedes those in progress; a service's deployments are listed, shown,
  triggered and rolled back to. Also the handlers that read a service: its settings, one of its
  variables, its request log.
\<close>

section \<open>Requests and responses\<close>

record deployment_response =
  dr_id :: uuid
  dr_app_id :: uuid
  dr_commit_sha :: string
  dr_commit_message :: "string option"
  dr_image_id :: "string option"
  dr_status :: deployment_status
  dr_container_id :: "string option"
  dr_created_at :: timestamp
  dr_started_at :: "timestamp option"
  dr_finished_at :: "timestamp option"

record deployment_trigger_request =
  tr_branch :: "string option"
  tr_commit_sha :: "string option"
  tr_commit_message :: "string option"
  tr_rollout_strategy :: "string option"

definition deployment_response :: "deployment \<Rightarrow> deployment_response" where
  "deployment_response d =
     \<lparr> dr_id = d_id d, dr_app_id = d_app_id d, dr_commit_sha = d_commit_sha d, dr_commit_message = d_commit_message d,
       dr_image_id = d_image_id d, dr_status = d_status d, dr_container_id = d_container_id d,
       dr_created_at = d_created_at d, dr_started_at = d_started_at d, dr_finished_at = d_finished_at d \<rparr>"

definition deployment_source_url :: "deployment_source \<Rightarrow> string" where
  "deployment_source_url source =
     (case source of RemoteGit url _ \<Rightarrow> url | LocalPath p \<Rightarrow> p | NoSource \<Rightarrow> [])"

section \<open>Queueing a deployment\<close>

definition stop_replica :: "timestamp \<Rightarrow> service_deployment \<Rightarrow> service_deployment" where
  "stop_replica now sd =
     (if in_progress (sd_status sd)
      then sd\<lparr> sd_status := Stopped, sd_finished_at := Some now, sd_container_id := None \<rparr> else sd)"

definition stop_superseded :: "timestamp \<Rightarrow> deployment \<Rightarrow> deployment" where
  "stop_superseded now d =
     d\<lparr> d_status := Stopped, d_finished_at := Some now,
        d_service_deployments := map (stop_replica now) (d_service_deployments d) \<rparr>"

text \<open>The deployment and then each of its service deployments, as \<open>persist_deployment\<close> does too.\<close>

definition save_with_replicas :: "deployment \<Rightarrow> ('x, unit) handler" where
  "save_with_replicas d =
     io_then (api_write (\<lambda>st. save_deployment st d))
       (io_for (d_service_deployments d) (\<lambda>sd. api_write (\<lambda>st. save_service_deployment st sd)))"

definition supersede_deployment :: "'x api_env \<Rightarrow> uuid \<Rightarrow> deployment \<Rightarrow> ('x, unit) handler" where
  "supersede_deployment e replacement_deployment_id d =
     io_bind (api_now e) (\<lambda>now.
     io_then (api_write (\<lambda>st. append_deployment_log st (d_id d)
                (''deployment superseded by '' @ h_show_uuid (e_host e) replacement_deployment_id)))
       (save_with_replicas (stop_superseded now d)))"

definition supersede_stale_deployments :: "'x api_env \<Rightarrow> uuid \<Rightarrow> uuid \<Rightarrow> ('x, unit) handler" where
  "supersede_stale_deployments e app_id replacement_deployment_id =
     io_bind (api_read (\<lambda>st. list_deployments_by_app st app_id)) (\<lambda>deployments.
       io_for (filter (\<lambda>d. d_id d \<noteq> replacement_deployment_id \<and> in_progress (d_status d)) deployments)
         (supersede_deployment e replacement_deployment_id))"

text \<open>\<open>send\<close> fails when the worker is gone; the saved deployment is then deleted again.\<close>

definition send_job :: "deployment_job \<Rightarrow> ('x, unit) handler" where
  "send_job job s =
     (if a_worker_up s then (Inr (), s\<lparr> a_jobs := a_jobs s @ [job] \<rparr>)
      else (Inl (internal_error ''failed to queue deployment''),
            put_store (fst (delete_deployment (a_store s) (j_deployment_id job))) s))"

definition queue_deployment ::
  "'x api_env \<Rightarrow> uuid \<Rightarrow> project \<Rightarrow> string \<Rightarrow> string option \<Rightarrow> string \<Rightarrow> rollout_strategy \<Rightarrow> uuid option \<Rightarrow>
     deployment_source option \<Rightarrow> bool \<Rightarrow> uuid option \<Rightarrow> ('x, deployment) handler" where
  "queue_deployment e owner_id app commit_sha commit_message branch rollout_strategy rollback_from source_override
     cleanup_stale_deployments local_build_service_id =
     io_bind (case source_override of Some source \<Rightarrow> io_return source
              | None \<Rightarrow> resolve_app_deployment_source e owner_id app) (\<lambda>source.
     io_bind (api_uuid e) (\<lambda>i. io_bind (api_now e) (\<lambda>now.
       let deployment = (deployment_new i now (p_id app) commit_sha)
             \<lparr> d_commit_message := commit_message, d_branch := branch,
               d_source_url := (if deployment_source_url source = [] then None else Some (deployment_source_url source)),
               d_rollout_strategy := rollout_strategy, d_rollback_from_deployment_id := rollback_from,
               d_app_snapshot := Some app \<rparr>;
           job = \<lparr> j_deployment_id = i, j_app_id = p_id app, j_commit_sha = commit_sha,
                   j_commit_message = commit_message, j_branch = branch, j_source = source,
                   j_rollout_strategy = rollout_strategy, j_rollback_from_deployment_id = rollback_from,
                   j_local_build_service_id = local_build_service_id \<rparr>
       in io_then (api_write (\<lambda>st. save_deployment st deployment))
         (io_then (send_job job)
         (io_then (if cleanup_stale_deployments then io_ignore (supersede_stale_deployments e (p_id app) i)
                   else io_return ())
           (io_return deployment))))))"

definition create_and_queue_deployment ::
  "'x api_env \<Rightarrow> uuid \<Rightarrow> project \<Rightarrow> string \<Rightarrow> string option \<Rightarrow> string \<Rightarrow> rollout_strategy \<Rightarrow> uuid option \<Rightarrow>
     deployment_source option \<Rightarrow> bool \<Rightarrow> ('x, deployment) handler" where
  "create_and_queue_deployment e owner_id app commit_sha commit_message branch rollout_strategy rollback_from
     source_override cleanup_stale_deployments =
     queue_deployment e owner_id app commit_sha commit_message branch rollout_strategy rollback_from source_override
       cleanup_stale_deployments None"

definition create_and_queue_local_build_deployment ::
  "'x api_env \<Rightarrow> uuid \<Rightarrow> project \<Rightarrow> uuid \<Rightarrow> string \<Rightarrow> string \<Rightarrow> string \<Rightarrow> ('x, deployment) handler" where
  "create_and_queue_local_build_deployment e owner_id app service_id source_path commit_sha commit_message =
     queue_deployment e owner_id app commit_sha (Some commit_message) (p_branch app) (p_rollout_strategy app) None
       (Some (LocalPath source_path)) False (Some service_id)"

definition can_rollback_to_deployment :: "project \<Rightarrow> deployment \<Rightarrow> bool" where
  "can_rollback_to_deployment app target \<longleftrightarrow>
     d_image_id target \<noteq> None \<or>
     list_all (\<lambda>service. s_id service \<in> sd_service_id ` {sd \<in> set (d_service_deployments target). sd_image_id sd \<noteq> None}
        \<or> s_image service \<noteq> []) (p_services app)"

section \<open>The deployments of a service\<close>

definition sort_deployments_desc :: "deployment list \<Rightarrow> deployment list" where
  "sort_deployments_desc deployments = sort_key (\<lambda>d. - d_created_at d) deployments"

definition deployment_has_service_image :: "deployment \<Rightarrow> container_service \<Rightarrow> bool" where
  "deployment_has_service_image d service \<longleftrightarrow>
     trim (s_image service) \<noteq> [] \<or> d_image_id d \<noteq> None \<or>
     list_ex (\<lambda>sd. sd_service_id sd = s_id service \<and> sd_image_id sd \<noteq> None) (d_service_deployments d)"

definition deployment_is_for_service :: "deployment \<Rightarrow> container_service \<Rightarrow> bool" where
  "deployment_is_for_service d service \<longleftrightarrow>
     trim (s_image service) \<noteq> [] \<or> d_service_deployments d = [] \<or>
     list_ex (\<lambda>sd. sd_service_id sd = s_id service) (d_service_deployments d)"

definition resolve_service_image :: "deployment \<Rightarrow> container_service \<Rightarrow> u32 \<Rightarrow> string option" where
  "resolve_service_image d service replica_index =
     or_else
       (Option.bind (find (\<lambda>sd. sd_service_id sd = s_id service \<and> sd_replica_index sd = replica_index \<and> sd_image_id sd \<noteq> None)
                       (d_service_deployments d)) sd_image_id)
       (or_else
         (Option.bind (find (\<lambda>sd. sd_service_id sd = s_id service) (d_service_deployments d)) sd_image_id)
         (if trim (s_image service) = [] then d_image_id d else Some (s_image service)))"

definition deployment_response_for_service :: "deployment \<Rightarrow> container_service \<Rightarrow> deployment_response" where
  "deployment_response_for_service d service =
     (deployment_response d)\<lparr> dr_image_id := resolve_service_image d service 0 \<rparr>"

definition resolve_app_service_deployment :: "project \<Rightarrow> container_service \<Rightarrow> store \<Rightarrow> deployment option" where
  "resolve_app_service_deployment app service st =
     (let deployments = sort_deployments_desc (list_deployments_by_app st (p_id app))
      in or_else (find (\<lambda>d. d_status d = Running \<and> deployment_has_service_image d service) deployments)
           (find (\<lambda>d. deployment_has_service_image d service) deployments))"

text \<open>The index of the service deployment of a replica, which is added if there is none.\<close>

definition ensure_service_deployment_index ::
  "uuid \<Rightarrow> timestamp \<Rightarrow> deployment \<Rightarrow> uuid \<Rightarrow> u32 \<Rightarrow> nat \<times> deployment" where
  "ensure_service_deployment_index new_id now d service_id replica_index =
     (let found = (\<lambda>sd. sd_service_id sd = service_id \<and> sd_replica_index sd = replica_index)
      in if list_ex found (d_service_deployments d)
         then (length (takeWhile (\<lambda>sd. \<not> found sd) (d_service_deployments d)), d)
         else (length (d_service_deployments d),
               d\<lparr> d_service_deployments := d_service_deployments d
                    @ [service_deployment_new new_id now service_id (d_id d) replica_index] \<rparr>))"

definition persist_deployment :: "deployment \<Rightarrow> ('x, unit) handler" where
  "persist_deployment d = save_with_replicas d"

definition list_service_deployments_handler :: "uuid \<Rightarrow> uuid \<Rightarrow> ('x, deployment_response list) handler" where
  "list_service_deployments_handler user_id service_id =
     owned_app_service user_id service_id (\<lambda>(app, service).
     io_bind (api_read (\<lambda>st. sort_deployments_desc (list_deployments_by_app st (p_id app)))) (\<lambda>deployments.
       io_return (map (\<lambda>d. deployment_response_for_service d service)
                    (filter (\<lambda>d. deployment_is_for_service d service) deployments))))"

text \<open>A deployment of the caller's service, or 404.\<close>

definition require_service_deployment :: "uuid \<Rightarrow> uuid \<Rightarrow> uuid \<Rightarrow> ('x, project \<times> container_service \<times> deployment) handler" where
  "require_service_deployment user_id service_id deployment_id =
     owned_app_service user_id service_id (\<lambda>(app, service).
     io_bind (api_read (\<lambda>st. get_deployment st deployment_id)) (\<lambda>found.
       case found of
         None \<Rightarrow> io_fail (not_found ''deployment not found'')
       | Some d \<Rightarrow>
           if d_app_id d \<noteq> p_id app \<or> \<not> deployment_has_service_image d service
           then io_fail (not_found ''deployment not found'')
           else io_return (app, service, d)))"

definition get_service_deployment_handler :: "uuid \<Rightarrow> uuid \<Rightarrow> uuid \<Rightarrow> ('x, deployment_response) handler" where
  "get_service_deployment_handler user_id service_id deployment_id =
     io_bind (require_service_deployment user_id service_id deployment_id) (\<lambda>(app, service, d).
       io_return (deployment_response_for_service d service))"

definition get_service_deployment_logs ::
  "uuid \<Rightarrow> uuid \<Rightarrow> uuid \<Rightarrow> nat option \<Rightarrow> nat option \<Rightarrow> ('x, string list) handler" where
  "get_service_deployment_logs user_id service_id deployment_id limit offset =
     io_then (require_service_deployment user_id service_id deployment_id)
       (api_read (\<lambda>st. get_deployment_logs st deployment_id (unwrap_or limit 100) (unwrap_or offset 0)))"

section \<open>Triggering and rolling back\<close>

definition rollout_strategy_label :: "rollout_strategy \<Rightarrow> string" where
  "rollout_strategy_label value = (case value of StopFirst \<Rightarrow> ''stop_first'' | StartFirst \<Rightarrow> ''start_first'')"

definition parse_rollout_strategy :: "string \<Rightarrow> rollout_strategy option" where
  "parse_rollout_strategy value =
     (let v = to_ascii_lowercase (trim value)
      in if v \<in> {''stop_first'', ''stop-first'', ''stopfirst''} then Some StopFirst
         else if v \<in> {''start_first'', ''start-first'', ''startfirst''} then Some StartFirst
         else None)"

definition resolve_rollout_strategy :: "string option \<Rightarrow> rollout_strategy \<Rightarrow> api_error + rollout_strategy" where
  "resolve_rollout_strategy override_value default_value =
     (case override_value of
        None \<Rightarrow> Inr default_value
      | Some value \<Rightarrow>
          ok_or (parse_rollout_strategy value) (bad_request ''invalid rollout strategy. use stop_first or start_first''))"

definition trigger_service_deployment ::
  "'x api_env \<Rightarrow> uuid \<Rightarrow> uuid \<Rightarrow> deployment_trigger_request option \<Rightarrow> ('x, deployment_response) handler" where
  "trigger_service_deployment e user_id service_id trigger =
     owned_app_service user_id service_id (\<lambda>(app, service).
       if project_requires_source_checkout app \<and> trim (p_github_url app) = []
       then io_fail (bad_request ''this service has no source; deploy it by uploading code or a Dockerfile'')
       else
         io_bind (io_lift (resolve_rollout_strategy (Option.bind trigger tr_rollout_strategy) (p_rollout_strategy app)))
           (\<lambda>strategy.
         io_bind (create_and_queue_deployment e user_id app
                    (unwrap_or (Option.bind trigger tr_commit_sha) ''manual'')
                    (or_else (Option.bind trigger tr_commit_message) (Some ''manual deployment''))
                    (unwrap_or (Option.bind trigger tr_branch) (p_branch app)) strategy None None False) (\<lambda>d.
           io_return (deployment_response_for_service d service))))"

definition rollback_service_deployment ::
  "'x api_env \<Rightarrow> uuid \<Rightarrow> uuid \<Rightarrow> uuid \<Rightarrow> string option option \<Rightarrow> ('x, deployment_response) handler" where
  "rollback_service_deployment e user_id service_id target_deployment_id body =
     io_bind (require_service_deployment user_id service_id target_deployment_id) (\<lambda>(app, service, target).
       if \<not> can_rollback_to_deployment app target
       then io_fail (bad_request ''target deployment cannot be rolled back (missing image artifact)'')
       else
         io_bind (io_lift (resolve_rollout_strategy (Option.bind body id) (p_rollout_strategy app))) (\<lambda>strategy.
         io_bind (create_and_queue_deployment e user_id app (d_commit_sha target)
                    (Some (''rollback to deployment '' @ h_show_uuid (e_host e) target_deployment_id))
                    (p_branch app) strategy (Some target_deployment_id) None False) (\<lambda>d.
           io_return (deployment_response_for_service d service))))"

definition deploy_local_source :: "'x api_env \<Rightarrow> uuid \<Rightarrow> uuid \<Rightarrow> string \<Rightarrow> string \<Rightarrow> ('x, deployment_response) handler" where
  "deploy_local_source e user_id service_id source_dir label =
     owned_app_service user_id service_id (\<lambda>(app, service).
     io_bind (create_and_queue_local_build_deployment e user_id app (s_id service) source_dir label
                (label @ '' deployment of '' @ s_name service)) (\<lambda>d.
       io_return (deployment_response_for_service d service)))"

section \<open>Reading a service\<close>

record reveal_env_var_request =
  rv_key :: string
  rv_scope :: "string option"

definition reveal_env_var :: "uuid \<Rightarrow> uuid \<Rightarrow> reveal_env_var_request \<Rightarrow> ('x, string \<times> string) handler" where
  "reveal_env_var user_id service_id req =
     owned_app_service user_id service_id (\<lambda>(app, service).
       let key = trim (rv_key req);
           scope = map_option trim (rv_scope req);
           reveal = (\<lambda>vars. case find (\<lambda>var. ev_key var = key) vars of
                        None \<Rightarrow> io_fail (not_found (''variable '' @ key @ '' not found''))
                      | Some var \<Rightarrow> io_return (ev_key var, ev_value var))
       in if scope = None \<or> scope = Some [] \<or> scope = Some ''service'' then reveal (s_env_vars service)
          else if scope = Some ''shared'' then reveal (p_env_vars app)
          else io_fail (bad_request (''unknown scope '' @ unwrap_or scope [] @ ''; use service or shared'')))"

record auto_deploy_settings_response =
  ad_enabled :: bool
  ad_watch_paths :: "string list"
  ad_cleanup_stale_deployments :: bool
  ad_webhook_path :: string
  ad_webhook_token :: string

record service_settings_handler_response =
  sh_service_id :: uuid
  sh_github_url :: string
  sh_branch :: string
  sh_env_vars :: "editable_env_var_response list"
  sh_rollout_strategy :: string
  sh_auto_deploy :: auto_deploy_settings_response
  sh_service :: service_settings_service_response

text \<open>A missing webhook token is made up (\<open>new_token\<close>) and saved.\<close>

definition webhook_token_missing :: "project \<Rightarrow> bool" where
  "webhook_token_missing app \<longleftrightarrow> trim (unwrap_or (p_deploy_webhook_token app) []) = []"

definition get_service_settings :: "'x api_env \<Rightarrow> string \<Rightarrow> uuid \<Rightarrow> uuid \<Rightarrow> ('x, service_settings_handler_response) handler" where
  "get_service_settings e new_token user_id service_id =
     owned_app_service user_id service_id (\<lambda>(app, service).
       let (app', webhook_token) = ensure_deploy_webhook_token new_token app
       in io_then (if webhook_token_missing app then api_write (\<lambda>st. save_app st app') else io_return ())
            (io_return
              \<lparr> sh_service_id = s_id service, sh_github_url = p_github_url app', sh_branch = p_branch app',
                sh_env_vars = map masked_env_var_response (p_env_vars app'),
                sh_rollout_strategy = rollout_strategy_label (p_rollout_strategy app'),
                sh_auto_deploy =
                  \<lparr> ad_enabled = p_auto_deploy_enabled app', ad_watch_paths = p_auto_deploy_watch_paths app',
                    ad_cleanup_stale_deployments = p_auto_deploy_cleanup_stale_deployments app',
                    ad_webhook_path = ''/webhooks/deploy/'' @ h_show_uuid (e_host e) (s_id service) @ ''?token=''
                      @ webhook_token,
                    ad_webhook_token = webhook_token \<rparr>,
                sh_service = service_settings_response service \<rparr>))"

definition list_http_request_logs_handler :: "uuid \<Rightarrow> uuid \<Rightarrow> nat \<Rightarrow> nat \<Rightarrow> ('x, http_request_log list) handler" where
  "list_http_request_logs_handler user_id service_id limit offset =
     owned_app_service user_id service_id (\<lambda>(app, service).
       if \<not> is_public_http service
       then io_fail (bad_request ''http request logs are only available for public web services'')
       else api_read (\<lambda>st. list_http_request_logs st service_id limit offset))"

end
