(* ===== verification/Deployment_Queue.thy ===== *)
theory Deployment_Queue
  imports Deployments_Api Store_Rows
begin

text \<open>
  What the deployment handlers do to the state: queueing a deployment either saves it and sends its
  job or leaves the database and the queue as they were, superseding stops exactly the other
  deployments in progress, only the owner of a service reaches its handlers, and how the check before
  a rollback relates to what the worker does with the rollback.
\<close>

section \<open>What the calls to other systems leave alone\<close>

definition world_view :: "'x world \<Rightarrow> store \<times> uuid list" where
  "world_view w = (w_store w, w_refreshes w)"

definition api_view :: "'x api \<Rightarrow> (store \<times> uuid list) \<times> deployment_job list \<times> bool \<times> string list" where
  "api_view s = (world_view (a_world s), a_jobs s, a_worker_up s, a_cert_requests s)"

text \<open>No other task writes to the database while a handler waits for GitHub or draws an id.\<close>

definition api_quiet :: "'x api_env \<Rightarrow> bool" where
  "api_quiet e \<longleftrightarrow>
     io_keeps (same world_view) (h_new_uuid (e_host e)) \<and>
     (\<forall>url token. io_keeps (same world_view) (gh_get (e_github e) url token)) \<and>
     (\<forall>url token. io_keeps (same world_view) (gh_post (e_github e) url token))"

text \<open>A new id is not in use.\<close>

definition fresh_uuids :: "'x api_env \<Rightarrow> (store \<Rightarrow> uuid set) \<Rightarrow> bool" where
  "fresh_uuids e used \<longleftrightarrow> (\<forall>w i w'. h_new_uuid (e_host e) w = (Inr i, w') \<longrightarrow> i \<notin> used (w_store w))"

lemma keeps_in_world: "io_keeps (same world_view) m \<Longrightarrow> io_keeps (same api_view) (in_world m)"
  by (simp add: io_keeps_def same_def api_view_def in_world_def)

lemma keeps_api_read: "io_keeps (same api_view) (api_read f)"
  by (simp add: api_read_def same.keeps_read)

lemma keeps_split: "(\<And>x y. p = (x, y) \<Longrightarrow> io_keeps R (f x y)) \<Longrightarrow> io_keeps R (case p of (x, y) \<Rightarrow> f x y)"
  by (cases p) simp

lemma keeps_owned:
  "(\<And>app service. io_keeps (same api_view) (f (app, service))) \<Longrightarrow> io_keeps (same api_view) (owned_app_service u i f)"
  unfolding owned_app_service_def by (intro same.keeps_bind) (auto simp: io_keeps_def same_def)

lemma keeps_github_pages: "(\<And>page. io_keeps (same world_view) (fetch page)) \<Longrightarrow> io_keeps (same world_view) (github_pages fuel fetch parse page)"
  by (induction fuel arbitrary: page) (simp_all add: same.keeps_intros)

lemma keeps_github:
  assumes "api_quiet e"
  shows "io_keeps (same world_view) (get_repo_installation_token e c key url)"
proof -
  have get: "io_keeps (same world_view) (gh_get (e_github e) u t)" and post: "io_keeps (same world_view) (gh_post (e_github e) u t)" for u t
    using assms by (simp_all add: api_quiet_def)
  have token: "io_keeps (same world_view) (get_installation_token e jwt i)" for jwt i
    unfolding get_installation_token_def by (intro same.keeps_intros post)
  have repos: "io_keeps (same world_view) (get_installation_repos e t)" for t
    unfolding get_installation_repos_def by (intro keeps_github_pages same.keeps_intros get)
  have "io_keeps (same world_view) (installation_token_for e jwt url ids)" for jwt ids
    by (induction ids) (simp_all add: same.keeps_intros token repos)
  moreover have "io_keeps (same world_view) (list_app_installations e jwt)" for jwt
    unfolding list_app_installations_def by (intro keeps_github_pages same.keeps_intros get)
  ultimately show ?thesis
    unfolding get_repo_installation_token_def generate_app_jwt_def by (intro same.keeps_intros)
qed

lemma keeps_source_resolution:
  assumes "api_quiet e"
  shows "io_keeps (same api_view) (resolve_remote_git_token e owner url)"
    and "io_keeps (same api_view) (resolve_app_deployment_source e owner app)"
    and "io_keeps (same api_view) (resolve_remote_deployment_source e owner app)"
proof -
  show r: "io_keeps (same api_view) (resolve_remote_git_token e owner url)" for owner url
    unfolding resolve_remote_git_token_def Let_def
    by (intro same.keeps_intros keeps_api_read keeps_in_world keeps_github [OF assms])
  show "io_keeps (same api_view) (resolve_app_deployment_source e owner app)"
    unfolding resolve_app_deployment_source_def resolve_source_deployment_source_def resolve_remote_source_deployment_def
    by (intro same.keeps_intros r)
  show "io_keeps (same api_view) (resolve_remote_deployment_source e owner app)"
    unfolding resolve_remote_deployment_source_def resolve_remote_source_deployment_def
    by (intro same.keeps_intros r)
qed

lemma keeps_uuid: "api_quiet e \<Longrightarrow> io_keeps (same api_view) (api_uuid e)"
  unfolding api_uuid_def by (intro keeps_in_world same.keeps_intros) (simp add: api_quiet_def)

lemma put_store_simps [simp]:
  "a_store (put_store st s) = st" "a_jobs (put_store st s) = a_jobs s" "a_worker_up (put_store st s) = a_worker_up s"
  "a_cert_requests (put_store st s) = a_cert_requests s" "put_store st (put_store st' s) = put_store st s"
  "put_store (a_store s) s = s" "w_refreshes (a_world (put_store st s)) = w_refreshes (a_world s)"
  by (simp_all add: a_store_def put_store_def)

lemma api_write_apply:
  "api_write f s = (case f (a_store s) of Inl e \<Rightarrow> (Inl (internal_error e), s) | Inr st \<Rightarrow> (Inr (), put_store st s))"
  by (simp add: api_write_def)

section \<open>Superseding\<close>

text \<open>Whether a deployment is stopped in favour of \<open>new_id\<close>.\<close>

definition superseded :: "uuid \<Rightarrow> uuid \<Rightarrow> deployment \<Rightarrow> bool" where
  "superseded app_id new_id d \<longleftrightarrow> d_app_id d = app_id \<and> d_id d \<noteq> new_id \<and> in_progress (d_status d)"

lemma save_replicas_same:
  assumes "store_inv (a_store s)" and "set sds \<subseteq> set (st_service_deployments (a_store s))"
  shows "io_for sds (\<lambda>sd. api_write (\<lambda>st. save_service_deployment st sd)) s = (Inr (), s)"
  using assms
  by (induction sds) (simp_all add: io_defs api_write_apply save_service_deployment_same)

lemma stop_replica_ids [simp]:
  "sd_id (stop_replica now sd) = sd_id sd" "sd_service_id (stop_replica now sd) = sd_service_id sd"
  "sd_deployment_id (stop_replica now sd) = sd_deployment_id sd"
  "stop_replica now (stop_replica now sd) = stop_replica now sd"
  by (simp_all add: stop_replica_def in_progress_def)

text \<open>One deployment, loaded earlier: its row and its replicas are stopped, every other row is as before.\<close>

lemma stopped_row:
  assumes "deployment_row r = r"
  shows "deployment_row (stop_superseded now (r\<lparr> d_service_deployments := sds, d_logs := [] \<rparr>)) =
    r\<lparr> d_status := Stopped, d_finished_at := Some now \<rparr>"
  using assms unfolding deployment_row_id
  by (cases r) (auto simp: deployment_row_def stop_superseded_def opt_filter_def split: option.splits)

lemma supersede_deployment_step:
  fixes e :: "'x api_env" and s :: "'x api"
  assumes inv: "store_inv (a_store s)" and row: "deployment_of (a_store s) (d_id r) = Some r"
    and sds: "set sds = {sd \<in> set (st_service_deployments (a_store s)). sd_deployment_id sd = d_id r}" "distinct (map sd_id sds)"
  defines "d \<equiv> r\<lparr> d_service_deployments := sds, d_logs := [] \<rparr>" and "now \<equiv> h_now (e_host e) (a_world s)"
  shows "\<exists>st. supersede_deployment e new_id d s = (Inr (), put_store st s) \<and> store_inv st \<and>
    (\<forall>i. deployment_of st i = (if i = d_id r then Some (r\<lparr> d_status := Stopped, d_finished_at := Some now \<rparr>)
       else deployment_of (a_store s) i)) \<and>
    set (st_service_deployments st) =
      (\<lambda>sd. if sd_deployment_id sd = d_id r then stop_replica now sd else sd) ` set (st_service_deployments (a_store s))"
proof -
  let ?d = "stop_superseded now d" and ?line = "''deployment superseded by '' @ h_show_uuid (e_host e) new_id"
  have m: "r \<in> set (st_deployments (a_store s))"
    using deployment_of_SomeD [OF row] by simp
  obtain st1 where log: "append_deployment_log (a_store s) (d_id r) ?line = Inr st1"
    using m by (simp add: append_deployment_log_def)
  then have st1: "st_deployments st1 = st_deployments (a_store s)" "st_services st1 = st_services (a_store s)"
    "st_service_deployments st1 = st_service_deployments (a_store s)" and inv1: "store_inv st1"
    using inv_store_step [OF store_step.intros(12) [OF log] inv] by (auto simp: append_deployment_log_def split: if_splits)
  have ids: "d_id ?d = d_id r" "distinct (map sd_id (d_service_deployments ?d))"
    using sds(2) by (simp_all add: stop_superseded_def d_def comp_def)
  have replicas: "d_service_deployments ?d = map (stop_replica now) sds" by (simp add: stop_superseded_def d_def)
  obtain st2 where sv: "save_deployment st1 ?d = Inr st2"
    using save_again_succeeds [OF inv1, of ?d r] row st1 sds(1) inv_references(1) [OF inv]
    by (auto simp: deployment_of_def stop_superseded_def d_def)
  note t = save_deployment_tables [OF inv1 sv ids(2)]
  have inv2: "store_inv st2" using inv1 sv by (rule inv_save_deployment)
  have new: "map (\<lambda>sd. sd\<lparr> sd_deployment_id := d_id ?d \<rparr>) (d_service_deployments ?d) = map (stop_replica now) sds"
    unfolding replicas map_map by (rule map_cong) (use sds(1) in \<open>auto simp: ids(1) stop_replica_def\<close>)
  have others: "sd_id sd \<notin> sd_id ` set sds"
    if "sd \<in> set (st_service_deployments (a_store s))" "sd_deployment_id sd \<noteq> d_id r" for sd
  proof
    assume "sd_id sd \<in> sd_id ` set sds"
    then obtain sd' where "sd' \<in> set (st_service_deployments (a_store s))" "sd_deployment_id sd' = d_id r" "sd_id sd = sd_id sd'"
      using sds(1) by auto
    moreover have "distinct (map sd_id (st_service_deployments (a_store s)))" using inv by (simp add: store_inv_defs)
    ultimately show False using that by (metis distinct_map inj_onD)
  qed
  have set2: "set (st_service_deployments st2) =
      {sd \<in> set (st_service_deployments (a_store s)). sd_deployment_id sd \<noteq> d_id r} \<union> stop_replica now ` set sds"
    using t(2) others unfolding new by (auto simp: st1 ids(1) image_image)
  have same: "io_for (d_service_deployments ?d) (\<lambda>sd. api_write (\<lambda>st. save_service_deployment st sd)) (put_store st2 s) =
      (Inr (), put_store st2 s)"
    by (rule save_replicas_same) (auto simp: inv2 set2 replicas)
  have "supersede_deployment e new_id d s = (Inr (), put_store st2 s)"
    using log sv same
    by (simp add: supersede_deployment_def save_with_replicas_def api_now_def io_defs api_write_apply d_def now_def)
  moreover have "deployment_row ?d = r\<lparr> d_status := Stopped, d_finished_at := Some now \<rparr>"
    unfolding d_def by (rule stopped_row) (use inv m in \<open>simp add: store_inv_defs list_all_iff\<close>)
  then have "\<forall>i. deployment_of st2 i = (if i = d_id r then Some (r\<lparr> d_status := Stopped, d_finished_at := Some now \<rparr>)
       else deployment_of (a_store s) i)"
    using save_deployment_of [OF sv] ids(1) st1(1) by (simp add: deployment_of_def)
  moreover have "set (st_service_deployments st2) =
      (\<lambda>sd. if sd_deployment_id sd = d_id r then stop_replica now sd else sd) ` set (st_service_deployments (a_store s))"
    unfolding set2 sds(1) by (auto simp: image_iff)
  ultimately show ?thesis using inv2 by blast
qed


lemma stop_other_replicas:
  assumes "i \<noteq> j"
  shows "{sd \<in> (\<lambda>sd. if sd_deployment_id sd = j then stop_replica now sd else sd) ` S. sd_deployment_id sd = i} =
    {sd \<in> S. sd_deployment_id sd = i}"
  using assms by (auto simp: image_iff split: if_splits)

text \<open>The clock does not depend on the database.\<close>

definition clock_apart :: "'x api_env \<Rightarrow> bool" where
  "clock_apart e \<longleftrightarrow> (\<forall>w st. h_now (e_host e) (w\<lparr> w_store := st \<rparr>) = h_now (e_host e) w)"

lemma supersede_loop:
  fixes e :: "'x api_env" and s :: "'x api"
  defines "now \<equiv> h_now (e_host e) (a_world s)"
  assumes "store_inv (a_store s)" and clock: "clock_apart e" and "distinct (map d_id rs)"
    and "\<And>r. r \<in> set rs \<Longrightarrow> deployment_of (a_store s) (d_id r) = Some r"
    and "\<And>r. r \<in> set rs \<Longrightarrow> set (f r) = {sd \<in> set (st_service_deployments (a_store s)). sd_deployment_id sd = d_id r} \<and> distinct (map sd_id (f r))"
  shows "\<exists>st. io_for (map (\<lambda>r. r\<lparr> d_service_deployments := f r, d_logs := [] \<rparr>) rs) (supersede_deployment e new_id) s =
      (Inr (), put_store st s) \<and> store_inv st \<and>
    (\<forall>i. deployment_of st i = map_option (\<lambda>d. if d_id d \<in> d_id ` set rs then d\<lparr> d_status := Stopped, d_finished_at := Some now \<rparr> else d)
       (deployment_of (a_store s) i)) \<and>
    set (st_service_deployments st) =
      (\<lambda>sd. if sd_deployment_id sd \<in> d_id ` set rs then stop_replica now sd else sd) ` set (st_service_deployments (a_store s))"
  using assms(2,4-)
  unfolding now_def
proof (induction rs arbitrary: s)
  case Nil
  show ?case
    by (rule exI [of _ "a_store s"]) (use Nil.prems in \<open>simp add: io_defs option.map_ident\<close>)
next
  case (Cons r rs)
  let ?now = "h_now (e_host e) (a_world s)"
  have r: "deployment_of (a_store s) (d_id r) = Some r"
    "set (f r) = {sd \<in> set (st_service_deployments (a_store s)). sd_deployment_id sd = d_id r}" "distinct (map sd_id (f r))"
    using Cons.prems(3,4) by simp_all
  obtain st1 where st1: "supersede_deployment e new_id (r\<lparr> d_service_deployments := f r, d_logs := [] \<rparr>) s = (Inr (), put_store st1 s)"
      "store_inv st1"
    and rows1: "\<And>i. deployment_of st1 i = (if i = d_id r then Some (r\<lparr> d_status := Stopped, d_finished_at := Some ?now \<rparr>)
       else deployment_of (a_store s) i)"
    and sds1: "set (st_service_deployments st1) =
      (\<lambda>sd. if sd_deployment_id sd = d_id r then stop_replica ?now sd else sd) ` set (st_service_deployments (a_store s))"
    using supersede_deployment_step [OF Cons.prems(1) r] by blast
  have now1: "h_now (e_host e) (a_world (put_store st1 s)) = ?now"
    using clock by (simp add: clock_apart_def put_store_def)
  have other: "d_id q \<noteq> d_id r" if "q \<in> set rs" for q
    using Cons.prems(2) that by (simp, metis image_eqI)
  have i: "store_inv (a_store (put_store st1 s))" "distinct (map d_id rs)"
    using st1(2) Cons.prems(2) by simp_all
  have q: "deployment_of (a_store (put_store st1 s)) (d_id q) = Some q" if "q \<in> set rs" for q
    using rows1 [of "d_id q"] other [OF that] Cons.prems(3) [of q] that by simp
  have f: "set (f q) = {sd \<in> set (st_service_deployments (a_store (put_store st1 s))). sd_deployment_id sd = d_id q} \<and>
      distinct (map sd_id (f q))" if "q \<in> set rs" for q
    unfolding put_store_simps(1) sds1 stop_other_replicas [OF other [OF that]] using Cons.prems(4) [of q] that by simp
  obtain st where st: "io_for (map (\<lambda>r. r\<lparr> d_service_deployments := f r, d_logs := [] \<rparr>) rs) (supersede_deployment e new_id) (put_store st1 s) =
      (Inr (), put_store st (put_store st1 s))" "store_inv st"
    and rows: "\<And>i. deployment_of st i = map_option (\<lambda>d. if d_id d \<in> d_id ` set rs then d\<lparr> d_status := Stopped, d_finished_at := Some ?now \<rparr> else d)
       (deployment_of st1 i)"
    and sds: "set (st_service_deployments st) =
      (\<lambda>sd. if sd_deployment_id sd \<in> d_id ` set rs then stop_replica ?now sd else sd) ` set (st_service_deployments st1)"
    using Cons.IH [OF i q f] unfolding now1 put_store_simps(1) by blast
  have key: "d_id d = i" if "deployment_of (a_store s) i = Some d" for d i
    using deployment_of_SomeD [OF that] by simp
  have "deployment_of st i = map_option (\<lambda>d. if d_id d \<in> d_id ` set (r # rs) then d\<lparr> d_status := Stopped, d_finished_at := Some ?now \<rparr> else d)
       (deployment_of (a_store s) i)" for i
  proof (cases "deployment_of (a_store s) i")
    case None
    then have "i \<noteq> d_id r" using r(1) by auto
    then show ?thesis by (simp add: rows rows1 None)
  next
    case (Some d)
    have "d_id r \<notin> d_id ` set rs" using Cons.prems(2) by simp
    show ?thesis
    proof (cases "i = d_id r")
      case True
      then have "d = r" using Some r(1) by simp
      then show ?thesis
        using \<open>d_id r \<notin> d_id ` set rs\<close> unfolding rows [of i] rows1 [of i] Some if_P [OF True] by simp
    next
      case False
      then have "d_id d \<noteq> d_id r" using key [OF Some] by metis
      then show ?thesis unfolding rows [of i] rows1 [of i] if_not_P [OF False] Some by simp
    qed
  qed
  moreover have "set (st_service_deployments st) =
      (\<lambda>sd. if sd_deployment_id sd \<in> d_id ` set (r # rs) then stop_replica ?now sd else sd) ` set (st_service_deployments (a_store s))"
    unfolding sds sds1 image_image using other by (intro image_cong) auto
  ultimately show ?case
    using st st1 by (intro exI [of _ st]) (simp add: io_defs)
qed

lemma supersede_result:
  fixes e :: "'x api_env" and s :: "'x api"
  assumes inv: "store_inv (a_store s)" and "clock_apart e"
  shows "\<exists>st. supersede_stale_deployments e app_id new_id s = (Inr (), put_store st s) \<and>
    (\<forall>i. deployment_of st i =
       map_option (\<lambda>d. if superseded app_id new_id d
                       then d\<lparr> d_status := Stopped, d_finished_at := Some (h_now (e_host e) (a_world s)) \<rparr> else d)
         (deployment_of (a_store s) i)) \<and>
    set (st_service_deployments st) =
      (\<lambda>sd. if is_some_and (deployment_of (a_store s) (sd_deployment_id sd)) (superseded app_id new_id)
            then stop_replica (h_now (e_host e) (a_world s)) sd else sd) ` set (st_service_deployments (a_store s))"
proof -
  let ?st = "a_store s"
  define rs where "rs = filter (\<lambda>d. d_id d \<noteq> new_id \<and> in_progress (d_status d))
    (sort_key (\<lambda>d. - d_created_at d) (filter (\<lambda>d. d_app_id d = app_id) (st_deployments ?st)))"
  let ?f = "\<lambda>r. list_service_deployments ?st (d_id r)"
  have list: "filter (\<lambda>d. d_id d \<noteq> new_id \<and> in_progress (d_status d)) (list_deployments_by_app ?st app_id) =
      map (\<lambda>r. r\<lparr> d_service_deployments := ?f r, d_logs := [] \<rparr>) rs"
    by (simp add: list_deployments_by_app_def rs_def filter_map comp_def load_deployment_def)
  have dist: "distinct (map d_id (st_deployments ?st))" using inv by (simp add: store_inv_defs)
  have rs: "set rs = {d \<in> set (st_deployments ?st). superseded app_id new_id d}"
    by (auto simp: rs_def superseded_def)
  have ids: "distinct (map d_id rs)"
    unfolding rs_def by (rule distinct_map_filter) (simp add: distinct_map_sort_key distinct_map_filter dist)
  have row: "deployment_of ?st (d_id r) = Some r" if "r \<in> set (st_deployments ?st)" for r
    using select_row_distinct [OF dist that] by (simp add: deployment_of_def)
  have stale: "i \<in> d_id ` set rs \<longleftrightarrow> is_some_and (deployment_of ?st i) (superseded app_id new_id)" for i
    using row select_row_SomeD [of d_id i "st_deployments ?st"] by (auto simp: rs is_some_and_iff deployment_of_def)
  have key: "d_id d = i" if "deployment_of ?st i = Some d" for d i
    using deployment_of_SomeD [OF that] by simp
  have f: "set (?f r) = {sd \<in> set (st_service_deployments ?st). sd_deployment_id sd = d_id r} \<and> distinct (map sd_id (?f r))" for r
    using loaded_replicas(1,2) [OF inv] by blast
  have loop: "supersede_stale_deployments e app_id new_id s =
      io_for (map (\<lambda>r. r\<lparr> d_service_deployments := ?f r, d_logs := [] \<rparr>) rs) (supersede_deployment e new_id) s"
    unfolding supersede_stale_deployments_def api_read_def io_bind_apply(1) io_apply(3) fst_conv snd_conv sum.case list ..
  have "deployment_of ?st (d_id r) = Some r" if "r \<in> set rs" for r
    using row that by (simp add: rs)
  from supersede_loop [OF inv assms(2) ids this f]
  obtain st where "supersede_stale_deployments e app_id new_id s = (Inr (), put_store st s)"
    and rows: "\<And>i. deployment_of st i = map_option (\<lambda>d. if d_id d \<in> d_id ` set rs
        then d\<lparr> d_status := Stopped, d_finished_at := Some (h_now (e_host e) (a_world s)) \<rparr> else d) (deployment_of ?st i)"
    and sds: "set (st_service_deployments st) = (\<lambda>sd. if sd_deployment_id sd \<in> d_id ` set rs
        then stop_replica (h_now (e_host e) (a_world s)) sd else sd) ` set (st_service_deployments ?st)"
    unfolding loop by blast
  moreover have "deployment_of st i = map_option (\<lambda>d. if superseded app_id new_id d
      then d\<lparr> d_status := Stopped, d_finished_at := Some (h_now (e_host e) (a_world s)) \<rparr> else d) (deployment_of ?st i)" for i
  proof (cases "deployment_of ?st i")
    case (Some d)
    then show ?thesis using key [OF Some] by (simp add: rows stale)
  qed (simp add: rows)
  ultimately show ?thesis unfolding stale by blast
qed

text \<open>
  C13. Superseding stops exactly what it should: for a project, every other deployment that is still in
  progress is marked as stopped and its replicas in progress lose their containers, no other
  deployment and no other replica changes, and it never fails.
\<close>

theorem supersede_stops_stale_deployments:
  fixes e :: "'x api_env" and s :: "'x api"
  assumes "store_reachable (a_store s)" and "clock_apart e"
  shows "\<exists>st. supersede_stale_deployments e app_id new_id s = (Inr (), put_store st s) \<and>
    (\<forall>i. deployment_of st i =
       map_option (\<lambda>d. if superseded app_id new_id d
                       then d\<lparr> d_status := Stopped, d_finished_at := Some (h_now (e_host e) (a_world s)) \<rparr> else d)
         (deployment_of (a_store s) i)) \<and>
    set (st_service_deployments st) =
      (\<lambda>sd. if is_some_and (deployment_of (a_store s) (sd_deployment_id sd)) (superseded app_id new_id)
            then stop_replica (h_now (e_host e) (a_world s)) sd else sd) ` set (st_service_deployments (a_store s))"
  by (rule supersede_result [OF store_reachable_inv [OF assms(1)] assms(2)])

section \<open>Saved and queued, or neither\<close>

lemma same_view_store: "same api_view s s' \<Longrightarrow> a_store s' = a_store s \<and> a_jobs s' = a_jobs s \<and> a_worker_up s' = a_worker_up s"
  by (simp add: same_def api_view_def world_view_def a_store_def)

text \<open>The handler after the source, the id and the time are known.\<close>

definition deployment_of_job :: "project \<Rightarrow> timestamp \<Rightarrow> deployment_job \<Rightarrow> deployment" where
  "deployment_of_job app now job =
     (deployment_new (j_deployment_id job) now (p_id app) (j_commit_sha job))
       \<lparr> d_commit_message := j_commit_message job, d_branch := j_branch job,
         d_source_url := (if deployment_source_url (j_source job) = [] then None else Some (deployment_source_url (j_source job))),
         d_rollout_strategy := j_rollout_strategy job, d_rollback_from_deployment_id := j_rollback_from_deployment_id job,
         d_app_snapshot := Some app \<rparr>"

lemma queue_deployment_cases:
  assumes quiet: "api_quiet e"
    and run: "queue_deployment e owner app sha msg branch strategy rb override cleanup local s = (r, s')"
  obtains (source) err where "r = Inl err" "same api_view s s'"
  | (job) job now s1 where "same api_view s s1" "\<exists>w w1. w_store w = a_store s \<and> h_new_uuid (e_host e) w = (Inr (j_deployment_id job), w1)"
      "j_app_id job = p_id app" "j_commit_sha job = sha" "j_rollback_from_deployment_id job = rb"
      "j_local_build_service_id job = local"
      "io_then (api_write (\<lambda>st. save_deployment st (deployment_of_job app now job)))
         (io_then (send_job job)
         (io_then (if cleanup then io_ignore (supersede_stale_deployments e (p_id app) (j_deployment_id job)) else io_return ())
           (io_return (deployment_of_job app now job)))) s1 = (r, s')"
proof -
  let ?src = "case override of Some source \<Rightarrow> io_return source | None \<Rightarrow> resolve_app_deployment_source e owner app"
  have k: "io_keeps (same api_view) ?src"
    by (intro same.keeps_option same.keeps_return keeps_source_resolution(2) [OF quiet])
  obtain r1 s1 where s1: "?src s = (r1, s1)" by (cases "?src s")
  have v1: "same api_view s s1" using io_keepsD [OF k, of s] by (simp add: s1)
  obtain r2 s2 where s2: "api_uuid e s1 = (r2, s2)" by (cases "api_uuid e s1")
  have v2: "same api_view s s2"
    using io_keepsD [OF keeps_uuid [OF quiet], of s1] v1 by (simp add: s2 same_def)
  show thesis
  proof (cases r1)
    case (Inl err)
    with run v1 show thesis by (intro source) (auto simp: queue_deployment_def io_bind_apply s1)
  next
    case r1: (Inr src)
    show thesis
    proof (cases r2)
      case (Inl err)
      with run v2 show thesis by (intro source) (auto simp: queue_deployment_def io_bind_apply s1 s2 r1)
    next
      case (Inr i)
      obtain w1 where "h_new_uuid (e_host e) (a_world s1) = (Inr i, w1)"
        using s2 Inr by (cases "h_new_uuid (e_host e) (a_world s1)")
          (auto simp: api_uuid_def in_world_def io_map_err_def)
      moreover have "w_store (a_world s1) = a_store s" using same_view_store [OF v1] by (simp add: a_store_def)
      ultimately show thesis
        using run v2
        by (intro job [of s2 "\<lparr> j_deployment_id = i, j_app_id = p_id app, j_commit_sha = sha, j_commit_message = msg,
              j_branch = branch, j_source = src, j_rollout_strategy = strategy, j_rollback_from_deployment_id = rb,
              j_local_build_service_id = local \<rparr>" "h_now (e_host e) (a_world s2)"])
          (auto simp: queue_deployment_def io_bind_apply(1) s1 s2 r1 Inr api_now_def io_apply Let_def deployment_of_job_def)
    qed
  qed
qed

lemma queue_deployment_result:
  assumes inv: "store_inv (a_store s)" and quiet: "api_quiet e" and clock: "clock_apart e"
    and fresh: "fresh_uuids e (\<lambda>st. d_id ` set (st_deployments st))"
    and run: "queue_deployment e owner app sha msg branch strategy rb override cleanup local s = (r, s')"
  shows "case r of
      Inl _ \<Rightarrow> a_store s' = a_store s \<and> a_jobs s' = a_jobs s
    | Inr d \<Rightarrow> d_id d \<notin> d_id ` set (st_deployments (a_store s)) \<and> deployment_of (a_store s') (d_id d) = Some (deployment_row d) \<and>
        d_status d = Pending \<and> d_app_snapshot d = Some app \<and>
        (\<exists>job. a_jobs s' = a_jobs s @ [job] \<and> j_deployment_id job = d_id d \<and> j_app_id job = d_app_id d \<and> d_app_id d = p_id app \<and>
           j_commit_sha job = sha \<and> j_rollback_from_deployment_id job = rb)"
  using quiet run
proof (cases rule: queue_deployment_cases)
  case (source err)
  then show ?thesis using same_view_store by auto
next
  case (job job now s1)
  let ?d = "deployment_of_job app now job" and ?i = "j_deployment_id job"
  have s1: "a_store s1 = a_store s" "a_jobs s1 = a_jobs s" using same_view_store [OF job(1)] by auto
  have new: "?i \<notin> d_id ` set (st_deployments (a_store s))"
    using job(2) fresh unfolding fresh_uuids_def by metis
  have d: "d_id ?d = ?i" "d_service_deployments ?d = []" "d_status ?d = Pending" "d_app_snapshot ?d = Some app" "d_app_id ?d = p_id app"
    by (simp_all add: deployment_of_job_def deployment_new_def)
  show ?thesis
  proof (cases "save_deployment (a_store s) ?d")
    case (Inl err)
    then show ?thesis using job(7) s1 by (auto simp: io_bind_apply api_write_apply)
  next
    case (Inr st)
    show ?thesis
    proof (cases "a_worker_up s1")
      case False
      have "fst (delete_deployment st ?i) = a_store s"
        using delete_saved_deployment [OF inv _ d(2) Inr] new by (simp add: d(1))
      then show ?thesis using job(7) s1 Inr False by (auto simp: io_bind_apply api_write_apply send_job_def)
    next
      case True
      let ?s2 = "put_store st s1\<lparr> a_jobs := a_jobs s1 @ [job] \<rparr>"
      have s2: "a_store ?s2 = st" by (simp add: a_store_def put_store_def)
      have "store_inv st" using inv Inr by (rule inv_save_deployment)
      then obtain st' where st': "supersede_stale_deployments e (p_id app) ?i ?s2 = (Inr (), put_store st' ?s2)"
        and rows: "\<And>i. deployment_of st' i = map_option (\<lambda>d. if superseded (p_id app) ?i d
              then d\<lparr> d_status := Stopped, d_finished_at := Some (h_now (e_host e) (a_world ?s2)) \<rparr> else d) (deployment_of st i)"
        using supersede_result [of ?s2 e "p_id app" ?i] clock unfolding s2 by blast
      have row: "deployment_of st ?i = Some (deployment_row ?d)" using save_deployment_of [OF Inr] by (simp add: d(1))
      have "\<not> superseded (p_id app) ?i (deployment_row ?d)" by (simp add: superseded_def deployment_row_def d(1))
      with rows [of ?i] row have row': "deployment_of st' ?i = Some (deployment_row ?d)" by simp
      have r: "r = Inr ?d" and s': "s' = (if cleanup then put_store st' ?s2 else ?s2)"
        using job(7) Inr True s1(1) st'
        by (cases cleanup; simp add: io_bind_apply api_write_apply send_job_def io_apply)+
      have "a_store s' = (if cleanup then st' else st)" "a_jobs s' = a_jobs s @ [job]"
        unfolding s' by (simp_all add: put_store_def s1 a_store_def)
      then show ?thesis using new row row' job(3-5) by (auto simp: r d)
    qed
  qed
qed

text \<open>
  C12. A deployment is saved and queued, or neither happens: if \<open>queue_deployment\<close> answers with an error (the
  source cannot be resolved, the project is gone, the worker does not receive), the database and the
  queue are as they were; otherwise exactly one job was appended, for the project and with the id of
  the deployment of the answer, which is new, pending, stored with the project as its snapshot, and
  still there if older deployments were superseded.
\<close>

theorem queued_deployments_are_saved:
  assumes "store_reachable (a_store s)" and quiet: "api_quiet e" and clock: "clock_apart e"
    and fresh: "fresh_uuids e (\<lambda>st. d_id ` set (st_deployments st))"
    and run: "queue_deployment e owner app sha msg branch strategy rb override cleanup local s = (r, s')"
  shows "case r of
      Inl _ \<Rightarrow> a_store s' = a_store s \<and> a_jobs s' = a_jobs s
    | Inr d \<Rightarrow> d_id d \<notin> d_id ` set (st_deployments (a_store s)) \<and> deployment_of (a_store s') (d_id d) = Some (deployment_row d) \<and>
        d_status d = Pending \<and> d_app_snapshot d = Some app \<and>
        (\<exists>job. a_jobs s' = a_jobs s @ [job] \<and> j_deployment_id job = d_id d \<and> j_app_id job = d_app_id d \<and> d_app_id d = p_id app \<and>
           j_commit_sha job = sha \<and> j_rollback_from_deployment_id job = rb)"
  by (rule queue_deployment_result [OF store_reachable_inv [OF assms(1)] quiet clock fresh run])

section \<open>Rolling back\<close>

text \<open>
  For a given set of services the check before a rollback is exact: the API accepts a target deployment
  if and only if the worker finds an image for every one of the services in it.
\<close>

theorem rollback_check_exact:
  assumes "distinct (map s_id (p_services app))"
  shows "can_rollback_to_deployment app target \<longleftrightarrow> (\<exists>imgs. resolve_rollback_service_images app target = Inr imgs)"
proof -
  have none: "map_of (source_images_of target) i = None \<longleftrightarrow>
      i \<notin> sd_service_id ` {sd \<in> set (d_service_deployments target). sd_image_id sd \<noteq> None}" for i
  proof -
    have src: "map_of (source_images_of target) i = Option.bind (List.find (\<lambda>sd. sd_service_id sd = i \<and> sd_image_id sd \<noteq> None)
        (d_service_deployments target)) sd_image_id"
      unfolding source_images_of_def using map_of_source_images [of "[]"] by simp
    show ?thesis unfolding src find_bind_None by auto
  qed
  note r = rollback_images_loop_result [of "[]" "p_services app" "source_images_of target" "d_image_id target"]
  show ?thesis
  proof (cases "resolve_rollback_service_images app target")
    case (Inl e)
    with r assms obtain s where "s \<in> set (p_services app)" "s_image s = []" "d_image_id target = None"
        "map_of (source_images_of target) (s_id s) = None"
      by (auto simp: resolve_rollback_service_images_def)
    then show ?thesis by (auto simp: Inl can_rollback_to_deployment_def list_all_iff none)
  next
    case (Inr imgs)
    have keys: "map fst imgs = map s_id (p_services app)"
      and imgs: "\<And>s. s \<in> set (p_services app) \<Longrightarrow> map_of imgs (s_id s) =
         or_else (map_of (source_images_of target) (s_id s)) (if s_image s \<noteq> [] then Some (s_image s) else d_image_id target)"
      using r assms Inr by (simp_all add: resolve_rollback_service_images_def)
    have "s_id s \<in> sd_service_id ` {sd \<in> set (d_service_deployments target). sd_image_id sd \<noteq> None} \<or> s_image s \<noteq> []"
      if "s \<in> set (p_services app)" "d_image_id target = None" for s
    proof (rule ccontr)
      assume "\<not> ?thesis"
      then have "map_of (source_images_of target) (s_id s) = None" "s_image s = []" by (auto simp: none)
      then have "map_of imgs (s_id s) = None" using imgs [OF that(1)] that(2) by simp
      then have "s_id s \<notin> set (map fst imgs)" by (simp add: map_of_eq_None_iff)
      then show False unfolding keys using that(1) by simp
    qed
    then show ?thesis by (auto simp: Inr can_rollback_to_deployment_def list_all_iff)
  qed
qed

text \<open>
  The check looks at the services of today, the worker at those of the target's snapshot: after a service
  that is built from source was added to a project, a rollback to an earlier deployment is refused,
  although the worker would find every image it needs.
\<close>

theorem rollback_refused_after_adding_service:
  assumes "resolve_owned_app_service_record user i (a_store s) = Inr (app, service)"
    and "get_deployment (a_store s) j = Some target" "d_app_id target = p_id app" "deployment_has_service_image target service"
    and "d_image_id target = None" and "new \<in> set (p_services app)" "s_image new = []"
    and "s_id new \<notin> sd_service_id ` set (d_service_deployments target)"
    and "d_app_snapshot target = Some snapshot" "resolve_rollback_service_images snapshot target = Inr imgs"
  shows "rollback_service_deployment e user i j body s =
      (Inl (bad_request ''target deployment cannot be rolled back (missing image artifact)''), s) \<and>
    resolve_rollback_service_images (resolve_deployment_app app d (Some target)) target = Inr imgs"
proof -
  have "\<not> can_rollback_to_deployment app target"
    using assms(5-8) by (auto simp: can_rollback_to_deployment_def list_all_iff)
  moreover have "require_service_deployment user i j s = (Inr (app, service, target), s)"
    using assms(1-4) by (simp add: require_service_deployment_def owned_app_service_def api_read_def io_defs)
  ultimately show ?thesis
    using assms(9,10) by (simp add: rollback_service_deployment_def io_defs resolve_deployment_app_def)
qed

text \<open>
  The list shows deployments that cannot be opened: a deployment of a service built from source that failed
  before it had an image is in the list of the service's deployments, but asking for it or for its log
  is answered with 404.
\<close>

theorem failed_build_listed_but_not_found:
  assumes "resolve_owned_app_service_record user i (a_store s) = Inr (app, service)" and "trim (s_image service) = []"
    and "d \<in> set (list_deployments_by_app (a_store s) (p_id app))" "get_deployment (a_store s) (d_id d) = Some d"
    and "d_image_id d = None" "d_service_deployments d = []"
  shows "\<exists>listed. list_service_deployments_handler user i s = (Inr listed, s) \<and> d_id d \<in> dr_id ` set listed \<and>
    get_service_deployment_handler user i (d_id d) s = (Inl (not_found ''deployment not found''), s) \<and>
    get_service_deployment_logs user i (d_id d) limit offset s = (Inl (not_found ''deployment not found''), s)"
proof -
  let ?listed = "map (\<lambda>d. deployment_response_for_service d service)
    (filter (\<lambda>d. deployment_is_for_service d service) (sort_deployments_desc (list_deployments_by_app (a_store s) (p_id app))))"
  have "list_service_deployments_handler user i s = (Inr ?listed, s)"
    using assms(1) by (simp add: list_service_deployments_handler_def owned_app_service_def api_read_def io_defs)
  moreover have "d_id d \<in> dr_id ` set ?listed"
    using assms(3,6)
    by (force simp: deployment_response_for_service_def deployment_response_def deployment_is_for_service_def
        sort_deployments_desc_def)
  moreover have "\<not> deployment_has_service_image d service"
    using assms(2,5,6) by (simp add: deployment_has_service_image_def)
  then have "require_service_deployment user i (d_id d) s = (Inl (not_found ''deployment not found''), s)"
    using assms(1,4) by (simp add: require_service_deployment_def owned_app_service_def api_read_def io_defs)
  ultimately show ?thesis
    by (intro exI [of _ ?listed])
      (simp add: get_service_deployment_handler_def get_service_deployment_logs_def io_bind_apply)
qed

section \<open>Witnesses\<close>

definition demo_github :: "'x github_api" where
  "demo_github =
     \<lparr> gh_get = \<lambda>_ _. io_fail ''offline'', gh_post = \<lambda>_ _. io_fail ''offline'', gh_rsa_key = \<lambda>_. Inl ''no key'',
       gh_sign_jwt = \<lambda>_ _. Inl ''no key'', gh_parse_token = \<lambda>_. Inl ''no token'', gh_parse_installations = \<lambda>_. Inr [],
       gh_parse_repos = \<lambda>_. Inr [], gh_page_fuel = 10 \<rparr>"

definition demo_config :: config where
  "demo_config =
     \<lparr> cf_server_port = 2077, cf_http_port = 80, cf_https_port = 443, cf_base_domain = ''example.com'', cf_public_ip = None,
       cf_webhook_secret = ''hook'', cf_encryption_key = [], cf_data_dir = ''/data'' \<rparr>"

text \<open>An id that is not in use, or none.\<close>

definition used_ids :: "store \<Rightarrow> uuid set" where
  "used_ids st = p_id ` set (st_apps st) \<union> s_id ` set (st_services st) \<union> d_id ` set (st_deployments st)"

definition demo_api_host :: "(string list \<times> int) host" where
  "demo_api_host = demo_host\<lparr> h_new_uuid := \<lambda>w. (if 77 \<in> used_ids (w_store w) then Inl ''no id'' else Inr 77, w) \<rparr>"

definition demo_env :: "(string list \<times> int) api_env" where
  "demo_env =
     \<lparr> e_host = demo_api_host, e_config = demo_config, e_env_key = None, e_data_dir = ''/data'', e_proxy_updates = True,
       e_certificates = True, e_github = demo_github, e_parse_uuid = \<lambda>_. None, e_path_exists = \<lambda>_ _. False,
       e_show_int = \<lambda>_. [] \<rparr>"

definition demo_api :: "store \<Rightarrow> (string list \<times> int) api" where
  "demo_api st = \<lparr> a_world = demo_world\<lparr> w_store := st \<rparr>, a_jobs = [], a_worker_up = True, a_cert_requests = [] \<rparr>"

lemma demo_env_laws: "api_quiet demo_env" "clock_apart demo_env" "fresh_uuids demo_env used_ids"
  "fresh_uuids demo_env (\<lambda>st. d_id ` set (st_deployments st))"
  by (auto simp: api_quiet_def clock_apart_def fresh_uuids_def demo_env_def demo_api_host_def demo_github_def demo_host_def
      io_keeps_def same_def io_fail_def world_view_def used_ids_def split: if_splits)

lemma demo_api_simps [simp]: "a_store (demo_api st) = st" "a_worker_up (demo_api st)" "a_jobs (demo_api st) = []"
  by (simp_all add: a_store_def demo_api_def)

lemma demo_app_simps [simp]: "p_id demo_app = 1" "p_owner_id demo_app = 7" "p_services demo_app = [demo_web]" "s_id demo_web = 2"
  "s_app_id demo_web = 1" "s_image demo_web = ''img''"
  by (simp_all add: demo_app_def demo_web_def project_new_def container_service_new_def)

theorem supersede_stops_stale_deployments_witness:
  "\<exists>st. supersede_stale_deployments demo_env 1 5 (demo_api demo_store) = (Inr (), put_store st (demo_api demo_store)) \<and>
     map_option d_status (deployment_of st 3) = Some Stopped"
proof -
  have "deployment_of demo_store 3 = Some (deployment_row demo_deployment)" "superseded 1 5 (deployment_row demo_deployment)"
    by (simp_all add: deployment_of_def demo_store_def select_row_def demo_deployment_def deployment_new_def deployment_row_def
        superseded_def in_progress_def)
  with supersede_stops_stale_deployments [of "demo_api demo_store" demo_env 1 5] demo_store_reachable(3) demo_env_laws(2)
  show ?thesis by fastforce
qed

lemma demo_queued:
  assumes "77 \<notin> used_ids st" and "p_id app \<in> p_id ` set (st_apps st)"
  shows "\<exists>d s'. queue_deployment demo_env owner app sha msg branch strategy None (Some source) cleanup local (demo_api st) = (Inr d, s')"
proof -
  have id: "api_uuid demo_env (demo_api st) = (Inr 77, demo_api st)"
    using assms(1) by (simp add: api_uuid_def in_world_def io_map_err_def demo_env_def demo_api_host_def demo_api_def)
  have "save_deployment st d \<noteq> Inl e" if "d_app_id d = p_id app" "d_rollback_from_deployment_id d = None" "d_service_deployments d = []" for d e
    using that assms(2) by (simp add: save_deployment_def Let_def)
  then show ?thesis
    using id
    by (auto simp: queue_deployment_def io_bind_apply io_apply api_now_def api_write_apply Let_def send_job_def
        deployment_new_def split: sum.splits)
qed

lemma demo_ids: "77 \<notin> used_ids demo_store" "1 \<in> p_id ` set (st_apps demo_store)"
  by (simp_all add: used_ids_def demo_store_def demo_store1_def demo_store0_def empty_store_def demo_app_def demo_web_def
      project_new_def container_service_new_def demo_deployment_def deployment_new_def deployment_row_def app_row_def)

theorem queued_deployments_are_saved_witness:
  "\<exists>d s'. queue_deployment demo_env 7 demo_app ''manual'' None ''main'' StopFirst None (Some NoSource) True None (demo_api demo_store) =
       (Inr d, s') \<and> d_status d = Pending \<and> length (a_jobs s') = 1"
proof -
  obtain d s' where run: "queue_deployment demo_env 7 demo_app ''manual'' None ''main'' StopFirst None (Some NoSource) True None
      (demo_api demo_store) = (Inr d, s')"
    using demo_queued [OF demo_ids(1), of demo_app] demo_ids(2) by (metis demo_app_simps(1))
  then show ?thesis
    using queued_deployments_are_saved [OF _ demo_env_laws(1,2,4) run] demo_store_reachable(3) by auto
qed

theorem rollback_check_exact_witness:
  "can_rollback_to_deployment demo_app demo_deployment \<longleftrightarrow> (\<exists>imgs. resolve_rollback_service_images demo_app demo_deployment = Inr imgs)"
  by (rule rollback_check_exact) simp

text \<open>A project to which a service built from source was added after its deployment.\<close>

definition demo_built_service :: container_service where
  "demo_built_service = container_service_new 8 0 1 ''api'' [] 80"

definition demo_target :: deployment where
  "demo_target = (deployment_new 3 0 1 ''abc'')\<lparr> d_app_snapshot := Some demo_app \<rparr>"

definition demo_grown_store :: store where
  "demo_grown_store =
     demo_store\<lparr> st_services := [demo_web, demo_built_service], st_deployments := [demo_target], st_service_deployments := [] \<rparr>"

lemma demo_grown_lookups:
  "get_service demo_grown_store 2 = Some demo_web" "get_service demo_grown_store 8 = Some demo_built_service"
  "get_app demo_grown_store 1 = Some (demo_app\<lparr> p_services := [demo_built_service, demo_web] \<rparr>)"
  "get_deployment demo_grown_store 3 = Some demo_target"
  "list_deployments_by_app demo_grown_store 1 = [demo_target]"
proof -
  have "\<not> ''web'' \<le> ''api''" by code_simp
  then show "get_service demo_grown_store 2 = Some demo_web" "get_service demo_grown_store 8 = Some demo_built_service"
    "get_app demo_grown_store 1 = Some (demo_app\<lparr> p_services := [demo_built_service, demo_web] \<rparr>)"
    "get_deployment demo_grown_store 3 = Some demo_target" "list_deployments_by_app demo_grown_store 1 = [demo_target]"
  by (simp_all add: get_service_def get_app_def get_deployment_def load_deployment_def list_deployments_by_app_def select_row_def
      demo_grown_store_def demo_store_def demo_store1_def demo_store0_def demo_built_service_def demo_target_def demo_web_def
      container_service_new_def deployment_new_def load_app_def app_row_def demo_app_def project_new_def list_services_by_app_def
      list_service_deployments_def)
qed

lemma demo_grown_owned:
  "resolve_owned_app_service_record 7 2 demo_grown_store = Inr (demo_app\<lparr> p_services := [demo_built_service, demo_web] \<rparr>, demo_web)"
  "resolve_owned_app_service_record 7 8 demo_grown_store =
     Inr (demo_app\<lparr> p_services := [demo_built_service, demo_web] \<rparr>, demo_built_service)"
  by (simp_all add: resolve_owned_app_service_record_def resolve_owned_service_record_def demo_grown_lookups
      demo_built_service_def container_service_new_def)

lemma demo_target_simps:
  "d_app_id demo_target = 1" "d_id demo_target = 3" "d_image_id demo_target = None" "d_service_deployments demo_target = []"
  "d_app_snapshot demo_target = Some demo_app" "s_image demo_built_service = []"
  by (simp_all add: demo_target_def deployment_new_def demo_built_service_def container_service_new_def)

theorem rollback_refused_after_adding_service_witness:
  "rollback_service_deployment demo_env 7 2 3 None (demo_api demo_grown_store) =
     (Inl (bad_request ''target deployment cannot be rolled back (missing image artifact)''), demo_api demo_grown_store)"
proof -
  have "resolve_rollback_service_images demo_app demo_target = Inr [(2, ''img'')]"
    by (simp add: resolve_rollback_service_images_def source_images_of_def demo_target_simps)
  moreover have "trim ''img'' \<noteq> []" by code_simp
  then have "deployment_has_service_image demo_target demo_web" by (simp add: deployment_has_service_image_def)
  ultimately show ?thesis
    using rollback_refused_after_adding_service [of 7 2 "demo_api demo_grown_store" "demo_app\<lparr> p_services := [demo_built_service, demo_web] \<rparr>"
        demo_web 3 demo_target demo_built_service demo_app "[(2, ''img'')]" demo_env None]
      demo_grown_owned(1) demo_grown_lookups(4) by (simp add: demo_target_simps)
qed

theorem failed_build_listed_but_not_found_witness:
  "get_service_deployment_handler 7 8 3 (demo_api demo_grown_store) =
     (Inl (not_found ''deployment not found''), demo_api demo_grown_store)"
  using failed_build_listed_but_not_found [of 7 8 "demo_api demo_grown_store" "demo_app\<lparr> p_services := [demo_built_service, demo_web] \<rparr>"
      demo_built_service demo_target None None] demo_grown_owned(2) demo_grown_lookups(4,5)
  by (auto simp: demo_target_simps)

end
