(* ===== verification/Webhooks.thy ===== *)
theory Webhooks
  imports Deployment_Queue
begin

text \<open>
  The webhooks that deploy, \<open>containr-api/src/handlers/webhooks.rs\<close> with the signature check and the push
  event of \<open>github.rs\<close>: GitHub's push events, signed with the global secret or the secret of a GitHub app, and
  the deploy hook of a service with its token. HMAC-SHA256, the hexadecimal decoder, the JSON parser and
  the glob matcher are parameters (\<open>hook_env\<close>); a header is its text if it is present and readable.
\<close>

section \<open>Push events\<close>

record commit =
  cm_message :: string
  cm_id :: string
  cm_added :: "string list"
  cm_modified :: "string list"
  cm_removed :: "string list"

record repository =
  rp_full_name :: string
  rp_clone_url :: string
  rp_html_url :: string

record push_event =
  pe_ref :: string
  pe_after :: string
  pe_repository :: repository
  pe_commits :: "commit list"
  pe_head_commit :: "commit option"

definition changed_paths :: "push_event \<Rightarrow> string list" where
  "changed_paths ev =
     foldl push_new [] (concat (map (\<lambda>c. cm_added c @ cm_modified c @ cm_removed c) (pe_commits ev)))"

definition extract_branch :: "string \<Rightarrow> string option" where
  "extract_branch ref = strip_prefix ''refs/heads/'' ref"

record hook_env =
  hk_hex_decode :: "string \<Rightarrow> string + bytes"
  hk_hmac :: "string \<Rightarrow> bytes \<Rightarrow> bytes"
  hk_parse_push :: "bytes \<Rightarrow> string + push_event"
  hk_glob :: "string \<Rightarrow> string + (string \<Rightarrow> bool)"

definition verify_webhook_signature :: "hook_env \<Rightarrow> bytes \<Rightarrow> string \<Rightarrow> string \<Rightarrow> string + bool" where
  "verify_webhook_signature k payload signature secret =
     and_then (ok_or (strip_prefix ''sha256='' signature) ''validation error: invalid signature format'') (\<lambda>sig.
     and_then (map_sum (\<lambda>err. ''validation error: invalid signature hex: '' @ err) id (hk_hex_decode k sig)) (\<lambda>sig_bytes.
       Inr (hk_hmac k secret payload = sig_bytes)))"

text \<open>Comparison without an early exit.\<close>

definition constant_time_eq :: "bytes \<Rightarrow> bytes \<Rightarrow> bool" where
  "constant_time_eq a b \<longleftrightarrow> length a = length b \<and> foldl (\<lambda>acc (x, y). or acc (xor x y)) 0 (zip a b) = 0"

section \<open>The handlers\<close>

record webhook_response =
  wr_message :: string
  wr_deployment_id :: "uuid option"

definition user_webhook_secret :: "'x api_env \<Rightarrow> store \<Rightarrow> user \<Rightarrow> string option" where
  "user_webhook_secret e st user =
     (case get_github_app st (u_id user) of
        None \<Rightarrow> None
      | Some app_config \<Rightarrow>
          (case decrypt_value (h_crypto (e_host e)) (env_secret e) (ga_webhook_secret app_config) of
             Inr secret \<Rightarrow> if trim secret \<noteq> [] then Some secret else None
           | Inl _ \<Rightarrow> None))"

definition collect_webhook_secrets :: "'x api_env \<Rightarrow> store \<Rightarrow> string list" where
  "collect_webhook_secrets e st =
     (if trim (cf_webhook_secret (e_config e)) \<noteq> [] then [cf_webhook_secret (e_config e)] else [])
     @ List.map_filter (user_webhook_secret e st) (list_users st)"

text \<open>The first secret that matches ends the loop; an error of the check answers 400.\<close>

fun signature_valid :: "hook_env \<Rightarrow> bytes \<Rightarrow> string \<Rightarrow> string list \<Rightarrow> api_error + bool" where
  "signature_valid k body signature [] = Inr False"
| "signature_valid k body signature (secret # secrets) =
     and_then (map_sum bad_request id (verify_webhook_signature k body signature secret)) (\<lambda>matched.
       if matched then Inr True else signature_valid k body signature secrets)"

definition build_globs :: "hook_env \<Rightarrow> string list \<Rightarrow> string + (string \<Rightarrow> bool) list" where
  "build_globs k watch_paths = try_loop (\<lambda>_ watch_path. hk_glob k (trim watch_path)) [] watch_paths"

definition should_trigger_for_watch_paths :: "hook_env \<Rightarrow> push_event \<Rightarrow> string list \<Rightarrow> string + bool" where
  "should_trigger_for_watch_paths k ev watch_paths =
     (if watch_paths = [] then Inr True
      else if changed_paths ev = [] then Inr True
      else and_then (build_globs k watch_paths) (\<lambda>globs.
             Inr (list_ex (\<lambda>p. list_ex (\<lambda>glob. glob p) globs) (changed_paths ev))))"

text \<open>The handler once the signature is verified.\<close>

definition handle_push :: "'x api_env \<Rightarrow> hook_env \<Rightarrow> string \<Rightarrow> bytes \<Rightarrow> ('x, webhook_response) handler" where
  "handle_push e k event_type body =
     (if event_type \<noteq> ''push''
      then io_return \<lparr> wr_message = ''ignored event: '' @ event_type, wr_deployment_id = None \<rparr>
      else
        io_bind (io_lift (map_sum (\<lambda>err. bad_request (''invalid payload: '' @ err)) id (hk_parse_push k body))) (\<lambda>ev.
        io_bind (io_lift (ok_or (extract_branch (pe_ref ev)) (bad_request ''invalid ref''))) (\<lambda>branch.
        io_bind (api_read (\<lambda>st. get_app_by_github_url st (rp_html_url (pe_repository ev)) branch)) (\<lambda>found.
          case found of
            None \<Rightarrow> io_return \<lparr> wr_message = ''no matching app found'', wr_deployment_id = None \<rparr>
          | Some app \<Rightarrow>
              if \<not> p_auto_deploy_enabled app
              then io_return \<lparr> wr_message = ''auto-deploy is disabled'', wr_deployment_id = None \<rparr>
              else
                io_bind (io_lift (map_sum internal_error id
                           (should_trigger_for_watch_paths k ev (p_auto_deploy_watch_paths app)))) (\<lambda>trigger.
                  if \<not> trigger
                  then io_return \<lparr> wr_message = ''ignored push: no watched paths changed'', wr_deployment_id = None \<rparr>
                  else
                    io_bind (resolve_remote_deployment_source e (p_owner_id app) app) (\<lambda>source.
                    io_bind (create_and_queue_deployment e (p_owner_id app) app (pe_after ev)
                               (map_option cm_message (pe_head_commit ev)) (p_branch app) (p_rollout_strategy app) None
                               (Some source) (p_auto_deploy_cleanup_stale_deployments app)) (\<lambda>d.
                      io_return \<lparr> wr_message = ''deployment triggered'', wr_deployment_id = Some (d_id d) \<rparr>)))))))"

definition github_webhook ::
  "'x api_env \<Rightarrow> hook_env \<Rightarrow> string option \<Rightarrow> string option \<Rightarrow> bytes \<Rightarrow> ('x, webhook_response) handler" where
  "github_webhook e k signature event body =
     io_bind (io_lift (ok_or signature (bad_request ''missing signature''))) (\<lambda>signature.
     io_bind (api_read (collect_webhook_secrets e)) (\<lambda>secrets.
       if secrets = [] then io_fail (503, ''github webhook secret is not configured'')
       else
         io_bind (io_lift (signature_valid k body signature secrets)) (\<lambda>valid.
           if \<not> valid then io_fail (unauthorized ''invalid signature'')
           else handle_push e k (unwrap_or event []) body)))"

definition resolve_rollout_strategy_override :: "string option \<Rightarrow> rollout_strategy \<Rightarrow> api_error + rollout_strategy" where
  "resolve_rollout_strategy_override value default_value =
     (case value of
        None \<Rightarrow> Inr default_value
      | Some value \<Rightarrow>
          (let v = to_ascii_lowercase (trim value)
           in if v \<in> {''stop_first'', ''stop-first'', ''stopfirst''} then Inr StopFirst
              else if v \<in> {''start_first'', ''start-first'', ''startfirst''} then Inr StartFirst
              else Inl (bad_request ''invalid rollout strategy. use stop_first or start_first'')))"

text \<open>\<open>new_token\<close> is the random token that replaces a missing one.\<close>

definition deploy_webhook ::
  "'x api_env \<Rightarrow> string \<Rightarrow> uuid \<Rightarrow> string \<Rightarrow> deployment_trigger_request option \<Rightarrow> ('x, webhook_response) handler" where
  "deploy_webhook e new_token service_id token trigger =
     io_bind (io_bind (api_read (\<lambda>st. get_service st service_id)) (\<lambda>found. io_lift (ok_or found (not_found ''service not found''))))
       (\<lambda>service.
     io_bind (io_bind (api_read (\<lambda>st. get_app st (s_app_id service)))
                (\<lambda>found. io_lift (ok_or found (not_found ''service group not found'')))) (\<lambda>app.
       let (app', expected_token) = ensure_deploy_webhook_token new_token app;
           utf8 = cr_utf8 (h_crypto (e_host e))
       in io_then (if webhook_token_missing app then api_write (\<lambda>st. save_app st app') else io_return ())
            (if \<not> constant_time_eq (utf8 token) (utf8 expected_token)
             then io_fail (unauthorized ''invalid deploy webhook token'')
             else
               io_bind (io_lift (resolve_rollout_strategy_override (Option.bind trigger tr_rollout_strategy)
                          (p_rollout_strategy app'))) (\<lambda>strategy.
               io_bind (create_and_queue_deployment e (p_owner_id app') app'
                          (unwrap_or (Option.bind trigger tr_commit_sha) ''webhook'')
                          (or_else (Option.bind trigger tr_commit_message) (Some ''deploy webhook''))
                          (unwrap_or (Option.bind trigger tr_branch) (p_branch app')) strategy None None
                          (p_auto_deploy_cleanup_stale_deployments app')) (\<lambda>d.
                 io_return \<lparr> wr_message = ''deployment triggered'', wr_deployment_id = Some (d_id d) \<rparr>)))))"

section \<open>Comparing tokens\<close>

lemma foldl_or_zero: "foldl (\<lambda>acc (x, y). or acc (xor x y)) a ps = (0 :: u8) \<longleftrightarrow> a = 0 \<and> list_all (\<lambda>(x, y). x = y) ps"
proof (induction ps arbitrary: a)
  case (Cons p ps)
  obtain x y where p: "p = (x, y)" by (cases p)
  have "or a (xor x y) = 0 \<longleftrightarrow> a = 0 \<and> x = y"
    by (auto simp: bit_eq_iff bit_simps)
  then show ?case by (auto simp: p Cons.IH)
qed simp

lemma constant_time_eq_iff: "constant_time_eq a b \<longleftrightarrow> a = b"
proof -
  have "list_all (\<lambda>(x, y). x = y) (zip a b) \<longleftrightarrow> a = b" if "length a = length b"
    using that by (induction a b rule: list_induct2) auto
  then show ?thesis by (auto simp: constant_time_eq_def foldl_or_zero)
qed

section \<open>Who can deploy by webhook\<close>

text \<open>The check fails for reasons that do not depend on the secret.\<close>

lemma verify_webhook_signature_Inr:
  "verify_webhook_signature k body signature secret = Inr b \<longleftrightarrow>
     (\<exists>sig mac. signature = ''sha256='' @ sig \<and> hk_hex_decode k sig = Inr mac \<and> b = (hk_hmac k secret body = mac))"
  by (auto simp: verify_webhook_signature_def and_then_def ok_or_def strip_prefix_eq_Some split: option.splits sum.splits)

lemma signature_valid_Inr_True:
  "signature_valid k body signature secrets = Inr True \<longleftrightarrow>
     (\<exists>sig secret. signature = ''sha256='' @ sig \<and> secret \<in> set secrets \<and> hk_hex_decode k sig = Inr (hk_hmac k secret body))"
proof (induction secrets)
  case (Cons secret secrets)
  show ?case
  proof (cases "verify_webhook_signature k body signature secret")
    case (Inl err)
    then have "\<nexists>sig mac. signature = ''sha256='' @ sig \<and> hk_hex_decode k sig = Inr mac"
      using verify_webhook_signature_Inr [of k body signature secret] by (metis Inl_Inr_False)
    then show ?thesis using Inl by auto
  next
    case (Inr b)
    then obtain sig mac where "signature = ''sha256='' @ sig" "hk_hex_decode k sig = Inr mac" "b = (hk_hmac k secret body = mac)"
      by (auto simp: verify_webhook_signature_Inr)
    then show ?thesis using Inr Cons.IH by auto
  qed
qed simp

lemma handle_push_changes:
  assumes inv: "store_inv (a_store s)" and e: "api_quiet e" "clock_apart e" "fresh_uuids e (\<lambda>st. d_id ` set (st_deployments st))"
    and run: "handle_push e k event body s = (r, s')" and changed: "a_jobs s' \<noteq> a_jobs s \<or> a_store s' \<noteq> a_store s"
  shows "event = ''push'' \<and> (\<exists>ev branch app job. hk_parse_push k body = Inr ev \<and> pe_ref ev = ''refs/heads/'' @ branch \<and>
    app \<in> set (list_apps (a_store s)) \<and> same_repo_url (p_github_url app) (rp_html_url (pe_repository ev)) \<and> p_branch app = branch \<and>
    p_auto_deploy_enabled app \<and> a_jobs s' = a_jobs s @ [job] \<and> j_app_id job = p_id app \<and> j_commit_sha job = pe_after ev)"
proof -
  have "event = ''push''" using run changed by (auto simp: handle_push_def io_apply split: if_splits)
  moreover obtain ev where ev: "hk_parse_push k body = Inr ev"
    using run changed by (cases "hk_parse_push k body") (auto simp: handle_push_def io_defs split: if_splits)
  moreover obtain branch where branch: "extract_branch (pe_ref ev) = Some branch"
    using run changed ev by (cases "extract_branch (pe_ref ev)") (auto simp: handle_push_def io_defs split: if_splits)
  moreover obtain app where app: "get_app_by_github_url (a_store s) (rp_html_url (pe_repository ev)) branch = Some app"
      "p_auto_deploy_enabled app" "should_trigger_for_watch_paths k ev (p_auto_deploy_watch_paths app) = Inr True"
    using run changed ev branch
    by (auto simp: handle_push_def io_defs api_read_def split: if_splits option.splits sum.splits)
  obtain r1 s1 where s1: "resolve_remote_deployment_source e (p_owner_id app) app s = (r1, s1)"
    by (cases "resolve_remote_deployment_source e (p_owner_id app) app s")
  have "same api_view s s1" using io_keepsD [OF keeps_source_resolution(3) [OF e(1), of "p_owner_id app" app], of s] by (simp add: s1)
  note v = same_view_store [OF this]
  obtain source where "r1 = Inr source"
    using run changed ev branch app s1 v by (cases r1) (auto simp: handle_push_def io_defs api_read_def split: if_splits)
  then obtain r2 where q: "queue_deployment e (p_owner_id app) app (pe_after ev) (map_option cm_message (pe_head_commit ev)) (p_branch app)
      (p_rollout_strategy app) None (Some source) (p_auto_deploy_cleanup_stale_deployments app) None s1 = (r2, s')"
    using run changed ev branch app s1
    by (auto simp: handle_push_def io_defs api_read_def create_and_queue_deployment_def split: if_splits sum.splits)
      (metis prod.collapse)+
  have "store_inv (a_store s1)" using inv v by simp
  from queue_deployment_result [OF this e q] changed v
  obtain job where "a_jobs s' = a_jobs s @ [job]" "j_app_id job = p_id app" "j_commit_sha job = pe_after ev"
    by (cases r2) auto
  moreover have "app \<in> set (list_apps (a_store s))" "same_repo_url (p_github_url app) (rp_html_url (pe_repository ev))" "p_branch app = branch"
    using app(1) by (auto simp: get_app_by_github_url_def find_Some_iff)
  moreover have "pe_ref ev = ''refs/heads/'' @ branch"
    using branch by (simp add: extract_branch_def strip_prefix_eq_Some)
  ultimately show ?thesis using app(2) by blast
qed

lemma in_set_map_filter: "y \<in> set (List.map_filter f xs) \<longleftrightarrow> (\<exists>x \<in> set xs. f x = Some y)"
  by (induction xs) (auto simp: List.map_filter_def)

lemma user_webhook_secret_Some:
  "user_webhook_secret e st user = Some secret \<longleftrightarrow>
     (\<exists>g. get_github_app st (u_id user) = Some g \<and>
        decrypt_value (h_crypto (e_host e)) (env_secret e) (ga_webhook_secret g) = Inr secret \<and> trim secret \<noteq> [])"
  by (auto simp: user_webhook_secret_def split: option.splits sum.splits)

lemma secret_not_blank: "secret \<in> set (collect_webhook_secrets e st) \<Longrightarrow> trim secret \<noteq> []"
  by (auto simp: collect_webhook_secrets_def in_set_map_filter user_webhook_secret_Some split: if_splits)

text \<open>
  C10. A push webhook deploys only what it should: if it changes the database or the queue at all, then the
  body carries a valid HMAC signature under one of the configured secrets, which is not blank, the event
  is a push to a branch, a project with this repository and this branch has automatic deployment on,
  and exactly one job was queued, for this project and the pushed commit.
\<close>

theorem webhook_deploys_only_signed_pushes:
  assumes "store_reachable (a_store s)" and e: "api_quiet e" "clock_apart e" "fresh_uuids e (\<lambda>st. d_id ` set (st_deployments st))"
    and run: "github_webhook e k signature event body s = (r, s')" and changed: "a_jobs s' \<noteq> a_jobs s \<or> a_store s' \<noteq> a_store s"
  shows "\<exists>sig secret ev branch app job. signature = Some (''sha256='' @ sig) \<and> secret \<in> set (collect_webhook_secrets e (a_store s)) \<and>
    trim secret \<noteq> [] \<and> hk_hex_decode k sig = Inr (hk_hmac k secret body) \<and> event = Some ''push'' \<and>
    hk_parse_push k body = Inr ev \<and> pe_ref ev = ''refs/heads/'' @ branch \<and>
    app \<in> set (list_apps (a_store s)) \<and> same_repo_url (p_github_url app) (rp_html_url (pe_repository ev)) \<and> p_branch app = branch \<and>
    p_auto_deploy_enabled app \<and> a_jobs s' = a_jobs s @ [job] \<and> j_app_id job = p_id app \<and> j_commit_sha job = pe_after ev"
proof -
  obtain sg where sg: "signature = Some sg"
    using run changed by (cases signature) (auto simp: github_webhook_def io_defs)
  have valid: "signature_valid k body sg (collect_webhook_secrets e (a_store s)) = Inr True"
    and push: "handle_push e k (unwrap_or event []) body s = (r, s')"
    using run changed sg
    by (auto simp: github_webhook_def io_defs api_read_def split: if_splits sum.splits)
  have "unwrap_or event [] = ''push'' \<Longrightarrow> event = Some ''push''" by (cases event) simp_all
  with handle_push_changes [OF store_reachable_inv [OF assms(1)] e push changed] valid secret_not_blank sg
  show ?thesis unfolding signature_valid_Inr_True by blast
qed

text \<open>
  C40. The secret of any user's GitHub app signs for every project: a body signed with it is handled as
  one signed with the global secret, whoever owns the project whose repository the body names.
\<close>

theorem any_app_secret_signs_for_every_project:
  assumes "user \<in> set (st_users (a_store s))" and "get_github_app (a_store s) (u_id user) = Some app_config"
    and "decrypt_value (h_crypto (e_host e)) (env_secret e) (ga_webhook_secret app_config) = Inr secret" "trim secret \<noteq> []"
    and "hk_hex_decode k sig = Inr (hk_hmac k secret body)"
  shows "github_webhook e k (Some (''sha256='' @ sig)) event body s = handle_push e k (unwrap_or event []) body s"
proof -
  have "user \<in> set (list_users (a_store s))" using assms(1) by (simp add: list_users_def)
  then have "secret \<in> set (collect_webhook_secrets e (a_store s))"
    using assms(2-4) by (auto simp: collect_webhook_secrets_def in_set_map_filter user_webhook_secret_Some intro!: bexI [of _ user])
  moreover from this have "signature_valid k body (''sha256='' @ sig) (collect_webhook_secrets e (a_store s)) = Inr True"
    using assms(5) unfolding signature_valid_Inr_True by blast
  ultimately show ?thesis
    by (auto simp: github_webhook_def io_bind_apply io_apply api_read_def)
qed

text \<open>
  C11. The deploy hook of a service needs the project's token: if it queues anything, the token of the request
  is the stored one (or the one just created, which nobody has been told), and the job is for the project
  of the service.
\<close>

theorem deploy_webhook_needs_token:
  assumes "store_reachable (a_store s)" and e: "api_quiet e" "clock_apart e" "fresh_uuids e (\<lambda>st. d_id ` set (st_deployments st))"
    and crypto: "crypto_ok (h_crypto (e_host e))"
    and run: "deploy_webhook e new_token service_id token trigger s = (r, s')" and queued: "a_jobs s' \<noteq> a_jobs s"
  shows "\<exists>service app job. get_service (a_store s) service_id = Some service \<and> get_app (a_store s) (s_app_id service) = Some app \<and>
    (if webhook_token_missing app then token = new_token else p_deploy_webhook_token app = Some token) \<and>
    a_jobs s' = a_jobs s @ [job] \<and> j_app_id job = p_id app"
proof -
  obtain service where service: "get_service (a_store s) service_id = Some service"
    using run queued by (cases "get_service (a_store s) service_id") (auto simp: deploy_webhook_def io_defs api_read_def)
  obtain app where app: "get_app (a_store s) (s_app_id service) = Some app"
    using run queued service by (cases "get_app (a_store s) (s_app_id service)") (auto simp: deploy_webhook_def io_defs api_read_def)
  obtain app' expected where t: "ensure_deploy_webhook_token new_token app = (app', expected)"
    by (cases "ensure_deploy_webhook_token new_token app")
  have expected: "expected = (if webhook_token_missing app then new_token else the (p_deploy_webhook_token app))" "p_id app' = p_id app"
    and present: "\<not> webhook_token_missing app \<Longrightarrow> p_deploy_webhook_token app \<noteq> None"
    using t by (auto simp: ensure_deploy_webhook_token_def webhook_token_missing_def Let_def unwrap_or_def split: if_splits option.splits)
  let ?save = "if webhook_token_missing app then api_write (\<lambda>st. save_app st app') else io_return () :: ('a, unit) handler"
  obtain r1 s1 where s1: "?save s = (r1, s1)" by (cases "?save s")
  have "store_inv (a_store s1)" "a_jobs s1 = a_jobs s"
    using s1 store_reachable_inv [OF assms(1)] inv_save_app
    by (auto simp: api_write_apply io_apply split: if_splits sum.splits)
  note s1_ok = this
  have eq: "cr_utf8 c token = cr_utf8 c expected \<Longrightarrow> token = expected" if "crypto_ok c" for c
    using that unfolding crypto_ok_def by (metis sum.inject(2))
  obtain x where ok: "r1 = Inr x" and token: "token = expected"
    and strategy: "\<exists>strategy. resolve_rollout_strategy_override (Option.bind trigger tr_rollout_strategy) (p_rollout_strategy app') = Inr strategy \<and>
      snd (create_and_queue_deployment e (p_owner_id app') app' (unwrap_or (Option.bind trigger tr_commit_sha) ''webhook'')
        (or_else (Option.bind trigger tr_commit_message) (Some ''deploy webhook''))
        (unwrap_or (Option.bind trigger tr_branch) (p_branch app')) strategy None None
        (p_auto_deploy_cleanup_stale_deployments app') s1) = s'"
    using run queued s1_ok(2) eq [OF crypto]
    unfolding deploy_webhook_def io_bind_apply(1,2) api_read_def io_apply fst_conv snd_conv service app ok_or_simps sum.case t case_prod_conv
      Let_def s1 constant_time_eq_iff
    by (cases r1) (auto simp: io_bind_apply io_apply split: if_splits sum.splits)
  then obtain strategy r2 where "queue_deployment e (p_owner_id app') app' (unwrap_or (Option.bind trigger tr_commit_sha) ''webhook'')
        (or_else (Option.bind trigger tr_commit_message) (Some ''deploy webhook''))
        (unwrap_or (Option.bind trigger tr_branch) (p_branch app')) strategy None None
        (p_auto_deploy_cleanup_stale_deployments app') None s1 = (r2, s')"
    unfolding create_and_queue_deployment_def by (metis prod.collapse)
  from queue_deployment_result [OF s1_ok(1) e this] queued s1_ok(2) expected(2)
  obtain job where "a_jobs s' = a_jobs s @ [job]" "j_app_id job = p_id app" by (cases r2) auto
  then show ?thesis using service app token expected(1) present by auto
qed

section \<open>Watched paths\<close>

fun normalize_watch_paths :: "string list \<Rightarrow> string list \<Rightarrow> api_error + string list" where
  "normalize_watch_paths normalized [] = Inr normalized"
| "normalize_watch_paths normalized (path # paths) =
     (let trimmed = trim path
      in if trimmed = [] then normalize_watch_paths normalized paths
         else if starts_with ''/'' trimmed
         then Inl (bad_request ''watch paths must be relative repository paths or glob patterns'')
         else normalize_watch_paths (push_new normalized trimmed) paths)"

text \<open>
  A watched path that is no valid glob is accepted by the settings and breaks every push: the path passes
  \<open>normalize_watch_paths\<close>, and from then on each push of that project that changes a file is answered with
  500 and deploys nothing.
\<close>

theorem invalid_watch_path_breaks_webhook:
  assumes "trim path \<noteq> []" and "\<not> starts_with ''/'' (trim path)" and "hk_glob k (trim path) = Inl err"
    and "hk_parse_push k body = Inr ev" and "extract_branch (pe_ref ev) = Some branch" and "changed_paths ev \<noteq> []"
    and "get_app_by_github_url (a_store s) (rp_html_url (pe_repository ev)) branch = Some app"
    and "p_auto_deploy_enabled app" and "normalize_watch_paths [] [path] = Inr (p_auto_deploy_watch_paths app)"
  shows "normalize_watch_paths [] [path] = Inr [trim path] \<and>
    handle_push e k ''push'' body s = (Inl (500, ''internal server error''), s)"
proof -
  have n: "normalize_watch_paths [] [path] = Inr [trim path]" using assms(1,2) by (simp add: push_new_def Let_def)
  then have "p_auto_deploy_watch_paths app = [trim path]" using assms(9) by simp
  then have "should_trigger_for_watch_paths k ev (p_auto_deploy_watch_paths app) = Inl err"
    using assms(3,6) by (simp add: should_trigger_for_watch_paths_def build_globs_def)
  then show ?thesis
    using n assms(4,5,7,8) by (simp add: handle_push_def io_defs api_read_def internal_error_def)
qed

section \<open>Witnesses\<close>

definition demo_push :: push_event where
  "demo_push =
     \<lparr> pe_ref = ''refs/heads/main'', pe_after = ''abc'',
       pe_repository = \<lparr> rp_full_name = ''acme/demo'', rp_clone_url = [], rp_html_url = ''https://github.com/acme/demo'' \<rparr>,
       pe_commits = [\<lparr> cm_message = [], cm_id = [], cm_added = [''a''], cm_modified = [], cm_removed = [] \<rparr>],
       pe_head_commit = None \<rparr>"

definition demo_hook :: hook_env where
  "demo_hook =
     \<lparr> hk_hex_decode = \<lambda>s. Inr (cr_utf8 demo_crypto s), hk_hmac = \<lambda>secret body. cr_utf8 demo_crypto secret, hk_parse_push = \<lambda>_. Inr demo_push,
       hk_glob = \<lambda>g. if g = ''[a'' then Inl ''unclosed'' else Inr (\<lambda>p. p = g) \<rparr>"

definition demo_repo_app :: project where
  "demo_repo_app = demo_app\<lparr> p_github_url := ''https://github.com/acme/demo'' \<rparr>"

definition demo_repo_store :: store where
  "demo_repo_store = demo_store0\<lparr> st_apps := [app_row demo_repo_app], st_services := [demo_web] \<rparr>"

lemma demo_repo_reachable: "store_reachable demo_repo_store"
proof -
  have "save_app demo_store0 demo_repo_app = Inr demo_repo_store"
    by (simp add: save_app_def demo_store0_def demo_repo_store_def demo_repo_app_def demo_app_def demo_web_def demo_user_def
        empty_store_def project_new_def user_new_with_password_def container_service_new_def insert_service_def upsert_def
        app_row_def remove_services_def Let_def)
  then show ?thesis by (rule store_reachable.intros(2) [OF demo_store_reachable(1) store_step.intros(5)])
qed

lemma demo_repo_found:
  "get_app_by_github_url (demo_repo_store) ''https://github.com/acme/demo'' ''main'' = Some demo_repo_app"
proof -
  have "same_repo_url ''https://github.com/acme/demo'' ''https://github.com/acme/demo''" by code_simp
  then show ?thesis
    by (simp add: get_app_by_github_url_def list_apps_def load_app_def list_services_by_app_def demo_repo_store_def
        demo_store0_def demo_repo_app_def app_row_def demo_app_def project_new_def demo_web_def container_service_new_def
        default_branch_name_def)
qed

lemma demo_push_run:
  "\<exists>i s'. handle_push demo_env demo_hook ''push'' [] (demo_api demo_repo_store) =
     (Inr \<lparr> wr_message = ''deployment triggered'', wr_deployment_id = Some i \<rparr>, s') \<and> length (a_jobs s') = 1"
proof -
  have source: "resolve_remote_deployment_source demo_env 7 demo_repo_app (demo_api demo_repo_store) =
      (Inr (RemoteGit ''https://github.com/acme/demo'' None), demo_api demo_repo_store)"
    by (simp add: resolve_remote_deployment_source_def resolve_remote_source_deployment_def resolve_remote_git_token_def
        io_defs api_read_def get_github_app_def select_row_def demo_repo_store_def demo_store0_def empty_store_def get_user_def
        demo_user_def user_new_with_password_def demo_repo_app_def Let_def)
  have ids: "77 \<notin> used_ids demo_repo_store" "p_id demo_repo_app \<in> p_id ` set (st_apps demo_repo_store)"
    by (simp_all add: used_ids_def demo_repo_store_def demo_store0_def empty_store_def demo_repo_app_def app_row_def)
  obtain d s' where q: "queue_deployment demo_env 7 demo_repo_app ''abc'' None ''main'' StopFirst None
      (Some (RemoteGit ''https://github.com/acme/demo'' None)) True None (demo_api demo_repo_store) = (Inr d, s')"
    using demo_queued [OF ids] by blast
  have "store_inv (a_store (demo_api demo_repo_store))" using store_reachable_inv [OF demo_repo_reachable] by simp
  from queue_deployment_result [OF this demo_env_laws(1,2,4) q] have "length (a_jobs s') = 1" by auto
  moreover have "extract_branch ''refs/heads/main'' = Some ''main''" by (simp add: extract_branch_def)
  moreover have "p_auto_deploy_enabled demo_repo_app" "p_auto_deploy_watch_paths demo_repo_app = []" "p_branch demo_repo_app = ''main''"
    "p_rollout_strategy demo_repo_app = StopFirst" "p_auto_deploy_cleanup_stale_deployments demo_repo_app" "p_owner_id demo_repo_app = 7"
    by (simp_all add: demo_repo_app_def demo_app_def project_new_def default_branch_name_def)
  ultimately show ?thesis
    using q source demo_repo_found
    by (simp add: handle_push_def demo_hook_def demo_push_def io_bind_apply io_apply api_read_def
        should_trigger_for_watch_paths_def create_and_queue_deployment_def)
qed

lemma demo_secrets: "''hook'' \<in> set (collect_webhook_secrets demo_env st)"
proof -
  have "trim ''hook'' \<noteq> []" by code_simp
  then show ?thesis by (simp add: collect_webhook_secrets_def demo_env_def demo_config_def)
qed

theorem webhook_deploys_only_signed_pushes_witness:
  "\<exists>r s' app job. github_webhook demo_env demo_hook (Some ''sha256=hook'') (Some ''push'') [] (demo_api demo_repo_store) = (r, s') \<and>
     app \<in> set (list_apps demo_repo_store) \<and> a_jobs s' = [job] \<and> j_app_id job = p_id app"
proof -
  obtain i s' where push: "handle_push demo_env demo_hook ''push'' [] (demo_api demo_repo_store) =
      (Inr \<lparr> wr_message = ''deployment triggered'', wr_deployment_id = Some i \<rparr>, s')" "length (a_jobs s') = 1"
    using demo_push_run by blast
  have "signature_valid demo_hook [] (''sha256='' @ ''hook'') (collect_webhook_secrets demo_env demo_repo_store) = Inr True"
    unfolding signature_valid_Inr_True using demo_secrets by (auto simp: demo_hook_def)
  moreover have "collect_webhook_secrets demo_env demo_repo_store \<noteq> []" using demo_secrets by (metis empty_iff list.set(1))
  ultimately have run: "github_webhook demo_env demo_hook (Some ''sha256=hook'') (Some ''push'') [] (demo_api demo_repo_store) =
      (Inr \<lparr> wr_message = ''deployment triggered'', wr_deployment_id = Some i \<rparr>, s')"
    using push(1) by (simp add: github_webhook_def io_bind_apply io_apply api_read_def)
  have "a_jobs s' \<noteq> a_jobs (demo_api demo_repo_store)" using push(2) by auto
  with webhook_deploys_only_signed_pushes [OF _ demo_env_laws(1,2,4) run] demo_repo_reachable
  show ?thesis using run by auto
qed

text \<open>A second user with a GitHub app, who does not own the project.\<close>

definition demo_tenant :: user where
  "demo_tenant = user_new_with_password 9 1 ''b@example.com'' ''h''"

definition demo_tenant_app :: github_app_config where
  "demo_tenant_app =
     \<lparr> ga_id = 20, ga_app_id = 1, ga_app_name = [], ga_client_id = [], ga_client_secret = [], ga_private_key = [],
       ga_webhook_secret = ''mine'', ga_html_url = [], ga_owner_id = 9, ga_installations = [], ga_created_at = 0,
       ga_updated_at = 0 \<rparr>"

definition demo_tenant_store :: store where
  "demo_tenant_store = demo_repo_store\<lparr> st_users := [demo_user, demo_tenant], st_github_apps := [demo_tenant_app] \<rparr>"

theorem any_app_secret_signs_for_every_project_witness:
  "github_webhook demo_env demo_hook (Some ''sha256=mine'') (Some ''push'') [] (demo_api demo_tenant_store) =
     handle_push demo_env demo_hook ''push'' [] (demo_api demo_tenant_store)"
proof -
  have "trim ''mine'' = ''mine''" "starts_with ENCRYPTED_PREFIX ''mine'' = False" "strip_prefix ENCRYPTED_PREFIX ''mine'' = None"
    by code_simp+
  moreover have "env_secret demo_env = None" by (simp add: env_secret_def resolve_encryption_secret_def demo_env_def demo_config_def)
  ultimately have d: "decrypt_value (h_crypto (e_host demo_env)) (env_secret demo_env) (ga_webhook_secret demo_tenant_app) = Inr ''mine''"
    "trim ''mine'' \<noteq> []"
    by (simp_all add: decrypt_value_def demo_tenant_app_def)
  have "demo_tenant \<in> set (st_users (a_store (demo_api demo_tenant_store)))"
    "get_github_app (a_store (demo_api demo_tenant_store)) (u_id demo_tenant) = Some demo_tenant_app"
    by (simp_all add: demo_tenant_store_def get_github_app_def select_row_def demo_tenant_def user_new_with_password_def
        demo_tenant_app_def)
  from any_app_secret_signs_for_every_project [OF this d, of demo_hook "''mine''" "[]" "Some ''push''"]
  show ?thesis by (simp add: demo_hook_def)
qed

theorem deploy_webhook_needs_token_witness:
  "\<exists>r s' job. deploy_webhook demo_env ''n'' 2 ''t'' None (demo_api demo_store) = (r, s') \<and> a_jobs s' = [job] \<and> j_app_id job = 1"
proof -
  have get: "get_service demo_store 2 = Some demo_web" "get_app demo_store 1 = Some demo_app"
    by (simp_all add: get_service_def get_app_def select_row_def demo_store_def demo_store1_def demo_store0_def load_app_def
        list_services_by_app_def demo_app_def demo_web_def project_new_def container_service_new_def app_row_def)
  have "trim ''t'' = ''t''" by code_simp
  then have token: "ensure_deploy_webhook_token ''n'' demo_app = (demo_app, ''t'')" "\<not> webhook_token_missing demo_app"
    by (simp_all add: ensure_deploy_webhook_token_def webhook_token_missing_def demo_app_def project_new_def)
  obtain d s' where q: "queue_deployment demo_env 7 demo_app ''webhook'' (Some ''deploy webhook'') ''main'' StopFirst None
      (Some NoSource) True None (demo_api demo_store) = (Inr d, s')"
    using demo_queued [OF demo_ids(1), of demo_app] demo_ids(2) by (metis demo_app_simps(1))
  have "trim ''img'' \<noteq> []" by code_simp
  then have "resolve_app_deployment_source demo_env 7 demo_app (demo_api demo_store) = (Inr NoSource, demo_api demo_store)"
    by (simp add: resolve_app_deployment_source_def project_requires_source_checkout_def service_requires_source_checkout_def io_apply)
  then have "queue_deployment demo_env 7 demo_app ''webhook'' (Some ''deploy webhook'') ''main'' StopFirst None
      None True None (demo_api demo_store) = (Inr d, s')"
    using q by (simp add: queue_deployment_def io_bind_apply(1) io_apply(1))
  moreover have branch: "p_branch demo_app = ''main''" "p_rollout_strategy demo_app = StopFirst"
      "p_auto_deploy_cleanup_stale_deployments demo_app"
    by (simp_all add: demo_app_def project_new_def default_branch_name_def)
  ultimately have run: "deploy_webhook demo_env ''n'' 2 ''t'' None (demo_api demo_store) =
      (Inr \<lparr> wr_message = ''deployment triggered'', wr_deployment_id = Some (d_id d) \<rparr>, s')"
    using get token branch
    by (simp add: deploy_webhook_def io_bind_apply io_apply api_read_def constant_time_eq_iff resolve_rollout_strategy_override_def
        create_and_queue_deployment_def)
  have "a_jobs s' \<noteq> a_jobs (demo_api demo_store)"
    using queue_deployment_result [OF _ demo_env_laws(1,2,4) q] store_reachable_inv [OF demo_store_reachable(3)] by auto
  moreover have "crypto_ok (h_crypto (e_host demo_env))"
    by (simp add: demo_env_def demo_api_host_def demo_host_def demo_crypto_ok)
  ultimately show ?thesis
    using deploy_webhook_needs_token [OF _ demo_env_laws(1,2,4) _ run] demo_store_reachable(3) get run by auto
qed

theorem invalid_watch_path_breaks_webhook_witness:
  "handle_push demo_env demo_hook ''push'' []
     (demo_api (demo_repo_store\<lparr> st_apps := [app_row (demo_repo_app\<lparr> p_auto_deploy_watch_paths := [''[a''] \<rparr>)] \<rparr>)) =
     (Inl (500, ''internal server error''),
      demo_api (demo_repo_store\<lparr> st_apps := [app_row (demo_repo_app\<lparr> p_auto_deploy_watch_paths := [''[a''] \<rparr>)] \<rparr>))"
proof -
  let ?app = "demo_repo_app\<lparr> p_auto_deploy_watch_paths := [''[a''] \<rparr>"
  let ?st = "demo_repo_store\<lparr> st_apps := [app_row ?app] \<rparr>"
  have "same_repo_url ''https://github.com/acme/demo'' ''https://github.com/acme/demo''" by code_simp
  then have "get_app_by_github_url (a_store (demo_api ?st)) (rp_html_url (pe_repository demo_push)) ''main'' = Some ?app"
    by (simp add: get_app_by_github_url_def list_apps_def load_app_def list_services_by_app_def demo_repo_store_def
        demo_store0_def demo_repo_app_def app_row_def demo_app_def project_new_def demo_web_def container_service_new_def
        default_branch_name_def demo_push_def)
  moreover have "trim ''[a'' = ''[a''" "starts_with ''/'' ''[a'' = False" by code_simp+
  moreover have "extract_branch (pe_ref demo_push) = Some ''main''" "changed_paths demo_push \<noteq> []"
    by (simp_all add: extract_branch_def demo_push_def changed_paths_def push_new_def)
  moreover have "p_auto_deploy_enabled ?app" by (simp add: demo_repo_app_def demo_app_def project_new_def)
  ultimately show ?thesis
    using invalid_watch_path_breaks_webhook [of "''[a''" demo_hook "''unclosed''" "[]" demo_push "''main''" "demo_api ?st" ?app demo_env]
    by (auto simp: demo_hook_def push_new_def Let_def)
qed

end
