(* ===== verification/Service_Conflicts.thy ===== *)
theory Service_Conflicts
  imports Deployment_Queue
begin

text \<open>
  What a project may claim of the host, \<open>containr-api/src/domain/services/mod.rs\<close>: host ports
  (\<open>validate_port_mappings\<close>) and custom domains (\<open>validate_app_service_domains\<close>,
  \<open>validate_domain\<close>). Saving a project that passed the checks keeps every host port and every domain
  with one service. DNS and the parser of addresses are parameters; an address is its text.
\<close>

section \<open>Host ports\<close>

definition reserved_ports :: "config \<Rightarrow> (u16 \<times> string) list" where
  "reserved_ports c = [(cf_http_port c, ''proxy http''), (cf_https_port c, ''proxy https''), (cf_server_port c, ''api'')]"

definition mapping_key :: "port_mapping \<Rightarrow> u16 \<times> port_protocol" where
  "mapping_key m = (pm_host_port m, pm_protocol m)"

definition show_mapping :: "port_mapping \<Rightarrow> string" where
  "show_mapping m = show_word (pm_host_port m) @ ''/'' @ port_protocol_as_str (pm_protocol m)"

text \<open>The first loop of \<open>validate_port_mappings\<close>; the hash map of the ports seen is an association list.\<close>

fun claim_ports ::
  "config \<Rightarrow> ((u16 \<times> port_protocol) \<times> string) list \<Rightarrow> (string \<times> port_mapping) list \<Rightarrow>
     api_error + ((u16 \<times> port_protocol) \<times> string) list" where
  "claim_ports c seen [] = Inr seen"
| "claim_ports c seen ((name, m) # rest) =
     (case find (\<lambda>(port, _). port = pm_host_port m) (reserved_ports c) of
        Some (_, label) \<Rightarrow>
          Inl (bad_request (''host port '' @ show_word (pm_host_port m) @ '' is reserved for the '' @ label @ '' port''))
      | None \<Rightarrow>
          (case map_of seen (mapping_key m) of
             Some other \<Rightarrow>
               Inl (bad_request (''host port '' @ show_mapping m @ '' is mapped by both '' @ other @ '' and '' @ name))
           | None \<Rightarrow> claim_ports c ((mapping_key m, name) # seen) rest))"

definition named_mappings :: "container_service list \<Rightarrow> (string \<times> port_mapping) list" where
  "named_mappings services = concat (map (\<lambda>s. map (Pair (s_name s)) (s_port_mappings s)) services)"

definition validate_port_mappings :: "config \<Rightarrow> project \<Rightarrow> store \<Rightarrow> api_error + unit" where
  "validate_port_mappings c app st =
     and_then (claim_ports c [] (named_mappings (p_services app))) (\<lambda>seen.
       if seen = [] then Inr ()
       else
         (case find (\<lambda>m. map_of seen (mapping_key m) \<noteq> None)
             (concat (map s_port_mappings (concat (map p_services
                (filter (\<lambda>other. p_id other \<noteq> p_id app) (list_apps st)))))) of
            Some m \<Rightarrow> Inl (conflict (''host port '' @ show_mapping m @ '' is already mapped by another service''))
          | None \<Rightarrow> Inr ()))"

section \<open>Domains\<close>

type_synonym ip_addr = string

text \<open>The random choices that one call of \<open>build_services\<close> makes.\<close>

record draws =
  dw_nonce :: "nat \<Rightarrow> bytes"
  dw_hash_password :: "nat \<Rightarrow> string \<Rightarrow> string + string"
  dw_new_id :: "nat \<Rightarrow> uuid"
  dw_now :: "nat \<Rightarrow> timestamp"

text \<open>
  The environment of the handlers that change services: the API's, the DNS resolver (addresses of a
  name, targets of its CNAME records), the parser of addresses, the check of a cron schedule,
  random choices and the text of a time stamp.
\<close>

record 'x svc_env =
  v_api :: "'x api_env"
  v_lookup_ip :: "string \<Rightarrow> ('x world, ip_addr list) io"
  v_lookup_cname :: "string \<Rightarrow> ('x world, string list) io"
  v_parse_ip :: "string \<Rightarrow> ip_addr option"
  v_cron :: "string \<Rightarrow> string option"
  v_draws :: "('x world, draws) io"
  v_token :: "('x world, string) io"

definition lookup_resolved_ips :: "'x svc_env \<Rightarrow> string \<Rightarrow> ('x world, ip_addr list) io" where
  "lookup_resolved_ips v domain = io_match (v_lookup_ip v domain) (\<lambda>_. io_return []) io_return"

definition cname_targets_base :: "string \<Rightarrow> string list \<Rightarrow> bool" where
  "cname_targets_base base_domain targets =
     list_ex (\<lambda>target. let target = trim_end_char CHR ''.'' target in
        eq_ignore_ascii_case target base_domain \<or> ends_with (''.'' @ trim_end_char CHR ''.'' base_domain) target) targets"

definition validate_domain :: "'x svc_env \<Rightarrow> string \<Rightarrow> string \<Rightarrow> string option \<Rightarrow> ('x world, unit) io" where
  "validate_domain v domain base_domain public_ip =
     (let base_domain = to_lowercase (trim base_domain) in
      if domain = base_domain then io_fail ''domain is reserved for the dashboard''
      else if starts_with ''www.'' domain then io_fail ''www subdomains are not supported''
      else
        io_bind (lookup_resolved_ips v domain) (\<lambda>domain_ips.
        let others =
          io_bind (lookup_resolved_ips v base_domain) (\<lambda>base_domain_ips.
            if domain_ips \<noteq> [] \<and> base_domain_ips \<noteq> [] \<and> list_ex (\<lambda>ip. ip \<in> set base_domain_ips) domain_ips
            then io_return ()
            else
              io_bind (io_map_err (\<lambda>_. ''domain must resolve to the same public target as the base domain'')
                         (v_lookup_cname v domain)) (\<lambda>targets.
                if cname_targets_base base_domain targets then io_return ()
                else io_fail ''domain must resolve to the same public target as the base domain or CNAME to it''))
        in case opt_filter (\<lambda>value. value \<noteq> []) (map_option trim public_ip) of
             None \<Rightarrow> others
           | Some public_ip \<Rightarrow>
               (case v_parse_ip v public_ip of
                  None \<Rightarrow> io_fail ''public_ip is not a valid IP address''
                | Some ip \<Rightarrow> if ip \<in> set domain_ips then io_return () else others)))"

definition validate_domains :: "'x svc_env \<Rightarrow> string list \<Rightarrow> string \<Rightarrow> string option \<Rightarrow> ('x world, unit) io" where
  "validate_domains v domains base_domain public_ip = io_for domains (\<lambda>domain. validate_domain v domain base_domain public_ip)"

fun claim_domains :: "string list \<Rightarrow> string list \<Rightarrow> api_error + string list" where
  "claim_domains seen [] = Inr seen"
| "claim_domains seen (d # ds) =
     (if d \<in> set seen then Inl (bad_request (''duplicate custom domain: '' @ d)) else claim_domains (seen @ [d]) ds)"

fun collect_domains :: "string list \<Rightarrow> container_service list \<Rightarrow> api_error + string list" where
  "collect_domains seen [] = Inr seen"
| "collect_domains seen (s # services) =
     (if s_domains s \<noteq> [] \<and> \<not> is_public_http s then Inl (bad_request ''only web services can use custom domains'')
      else and_then (claim_domains seen (service_custom_domains s)) (\<lambda>seen. collect_domains seen services))"

definition domain_taken :: "store \<Rightarrow> project \<Rightarrow> string \<Rightarrow> bool" where
  "domain_taken st app domain =
     (case get_app_by_domain st domain of Some existing \<Rightarrow> p_id existing \<noteq> p_id app | None \<Rightarrow> False)"

definition validate_app_service_domains :: "'x svc_env \<Rightarrow> project \<Rightarrow> ('x, string list) handler" where
  "validate_app_service_domains v app =
     io_bind (io_lift (collect_domains [] (p_services app))) (\<lambda>domains.
       if domains = [] then io_return domains
       else
         io_then (in_world (io_map_err bad_request
             (validate_domains v domains (cf_base_domain (e_config (v_api v))) (cf_public_ip (e_config (v_api v))))))
         (io_bind (api_read (\<lambda>st. list_ex (domain_taken st app) domains)) (\<lambda>taken.
            if taken then io_fail (conflict ''domain already in use'') else io_return domains)))"

section \<open>One service for each host port\<close>

definition service_ports :: "container_service \<Rightarrow> (u16 \<times> port_protocol) set" where
  "service_ports s = mapping_key ` set (s_port_mappings s)"

definition ports_ok :: "config \<Rightarrow> container_service \<Rightarrow> bool" where
  "ports_ok c s \<longleftrightarrow>
     distinct (map mapping_key (s_port_mappings s)) \<and>
     list_all (\<lambda>m. pm_host_port m \<notin> fst ` set (reserved_ports c)) (s_port_mappings s)"

text \<open>Two different services have nothing in common.\<close>

definition apart :: "(container_service \<Rightarrow> 'b set) \<Rightarrow> container_service list \<Rightarrow> bool" where
  "apart f services \<longleftrightarrow>
     list_all (\<lambda>s. list_all (\<lambda>t. s_id s = s_id t \<or> f s \<inter> f t = {}) services) services"

definition ports_exclusive :: "config \<Rightarrow> store \<Rightarrow> bool" where
  "ports_exclusive c st \<longleftrightarrow> list_all (ports_ok c) (st_services st) \<and> apart service_ports (st_services st)"

definition service_domains :: "container_service \<Rightarrow> string set" where
  "service_domains s = set (service_custom_domains s)"

definition domains_exclusive :: "store \<Rightarrow> bool" where
  "domains_exclusive st \<longleftrightarrow> apart service_domains (st_services st)"

text \<open>Replacing the services of one project keeps services apart if the new ones are, among themselves and from the rest.\<close>

lemma apart_replaced:
  assumes "apart f old" and "set new \<subseteq> {s \<in> set old. P s} \<union> set mine"
    and "apart f mine" and "\<And>s t. s \<in> set old \<Longrightarrow> P s \<Longrightarrow> t \<in> set mine \<Longrightarrow> f s \<inter> f t = {}"
  shows "apart f new"
  unfolding apart_def list_all_iff
proof (intro ballI)
  fix s t
  assume "s \<in> set new" "t \<in> set new"
  then have "s \<in> set old \<and> P s \<or> s \<in> set mine" "t \<in> set old \<and> P t \<or> t \<in> set mine"
    using assms(2) by blast+
  then show "s_id s = s_id t \<or> f s \<inter> f t = {}"
    using assms(1,3,4) unfolding apart_def list_all_iff by (metis Int_commute)
qed

lemma apart_subset: "apart f old \<Longrightarrow> set new \<subseteq> set old \<Longrightarrow> apart f new"
  by (auto simp: apart_def list_all_iff)

lemma find_reserved_None:
  "find (\<lambda>(port, _). port = p) (reserved_ports c) = None \<longleftrightarrow> p \<notin> fst ` set (reserved_ports c)"
  unfolding find_None_iff by force

lemma claim_ports_Inr:
  assumes "claim_ports c seen ms = Inr seen'"
  shows "distinct (map (mapping_key \<circ> snd) ms) \<and> list_all (\<lambda>(_, m). pm_host_port m \<notin> fst ` set (reserved_ports c)) ms \<and>
    fst ` set seen' = fst ` set seen \<union> (mapping_key \<circ> snd) ` set ms \<and> fst ` set seen \<inter> (mapping_key \<circ> snd) ` set ms = {}"
  using assms
proof (induction c seen ms rule: claim_ports.induct)
  case (2 c seen name m rest)
  then have r: "pm_host_port m \<notin> fst ` set (reserved_ports c)" "map_of seen (mapping_key m) = None"
    "claim_ports c ((mapping_key m, name) # seen) rest = Inr seen'"
    using find_reserved_None [of "pm_host_port m" c] by (auto split: option.splits)
  then show ?case
    using "2.IH" find_reserved_None [of "pm_host_port m" c] by (auto simp: map_of_eq_None_iff)
qed simp

lemma named_mappings_keys: "(mapping_key \<circ> snd) ` set (named_mappings services) = (\<Union>s \<in> set services. service_ports s)"
  by (force simp: named_mappings_def service_ports_def)

lemma distinct_named_mappings:
  assumes "distinct (map (mapping_key \<circ> snd) (named_mappings services))"
  shows "(\<forall>s \<in> set services. distinct (map mapping_key (s_port_mappings s))) \<and> (distinct (map s_id services) \<longrightarrow> apart service_ports services)"
  using assms
proof (induction services)
  case (Cons s services)
  have split: "map (mapping_key \<circ> snd) (named_mappings (s # services)) =
      map mapping_key (s_port_mappings s) @ map (mapping_key \<circ> snd) (named_mappings services)"
    by (simp add: named_mappings_def)
  have "set (map mapping_key (s_port_mappings s)) \<inter> (\<Union>t \<in> set services. service_ports t) = {}"
    using Cons.prems unfolding split distinct_append set_map [of "mapping_key \<circ> snd"] named_mappings_keys by blast
  then have "service_ports s \<inter> service_ports t = {}" if "t \<in> set services" for t
    using that by (auto simp: service_ports_def)
  moreover have "(\<forall>s \<in> set services. distinct (map mapping_key (s_port_mappings s))) \<and>
      (distinct (map s_id services) \<longrightarrow> apart service_ports services)"
    using Cons.prems unfolding split distinct_append by (intro Cons.IH) blast
  ultimately show ?case
    using Cons.prems unfolding split by (auto simp: apart_def list_all_iff Int_commute)
qed (simp add: apart_def)

lemma services_of_other_apps:
  assumes "store_inv st" and "s \<in> set (st_services st)" and "s_app_id s \<noteq> i"
  shows "\<exists>app. app \<in> set (list_apps st) \<and> p_id app = s_app_id s \<and> p_id app \<noteq> i \<and> s \<in> set (p_services app)"
proof -
  have "s_app_id s \<in> p_id ` set (st_apps st)" using assms(1,2) by (auto simp: store_inv_defs refs_def)
  then obtain a where "a \<in> set (st_apps st)" "p_id a = s_app_id s" by auto
  then show ?thesis
    using assms(2,3) by (intro exI [of _ "load_app st a"]) (simp add: list_apps_def, simp add: load_app_def list_services_by_app_def)
qed

lemma validate_port_mappings_Inr:
  assumes "validate_port_mappings c app st = Inr ()"
  shows "list_all (ports_ok c) (p_services app)" and "distinct (map s_id (p_services app)) \<Longrightarrow> apart service_ports (p_services app)"
    and "\<And>other s t. other \<in> set (list_apps st) \<Longrightarrow> p_id other \<noteq> p_id app \<Longrightarrow> s \<in> set (p_services other) \<Longrightarrow> t \<in> set (p_services app) \<Longrightarrow>
      service_ports s \<inter> service_ports t = {}"
proof -
  obtain seen where seen: "claim_ports c [] (named_mappings (p_services app)) = Inr seen"
    and free: "seen = [] \<or> find (\<lambda>m. map_of seen (mapping_key m) \<noteq> None)
             (concat (map s_port_mappings (concat (map p_services (filter (\<lambda>other. p_id other \<noteq> p_id app) (list_apps st)))))) = None"
    using assms by (auto simp: validate_port_mappings_def split: if_splits option.splits)
  note claimed = claim_ports_Inr [OF seen]
  then have keys: "fst ` set seen = (\<Union>s \<in> set (p_services app). service_ports s)" unfolding named_mappings_keys by simp
  have d: "distinct (map (mapping_key \<circ> snd) (named_mappings (p_services app)))" using claimed by simp
  have unreserved: "list_all (\<lambda>(_, m). pm_host_port m \<notin> fst ` set (reserved_ports c)) (named_mappings (p_services app))" using claimed by simp
  show "list_all (ports_ok c) (p_services app)"
    using distinct_named_mappings [OF d] unreserved by (fastforce simp: ports_ok_def list_all_iff named_mappings_def)
  show "apart service_ports (p_services app)" if "distinct (map s_id (p_services app))"
    using distinct_named_mappings [OF d] that by blast
  fix other s t
  assume o: "other \<in> set (list_apps st)" "p_id other \<noteq> p_id app" "s \<in> set (p_services other)" "t \<in> set (p_services app)"
  show "service_ports s \<inter> service_ports t = {}"
  proof (cases "seen = []")
    case True
    then show ?thesis using keys o(4) by auto
  next
    case False
    then have "map_of seen (mapping_key m) = None" if "m \<in> set (s_port_mappings s)" for m
      using free that o(1-3) unfolding find_None_iff by auto
    then have "service_ports s \<inter> fst ` set seen = {}"
      unfolding service_ports_def map_of_eq_None_iff by blast
    then show ?thesis using keys o(4) by blast
  qed
qed

lemma saved_services_apart:
  assumes inv: "store_inv st" and sv: "save_app st app = Inr st'"
    and ids: "distinct (map s_id (p_services app))" "\<forall>s \<in> set (p_services app). s_app_id s = p_id app"
    and "apart f (st_services st)" "apart f (p_services app)"
    and other: "\<And>other s t. other \<in> set (list_apps st) \<Longrightarrow> p_id other \<noteq> p_id app \<Longrightarrow> s \<in> set (p_services other) \<Longrightarrow> t \<in> set (p_services app) \<Longrightarrow>
      f s \<inter> f t = {}"
  shows "apart f (st_services st')"
proof (rule apart_replaced [OF assms(5) _ assms(6)])
  show "set (st_services st') \<subseteq> {s \<in> set (st_services st). s_app_id s \<noteq> p_id app} \<union> set (p_services app)"
    using save_app_tables(2) [OF inv sv ids] by auto
  show "f s \<inter> f t = {}" if "s \<in> set (st_services st)" "s_app_id s \<noteq> p_id app" "t \<in> set (p_services app)" for s t
    using services_of_other_apps [OF inv that(1,2)] other that(3) by metis
qed

lemma saved_ports_exclusive:
  assumes inv: "store_inv st" and "ports_exclusive c st" and v: "validate_port_mappings c app st = Inr ()" and sv: "save_app st app = Inr st'"
    and ids: "distinct (map s_id (p_services app))" "\<forall>s \<in> set (p_services app). s_app_id s = p_id app"
  shows "ports_exclusive c st'"
proof -
  have "list_all (ports_ok c) (st_services st')"
    using save_app_tables(2) [OF inv sv ids] validate_port_mappings_Inr(1) [OF v] assms(2)
    by (auto simp: ports_exclusive_def list_all_iff)
  moreover have "apart service_ports (st_services st)" using assms(2) by (simp add: ports_exclusive_def)
  then have "apart service_ports (st_services st')"
    by (rule saved_services_apart [OF inv sv ids _ validate_port_mappings_Inr(2) [OF v ids(1)]])
      (rule validate_port_mappings_Inr(3) [OF v])
  ultimately show ?thesis by (simp add: ports_exclusive_def)
qed

section \<open>One service for each domain\<close>

lemma claim_domains_Inr:
  assumes "claim_domains seen ds = Inr seen'"
  shows "seen' = seen @ ds \<and> set seen \<inter> set ds = {}"
  using assms by (induction seen ds rule: claim_domains.induct) (auto split: if_splits)

lemma collect_domains_Inr:
  assumes "collect_domains seen services = Inr domains"
  shows "set domains = set seen \<union> (\<Union>s \<in> set services. service_domains s) \<and>
    (\<forall>s \<in> set services. set seen \<inter> service_domains s = {}) \<and> apart service_domains services"
  using assms
proof (induction seen services rule: collect_domains.induct)
  case (2 seen s services)
  then obtain seen' where c: "claim_domains seen (service_custom_domains s) = Inr seen'" "collect_domains seen' services = Inr domains"
    and g: "\<not> (s_domains s \<noteq> [] \<and> \<not> is_public_http s)"
    by (auto split: if_splits)
  have s': "seen' = seen @ service_custom_domains s" "set seen \<inter> service_domains s = {}"
    using claim_domains_Inr [OF c(1)] by (auto simp: service_domains_def)
  from "2.IH" [OF g c(2)] have
    "set domains = set seen' \<union> (\<Union>s \<in> set services. service_domains s)"
    "\<And>t. t \<in> set services \<Longrightarrow> set seen' \<inter> service_domains t = {}"
    "apart service_domains services"
    by blast+
  then show ?case
    using s' by (auto simp: apart_def list_all_iff service_domains_def)
qed (simp add: apart_def)

lemma set_project_custom_domains: "set (project_custom_domains p) = (\<Union>s \<in> set (p_services p). set (s_domains s))"
proof -
  have "set (foldl (\<lambda>out s. foldl push_new out (s_domains s)) out ss) = set out \<union> (\<Union>s \<in> set ss. set (s_domains s))" for out and ss :: "container_service list"
    by (induction ss arbitrary: out) (auto simp: set_foldl_push_new)
  then show ?thesis by (simp add: project_custom_domains_def)
qed

text \<open>Lookups do not write to the database.\<close>

definition dns_quiet :: "'x svc_env \<Rightarrow> bool" where
  "dns_quiet v \<longleftrightarrow>
     (\<forall>name. io_keeps (same world_view) (v_lookup_ip v name)) \<and> (\<forall>name. io_keeps (same world_view) (v_lookup_cname v name))"

lemma keeps_validate_domain:
  assumes "dns_quiet v"
  shows "io_keeps (same world_view) (validate_domain v domain base_domain public_ip)"
proof -
  have l: "io_keeps (same world_view) (v_lookup_ip v name)" "io_keeps (same world_view) (v_lookup_cname v name)" for name
    using assms by (simp_all add: dns_quiet_def)
  show ?thesis
    unfolding validate_domain_def lookup_resolved_ips_def Let_def by (intro same.keeps_intros l)
qed

lemma keeps_validate_app_service_domains:
  assumes "dns_quiet v"
  shows "io_keeps (same api_view) (validate_app_service_domains v app)"
  unfolding validate_app_service_domains_def validate_domains_def
  by (intro same.keeps_intros keeps_api_read keeps_in_world keeps_validate_domain [OF assms])

lemma api_view_store: "same api_view s s' \<Longrightarrow> a_store s' = a_store s"
  by (simp add: same_def api_view_def world_view_def a_store_def)

lemma keeps_store: "io_keeps (same api_view) m \<Longrightarrow> m s = (r, s') \<Longrightarrow> a_store s' = a_store s"
  using api_view_store [of s s'] io_keepsD [of "same api_view" m s] by simp

lemma validate_app_service_domains_Inr:
  assumes dns: "dns_quiet v" and run: "validate_app_service_domains v app s = (Inr domains, s')" and inv: "store_inv (a_store s)"
    and excl: "domains_exclusive (a_store s)"
  shows "apart service_domains (p_services app)"
    and "\<And>other sv t. other \<in> set (list_apps (a_store s)) \<Longrightarrow> p_id other \<noteq> p_id app \<Longrightarrow> sv \<in> set (p_services other) \<Longrightarrow>
      t \<in> set (p_services app) \<Longrightarrow> service_domains sv \<inter> service_domains t = {}"
proof -
  have c: "collect_domains [] (p_services app) = Inr domains"
    using run by (auto simp: validate_app_service_domains_def io_bind_Inr io_then_Inr io_apply split: if_splits)
  note collected = collect_domains_Inr [OF c]
  then show "apart service_domains (p_services app)" by simp
  fix other sv t
  assume o: "other \<in> set (list_apps (a_store s))" "p_id other \<noteq> p_id app" "sv \<in> set (p_services other)" "t \<in> set (p_services app)"
  have free: "\<not> domain_taken (a_store s) app d" if "d \<in> service_domains t" for d
  proof -
    have "d \<in> set domains" using collected that o(4) by auto
    then have ne: "domains \<noteq> []" by auto
    let ?m = "in_world (io_map_err bad_request
        (validate_domains v domains (cf_base_domain (e_config (v_api v))) (cf_public_ip (e_config (v_api v)))))"
    have "io_keeps (same api_view) ?m"
      unfolding validate_domains_def by (intro same.keeps_intros keeps_in_world keeps_validate_domain [OF dns])
    then have keep: "a_store s1 = a_store s" if "?m s = (r, s1)" for r s1
      using that by (rule keeps_store)
    have "\<exists>r s1. ?m s = (r, s1) \<and> \<not> list_ex (domain_taken (a_store s1) app) domains"
      using run ne unfolding validate_app_service_domains_def io_bind_Inr [of "io_lift _"] io_lift_Inr c
      by (auto simp: io_bind_Inr io_then_Inr api_read_def io_apply split: if_splits)
    then have "\<not> list_ex (domain_taken (a_store s) app) domains" using keep by metis
    then show ?thesis using \<open>d \<in> set domains\<close> by (auto simp: list_ex_iff)
  qed
  show "service_domains sv \<inter> service_domains t = {}"
  proof (rule ccontr)
    assume "service_domains sv \<inter> service_domains t \<noteq> {}"
    then obtain d where d: "d \<in> service_domains sv" "d \<in> service_domains t" by blast
    then have dom: "d \<in> set (s_domains sv)" "trim d \<noteq> []"
      by (auto simp: service_domains_def set_service_custom_domains)
    then have "d \<in> set (project_custom_domains other)" using o(3) by (auto simp: set_project_custom_domains)
    then obtain found where found: "get_app_by_domain (a_store s) d = Some found"
      using o(1) by (cases "get_app_by_domain (a_store s) d") (auto simp: get_app_by_domain_def find_None_iff)
    then have own: "p_id found = p_id app" using free [OF d(2)] by (simp add: domain_taken_def)
    have f: "found \<in> set (list_apps (a_store s))" "d \<in> set (project_custom_domains found)"
      using found by (auto simp: get_app_by_domain_def find_Some_iff)
    then obtain u where u: "u \<in> set (p_services found)" "d \<in> set (s_domains u)" by (auto simp: set_project_custom_domains)
    have rows: "u \<in> set (st_services (a_store s))" "s_app_id u = p_id found" "sv \<in> set (st_services (a_store s))" "s_app_id sv = p_id other"
      using f(1) u(1) o(1,3) by (auto simp: list_apps_def load_app_def list_services_by_app_def)
    have "d \<in> service_domains u" using u(2) dom(2) by (simp add: service_domains_def set_service_custom_domains)
    then have "s_id u = s_id sv"
      using excl rows d(1) unfolding domains_exclusive_def apart_def list_all_iff by blast
    then have "u = sv" using inv rows(1,3) by (auto simp: store_inv_defs distinct_map dest: inj_onD)
    then show False using rows(2,4) own o(2) by simp
  qed
qed

lemma saved_domains_exclusive:
  assumes "dns_quiet v" and "validate_app_service_domains v app s = (Inr domains, s')" and "store_inv (a_store s)"
    and "domains_exclusive (a_store s)" and "save_app (a_store s) app = Inr st'"
    and "distinct (map s_id (p_services app))" "\<forall>s \<in> set (p_services app). s_app_id s = p_id app"
  shows "domains_exclusive st'"
  unfolding domains_exclusive_def
  by (rule saved_services_apart [OF assms(3,5,6,7) _ validate_app_service_domains_Inr(1) [OF assms(1-4)]])
    (use assms(4) validate_app_service_domains_Inr(2) [OF assms(1-4)] in \<open>auto simp: domains_exclusive_def\<close>)

end
