(* ===== verification/Service_Creation.thy ===== *)
theory Service_Creation
  imports Service_Conflicts Service_Updates
begin

text \<open>
  Creating services, \<open>containr-api/src/domain/services/mod.rs\<close>: a project from a repository
  (\<open>create_repository_service\<close>), a stack of images (\<open>create_stack_service\<close>), services added to a
  project (\<open>add_services_to_project\<close>), and the answer that shows a service
  (\<open>InventoryServiceResponse\<close>). Ids and times are answered as they are, not as their texts.
\<close>

section \<open>Answers\<close>

record inventory_service_response =
  ir_id :: uuid
  ir_group_id :: "uuid option"
  ir_project_id :: "uuid option"
  ir_project_name :: "string option"
  ir_resource_kind :: string
  ir_service_type :: string
  ir_name :: string
  ir_image :: "string option"
  ir_status :: string
  ir_network_name :: string
  ir_internal_host :: "string option"
  ir_port :: "u16 option"
  ir_external_port :: "u16 option"
  ir_proxy_port :: "u16 option"
  ir_proxy_external_port :: "u16 option"
  ir_public_ip :: "string option"
  ir_connection_string :: "string option"
  ir_proxy_connection_string :: "string option"
  ir_domains :: "string list"
  ir_http_only_domains :: "string list"
  ir_default_urls :: "string list"
  ir_schedule :: "string option"
  ir_notes :: "string option"
  ir_port_mappings :: "port_mapping list"
  ir_public_http :: bool
  ir_desired_instances :: u32
  ir_running_instances :: u32
  ir_deployment_id :: "uuid option"
  ir_container_ids :: "string list"
  ir_pitr_enabled :: bool
  ir_proxy_enabled :: bool
  ir_created_at :: timestamp
  ir_updated_at :: timestamp

definition normalize_public_ip :: "string option \<Rightarrow> string option" where
  "normalize_public_ip public_ip =
     Option.bind public_ip (\<lambda>public_ip. let public_ip = trim public_ip in if public_ip = [] then None else Some public_ip)"

definition build_default_urls :: "service_inventory_item \<Rightarrow> config \<Rightarrow> string list" where
  "build_default_urls service c =
     (if si_resource_kind service \<noteq> AppService \<or> \<not> si_public_http service then []
      else
        (case default_service_domain (si_id service) (cf_base_domain c) of
           None \<Rightarrow> []
         | Some domain \<Rightarrow>
             [if cf_http_port c = 80 then ''http://'' @ domain
              else ''http://'' @ domain @ '':'' @ show_word (cf_http_port c)]))"

definition from_inventory :: "service_inventory_item \<Rightarrow> config \<Rightarrow> inventory_service_response" where
  "from_inventory service c =
     \<lparr> ir_id = si_id service, ir_group_id = si_group_id service, ir_project_id = si_project_id service,
       ir_project_name = si_project_name service, ir_resource_kind = resource_kind_as_str (si_resource_kind service),
       ir_service_type = service_type_name (si_service_type service), ir_name = si_name service, ir_image = si_image service,
       ir_status = runtime_status_as_str (si_status service), ir_network_name = si_network_name service,
       ir_internal_host = si_internal_host service, ir_port = si_port service, ir_external_port = si_external_port service,
       ir_proxy_port = si_proxy_port service, ir_proxy_external_port = si_proxy_external_port service,
       ir_public_ip = normalize_public_ip (cf_public_ip c), ir_connection_string = si_connection_string service,
       ir_proxy_connection_string = si_proxy_connection_string service, ir_domains = si_domains service,
       ir_http_only_domains = si_http_only_domains service, ir_default_urls = build_default_urls service c,
       ir_schedule = si_schedule service, ir_notes = si_notes service, ir_port_mappings = si_port_mappings service,
       ir_public_http = si_public_http service, ir_desired_instances = si_desired_instances service,
       ir_running_instances = si_running_instances service, ir_deployment_id = si_deployment_id service,
       ir_container_ids = si_container_ids service, ir_pitr_enabled = si_pitr_enabled service,
       ir_proxy_enabled = si_proxy_enabled service, ir_created_at = si_created_at service,
       ir_updated_at = si_updated_at service \<rparr>"

definition service_response :: "'x svc_env \<Rightarrow> uuid \<Rightarrow> uuid \<Rightarrow> ('x, inventory_service_response) handler" where
  "service_response v user_id service_id =
     io_bind (api_read (\<lambda>st. get_service_inventory_by_id (h_show_uuid (e_host (v_api v))) st user_id service_id)) (\<lambda>found.
     io_bind (io_lift (ok_or found (not_found ''service not found''))) (\<lambda>inventory.
       io_return (from_inventory inventory (e_config (v_api v)))))"

definition list_services_handler :: "'x svc_env \<Rightarrow> uuid \<Rightarrow> string option \<Rightarrow> ('x, inventory_service_response list) handler" where
  "list_services_handler v user_id group_id =
     io_bind (\<lambda>s. (resolve_group_id (v_api v) user_id group_id (a_store s), s)) (\<lambda>group_id.
     io_bind (api_read (\<lambda>st. list_service_inventory_by_owner_and_group (h_show_uuid (e_host (v_api v))) st user_id group_id))
       (\<lambda>inventory. io_return (map (\<lambda>service. from_inventory service (e_config (v_api v))) inventory)))"

section \<open>Building blocks\<close>

definition non_empty :: "string option \<Rightarrow> string option" where
  "non_empty value = opt_filter (\<lambda>value. value \<noteq> []) (map_option trim value)"

record project_addition =
  pa_github_url :: "string option"
  pa_branch :: "string option"
  pa_env_vars :: "env_var_request list option"
  pa_services :: "service_request list"
  pa_require_images :: bool
  pa_deploy :: bool

text \<open>\<open>name.is_empty() || name.len() > 64\<close> is an error.\<close>

definition name_length_ok :: "string \<Rightarrow> bool" where
  "name_length_ok name \<longleftrightarrow> name \<noteq> [] \<and> str_len name \<le> 64"

text \<open>\<open>App::new\<close>.\<close>

definition new_project :: "'x svc_env \<Rightarrow> string \<Rightarrow> string \<Rightarrow> uuid \<Rightarrow> ('x, project) handler" where
  "new_project v name github_url user_id =
     io_bind (api_uuid (v_api v)) (\<lambda>i.
     io_bind (in_world (io_map_err internal_error (v_token v))) (\<lambda>token.
     io_bind (api_now (v_api v)) (\<lambda>now. io_return (project_new i now token name github_url user_id))))"

definition svc_build_env :: "'x svc_env \<Rightarrow> draws \<Rightarrow> build_env" where
  "svc_build_env v d =
     \<lparr> be_crypto = h_crypto (e_host (v_api v)), be_secret = env_secret (v_api v), be_cron = v_cron v, be_nonce = dw_nonce d,
       be_hash_password = dw_hash_password d, be_new_id = dw_new_id d, be_now = dw_now d \<rparr>"

text \<open>\<open>build_services\<close> for the caller: an administrator may mount host paths.\<close>

definition build_services_for ::
  "'x svc_env \<Rightarrow> uuid \<Rightarrow> uuid \<Rightarrow> container_service list \<Rightarrow> service_request list \<Rightarrow> ('x, container_service list) handler" where
  "build_services_for v user_id app_id existing requests =
     io_bind (api_read (user_is_admin user_id)) (\<lambda>is_admin.
     io_bind (in_world (io_map_err internal_error (v_draws v))) (\<lambda>d.
       io_lift (build_services (svc_build_env v d) app_id existing requests is_admin)))"

definition check_ports :: "'x svc_env \<Rightarrow> project \<Rightarrow> ('x, unit) handler" where
  "check_ports v app = (\<lambda>s. (validate_port_mappings (e_config (v_api v)) app (a_store s), s))"

definition source_url_missing :: "project \<Rightarrow> bool" where
  "source_url_missing app \<longleftrightarrow> project_requires_source_checkout app \<and> trim (p_github_url app) = []"

definition request_image_blank :: "service_request \<Rightarrow> bool" where
  "request_image_blank request \<longleftrightarrow> trim (unwrap_or (sr_image request) []) = []"

text \<open>The first deployment of a new project; if it cannot be queued the project is deleted again.\<close>

definition deploy_new_project :: "'x svc_env \<Rightarrow> uuid \<Rightarrow> project \<Rightarrow> ('x, unit) handler" where
  "deploy_new_project v user_id app =
     io_match (create_and_queue_deployment (v_api v) user_id app ''initial'' (Some ''initial deployment'') (p_branch app)
         (p_rollout_strategy app) None None False)
       (\<lambda>error. io_then (io_modify (\<lambda>s. put_store (fst (delete_app (a_store s) (p_id app))) s)) (io_fail error))
       (\<lambda>_. io_return ())"

definition first_service_id :: "project \<Rightarrow> ('x, uuid) handler" where
  "first_service_id app = (case p_services app of s # _ \<Rightarrow> io_return (s_id s) | [] \<Rightarrow> io_fail (internal_error ''no service''))"

section \<open>Creating projects\<close>

text \<open>What both ways to create a project share once its services are built.\<close>

definition save_new_project :: "'x svc_env \<Rightarrow> uuid \<Rightarrow> project \<Rightarrow> bool \<Rightarrow> ('x, uuid) handler" where
  "save_new_project v user_id app deploy =
     io_then (check_ports v app)
     (io_bind (validate_app_service_domains v app) (\<lambda>_.
      io_then (api_write (\<lambda>st. save_app st app))
     (io_then (if deploy then deploy_new_project v user_id app else io_return ())
     (io_then (request_certificates (v_api v) (managed_certificate_domains app))
       (first_service_id app)))))"

definition create_repository_service ::
  "'x svc_env \<Rightarrow> uuid \<Rightarrow> string \<Rightarrow> string \<Rightarrow> string option \<Rightarrow> env_var_request list option \<Rightarrow> service_request \<Rightarrow> string option \<Rightarrow> bool \<Rightarrow>
     ('x, uuid) handler" where
  "create_repository_service v user_id name github_url branch env_vars service rollout_strategy deploy =
     (if \<not> name_length_ok name then io_fail (bad_request ''name must be 1-64 characters'')
      else
        let service = (if trim (sr_name service) = [] then service\<lparr> sr_name := name \<rparr> else service) in
        io_bind (new_project v name github_url user_id) (\<lambda>app.
        let app = app\<lparr> p_branch := unwrap_or branch (p_branch app),
              p_env_vars := (case env_vars of
                 None \<Rightarrow> p_env_vars app
               | Some env_vars \<Rightarrow> map (\<lambda>r. \<lparr> ev_key = er_key r, ev_value = er_value r, ev_secret = unwrap_or (er_secret r) False \<rparr>) env_vars) \<rparr> in
        io_bind (io_lift (case rollout_strategy of
             None \<Rightarrow> Inr (p_rollout_strategy app)
           | Some strategy \<Rightarrow>
               ok_or (parse_rollout_strategy strategy) (bad_request ''invalid rollout strategy. use stop_first or start_first''))) (\<lambda>strategy.
        io_bind (build_services_for v user_id (p_id app) [] [service]) (\<lambda>services.
        let app = app\<lparr> p_rollout_strategy := strategy, p_services := services \<rparr> in
        if deploy \<and> source_url_missing app
        then io_fail (bad_request ''github_url is required when a service needs a source build'')
        else save_new_project v user_id app deploy))))"

definition create_stack_service ::
  "'x svc_env \<Rightarrow> uuid \<Rightarrow> string \<Rightarrow> env_var_request list option \<Rightarrow> service_request list \<Rightarrow> ('x, uuid) handler" where
  "create_stack_service v user_id name env_vars services =
     (let name = trim name in
      if \<not> name_length_ok name then io_fail (bad_request ''name must be 1-64 characters'')
      else if services = [] then io_fail (bad_request ''stack must define at least one service'')
      else
        (case find request_image_blank services of
           Some service \<Rightarrow>
             io_fail (bad_request (''stack service '' @ trim (sr_name service) @
               '' needs an image; source builds are not supported in stacks''))
         | None \<Rightarrow>
             io_bind (new_project v name [] user_id) (\<lambda>app.
             io_bind (io_lift (build_app_env_vars env_vars [])) (\<lambda>env_vars.
             io_bind (build_services_for v user_id (p_id app) [] services) (\<lambda>services.
             let app = app\<lparr> p_env_vars := env_vars, p_services := services \<rparr> in
             if project_requires_source_checkout app
             then io_fail (bad_request ''stack services must use prebuilt images'')
             else save_new_project v user_id app True)))))"

section \<open>Adding services to a project\<close>

text \<open>The loop over the names of the new services, with the names seen so far.\<close>

fun check_added_names :: "bool \<Rightarrow> string list \<Rightarrow> service_request list \<Rightarrow> api_error + unit" where
  "check_added_names require_images names [] = Inr ()"
| "check_added_names require_images names (service # services) =
     (let name = trim (sr_name service) in
      if name = [] then Inl (bad_request ''service name cannot be empty'')
      else if name \<in> set names then Inl (bad_request (''service name '' @ name @ '' already exists in this project''))
      else if require_images \<and> request_image_blank service
      then Inl (bad_request (''stack service '' @ name @ '' needs an image; source builds are not supported in stacks''))
      else check_added_names require_images (name # names) services)"

definition add_repository :: "project_addition \<Rightarrow> project \<Rightarrow> api_error + project" where
  "add_repository addition app =
     (case non_empty (pa_github_url addition) of
        None \<Rightarrow> Inr app
      | Some github_url \<Rightarrow>
          let current = trim (p_github_url app) in
          if current = []
          then Inr (app\<lparr> p_github_url := github_url, p_branch := unwrap_or (non_empty (pa_branch addition)) (p_branch app) \<rparr>)
          else if trim_end_matches ''.git'' current \<noteq> trim_end_matches ''.git'' github_url
          then Inl (bad_request ''a project builds from a single repository; use an image or create a new project'')
          else Inr app)"

definition add_env_vars :: "project_addition \<Rightarrow> project \<Rightarrow> api_error + project" where
  "add_env_vars addition app =
     (case pa_env_vars addition of
        None \<Rightarrow> Inr app
      | Some env_vars \<Rightarrow>
          and_then (build_app_env_vars (Some env_vars) []) (\<lambda>added.
            Inr (app\<lparr> p_env_vars := foldl (\<lambda>vars v. if ev_key v \<in> ev_key ` set vars then vars else vars @ [v]) (p_env_vars app) added \<rparr>)))"

definition add_services_to_project :: "'x svc_env \<Rightarrow> uuid \<Rightarrow> string \<Rightarrow> project_addition \<Rightarrow> ('x, uuid) handler" where
  "add_services_to_project v user_id group_id addition =
     io_bind (\<lambda>s. (resolve_group_id (v_api v) user_id (Some group_id) (a_store s), s)) (\<lambda>group.
     io_bind (io_lift (ok_or group (bad_request ''group_id is required''))) (\<lambda>app_id.
     io_bind (api_read (\<lambda>st. get_app st app_id)) (\<lambda>found.
     io_bind (io_lift (ok_or found (not_found ''group not found''))) (\<lambda>previous.
       if pa_services addition = [] then io_fail (bad_request ''at least one service is required'')
       else
         io_bind (io_lift (check_added_names (pa_require_images addition) (map s_name (p_services previous)) (pa_services addition))) (\<lambda>_.
         io_bind (io_lift (and_then (add_repository addition previous) (add_env_vars addition))) (\<lambda>app.
         io_bind (build_services_for v user_id (p_id app) [] (pa_services addition)) (\<lambda>new_services.
         io_bind (first_service_id (app\<lparr> p_services := new_services \<rparr>)) (\<lambda>first_id.
         let app = app\<lparr> p_services := p_services app @ new_services \<rparr> in
         if pa_deploy addition \<and> source_url_missing app
         then io_fail (bad_request ''github_url is required when a service needs a source build'')
         else
           io_then (check_ports v app)
           (io_bind (validate_app_service_domains v app) (\<lambda>_.
            io_bind (api_now (v_api v)) (\<lambda>now.
            let app = app\<lparr> p_updated_at := now \<rparr> in
            io_then (api_write (\<lambda>st. save_app st app))
           (io_then (if pa_deploy addition
                     then io_match (create_and_queue_deployment (v_api v) user_id app ''manual''
                              (Some ''deployment after adding services'') (p_branch app) (p_rollout_strategy app) None None False)
                            (\<lambda>error. io_then (io_ignore (api_write (\<lambda>st. save_app st previous))) (io_fail error))
                            (\<lambda>_. io_return ())
                     else io_return ())
           (io_then (request_certificates (v_api v) (managed_certificate_domains app))
           (io_then (refresh_proxy_routes (v_api v) (p_id app))
             (io_return first_id)))))))))))))))"

end
