(* ===== verification/Creation_Safety.thy ===== *)
theory Creation_Safety
  imports Service_Creation
begin

text \<open>
  What creating services does to the state: a project is created with its services and its job, or
  nothing is left of it; a failed addition restores the project; and host ports and domains stay
  with one service each.
\<close>

section \<open>Saving and taking back\<close>

lemma filter_pair_all [simp]: "filter (\<lambda>(i, _). True) xs = xs"
  by (induction xs) auto

lemma filter_absent: "(\<And>x. x \<in> set xs \<Longrightarrow> P x) \<Longrightarrow> filter P xs = xs"
  by (simp add: filter_id_conv)

lemma upsert_all_fresh:
  assumes "distinct (map key xs)" and "key ` set xs \<inter> key ` set rows = {}"
  shows "upsert_all key rows xs = rows @ xs"
  using assms
proof (induction xs arbitrary: rows)
  case (Cons x xs)
  then have "upsert key (\<lambda>old new. new) x rows = rows @ [x]" by (auto simp: upsert_def)
  moreover have "upsert_all key (rows @ [x]) xs = (rows @ [x]) @ xs"
    by (rule Cons.IH) (use Cons.prems in auto)
  ultimately show ?case by simp
qed simp

lemma upsert_all_same:
  assumes "distinct (map key rows)" and "set xs \<subseteq> set rows"
  shows "upsert_all key rows xs = rows"
  using assms by (induction xs) (simp_all add: upsert_same)

lemma upsert_all_append: "upsert_all key rows (xs @ ys) = upsert_all key (upsert_all key rows xs) ys"
  by (induction xs arbitrary: rows) simp_all

text \<open>A row that was changed and is then written back.\<close>

lemma upsert_back:
  assumes "distinct (map key rows)" and "row \<in> set rows" and "key x = key row"
    and "key (merge row x) = key row" and "merge (merge row x) row = row"
  shows "upsert key merge row (upsert key merge x rows) = rows"
proof -
  have same: "old = row" if "old \<in> set rows" "key old = key row" for old
    using assms(1,2) that by (auto simp: distinct_map dest: inj_onD)
  have u: "upsert key merge x rows = map (\<lambda>old. if key old = key row then merge row x else old) rows"
    using assms(2,3) same by (auto simp: upsert_def)
  have "key row \<in> key ` set (upsert key merge x rows)"
    unfolding u using assms(2,4) by (intro image_eqI [of _ _ "merge row x"]) force+
  then have "upsert key merge row (upsert key merge x rows) =
      map (\<lambda>old. if key old = key row then merge old row else old) (upsert key merge x rows)"
    by (simp add: upsert_def)
  also have "\<dots> = rows"
    unfolding u map_map by (rule map_idI) (use assms(4,5) same in auto)
  finally show ?thesis .
qed

text \<open>New services do not occur anywhere.\<close>

definition used_service_ids :: "store \<Rightarrow> uuid set" where
  "used_service_ids st = s_id ` set (st_services st) \<union> fst ` set (st_http_logs st)"

lemma used_service_idsI:
  "s \<in> set (st_services st) \<Longrightarrow> s_id s \<in> used_service_ids st" "(i, l) \<in> set (st_http_logs st) \<Longrightarrow> i \<in> used_service_ids st"
  unfolding used_service_ids_def by force+

text \<open>Saving a project with services of its own adds the new ones to the table.\<close>

lemma save_app_adds:
  assumes inv: "store_inv st" and sv: "save_app st app = Inr st'"
    and services: "p_services app = old @ new" "set old = {s \<in> set (st_services st). s_app_id s = p_id app}"
    and new: "distinct (map s_id new)" "s_id ` set new \<inter> used_service_ids st = {}" "\<forall>s \<in> set new. s_app_id s = p_id app"
  shows "st' = st\<lparr> st_apps := upsert p_id merge_app (app_row app) (st_apps st), st_services := st_services st @ new \<rparr>"
proof -
  let ?st = "st\<lparr> st_apps := upsert p_id merge_app (app_row app) (st_apps st) \<rparr>"
  obtain st1 where "p_deploy_webhook_token app \<noteq> None" "p_owner_id app \<in> u_id ` set (st_users st)"
    and ins: "insert_services ?st (p_services app) = Inr st1"
    and st': "st' = remove_services st1 (filter (\<lambda>i. i \<notin> s_id ` set (p_services app))
       (map s_id (filter (\<lambda>s. s_app_id s = p_id app) (st_services st1))))"
    using sv by (rule save_app_InrE)
  have k: "distinct (map s_id (st_services st))" using inv by (simp add: store_inv_defs)
  have "st1 = ?st\<lparr> st_services := st_services st @ new \<rparr>"
  proof -
    have "upsert_all s_id (st_services st) old = st_services st" using services(2) by (intro upsert_all_same k) auto
    moreover have "upsert_all s_id (st_services st) new = st_services st @ new"
      using new(2) by (intro upsert_all_fresh new(1)) (auto simp: used_service_ids_def)
    ultimately show ?thesis
      using insert_services_upsert [OF ins] by (simp add: services(1) upsert_all_append)
  qed
  moreover have "filter (\<lambda>i. i \<notin> s_id ` set (p_services app))
       (map s_id (filter (\<lambda>s. s_app_id s = p_id app) (st_services st @ new))) = []"
    using services by (auto simp: filter_empty_conv)
  ultimately show ?thesis by (simp add: st' remove_services_def)
qed

text \<open>Deleting a project that was only just saved leaves the database as before.\<close>

lemma delete_new_app:
  assumes inv: "store_inv st" and fresh: "p_id app \<notin> p_id ` set (st_apps st)"
    and new: "s_id ` set (p_services app) \<inter> used_service_ids st = {}" "\<forall>s \<in> set (p_services app). s_app_id s = p_id app"
    and st': "st' = st\<lparr> st_apps := st_apps st @ [app_row app], st_services := st_services st @ p_services app \<rparr>"
  shows "fst (delete_app st' (p_id app)) = st"
proof -
  let ?i = "p_id app"
  have refs: "s_app_id s \<noteq> ?i" if "s \<in> set (st_services st)" for s
    using inv_references(5) [OF inv that] fresh by metis
  have refs2: "d_app_id d \<noteq> ?i" if "d \<in> set (st_deployments st)" for d
    using inv_references(4) [OF inv that] fresh by metis
  have refs3: "sd_service_id sd \<notin> s_id ` set (p_services app)" if "sd \<in> set (st_service_deployments st)" for sd
    using inv_references(1) [OF inv that] new(1) unfolding used_service_ids_def by blast
  have id: "p_id (app_row app) = ?i" by (simp add: app_row_def)
  have row: "select_row p_id ?i (st_apps st') = Some (app_row app)"
    unfolding id [symmetric] st'
    by (rule select_row_distinct) (use inv fresh id in \<open>auto simp: store_inv_defs\<close>)
  have deps: "list_deployments_by_app st' ?i = []"
    using refs2 by (simp add: list_deployments_by_app_def st' filter_empty_conv)
  have logs: "foldl (\<lambda>st s. delete_http_request_logs st (s_id s)) st' ss = st'" if "set ss \<subseteq> set (p_services app)" for ss
    using that
  proof (induction ss)
    case (Cons s ss)
    have "delete_http_request_logs st' (s_id s) = st'"
      unfolding delete_http_request_logs_def
      by (rule store.equality) (use Cons.prems new(1) used_service_idsI(2) [where st = st] in \<open>auto simp: st' intro!: filter_absent\<close>)
    then show ?case using Cons by simp
  qed simp
  have services: "set (p_services (load_app st' (app_row app))) \<subseteq> set (p_services app)"
    using refs new(2) id by (auto simp: load_app_def list_services_by_app_def st')
  have "fst (delete_app st' ?i) = delete_apps_where (\<lambda>b. p_id b = ?i) st'"
    using logs [OF services] deps id by (simp add: delete_app_def get_app_def row load_app_def Let_def)
  also have "\<dots> = st"
  proof -
    have other: "p_id a \<noteq> ?i" if "a \<in> set (st_apps st)" for a
      using fresh imageI [OF that, of p_id] by auto
    have apps: "filter (\<lambda>a. p_id a \<noteq> ?i) (st_apps st) = st_apps st" "filter (\<lambda>a. p_id a = ?i) (st_apps st) = []"
      using other by (auto intro!: filter_absent simp: filter_empty_conv)
    have svc: "filter (\<lambda>s. s_app_id s \<noteq> ?i) (st_services st) = st_services st"
      "filter (\<lambda>s. s_app_id s = ?i) (st_services st) = []" "filter (\<lambda>s. s_app_id s \<noteq> ?i) (p_services app) = []"
      "filter (\<lambda>s. s_app_id s = ?i) (p_services app) = p_services app"
      using refs new(2) by (auto intro!: filter_absent simp: filter_empty_conv)
    have dep: "filter (\<lambda>d. d_app_id d \<noteq> ?i) (st_deployments st) = st_deployments st" "filter (\<lambda>d. d_app_id d = ?i) (st_deployments st) = []"
      using refs2 by (auto intro!: filter_absent simp: filter_empty_conv)
    have sds: "filter (\<lambda>sd. sd_service_id sd \<notin> s_id ` set (p_services app)) (st_service_deployments st) = st_service_deployments st"
      using refs3 by (intro filter_absent) auto
    have unlink: "map (unlink_rollback {}) ds = ds" for ds
      by (rule map_idI) (simp add: unlink_rollback_def split: option.splits)
    have sets: "{x \<in> set (st_deployments st). d_app_id x = ?i} = {}" "{x \<in> set (st_services st). s_app_id x = ?i} = {}"
      "{x \<in> set (p_services app). s_app_id x = ?i} = set (p_services app)"
      using refs refs2 new(2) by auto
    show ?thesis
      by (rule store.equality)
        (simp_all add: sets delete_apps_where_def delete_services_where_def delete_deployments_where_def Let_def st' id apps svc dep sds unlink)
  qed
  finally show ?thesis .
qed

text \<open>Saving the project as it was before services were added to it leaves the database as before.\<close>

lemma save_previous_app:
  assumes inv: "store_inv st" and previous: "get_app st i = Some previous"
    and app: "p_id app = i" and new: "distinct (map s_id new)" "s_id ` set new \<inter> used_service_ids st = {}" "\<forall>s \<in> set new. s_app_id s = i"
    and st': "st' = st\<lparr> st_apps := upsert p_id merge_app (app_row app) (st_apps st), st_services := st_services st @ new \<rparr>"
  shows "save_app st' previous = Inr st"
proof -
  obtain row where row: "row \<in> set (st_apps st)" "p_id row = i" "previous = load_app st row"
    using previous select_row_SomeD [of p_id i "st_apps st"] by (auto simp: get_app_def)
  have ok: "app_row row = row" "p_deploy_webhook_token row \<noteq> None"
    using inv row(1) by (auto simp: store_inv_defs list_all_iff)
  have owner: "p_owner_id row \<in> u_id ` set (st_users st)"
    using inv row(1) by (simp add: store_inv_defs refs_def image_subset_iff)
  have prev: "app_row previous = row" "p_id previous = i" "p_owner_id previous = p_owner_id row"
    "p_deploy_webhook_token previous = p_deploy_webhook_token row"
    "set (p_services previous) = {s \<in> set (st_services st). s_app_id s = i}"
    using ok(1) row(2) by (auto simp: row(3) load_app_def app_row_def list_services_by_app_def)
  have dist: "distinct (map p_id (st_apps st))" "distinct (map s_id (st_services st))" using inv by (simp_all add: store_inv_defs)
  have key: "p_id (app_row app) = i" using app by (simp add: app_row_def)
  have apps: "upsert p_id merge_app row (upsert p_id merge_app (app_row app) (st_apps st)) = st_apps st"
    by (rule upsert_back [OF dist(1) row(1)]) (simp_all add: key row(2) merge_app_def)
  let ?st1 = "st'\<lparr> st_apps := st_apps st \<rparr>"
  have st1: "?st1 = st\<lparr> st_services := st_services st @ new \<rparr>" by (simp add: st')
  have ins: "insert_services ?st1 ss = Inr ?st1" if "set ss \<subseteq> set (p_services previous)" for ss
    using that
  proof (induction ss)
    case (Cons s ss)
    have m: "s \<in> set (st_services st @ new)" "s_app_id s = i" using Cons.prems by (auto simp: prev(5))
    have "distinct (map s_id (st_services st @ new))"
      using dist(2) new(1,2) by (auto simp: used_service_ids_def)
    from upsert_same [OF this m(1)] show ?case
      using Cons m(2) imageI [OF row(1), of p_id] row(2) by (auto simp: insert_service_def st')
  qed simp
  have inv1: "store_inv ?st1"
    using inv new row(1,2) unfolding st1 by (auto simp: store_inv_defs refs_def used_service_ids_def)
  have gone: "set (filter (\<lambda>j. j \<notin> s_id ` set (p_services previous)) (map s_id (filter (\<lambda>s. s_app_id s = i) (st_services ?st1)))) = s_id ` set new"
    using new unfolding prev(5) st1 by (auto simp: used_service_ids_def)
  have "remove_services ?st1 (filter (\<lambda>j. j \<notin> s_id ` set (p_services previous)) (map s_id (filter (\<lambda>s. s_app_id s = i) (st_services ?st1)))) = st"
    unfolding remove_services_eq [OF inv1] gone
  proof (rule store.equality)
    have "filter (\<lambda>s. s_id s \<notin> s_id ` set new) (st_services st) = st_services st"
      using new(2) by (intro filter_absent) (auto simp: used_service_ids_def)
    moreover have "filter (\<lambda>s. s_id s \<notin> s_id ` set new) new = []" by (simp add: filter_empty_conv)
    moreover have "filter (\<lambda>sd. sd_service_id sd \<notin> s_id ` set new) (st_service_deployments st) = st_service_deployments st"
      using new(2) inv_references(1) [OF inv] by (intro filter_absent) (unfold used_service_ids_def, blast)
    moreover have "filter (\<lambda>(j, _). j \<notin> s_id ` set new) (st_http_logs st) = st_http_logs st"
      using new(2) used_service_idsI(2) [where st = st] by (intro filter_absent) blast
    ultimately show "st_services (?st1\<lparr> st_services := filter (\<lambda>s. s_id s \<notin> s_id ` set new) (st_services ?st1),
        st_service_deployments := filter (\<lambda>sd. sd_service_id sd \<notin> s_id ` set new) (st_service_deployments ?st1),
        st_http_logs := filter (\<lambda>(j, _). j \<notin> s_id ` set new) (st_http_logs ?st1) \<rparr>) = st_services st"
      and "st_service_deployments (?st1\<lparr> st_services := filter (\<lambda>s. s_id s \<notin> s_id ` set new) (st_services ?st1),
        st_service_deployments := filter (\<lambda>sd. sd_service_id sd \<notin> s_id ` set new) (st_service_deployments ?st1),
        st_http_logs := filter (\<lambda>(j, _). j \<notin> s_id ` set new) (st_http_logs ?st1) \<rparr>) = st_service_deployments st"
      and "st_http_logs (?st1\<lparr> st_services := filter (\<lambda>s. s_id s \<notin> s_id ` set new) (st_services ?st1),
        st_service_deployments := filter (\<lambda>sd. sd_service_id sd \<notin> s_id ` set new) (st_service_deployments ?st1),
        st_http_logs := filter (\<lambda>(j, _). j \<notin> s_id ` set new) (st_http_logs ?st1) \<rparr>) = st_http_logs st"
      by (simp_all add: st1)
  qed (simp_all add: st1)
  then show ?thesis
    using ok(2) owner ins [OF subset_refl] apps
    by (simp add: save_app_def prev st' Let_def)
qed

section \<open>What a run relies on\<close>

text \<open>Nothing but the handler writes to the database, and new ids are new.\<close>

definition svc_quiet :: "'x svc_env \<Rightarrow> bool" where
  "svc_quiet v \<longleftrightarrow>
     api_quiet (v_api v) \<and> dns_quiet v \<and> io_keeps (same world_view) (v_draws v) \<and> io_keeps (same world_view) (v_token v)"

definition fresh_services :: "'x svc_env \<Rightarrow> nat \<Rightarrow> bool" where
  "fresh_services v n \<longleftrightarrow>
     (\<forall>w d w'. v_draws v w = (Inr d, w') \<longrightarrow>
        distinct (map (dw_new_id d) [0..<n]) \<and> dw_new_id d ` {0..<n} \<inter> used_service_ids (w_store w) = {})"

definition new_ids :: "store \<Rightarrow> uuid set" where
  "new_ids st = p_id ` set (st_apps st) \<union> d_id ` set (st_deployments st)"

definition svc_laws :: "'x svc_env \<Rightarrow> nat \<Rightarrow> bool" where
  "svc_laws v n \<longleftrightarrow> svc_quiet v \<and> clock_apart (v_api v) \<and> fresh_uuids (v_api v) new_ids \<and> fresh_services v n"

lemma svc_lawsD:
  assumes "svc_laws v n"
  shows "svc_quiet v" "api_quiet (v_api v)" "dns_quiet v" "clock_apart (v_api v)"
    "fresh_uuids (v_api v) (\<lambda>st. d_id ` set (st_deployments st))" "fresh_services v n"
  using assms by (auto simp: svc_laws_def svc_quiet_def fresh_uuids_def new_ids_def)

text \<open>The tables of projects and services, which the queue of deployments leaves alone.\<close>

definition project_tables :: "store \<Rightarrow> project list \<times> container_service list" where
  "project_tables st = (st_apps st, st_services st)"

lemma keeps_weaken: "io_keeps R m \<Longrightarrow> (\<And>w w'. R w w' \<Longrightarrow> S w w') \<Longrightarrow> io_keeps S m"
  by (simp add: io_keeps_def)

lemma keeps_tables_view:
  assumes "io_keeps (same api_view) m"
  shows "io_keeps (same (project_tables \<circ> a_store)) m"
  using assms by (rule keeps_weaken) (simp add: same_def api_view_def world_view_def a_store_def)

lemma keeps_tables_write:
  assumes "\<And>st st'. f st = Inr st' \<Longrightarrow> project_tables st' = project_tables st"
  shows "io_keeps (same (project_tables \<circ> a_store)) (api_write f)"
  using assms by (auto simp: io_keeps_def same_def api_write_apply split: sum.splits)

lemma insert_service_deployments_tables:
  "insert_service_deployments st i sds = Inr st' \<Longrightarrow> project_tables st' = project_tables st"
  using insert_service_deployments_upsert [of st i sds st'] by (simp add: project_tables_def)

lemma deployment_writes_tables:
  "save_deployment st d = Inr st' \<Longrightarrow> project_tables st' = project_tables st"
  "save_service_deployment st sd = Inr st' \<Longrightarrow> project_tables st' = project_tables st"
  "append_deployment_log st i line = Inr st' \<Longrightarrow> project_tables st' = project_tables st"
  "project_tables (fst (delete_deployment st i)) = project_tables st"
  by (auto simp: save_deployment_def Let_def save_service_deployment_def upsert_service_deployment_def append_deployment_log_def
      delete_deployment_def delete_deployments_where_def project_tables_def split: if_splits
      dest!: insert_service_deployments_tables)

lemma keeps_tables_queue:
  assumes "api_quiet e"
  shows "io_keeps (same (project_tables \<circ> a_store))
    (queue_deployment e owner app sha msg branch strategy rb override cleanup local)"
proof -
  have send: "io_keeps (same (project_tables \<circ> a_store)) (send_job job)" for job
    by (simp add: io_keeps_def same_def send_job_def a_store_def put_store_def deployment_writes_tables)
  have now: "io_keeps (same (project_tables \<circ> a_store)) (api_now e)"
    by (simp add: api_now_def same.keeps_read)
  have uuid: "io_keeps (same (project_tables \<circ> a_store)) (api_uuid e)"
    by (rule keeps_tables_view) (rule keeps_uuid [OF assms])
  have src: "io_keeps (same (project_tables \<circ> a_store)) (resolve_app_deployment_source e owner app)"
    by (rule keeps_tables_view) (rule keeps_source_resolution(2) [OF assms])
  have read: "io_keeps (same (project_tables \<circ> a_store)) (api_read f)" for f
    by (rule keeps_tables_view) (rule keeps_api_read)
  have super: "io_keeps (same (project_tables \<circ> a_store)) (supersede_stale_deployments e i j)" for i j
    unfolding supersede_stale_deployments_def supersede_deployment_def save_with_replicas_def
    by (intro same.keeps_intros now read keeps_tables_write) (erule deployment_writes_tables)+
  show ?thesis
    unfolding queue_deployment_def Let_def
    by (intro same.keeps_intros now uuid src send super keeps_tables_write) (erule deployment_writes_tables)
qed

section \<open>The services of a new project\<close>

lemma new_service_ids:
  assumes "build_services env app_id [] requests is_admin = Inr services"
  shows "map s_id services = map (be_new_id env) [0..<length requests]" and "\<forall>s \<in> set services. s_app_id s = app_id"
    and "services \<noteq> []"
proof -
  have loop: "try_loop (build_service env app_id [] is_admin) [] requests = Inr services" and ne: "requests \<noteq> []"
    using assms by (simp_all add: build_services_def split: if_splits)
  have len: "length services = length requests" using try_loop_length [OF loop] by simp
  then show "services \<noteq> []" using ne by auto
  have step: "build_service env app_id [] is_admin (take n services) (requests ! n) = Inr (services ! n)" if "n < length requests" for n
    using try_loop_nthD [OF loop that] by simp
  have "s_id (services ! n) = be_new_id env n" if n: "n < length requests" for n
  proof -
    obtain t sch where "apply_service_request env (length (take n services)) app_id is_admin (requests ! n) (trim (sr_name (requests ! n))) t
        (requested_service_domains (requests ! n)) (requested_http_only_domains (requests ! n)) sch
        (service_before env app_id [] (length (take n services)) (requests ! n)) = Inr (services ! n)"
      by (rule build_service_InrE [OF step [OF n]])
    then have "s_id (services ! n) = s_id (service_before env app_id [] n (requests ! n))"
      using n len by (elim apply_service_request_InrE) simp
    then show ?thesis by (simp add: service_before_def collect_map_def container_service_new_def)
  qed
  then show "map s_id services = map (be_new_id env) [0..<length requests]"
    by (intro nth_equalityI) (simp_all add: len)
  show "\<forall>s \<in> set services. s_app_id s = app_id"
    by (rule try_loop_all [OF loop]) (rule built_service_wf, auto)
qed

lemma keeps_build_services_for:
  assumes "svc_quiet v"
  shows "io_keeps (same api_view) (build_services_for v user_id app_id existing requests)"
proof -
  have "io_keeps (same world_view) (v_draws v)" using assms by (simp add: svc_quiet_def)
  then show ?thesis
    unfolding build_services_for_def by (intro same.keeps_intros keeps_api_read keeps_in_world)
qed

lemma build_services_for_Inr:
  assumes "svc_laws v (length requests)" and run: "build_services_for v user_id app_id [] requests s = (Inr services, s')"
  shows "distinct (map s_id services)" and "s_id ` set services \<inter> used_service_ids (a_store s) = {}"
    and "\<forall>x \<in> set services. s_app_id x = app_id" and "services \<noteq> []"
proof -
  obtain d w' is_admin where d: "v_draws v (a_world s) = (Inr d, w')"
    and b: "build_services (svc_build_env v d) app_id [] requests is_admin = Inr services"
    using run by (cases "v_draws v (a_world s)")
      (auto simp: build_services_for_def io_bind_Inr api_read_def io_apply in_world_def io_map_err_def)
  have f: "distinct (map (dw_new_id d) [0..<length requests])"
    "dw_new_id d ` {0..<length requests} \<inter> used_service_ids (a_store s) = {}"
    using svc_lawsD(6) [OF assms(1)] d by (auto simp: fresh_services_def a_store_def)
  have ids: "map s_id services = map (dw_new_id d) [0..<length requests]"
    using new_service_ids(1) [OF b] by (simp add: svc_build_env_def)
  show "distinct (map s_id services)" using f(1) ids by simp
  have "s_id ` set services = dw_new_id d ` {0..<length requests}"
    using arg_cong [OF ids, of set] by simp
  then show "s_id ` set services \<inter> used_service_ids (a_store s) = {}" using f(2) by simp
  show "\<forall>x \<in> set services. s_app_id x = app_id" "services \<noteq> []" using new_service_ids(2,3) [OF b] by simp_all
qed

section \<open>A project and its job, or nothing\<close>

text \<open>Every host port and every domain with one service.\<close>

definition claims_exclusive :: "config \<Rightarrow> store \<Rightarrow> bool" where
  "claims_exclusive c st \<longleftrightarrow> ports_exclusive c st \<and> domains_exclusive st"

lemma claims_exclusive_cong: "st_services st' = st_services st \<Longrightarrow> claims_exclusive c st' = claims_exclusive c st"
  by (simp add: claims_exclusive_def ports_exclusive_def domains_exclusive_def)

definition claims_kept :: "'x svc_env \<Rightarrow> 'x api \<Rightarrow> 'x api \<Rightarrow> bool" where
  "claims_kept v s s' \<longleftrightarrow>
     (claims_exclusive (e_config (v_api v)) (a_store s) \<longrightarrow> claims_exclusive (e_config (v_api v)) (a_store s'))"

lemma checked_save_keeps_claims:
  assumes "dns_quiet v" and "validate_port_mappings (e_config (v_api v)) app (a_store s) = Inr ()"
    and "validate_app_service_domains v app s = (Inr domains, s1)" and "store_inv (a_store s)" and "save_app (a_store s) app = Inr st'"
    and "distinct (map s_id (p_services app))" "\<forall>s \<in> set (p_services app). s_app_id s = p_id app" and "st_services (a_store u) = st_services st'"
  shows "claims_kept v s u"
  using saved_ports_exclusive [OF assms(4) _ assms(2,5,6,7)] saved_domains_exclusive [OF assms(1,3,4) _ assms(5,6,7)] assms(8)
  by (simp add: claims_kept_def claims_exclusive_def ports_exclusive_def domains_exclusive_def)

text \<open>The outcome of creating the project \<open>app\<close>.\<close>

definition created :: "'x svc_env \<Rightarrow> project \<Rightarrow> bool \<Rightarrow> 'x api \<Rightarrow> 'x api \<Rightarrow> bool" where
  "created v app deploy s s' \<longleftrightarrow> claims_kept v s s' \<and>
     project_tables (a_store s') = (st_apps (a_store s) @ [app_row app], st_services (a_store s) @ p_services app) \<and>
     (if deploy then \<exists>job. a_jobs s' = a_jobs s @ [job] \<and> j_app_id job = p_id app else a_jobs s' = a_jobs s)"

lemma save_new_project_result:
  assumes laws: "svc_laws v n" and inv: "store_inv (a_store s)" and fresh: "p_id app \<notin> p_id ` set (st_apps (a_store s))"
    and services: "distinct (map s_id (p_services app))" "s_id ` set (p_services app) \<inter> used_service_ids (a_store s) = {}"
      "\<forall>x \<in> set (p_services app). s_app_id x = p_id app" "p_services app \<noteq> []"
    and run: "save_new_project v user_id app deploy s = (r, s')"
  shows "case r of Inl _ \<Rightarrow> a_store s' = a_store s \<and> a_jobs s' = a_jobs s
    | Inr i \<Rightarrow> i = s_id (hd (p_services app)) \<and> created v app deploy s s'"
proof -
  let ?st = "a_store s"
  let ?st1 = "?st\<lparr> st_apps := st_apps ?st @ [app_row app], st_services := st_services ?st @ p_services app \<rparr>"
  obtain r1 s1 where v1: "validate_app_service_domains v app s = (r1, s1)" by (cases "validate_app_service_domains v app s")
  have same1: "a_store s1 = ?st" "a_jobs s1 = a_jobs s"
    using same_view_store [of s s1] io_keepsD [OF keeps_validate_app_service_domains [OF svc_lawsD(3) [OF laws], of app], of s]
    by (simp_all add: v1)
  show ?thesis
  proof (cases "validate_port_mappings (e_config (v_api v)) app ?st")
    case (Inl err)
    then show ?thesis using run by (auto simp: save_new_project_def check_ports_def io_defs)
  next
    case ports: (Inr u)
    show ?thesis
    proof (cases r1)
      case (Inl err)
      then show ?thesis using run ports v1 same1 by (auto simp: save_new_project_def check_ports_def io_defs)
    next
      case domains: (Inr ds)
      show ?thesis
      proof (cases "save_app ?st app")
        case (Inl err)
        then show ?thesis using run ports v1 same1 domains
          by (auto simp: save_new_project_def check_ports_def io_defs api_write_apply)
      next
        case saved: (Inr st1)
        have old: "{x \<in> set (st_services ?st). s_app_id x = p_id app} = {}"
          using inv_references(5) [OF inv] fresh by (metis (mono_tags, lifting) Collect_empty_eq)
        have key: "p_id (app_row app) = p_id app" by (simp add: app_row_def)
        have st1: "st1 = ?st1"
          using save_app_adds [OF inv saved, of "[]" "p_services app"] services old fresh by (auto simp: upsert_def key)
        let ?s2 = "put_store ?st1 s1"
        have claims: "claims_kept v s u" if "st_services (a_store u) = st_services ?st1" for u
          by (rule checked_save_keeps_claims [OF svc_lawsD(3) [OF laws] _ _ inv saved services(1,3)])
            (use ports v1 domains that st1 in simp_all)
        define finish :: "('a, uuid) handler" where
          "finish = io_then (request_certificates (v_api v) (managed_certificate_domains app)) (first_service_id app)"
        have rest: "io_then (if deploy then deploy_new_project v user_id app else io_return ()) finish ?s2 = (r, s')"
          using run ports v1 domains saved unfolding st1 finish_def
          by (simp add: save_new_project_def check_ports_def io_defs api_write_apply same1)
        have tail: "finish t = (Inr (s_id (hd (p_services app))), if e_certificates (v_api v)
               then t\<lparr> a_cert_requests := a_cert_requests t @ managed_certificate_domains app \<rparr> else t)" for t
          using services(4) unfolding finish_def
          by (cases "p_services app") (simp_all add: request_certificates_def first_service_id_def io_defs)
        show ?thesis
        proof (cases deploy)
          case False
          then show ?thesis
            using rest same1 claims by (auto simp: io_defs tail created_def project_tables_def a_store_def put_store_def split: if_splits)
        next
          case True
          let ?q = "queue_deployment (v_api v) user_id app ''initial'' (Some ''initial deployment'') (p_branch app)
              (p_rollout_strategy app) None None False None"
          obtain rq s3 where q: "?q ?s2 = (rq, s3)" by (cases "?q ?s2")
          have inv1: "store_inv (a_store ?s2)"
            using inv_save_app [OF inv saved] by (simp add: st1)
          note res = queue_deployment_result [OF inv1 svc_lawsD(2,4,5) [OF laws] q]
          have tables: "project_tables (a_store s3) = project_tables ?st1"
            using io_keepsD [OF keeps_tables_queue [OF svc_lawsD(2) [OF laws], of user_id app "''initial''" "Some ''initial deployment''" "p_branch app"
                "p_rollout_strategy app" None None False None], of ?s2] q by (simp add: same_def)
          show ?thesis
          proof (cases rq)
            case (Inl err)
            have "fst (delete_app ?st1 (p_id app)) = ?st"
              by (rule delete_new_app [OF inv fresh services(2,3) refl])
            then show ?thesis
              using rest True res Inl q same1
              by (auto simp: io_defs deploy_new_project_def create_and_queue_deployment_def)
          next
            case (Inr d)
            then have "rq = Inr d" "\<exists>job. a_jobs s3 = a_jobs s @ [job] \<and> j_app_id job = p_id app"
              using res same1 by auto
            then show ?thesis
              using rest True q same1 tables claims
              by (auto simp: io_defs tail deploy_new_project_def create_and_queue_deployment_def created_def project_tables_def a_store_def)
          qed
        qed
      qed
    qed
  qed
qed

text \<open>
  A handler that leaves everything as it was in \<open>s\<close> unless it succeeds. Steps that only read are
  taken one after the other by \<open>outcome_bind\<close>.
\<close>

definition outcome :: "'x api \<Rightarrow> ('b \<Rightarrow> 'x api \<Rightarrow> bool) \<Rightarrow> (api_error + 'b) \<times> 'x api \<Rightarrow> bool" where
  "outcome s Q p \<longleftrightarrow>
     (case fst p of Inl _ \<Rightarrow> a_store (snd p) = a_store s \<and> a_jobs (snd p) = a_jobs s | Inr x \<Rightarrow> Q x (snd p))"

lemma same_api_view_trans: "same api_view s t \<Longrightarrow> same api_view t u \<Longrightarrow> same api_view s u"
  by (simp add: same_def)

lemma same_api_view_refl: "same api_view s s"
  by (simp add: same_def)

lemma outcome_bind:
  assumes keeps: "io_keeps (same api_view) m" and t: "same api_view s t"
    and "\<And>x u. m t = (Inr x, u) \<Longrightarrow> same api_view s u \<Longrightarrow> outcome s Q (f x u)"
  shows "outcome s Q (io_bind m f t)"
proof -
  obtain r u where m: "m t = (r, u)" by (cases "m t")
  have u: "same api_view s u" using io_keepsD [OF keeps, of t] t by (simp add: m same_def)
  show ?thesis
    using assms(3) u m same_view_store [OF u] by (cases r) (auto simp: io_bind_apply outcome_def)
qed

lemma outcome_then:
  "io_keeps (same api_view) m \<Longrightarrow> same api_view s t \<Longrightarrow> (\<And>x u. m t = (Inr x, u) \<Longrightarrow> same api_view s u \<Longrightarrow> outcome s Q (n u)) \<Longrightarrow>
     outcome s Q (io_then m n t)"
  unfolding io_then_def by (rule outcome_bind)

lemma outcome_fail: "same api_view s t \<Longrightarrow> outcome s Q (io_fail e t)"
  using same_view_store [of s t] by (simp add: outcome_def io_apply)

lemma outcome_if:
  "(b \<Longrightarrow> outcome s Q (m t)) \<Longrightarrow> (\<not> b \<Longrightarrow> outcome s Q (n t)) \<Longrightarrow> outcome s Q ((if b then m else n) t)"
  by simp

lemma outcome_option:
  "(x = None \<Longrightarrow> outcome s Q (m t)) \<Longrightarrow> (\<And>y. x = Some y \<Longrightarrow> outcome s Q (f y t)) \<Longrightarrow>
     outcome s Q ((case x of None \<Rightarrow> m | Some y \<Rightarrow> f y) t)"
  by (cases x) simp_all

lemmas outcome_intros = outcome_if outcome_option outcome_fail outcome_bind outcome_then same_api_view_refl

lemma keeps_lookup: "io_keeps (same api_view) (\<lambda>s. (f (a_store s), s))"
  by (simp add: io_keeps_def same_def)

lemma keeps_check_ports: "io_keeps (same api_view) (check_ports v app)"
  unfolding check_ports_def by (rule keeps_lookup)

lemma keeps_new_project:
  assumes "svc_quiet v"
  shows "io_keeps (same api_view) (new_project v name url user_id)"
proof -
  have "io_keeps (same world_view) (v_token v)" "api_quiet (v_api v)" using assms by (simp_all add: svc_quiet_def)
  then show ?thesis
    unfolding new_project_def api_now_def by (intro same.keeps_intros keeps_in_world keeps_uuid)
qed

lemma new_project_Inr:
  assumes laws: "svc_laws v n" and run: "new_project v name url user_id s = (Inr app, s')"
  shows "p_id app \<notin> p_id ` set (st_apps (a_store s))" and "p_owner_id app = user_id" and "p_services app = []"
    and "p_name app = name"
proof -
  obtain i s1 token now where i: "api_uuid (v_api v) s = (Inr i, s1)" and app: "app = project_new i now token name url user_id"
    using run by (auto simp: new_project_def io_bind_Inr io_apply)
  obtain w' where "h_new_uuid (e_host (v_api v)) (a_world s) = (Inr i, w')"
    using i by (cases "h_new_uuid (e_host (v_api v)) (a_world s)") (auto simp: api_uuid_def in_world_def io_map_err_def)
  then have "i \<notin> new_ids (a_store s)"
    using laws by (auto simp: svc_laws_def fresh_uuids_def a_store_def)
  then show "p_id app \<notin> p_id ` set (st_apps (a_store s))" by (simp add: app project_new_def new_ids_def)
  show "p_owner_id app = user_id" "p_services app = []" "p_name app = name" by (simp_all add: app project_new_def)
qed

lemma save_new_project_outcome:
  assumes laws: "svc_laws v n" and inv: "store_inv (a_store s)" and t: "same api_view s t"
    and fresh: "p_id app \<notin> p_id ` set (st_apps (a_store s))"
    and services: "distinct (map s_id (p_services app))" "s_id ` set (p_services app) \<inter> used_service_ids (a_store s) = {}"
      "\<forall>x \<in> set (p_services app). s_app_id x = p_id app" "p_services app \<noteq> []"
    and Q: "\<And>u. created v app deploy s u \<Longrightarrow> Q (s_id (hd (p_services app))) u"
  shows "outcome s Q (save_new_project v user_id app deploy t)"
proof -
  obtain r u where run: "save_new_project v user_id app deploy t = (r, u)" by (cases "save_new_project v user_id app deploy t")
  have same: "a_store t = a_store s" "a_jobs t = a_jobs s" using same_view_store [OF t] by simp_all
  note res = save_new_project_result [OF laws _ _ services(1) _ services(3,4) run, unfolded same, OF inv fresh services(2)]
  moreover have "created v app deploy t u \<longleftrightarrow> created v app deploy s u"
    by (simp add: created_def claims_kept_def same)
  ultimately show ?thesis
    unfolding outcome_def run using Q [of u] by (cases r) auto
qed

text \<open>
  The project that a request to create one describes: the caller's, with as many services as the request.
\<close>

definition project_for :: "uuid \<Rightarrow> string \<Rightarrow> nat \<Rightarrow> project \<Rightarrow> bool" where
  "project_for user_id name n app \<longleftrightarrow> p_owner_id app = user_id \<and> p_name app = name \<and> length (p_services app) = n"

lemma build_services_for_length:
  "build_services_for v user_id app_id existing requests s = (Inr services, s') \<Longrightarrow> length services = length requests"
  by (auto simp: build_services_for_def io_bind_Inr build_services_def split: if_splits dest: try_loop_length)

text \<open>The last part of both ways to create a project: the services are built, then everything is saved.\<close>

lemma built_project_outcome:
  assumes laws: "svc_laws v (length requests)" and inv: "store_inv (a_store s)"
    and new: "new_project v name url user_id s = (Inr app0, s1)"
    and t: "same api_view s t" and built: "build_services_for v user_id (p_id app0) [] requests t = (Inr services, u0)" and u: "same api_view s u"
    and app: "p_id app = p_id app0" "p_services app = services" "p_owner_id app = p_owner_id app0" "p_name app = p_name app0"
  shows "outcome s (\<lambda>i u. \<exists>app. project_for user_id name (length requests) app \<and> i = s_id (hd (p_services app)) \<and> created v app deploy s u)
    (save_new_project v user_id app deploy u)"
proof (rule save_new_project_outcome [OF laws inv u])
  note b = build_services_for_Inr [OF laws built]
  have store: "a_store t = a_store s" using same_view_store [OF t] by simp
  show "p_id app \<notin> p_id ` set (st_apps (a_store s))" using new_project_Inr(1) [OF laws new] app(1) by simp
  show "distinct (map s_id (p_services app))" "s_id ` set (p_services app) \<inter> used_service_ids (a_store s) = {}"
    "\<forall>x \<in> set (p_services app). s_app_id x = p_id app" "p_services app \<noteq> []"
    using b app(1,2) store by simp_all
  show "\<exists>app'. project_for user_id name (length requests) app' \<and> s_id (hd (p_services app)) = s_id (hd (p_services app')) \<and> created v app' deploy s w"
    if "created v app deploy s w" for w
    using that new_project_Inr(2,4) [OF laws new] app build_services_for_length [OF built] by (auto simp: project_for_def)
qed

lemma create_stack_outcome:
  assumes laws: "svc_laws v (length services)" and inv: "store_inv (a_store s)"
  shows "outcome s (\<lambda>i u. \<exists>app. project_for user_id (trim name) (length services) app \<and> i = s_id (hd (p_services app)) \<and> created v app True s u)
    (create_stack_service v user_id name env_vars services s)"
  unfolding create_stack_service_def Let_def
  by (intro outcome_intros keeps_new_project [OF svc_lawsD(1) [OF laws]] same.keeps_lift keeps_build_services_for [OF svc_lawsD(1) [OF laws]])
    (assumption | rule built_project_outcome [OF laws inv] | simp)+

lemma create_repository_outcome:
  assumes laws: "svc_laws v 1" and inv: "store_inv (a_store s)"
  shows "outcome s (\<lambda>i u. \<exists>app. project_for user_id name 1 app \<and> i = s_id (hd (p_services app)) \<and> created v app deploy s u)
    (create_repository_service v user_id name github_url branch env_vars service rollout_strategy deploy s)"
proof -
  have laws1: "svc_laws v (length [r])" for r :: service_request using laws by simp
  show ?thesis
    unfolding create_repository_service_def Let_def
    by (intro outcome_intros keeps_new_project [OF svc_lawsD(1) [OF laws]] same.keeps_lift keeps_build_services_for [OF svc_lawsD(1) [OF laws]])
      (assumption | rule built_project_outcome [OF laws1 inv, simplified] | simp)+
qed

section \<open>Added services, or the project as it was\<close>

definition added :: "'x svc_env \<Rightarrow> project \<Rightarrow> container_service list \<Rightarrow> bool \<Rightarrow> 'x api \<Rightarrow> 'x api \<Rightarrow> bool" where
  "added v app new deploy s s' \<longleftrightarrow> claims_kept v s s' \<and>
     project_tables (a_store s') =
       (upsert p_id merge_app (app_row app) (st_apps (a_store s)), st_services (a_store s) @ new) \<and>
     (if deploy then \<exists>job. a_jobs s' = a_jobs s @ [job] \<and> j_app_id job = p_id app else a_jobs s' = a_jobs s)"

lemma added_cong: "a_store t = a_store s \<Longrightarrow> a_jobs t = a_jobs s \<Longrightarrow> added v app new deploy t u = added v app new deploy s u"
  by (simp add: added_def claims_kept_def)

lemma add_repository_Inr:
  "add_repository addition app = Inr app' \<Longrightarrow> p_id app' = p_id app \<and> p_services app' = p_services app \<and> p_owner_id app' = p_owner_id app"
  by (auto simp: add_repository_def Let_def split: option.splits if_splits)

lemma add_env_vars_Inr:
  "add_env_vars addition app = Inr app' \<Longrightarrow> p_id app' = p_id app \<and> p_services app' = p_services app \<and> p_owner_id app' = p_owner_id app"
  by (auto simp: add_env_vars_def split: option.splits)

text \<open>From the write of the project on: the job is queued, or the previous project is written back.\<close>

lemma save_added_outcome:
  assumes laws: "svc_laws v n" and inv: "store_inv (a_store s)" and t: "same api_view s t"
    and previous: "get_app (a_store s) i = Some previous" and app: "p_id app = i" "p_services app = p_services previous @ new"
    and new: "distinct (map s_id new)" "s_id ` set new \<inter> used_service_ids (a_store s) = {}" "\<forall>x \<in> set new. s_app_id x = i"
    and claims: "\<And>u st'. save_app (a_store s) app = Inr st' \<Longrightarrow> st_services (a_store u) = st_services st' \<Longrightarrow> claims_kept v s u"
    and k: "\<And>u. added v app new deploy s u \<Longrightarrow> outcome s Q (k u)"
  shows "outcome s Q (io_then (api_write (\<lambda>st. save_app st app))
     (io_then (if deploy
               then io_match (create_and_queue_deployment (v_api v) user_id app sha msg branch strategy None None False)
                      (\<lambda>error. io_then (io_ignore (api_write (\<lambda>st. save_app st previous))) (io_fail error))
                      (\<lambda>_. io_return ())
               else io_return ()) k) t)"
proof (cases "save_app (a_store s) app")
  case (Inl err)
  then show ?thesis using same_view_store [OF t] by (simp add: outcome_def io_defs api_write_apply)
next
  case saved: (Inr st1)
  let ?st = "a_store s"
  have same: "a_store t = ?st" "a_jobs t = a_jobs s" using same_view_store [OF t] by simp_all
  obtain row where row: "row \<in> set (st_apps ?st)" "p_id row = i" "previous = load_app ?st row"
    using previous select_row_SomeD [of p_id i "st_apps ?st"] by (auto simp: get_app_def)
  then have old: "set (p_services previous) = {x \<in> set (st_services ?st). s_app_id x = p_id app}"
    using app(1) by (simp add: load_app_def list_services_by_app_def)
  have st1: "st1 = ?st\<lparr> st_apps := upsert p_id merge_app (app_row app) (st_apps ?st), st_services := st_services ?st @ new \<rparr>"
    by (rule save_app_adds [OF inv saved app(2) old new(1,2)]) (use new(3) app(1) in simp)
  let ?t1 = "put_store st1 t"
  show ?thesis
  proof (cases deploy)
    case False
    have "added v app new deploy s ?t1"
      using claims [OF saved, of ?t1] False same by (simp add: added_def st1 project_tables_def)
    then show ?thesis
      using k [of ?t1] False saved same by (simp add: io_defs api_write_apply)
  next
    case True
    let ?q = "queue_deployment (v_api v) user_id app sha msg branch strategy None None False None"
    obtain rq t2 where q: "?q ?t1 = (rq, t2)" by (cases "?q ?t1")
    have inv1: "store_inv (a_store ?t1)" using inv_save_app [OF inv saved] by simp
    note res = queue_deployment_result [OF inv1 svc_lawsD(2,4,5) [OF laws] q]
    have tables: "project_tables (a_store t2) = project_tables st1"
      using io_keepsD [OF keeps_tables_queue [OF svc_lawsD(2) [OF laws], of user_id app sha msg branch strategy None None False None], of ?t1] q
      by (simp add: same_def)
    show ?thesis
    proof (cases rq)
      case (Inl err)
      have "save_app st1 previous = Inr ?st" by (rule save_previous_app [OF inv previous app(1) new st1])
      then show ?thesis
        using res Inl q True saved same by (simp add: outcome_def io_defs api_write_apply create_and_queue_deployment_def)
    next
      case (Inr d)
      then have job: "\<exists>job. a_jobs t2 = a_jobs s @ [job] \<and> j_app_id job = p_id app"
        using res same by auto
      have "st_services (a_store t2) = st_services st1" using tables by (simp add: project_tables_def)
      then have "added v app new deploy s t2"
        using claims [OF saved] tables job True unfolding added_def by (simp add: st1 project_tables_def)
      then show ?thesis
        using k [of t2] Inr q True saved same by (simp add: io_defs api_write_apply create_and_queue_deployment_def)
    qed
  qed
qed

lemma keeps_first_service_id: "io_keeps (same api_view) (first_service_id app)"
  by (cases "p_services app") (simp_all add: first_service_id_def same.keeps_intros)

lemma finish_addition:
  "added v app new deploy s u \<Longrightarrow>
   added v app new deploy s (snd (io_then (request_certificates e domains) (io_then (refresh_proxy_routes e i) (io_return x)) u))"
  by (simp add: added_def claims_kept_def io_defs request_certificates_def refresh_proxy_routes_def a_store_def)

lemma finish_addition_result:
  "fst (io_then (request_certificates e domains) (io_then (refresh_proxy_routes e i) (io_return x)) u) = Inr x"
  by (simp add: io_defs request_certificates_def refresh_proxy_routes_def)

lemma finish_addition_outcome:
  assumes "added v app new deploy s u" and "\<And>w. added v app new deploy s w \<Longrightarrow> Q x w"
  shows "outcome s Q (io_then (request_certificates e domains) (io_then (refresh_proxy_routes e i) (io_return x)) u)"
  using assms(2) [OF finish_addition [OF assms(1)]] unfolding outcome_def finish_addition_result by simp

text \<open>The checks look at the id and the services of the project.\<close>

lemma validate_cong:
  assumes "p_id a = p_id b" and "p_services a = p_services b"
  shows "validate_port_mappings c a st = validate_port_mappings c b st"
    and "validate_app_service_domains v a = validate_app_service_domains v b"
proof -
  show "validate_port_mappings c a st = validate_port_mappings c b st"
    unfolding validate_port_mappings_def assms ..
  have "domain_taken st a d = domain_taken st b d" for st d
    unfolding domain_taken_def assms ..
  then have taken: "domain_taken st a = domain_taken st b" for st by blast
  show "validate_app_service_domains v a = validate_app_service_domains v b"
    unfolding validate_app_service_domains_def assms taken ..
qed

text \<open>What adding services to a project of the caller amounts to.\<close>

definition addition_of :: "'x svc_env \<Rightarrow> uuid \<Rightarrow> project_addition \<Rightarrow> 'x api \<Rightarrow> uuid \<Rightarrow> 'x api \<Rightarrow> bool" where
  "addition_of v user_id addition s i u \<longleftrightarrow>
     (\<exists>previous app new. get_app (a_store s) (p_id app) = Some previous \<and> p_owner_id previous = user_id \<and>
        p_services app = p_services previous @ new \<and> length new = length (pa_services addition) \<and> i = s_id (hd new) \<and>
        (\<forall>x \<in> set new. s_app_id x = p_id app) \<and> added v app new (pa_deploy addition) s u)"

lemma checked_addition_outcome:
  assumes laws: "svc_laws v (length (pa_services addition))" and inv: "store_inv (a_store s)"
    and previous: "get_app (a_store s) app_id = Some previous" "p_owner_id previous = user_id"
    and app: "p_id app = app_id" "p_services app = p_services previous"
    and t: "same api_view s t" and built: "build_services_for v user_id app_id [] (pa_services addition) t = (Inr new, u0)" and u: "same api_view s u"
  shows "outcome s (addition_of v user_id addition s)
    (io_then (check_ports v (app\<lparr> p_services := p_services app @ new \<rparr>))
     (io_bind (validate_app_service_domains v (app\<lparr> p_services := p_services app @ new \<rparr>)) (\<lambda>_.
      io_bind (api_now (v_api v)) (\<lambda>now.
      let app = app\<lparr> p_services := p_services app @ new, p_updated_at := now \<rparr> in
      io_then (api_write (\<lambda>st. save_app st app))
     (io_then (if pa_deploy addition
               then io_match (create_and_queue_deployment (v_api v) user_id app ''manual''
                        (Some ''deployment after adding services'') (p_branch app) (p_rollout_strategy app) None None False)
                      (\<lambda>error. io_then (io_ignore (api_write (\<lambda>st. save_app st previous))) (io_fail error))
                      (\<lambda>_. io_return ())
               else io_return ())
     (io_then (request_certificates (v_api v) (managed_certificate_domains app))
     (io_then (refresh_proxy_routes (v_api v) (p_id app)) (io_return (s_id (hd new))))))))) u)"
proof -
  let ?app = "app\<lparr> p_services := p_services app @ new \<rparr>"
  have store: "a_store t = a_store s" "a_store u = a_store s" using same_view_store [OF t] same_view_store [OF u] by simp_all
  note b = build_services_for_Inr [OF laws built, unfolded store(1)]
  have old: "distinct (map s_id (p_services previous))" "\<forall>x \<in> set (p_services previous). s_app_id x = app_id \<and> s_id x \<in> used_service_ids (a_store s)"
  proof -
    obtain row where "p_id row = app_id" "previous = load_app (a_store s) row"
      using previous(1) select_row_SomeD [of p_id app_id "st_apps (a_store s)"] by (auto simp: get_app_def)
    then have p: "p_services previous = list_services_by_app (a_store s) app_id" by (simp add: load_app_def)
    show "distinct (map s_id (p_services previous))"
      unfolding p list_services_by_app_def using inv by (simp add: distinct_map_sort_key distinct_map_filter store_inv_defs)
    show "\<forall>x \<in> set (p_services previous). s_app_id x = app_id \<and> s_id x \<in> used_service_ids (a_store s)"
      unfolding p by (auto simp: list_services_by_app_def used_service_idsI)
  qed
  have all: "distinct (map s_id (p_services ?app))" "\<forall>x \<in> set (p_services ?app). s_app_id x = p_id ?app"
    using old b(1-3) app by auto
  show ?thesis
    unfolding Let_def
  proof (rule outcome_then [OF keeps_check_ports u], rule outcome_bind [OF keeps_validate_app_service_domains [OF svc_lawsD(3) [OF laws]]],
      assumption, rule outcome_bind)
    fix x u1 ds u2
    assume ports: "check_ports v ?app u = (Inr x, u1)" and "same api_view s u1"
      and domains: "validate_app_service_domains v ?app u1 = (Inr ds, u2)" and u2: "same api_view s u2"
    have u1: "u1 = u" and valid: "validate_port_mappings (e_config (v_api v)) ?app (a_store s) = Inr ()"
      using ports store by (auto simp: check_ports_def)
    show "io_keeps (same api_view) (api_now (v_api v))" by (simp add: api_now_def same.keeps_read)
    show "same api_view s u2" by (rule u2)
    fix now u3
    assume u3: "same api_view s u3"
    let ?new_app = "app\<lparr> p_services := p_services app @ new, p_updated_at := now \<rparr>"
    have claims: "claims_kept v s w" if "save_app (a_store s) ?new_app = Inr st'" "st_services (a_store w) = st_services st'" for w st'
    proof -
      have p: "validate_port_mappings c ?new_app st = validate_port_mappings c ?app st" for c st
        by (rule validate_cong) simp_all
      have d: "validate_app_service_domains v ?new_app = validate_app_service_domains v ?app"
        by (rule validate_cong) simp_all
      have "claims_kept v u w"
        by (rule checked_save_keeps_claims [OF svc_lawsD(3) [OF laws], of ?new_app u ds u2 st'])
          (use valid domains inv that all store u1 in \<open>simp_all add: p d\<close>)
      then show ?thesis by (simp add: claims_kept_def store)
    qed
    show "outcome s (addition_of v user_id addition s)
      (io_then (api_write (\<lambda>st. save_app st ?new_app))
       (io_then (if pa_deploy addition
                 then io_match (create_and_queue_deployment (v_api v) user_id ?new_app ''manual''
                          (Some ''deployment after adding services'') (p_branch ?new_app) (p_rollout_strategy ?new_app) None None False)
                        (\<lambda>error. io_then (io_ignore (api_write (\<lambda>st. save_app st previous))) (io_fail error))
                        (\<lambda>_. io_return ())
                 else io_return ())
       (io_then (request_certificates (v_api v) (managed_certificate_domains ?new_app))
       (io_then (refresh_proxy_routes (v_api v) (p_id ?new_app)) (io_return (s_id (hd new)))))) u3)"
    proof (rule save_added_outcome [OF laws inv u3 previous(1) _ _ b(1,2,3) claims], goal_cases)
      case 1
      then show ?case using app by simp
    next
      case 2
      then show ?case using app by simp
    next
      case (5 w)
      then show ?case
      proof (rule finish_addition_outcome, goal_cases)
        case (1 w')
        then show ?case
          unfolding addition_of_def using previous app b(3) build_services_for_length [OF built]
          by - (rule exI [of _ previous], rule exI [of _ ?new_app], rule exI [of _ new], simp)
      qed
    qed simp_all
  qed
qed

lemma add_services_outcome:
  assumes laws: "svc_laws v (length (pa_services addition))" and inv: "store_inv (a_store s)"
  shows "outcome s (addition_of v user_id addition s) (add_services_to_project v user_id group_id addition s)"
  unfolding add_services_to_project_def
proof (rule outcome_bind [OF keeps_lookup same_api_view_refl], goal_cases)
  case (1 group s1)
  note r = 1(1) and s1 = 1(2)
  show ?case
  proof (rule outcome_bind [OF same.keeps_lift s1], goal_cases)
    case (1 app_id s2)
    note g = 1(1) and s2 = 1(2)
    show ?case
    proof (rule outcome_bind [OF keeps_api_read s2], goal_cases)
      case (1 found s3)
      note f = 1(1) and s3 = 1(2)
      show ?case
      proof (rule outcome_bind [OF same.keeps_lift s3], goal_cases)
        case (1 previous s4)
        note p = 1(1) and s4 = 1(2)
        have previous: "get_app (a_store s) app_id = Some previous"
          using f g p same_view_store [OF s2] by (auto simp: api_read_def io_apply ok_or_eq_Inr)
        have owner: "p_owner_id previous = user_id"
          using r g previous by (auto simp: resolve_group_id_def io_apply ok_or_eq_Inr split: option.splits if_splits)
        have pid: "p_id previous = app_id"
          using previous select_row_SomeD [of p_id app_id "st_apps (a_store s)"] by (auto simp: get_app_def load_app_def)
        show ?case
        proof (rule outcome_if, rule outcome_fail [OF s4], rule outcome_bind [OF same.keeps_lift s4], rule outcome_bind [OF same.keeps_lift],
            assumption, goal_cases)
          case (1 _ s5 app s6)
          note a = 1(4) and s6 = 1(5)
          have app: "p_id app = app_id" "p_services app = p_services previous"
            using a pid by (auto simp: io_apply dest!: add_repository_Inr add_env_vars_Inr)
          show ?case
          proof (rule outcome_bind [OF keeps_build_services_for [OF svc_lawsD(1) [OF laws]] s6], goal_cases)
            case (1 new s7)
            note built = 1(1) and s7 = 1(2)
            show ?case
            proof (rule outcome_bind [OF keeps_first_service_id s7], goal_cases)
              case (1 first_id s8)
              then have first: "first_id = s_id (hd new)" and s8: "same api_view s s8"
                by (cases new; simp add: first_service_id_def io_apply)+
              show ?case
                unfolding Let_def first
                by (intro outcome_if outcome_fail [OF s8]
                    checked_addition_outcome [OF laws inv previous owner app s6 built [unfolded app(1)] s8, unfolded Let_def])
            qed
          qed
        qed
      qed
    qed
  qed
qed

text \<open>
  C15. A new project is created completely or not at all: when a stack or a repository is created, an error
  leaves the database and the queue as they were, also when the deployment cannot be queued after the
  project was saved; otherwise one project of the caller with the requested number of services was
  added, the answer is its first service, and one job for it was queued if a deployment was asked for.
\<close>

theorem project_created_or_nothing:
  assumes "store_reachable (a_store s)" and "svc_laws v (length services)" and "svc_laws v 1"
  shows "(case create_stack_service v user_id name env_vars services s of
      (Inl _, s') \<Rightarrow> a_store s' = a_store s \<and> a_jobs s' = a_jobs s
    | (Inr i, s') \<Rightarrow> \<exists>app. project_for user_id (trim name) (length services) app \<and> i = s_id (hd (p_services app)) \<and> created v app True s s') \<and>
   (case create_repository_service v user_id name github_url branch env_vars service rollout_strategy deploy s of
      (Inl _, s') \<Rightarrow> a_store s' = a_store s \<and> a_jobs s' = a_jobs s
    | (Inr i, s') \<Rightarrow> \<exists>app. project_for user_id name 1 app \<and> i = s_id (hd (p_services app)) \<and> created v app deploy s s')"
  using create_stack_outcome [OF assms(2) store_reachable_inv [OF assms(1)], of user_id name env_vars]
    create_repository_outcome [OF assms(3) store_reachable_inv [OF assms(1)], of user_id name deploy github_url branch env_vars service
      rollout_strategy]
  by (simp add: outcome_def case_prod_beta split: sum.splits)

text \<open>
  C16. Adding services to a project changes nothing else: an error leaves the database and the queue as they were,
  also when the deployment cannot be queued after the project was saved, and otherwise the project
  belonged to the caller, has the services it had, unchanged, and the new ones, and no other
  service changed.
\<close>

theorem services_added_or_project_restored:
  assumes "store_reachable (a_store s)" and "svc_laws v (length (pa_services addition))"
    and "add_services_to_project v user_id group_id addition s = (r, s')"
  shows "case r of
      Inl _ \<Rightarrow> a_store s' = a_store s \<and> a_jobs s' = a_jobs s
    | Inr i \<Rightarrow> \<exists>app_id previous new. get_app (a_store s) app_id = Some previous \<and> p_owner_id previous = user_id \<and>
        length new = length (pa_services addition) \<and> i = s_id (hd new) \<and> (\<forall>x \<in> set new. s_app_id x = app_id) \<and>
        st_services (a_store s') = st_services (a_store s) @ new \<and>
        (if pa_deploy addition then \<exists>job. a_jobs s' = a_jobs s @ [job] \<and> j_app_id job = app_id else a_jobs s' = a_jobs s)"
proof -
  have o: "outcome s (addition_of v user_id addition s) (r, s')"
    using add_services_outcome [OF assms(2) store_reachable_inv [OF assms(1)], of user_id group_id] assms(3) by simp
  show ?thesis
  proof (cases r)
    case (Inl err)
    then show ?thesis using o by (simp add: outcome_def)
  next
    case (Inr i)
    then obtain previous app new where "get_app (a_store s) (p_id app) = Some previous" "p_owner_id previous = user_id"
        "length new = length (pa_services addition)" "i = s_id (hd new)" "\<forall>x \<in> set new. s_app_id x = p_id app"
        "added v app new (pa_deploy addition) s s'"
      using o by (auto simp: outcome_def addition_of_def)
    then show ?thesis
      unfolding Inr sum.case added_def project_tables_def by - (rule exI [of _ "p_id app"], rule exI [of _ previous], rule exI [of _ new], simp)
  qed
qed

text \<open>
  C14. A host port and a domain belong to one service: if no two services share a host port with a protocol or a
  custom domain, and no service maps a port of the proxy or the API, then this holds again after a stack or a
  repository was created and after services were added to a project, whatever was asked for.
\<close>

theorem creation_keeps_claims_exclusive:
  assumes "store_reachable (a_store s)" and "claims_exclusive (e_config (v_api v)) (a_store s)"
    and "svc_laws v (length services)" and "svc_laws v 1" and "svc_laws v (length (pa_services addition))"
  shows "claims_exclusive (e_config (v_api v)) (a_store (snd (create_stack_service v user_id name env_vars services s))) \<and>
    claims_exclusive (e_config (v_api v))
      (a_store (snd (create_repository_service v user_id name github_url branch env_vars service rollout_strategy deploy s))) \<and>
    claims_exclusive (e_config (v_api v)) (a_store (snd (add_services_to_project v user_id group_id addition s)))"
proof (intro conjI)
  note inv = store_reachable_inv [OF assms(1)]
  show "claims_exclusive (e_config (v_api v)) (a_store (snd (create_stack_service v user_id name env_vars services s)))"
    using create_stack_outcome [OF assms(3) inv, of user_id name env_vars] assms(2)
    by (auto simp: outcome_def created_def claims_kept_def split: sum.splits)
  show "claims_exclusive (e_config (v_api v))
      (a_store (snd (create_repository_service v user_id name github_url branch env_vars service rollout_strategy deploy s)))"
    using create_repository_outcome [OF assms(4) inv, of user_id name deploy github_url branch env_vars service rollout_strategy] assms(2)
    by (auto simp: outcome_def created_def claims_kept_def split: sum.splits)
  show "claims_exclusive (e_config (v_api v)) (a_store (snd (add_services_to_project v user_id group_id addition s)))"
    using add_services_outcome [OF assms(5) inv, of user_id group_id] assms(2)
    by (auto simp: outcome_def addition_of_def added_def claims_kept_def split: sum.splits)
qed

section \<open>Witnesses\<close>

definition demo_draws :: draws where
  "demo_draws = \<lparr> dw_nonce = \<lambda>_. [], dw_hash_password = \<lambda>_ p. Inr p, dw_new_id = \<lambda>_. 90, dw_now = \<lambda>_. 0 \<rparr>"

definition demo_svc :: "(string list \<times> int) svc_env" where
  "demo_svc =
     \<lparr> v_api = Deployment_Queue.demo_env, v_lookup_ip = \<lambda>_. io_return [''192.0.2.1''], v_lookup_cname = \<lambda>_. io_return [],
       v_parse_ip = Some, v_cron = \<lambda>_. None,
       v_draws = \<lambda>w. (if 90 \<in> used_service_ids (w_store w) then Inl ''no id'' else Inr demo_draws, w),
       v_token = io_return ''token'' \<rparr>"

definition demo_addition :: project_addition where
  "demo_addition =
     \<lparr> pa_github_url = None, pa_branch = None, pa_env_vars = None,
       pa_services = [(service_request_from_model demo_web)\<lparr> sr_name := ''api'' \<rparr>], pa_require_images = True, pa_deploy = True \<rparr>"

lemma demo_svc_laws: "svc_laws demo_svc 1"
proof -
  have "fresh_uuids Deployment_Queue.demo_env new_ids"
    using demo_env_laws(3) by (auto simp: fresh_uuids_def new_ids_def used_ids_def)
  then show ?thesis
    using demo_env_laws(1,2)
    by (auto simp: svc_laws_def svc_quiet_def dns_quiet_def fresh_services_def demo_svc_def demo_draws_def io_keeps_def same_def io_apply
        split: if_splits)
qed

theorem project_created_or_nothing_witness:
  "case create_stack_service demo_svc 7 ''stack'' None (pa_services demo_addition) (demo_api demo_store) of
     (Inl _, s') \<Rightarrow> a_store s' = demo_store \<and> a_jobs s' = []
   | (Inr i, s') \<Rightarrow> \<exists>app. project_for 7 (trim ''stack'') 1 app \<and> i = s_id (hd (p_services app)) \<and>
       created demo_svc app True (demo_api demo_store) s'"
proof -
  have n: "length (pa_services demo_addition) = 1" by (simp add: demo_addition_def)
  have r: "store_reachable (a_store (demo_api demo_store))" using demo_store_reachable(3) by simp
  note c = project_created_or_nothing [of "demo_api demo_store" demo_svc "pa_services demo_addition", unfolded n, OF r demo_svc_laws demo_svc_laws]
  show ?thesis
    using c [THEN conjunct1, of 7 "''stack''" None] by (simp only: demo_api_simps)
qed

theorem services_added_or_project_restored_witness:
  "case fst (add_services_to_project demo_svc 7 ''1'' demo_addition (demo_api demo_store)) of
     Inl _ \<Rightarrow> a_store (snd (add_services_to_project demo_svc 7 ''1'' demo_addition (demo_api demo_store))) = demo_store
   | Inr i \<Rightarrow> \<exists>x. i = s_id x \<and>
       st_services (a_store (snd (add_services_to_project demo_svc 7 ''1'' demo_addition (demo_api demo_store)))) = [demo_web, x]"
proof -
  have laws: "svc_laws demo_svc (length (pa_services demo_addition))" using demo_svc_laws by (simp add: demo_addition_def)
  have web: "st_services demo_store = [demo_web]"
    by (simp add: demo_store_def demo_store1_def demo_store0_def empty_store_def)
  have "length (pa_services demo_addition) = 1" by (simp add: demo_addition_def)
  then show ?thesis
    using services_added_or_project_restored [OF _ laws surjective_pairing, of "demo_api demo_store" 7 "''1''"] demo_store_reachable(3) web
    by (fastforce simp: length_Suc_conv split: sum.splits)
qed

theorem creation_keeps_claims_exclusive_witness:
  "claims_exclusive demo_config (a_store (snd (create_stack_service demo_svc 7 ''stack'' None (pa_services demo_addition) (demo_api demo_store))))"
proof -
  have "claims_exclusive demo_config demo_store"
    by (simp add: claims_exclusive_def ports_exclusive_def domains_exclusive_def apart_def ports_ok_def demo_store_def demo_store1_def
        demo_store0_def empty_store_def demo_web_def container_service_new_def)
  moreover have "e_config (v_api demo_svc) = demo_config" by (simp add: demo_svc_def Deployment_Queue.demo_env_def)
  moreover have "length (pa_services demo_addition) = 1" by (simp add: demo_addition_def)
  ultimately show ?thesis
    using creation_keeps_claims_exclusive [of "demo_api demo_store" demo_svc "pa_services demo_addition" demo_addition 7 "''stack''" None]
      demo_store_reachable(3) demo_svc_laws
    by simp
qed

end
