(* ===== verification/Sessions.thy ===== *)
theory Sessions
  imports Api_State Access_Gate "HOL-Library.AList"
begin

text \<open>
  Accounts and sessions: \<open>containr-api/src/auth.rs\<close> (passwords and tokens), \<open>handlers/auth.rs\<close> (registration,
  login, GitHub sign-in and linking) and the single-use OAuth states of \<open>state.rs\<close>.

  Argon2, the signature of a token, base64, the \<open>url\<close> crate, GitHub, random bytes and the monotonic clock are
  parameters. The payload of a token is a JSON object; the claims of the three kinds of token are
  written to it and read from it as \<open>serde\<close> derives: a field that is missing or of another type is an error, others
  are ignored. A handler answers an error or panics (\<open>failure\<close>), which closes the connection.
\<close>

section \<open>JSON web tokens\<close>

datatype json_value = JString string | JNumber int

type_synonym json_object = "(string \<times> json_value) list"

definition str_field :: "string \<Rightarrow> json_object \<Rightarrow> string option" where
  "str_field k ob = (case map_of ob k of Some (JString s) \<Rightarrow> Some s | _ \<Rightarrow> None)"

definition int_field :: "string \<Rightarrow> json_object \<Rightarrow> int option" where
  "int_field k ob = (case map_of ob k of Some (JNumber n) \<Rightarrow> Some n | _ \<Rightarrow> None)"

text \<open>
  The crate: \<open>jw_encode\<close> signs a payload with a secret, \<open>jw_verify\<close> checks the signature of a
  token and gives its payload. The other fields are the texts of its errors and the textual form of a UUID.
\<close>

record jwt_crate =
  jw_encode :: "string \<Rightarrow> json_object \<Rightarrow> string + string"
  jw_verify :: "string \<Rightarrow> string \<Rightarrow> string + json_object"
  jw_malformed :: string
  jw_expired :: string
  jw_show_uuid :: "uuid \<Rightarrow> string"
  jw_parse_uuid :: "string \<Rightarrow> uuid option"

definition uuid_field :: "jwt_crate \<Rightarrow> string \<Rightarrow> json_object \<Rightarrow> uuid option" where
  "uuid_field j k ob = Option.bind (str_field k ob) (jw_parse_uuid j)"

text \<open>\<open>Validation\<close>: a token is rejected once its expiry lies more than the leeway in the past.\<close>

definition token_live :: "int \<Rightarrow> int \<Rightarrow> json_object \<Rightarrow> bool" where
  "token_live leeway now ob = (case int_field ''exp'' ob of Some e \<Rightarrow> 0 \<le> e \<and> now - leeway \<le> e | None \<Rightarrow> False)"

definition jwt_decode_as :: "jwt_crate \<Rightarrow> (json_object \<Rightarrow> 'c option) \<Rightarrow> string \<Rightarrow> int \<Rightarrow> int \<Rightarrow> string \<Rightarrow> string + 'c" where
  "jwt_decode_as j parse secret leeway now token =
     and_then (jw_verify j secret token) (\<lambda>ob.
     and_then (ok_or (parse ob) (jw_malformed j)) (\<lambda>claims.
       if token_live leeway now ob then Inr claims else Inl (jw_expired j)))"

text \<open>The leeway of \<open>Validation::default()\<close>.\<close>

definition DEFAULT_LEEWAY :: int where
  "DEFAULT_LEEWAY = 60"

record session_claims =
  sc_sub :: uuid
  sc_email :: string
  sc_exp :: int
  sc_iat :: int

definition session_to_json :: "jwt_crate \<Rightarrow> session_claims \<Rightarrow> json_object" where
  "session_to_json j c =
     [(''sub'', JString (jw_show_uuid j (sc_sub c))), (''email'', JString (sc_email c)),
      (''exp'', JNumber (sc_exp c)), (''iat'', JNumber (sc_iat c))]"

definition session_from_json :: "jwt_crate \<Rightarrow> json_object \<Rightarrow> session_claims option" where
  "session_from_json j ob =
     Option.bind (uuid_field j ''sub'' ob) (\<lambda>sub.
     Option.bind (str_field ''email'' ob) (\<lambda>email.
     Option.bind (int_field ''exp'' ob) (\<lambda>e.
     Option.bind (int_field ''iat'' ob) (\<lambda>iat.
       Some \<lparr> sc_sub = sub, sc_email = email, sc_exp = e, sc_iat = iat \<rparr>))))"

record exec_token_claims =
  xc_sub :: uuid
  xc_container_id :: string
  xc_kind :: string
  xc_exp :: int
  xc_iat :: int

definition exec_to_json :: "jwt_crate \<Rightarrow> exec_token_claims \<Rightarrow> json_object" where
  "exec_to_json j c =
     [(''sub'', JString (jw_show_uuid j (xc_sub c))), (''container_id'', JString (xc_container_id c)),
      (''kind'', JString (xc_kind c)), (''exp'', JNumber (xc_exp c)), (''iat'', JNumber (xc_iat c))]"

definition exec_from_json :: "jwt_crate \<Rightarrow> json_object \<Rightarrow> exec_token_claims option" where
  "exec_from_json j ob =
     Option.bind (uuid_field j ''sub'' ob) (\<lambda>sub.
     Option.bind (str_field ''container_id'' ob) (\<lambda>container_id.
     Option.bind (str_field ''kind'' ob) (\<lambda>kind.
     Option.bind (int_field ''exp'' ob) (\<lambda>e.
     Option.bind (int_field ''iat'' ob) (\<lambda>iat.
       Some \<lparr> xc_sub = sub, xc_container_id = container_id, xc_kind = kind, xc_exp = e, xc_iat = iat \<rparr>)))))"

text \<open>The claims of the login gate (\<open>access_gate.rs\<close>) use the same crate and the same secret.\<close>

definition gate_to_json :: "jwt_crate \<Rightarrow> gate_claims \<Rightarrow> json_object" where
  "gate_to_json j c =
     [(''sub'', JString (jw_show_uuid j (gc_sub c))), (''host'', JString (gc_host c)), (''kind'', JString (gc_kind c)),
      (''iat'', JNumber (gc_iat c)), (''exp'', JNumber (gc_exp c))]"

definition gate_from_json :: "jwt_crate \<Rightarrow> json_object \<Rightarrow> gate_claims option" where
  "gate_from_json j ob =
     Option.bind (uuid_field j ''sub'' ob) (\<lambda>sub.
     Option.bind (str_field ''host'' ob) (\<lambda>host.
     Option.bind (str_field ''kind'' ob) (\<lambda>kind.
     Option.bind (int_field ''iat'' ob) (\<lambda>iat.
     Option.bind (int_field ''exp'' ob) (\<lambda>e.
       Some \<lparr> gc_sub = sub, gc_host = host, gc_kind = kind, gc_iat = iat, gc_exp = e \<rparr>)))))"

definition result_ok :: "'e + 'a \<Rightarrow> 'a option" where
  "result_ok r = (case r of Inl _ \<Rightarrow> None | Inr x \<Rightarrow> Some x)"

definition gate_jwt :: "jwt_crate \<Rightarrow> jwt_api" where
  "gate_jwt j =
     \<lparr> jwt_encode = (\<lambda>secret claims. result_ok (jw_encode j secret (gate_to_json j claims))),
       jwt_decode = (\<lambda>secret leeway now token. result_ok (jwt_decode_as j (gate_from_json j) secret leeway now token)) \<rparr>"

section \<open>Tokens of users\<close>

text \<open>
  \<open>DateTime + Duration\<close> panics beyond the years \<open>chrono\<close> knows. \<open>Duration::hours\<close> and \<open>Duration::days\<close> panic
  only for amounts that lead out of this range as well.
\<close>

definition CHRONO_MAX_SECS :: int where
  "CHRONO_MAX_SECS = 8210266876799"

definition CHRONO_MIN_SECS :: int where
  "CHRONO_MIN_SECS = - 8334601228800"

definition plus_secs :: "timestamp \<Rightarrow> int \<Rightarrow> timestamp option" where
  "plus_secs now n =
     (if CHRONO_MIN_SECS \<le> timestamp_secs now + n \<and> timestamp_secs now + n \<le> CHRONO_MAX_SECS then Some (now + seconds n) else None)"

definition create_claims_token :: "jwt_crate \<Rightarrow> uuid \<Rightarrow> string \<Rightarrow> string \<Rightarrow> int \<Rightarrow> int \<Rightarrow> string + string" where
  "create_claims_token j user_id email secret issued_at expires_at =
     map_sum (\<lambda>e. ''internal error: failed to create token: '' @ e) id
       (jw_encode j secret (session_to_json j \<lparr> sc_sub = user_id, sc_email = email, sc_exp = expires_at, sc_iat = issued_at \<rparr>))"

text \<open>\<open>None\<close> is a panic. The \<open>u64\<close> of the configuration is cast to \<open>i64\<close>.\<close>

definition create_token :: "jwt_crate \<Rightarrow> timestamp \<Rightarrow> uuid \<Rightarrow> string \<Rightarrow> string \<Rightarrow> u64 \<Rightarrow> (string + string) option" where
  "create_token j now user_id email secret expiry_hours =
     map_option (\<lambda>e. create_claims_token j user_id email secret (timestamp_secs now) (timestamp_secs e))
       (plus_secs now (sint expiry_hours * 3600))"

definition create_api_key :: "jwt_crate \<Rightarrow> timestamp \<Rightarrow> uuid \<Rightarrow> string \<Rightarrow> string \<Rightarrow> u64 \<Rightarrow> (string + string) option" where
  "create_api_key j now user_id email secret expiry_days =
     map_option (\<lambda>e. create_claims_token j user_id email secret (timestamp_secs now) (timestamp_secs e))
       (plus_secs now (sint expiry_days * 86400))"

definition EXEC_KIND :: string where
  "EXEC_KIND = ''container_exec''"

definition create_exec_token ::
  "jwt_crate \<Rightarrow> timestamp \<Rightarrow> uuid \<Rightarrow> string \<Rightarrow> string \<Rightarrow> i64 \<Rightarrow> (string + string \<times> int) option" where
  "create_exec_token j now user_id container_id secret expiry_seconds =
     map_option (\<lambda>e.
       and_then (map_sum (\<lambda>err. ''internal error: failed to create exec token: '' @ err) id
           (jw_encode j secret (exec_to_json j \<lparr> xc_sub = user_id, xc_container_id = container_id, xc_kind = EXEC_KIND,
              xc_exp = timestamp_secs e, xc_iat = timestamp_secs now \<rparr>)))
         (\<lambda>token. Inr (token, timestamp_secs e)))
       (plus_secs now (sint expiry_seconds))"

definition validate_token :: "jwt_crate \<Rightarrow> timestamp \<Rightarrow> string \<Rightarrow> string \<Rightarrow> string + session_claims" where
  "validate_token j now token secret =
     map_sum (\<lambda>e. ''unauthorized: invalid token: '' @ e) id
       (jwt_decode_as j (session_from_json j) secret DEFAULT_LEEWAY (timestamp_secs now) token)"

definition validate_exec_token :: "jwt_crate \<Rightarrow> timestamp \<Rightarrow> string \<Rightarrow> string \<Rightarrow> string \<Rightarrow> string + exec_token_claims" where
  "validate_exec_token j now token container_id secret =
     and_then (map_sum (\<lambda>e. ''unauthorized: invalid exec token: '' @ e) id
         (jwt_decode_as j (exec_from_json j) secret DEFAULT_LEEWAY (timestamp_secs now) token)) (\<lambda>claims.
       if xc_kind claims \<noteq> EXEC_KIND then Inl ''unauthorized: invalid exec token kind''
       else if xc_container_id claims \<noteq> container_id then Inl ''unauthorized: exec token does not match container''
       else Inr claims)"

definition extract_bearer_token :: "string \<Rightarrow> string option" where
  "extract_bearer_token auth_header = strip_prefix ''Bearer '' auth_header"

section \<open>The state of the sign-in handlers\<close>

datatype oauth_purpose = PurposeLogin | PurposeLink uuid

text \<open>An \<open>Instant\<close> is in nanoseconds; its seconds are an \<open>i64\<close>.\<close>

record oauth_state =
  os_expires_at :: i64
  os_created_at :: int
  os_purpose :: oauth_purpose

record 'x auth =
  au_api :: "'x api"
  au_oauth :: "(string \<times> oauth_state) list"

datatype failure = Answer api_error | Panicked

type_synonym ('x, 'a) auth_handler = "('x auth, failure, 'a) eio"

record oauth_token_response =
  ot_access_token :: string
  ot_token_type :: string
  ot_scope :: string

record github_user =
  gu_id :: i64
  gu_login :: string
  gu_email :: "string option"

text \<open>
  The settings \<open>auth\<close> and \<open>github\<close> and the parameters: hashing a password draws a salt, \<open>g_verify\<close> gives \<open>Ok(())\<close>
  or the error \<open>PasswordInvalid\<close> as a truth value.
\<close>

record 'x auth_env =
  g_api :: "'x api_env"
  g_jwt_secret :: string
  g_jwt_expiry_hours :: u64
  g_client_id :: string
  g_client_secret :: string
  g_jwt :: jwt_crate
  g_hash :: "string \<Rightarrow> ('x world, string) io"
  g_verify :: "string \<Rightarrow> string \<Rightarrow> string + bool"
  g_instant :: "'x world \<Rightarrow> int"
  g_random :: "nat \<Rightarrow> 'x world \<Rightarrow> bytes \<times> 'x world"
  g_base64 :: "bytes \<Rightarrow> string"
  g_authorize_url :: "string \<Rightarrow> string \<Rightarrow> string \<Rightarrow> string"
  g_post_form :: "string \<Rightarrow> (string \<times> string) list \<Rightarrow> ('x world, http_reply) io"
  g_parse_token :: "string \<Rightarrow> string + oauth_token_response"
  g_parse_user :: "string \<Rightarrow> string + github_user"

definition auth_store :: "'x auth \<Rightarrow> store" where
  "auth_store s = a_store (au_api s)"

definition in_api :: "('x, 'a) handler \<Rightarrow> ('x, 'a) auth_handler" where
  "in_api m s = (map_sum Answer id (fst (m (au_api s))), s\<lparr> au_api := snd (m (au_api s)) \<rparr>)"

definition answer :: "api_error \<Rightarrow> ('x, 'a) auth_handler" where
  "answer e = io_fail (Answer e)"

definition auth_read :: "(store \<Rightarrow> 'a) \<Rightarrow> ('x, 'a) auth_handler" where
  "auth_read f = in_api (api_read f)"

definition auth_write :: "(store \<Rightarrow> db_error + store) \<Rightarrow> ('x, unit) auth_handler" where
  "auth_write f = in_api (api_write f)"

definition auth_now :: "'x auth_env \<Rightarrow> ('x, timestamp) auth_handler" where
  "auth_now g = in_api (api_now (g_api g))"

definition auth_random :: "'x auth_env \<Rightarrow> nat \<Rightarrow> ('x, bytes) auth_handler" where
  "auth_random g n = in_api (in_world (\<lambda>w. case g_random g n w of (bs, w') \<Rightarrow> (Inr bs, w')))"

definition insert_oauth_state :: "string \<Rightarrow> i64 \<Rightarrow> int \<Rightarrow> oauth_purpose \<Rightarrow> 'x auth \<Rightarrow> 'x auth" where
  "insert_oauth_state state expires_at created_at purpose s =
     s\<lparr> au_oauth := AList.update state \<lparr> os_expires_at = expires_at, os_created_at = created_at, os_purpose = purpose \<rparr> (au_oauth s) \<rparr>"

definition take_oauth_state :: "string \<Rightarrow> 'x auth \<Rightarrow> (i64 \<times> oauth_purpose) option \<times> 'x auth" where
  "take_oauth_state state s =
     (map_option (\<lambda>v. (os_expires_at v, os_purpose v)) (map_of (au_oauth s) state), s\<lparr> au_oauth := AList.delete state (au_oauth s) \<rparr>)"

text \<open>\<open>Instant + Duration\<close>, which panics if the seconds do not fit in an \<open>i64\<close>.\<close>

definition instant_plus :: "int \<Rightarrow> u64 \<Rightarrow> int option" where
  "instant_plus t secs = (if t div 1000000000 + uint secs < 2 ^ 63 then Some (t + seconds (uint secs)) else None)"

text \<open>The deadline that the cleanup gives a state: the remaining seconds, cast to \<open>u64\<close>, after its creation.\<close>

definition cleanup_deadline :: "i64 \<Rightarrow> oauth_state \<Rightarrow> int option" where
  "cleanup_deadline now v = instant_plus (os_created_at v) (os_expires_at v - now)"

definition cleanup_expired_oauth_states ::
  "int \<Rightarrow> i64 \<Rightarrow> (string \<times> oauth_state) list \<Rightarrow> (string \<times> oauth_state) list option" where
  "cleanup_expired_oauth_states now_instant now states =
     (if list_ex (\<lambda>(_, v). cleanup_deadline now v = None) states then None
      else Some (filter (\<lambda>(_, v). \<not> is_some_and (cleanup_deadline now v) (\<lambda>d. d < now_instant)) states))"

section \<open>Who is calling\<close>

record user_response =
  ur_id :: uuid
  ur_email :: string
  ur_github_username :: "string option"
  ur_is_admin :: bool
  ur_has_password :: bool

record auth_response =
  ar_token :: string
  ar_user :: user_response
  ar_linked :: bool

record registration_status_response =
  rs_registration_open :: bool
  rs_user_count :: nat
  rs_github_enabled :: bool

definition user_response :: "user \<Rightarrow> user_response" where
  "user_response user =
     \<lparr> ur_id = u_id user, ur_email = u_email user, ur_github_username = u_github_username user, ur_is_admin = u_is_admin user,
       ur_has_password = (u_password_hash user \<noteq> None) \<rparr>"

text \<open>The \<open>authorization\<close> header is its text if it is present and readable.\<close>

definition get_user_id :: "jwt_crate \<Rightarrow> timestamp \<Rightarrow> string option \<Rightarrow> string \<Rightarrow> api_error + uuid" where
  "get_user_id j now auth_header jwt_secret =
     and_then (ok_or auth_header (unauthorized ''missing authorization header'')) (\<lambda>auth_header.
     and_then (ok_or (extract_bearer_token auth_header) (unauthorized ''invalid authorization header'')) (\<lambda>token.
     and_then (map_sum unauthorized id (validate_token j now token jwt_secret)) (\<lambda>claims.
       Inr (sc_sub claims))))"

definition require_authenticated_user :: "'x auth_env \<Rightarrow> string option \<Rightarrow> ('x, user) auth_handler" where
  "require_authenticated_user g auth_header =
     io_bind (auth_now g) (\<lambda>now.
     io_bind (in_api (io_lift (get_user_id (g_jwt g) now auth_header (g_jwt_secret g)))) (\<lambda>user_id.
     io_bind (auth_read (\<lambda>st. get_user st user_id)) (\<lambda>found.
       in_api (io_lift (ok_or found (unauthorized ''user not found''))))))"

definition require_admin_user :: "'x auth_env \<Rightarrow> string option \<Rightarrow> ('x, user) auth_handler" where
  "require_admin_user g auth_header =
     io_bind (require_authenticated_user g auth_header) (\<lambda>user.
       if \<not> u_is_admin user then answer (forbidden ''admin access required'') else io_return user)"

text \<open>A new session token for a user.\<close>

definition session_token :: "'x auth_env \<Rightarrow> user \<Rightarrow> ('x, string) auth_handler" where
  "session_token g user =
     io_bind (auth_now g) (\<lambda>now.
       case create_token (g_jwt g) now (u_id user) (u_email user) (g_jwt_secret g) (g_jwt_expiry_hours g) of
         None \<Rightarrow> io_fail Panicked
       | Some r \<Rightarrow> in_api (io_lift (map_sum internal_error id r)))"

definition auth_answer :: "'x auth_env \<Rightarrow> user \<Rightarrow> bool \<Rightarrow> ('x, auth_response) auth_handler" where
  "auth_answer g user linked =
     io_bind (session_token g user) (\<lambda>token.
       io_return \<lparr> ar_token = token, ar_user = user_response user, ar_linked = linked \<rparr>)"

section \<open>Accounts with a password\<close>

definition github_oauth_configured :: "'x auth_env \<Rightarrow> bool" where
  "github_oauth_configured g \<longleftrightarrow> trim (g_client_id g) \<noteq> [] \<and> trim (g_client_secret g) \<noteq> []"

definition status :: "'x auth_env \<Rightarrow> ('x, registration_status_response) auth_handler" where
  "status g =
     io_bind (auth_read (\<lambda>st. length (list_users st))) (\<lambda>user_count.
       io_return \<lparr> rs_registration_open = (user_count = 0), rs_user_count = user_count,
         rs_github_enabled = github_oauth_configured g \<rparr>)"

definition hash_password :: "'x auth_env \<Rightarrow> string \<Rightarrow> ('x, string) auth_handler" where
  "hash_password g password = in_api (in_world (io_map_err internal_error (g_hash g password)))"

definition verify_password :: "'x auth_env \<Rightarrow> string \<Rightarrow> string \<Rightarrow> ('x, bool) auth_handler" where
  "verify_password g password hash = in_api (io_lift (map_sum internal_error id (g_verify g password hash)))"

text \<open>What \<open>register\<close> and \<open>create_user\<close> share: the email is new, the password long enough.\<close>

definition new_password_user :: "'x auth_env \<Rightarrow> string \<Rightarrow> string \<Rightarrow> bool \<Rightarrow> ('x, user) auth_handler" where
  "new_password_user g email password is_admin =
     io_bind (auth_read (\<lambda>st. get_user_by_email st email)) (\<lambda>existing.
       if existing \<noteq> None then answer (conflict ''email already registered'')
       else if str_len password < 8 then answer (bad_request ''password must be at least 8 characters'')
       else
         io_bind (hash_password g password) (\<lambda>password_hash.
         io_bind (in_api (api_uuid (g_api g))) (\<lambda>i.
         io_bind (auth_now g) (\<lambda>now.
         let user = (user_new_with_password i now email password_hash)\<lparr> u_is_admin := is_admin \<rparr> in
         io_then (auth_write (\<lambda>st. save_user st user)) (io_return user)))))"

definition register :: "'x auth_env \<Rightarrow> string \<Rightarrow> string \<Rightarrow> ('x, auth_response) auth_handler" where
  "register g email password =
     io_bind (auth_read (\<lambda>st. length (list_users st))) (\<lambda>user_count.
       if 0 < user_count then answer (forbidden ''public registration is closed; ask the admin to create your account'')
       else io_bind (new_password_user g email password True) (\<lambda>user. auth_answer g user False))"

definition me :: "'x auth_env \<Rightarrow> string option \<Rightarrow> ('x, user_response) auth_handler" where
  "me g auth_header = io_bind (require_authenticated_user g auth_header) (\<lambda>user. io_return (user_response user))"

definition list_users_handler :: "'x auth_env \<Rightarrow> string option \<Rightarrow> ('x, user_response list) auth_handler" where
  "list_users_handler g auth_header =
     io_then (require_admin_user g auth_header) (auth_read (\<lambda>st. map user_response (list_users st)))"

definition create_user :: "'x auth_env \<Rightarrow> string option \<Rightarrow> string \<Rightarrow> string \<Rightarrow> ('x, user_response) auth_handler" where
  "create_user g auth_header email password =
     io_then (require_admin_user g auth_header)
       (io_bind (new_password_user g email password False) (\<lambda>user. io_return (user_response user)))"

definition change_password :: "'x auth_env \<Rightarrow> string option \<Rightarrow> string option \<Rightarrow> string \<Rightarrow> ('x, unit) auth_handler" where
  "change_password g auth_header current_password new_password =
     io_bind (require_authenticated_user g auth_header) (\<lambda>user.
       if str_len new_password < 8 then answer (bad_request ''password must be at least 8 characters'')
       else
         io_bind (case u_password_hash user of
                    None \<Rightarrow> io_return True
                  | Some password_hash \<Rightarrow> verify_password g (unwrap_or current_password []) password_hash) (\<lambda>valid.
         if \<not> valid then answer (bad_request ''current password is incorrect'')
         else
           io_bind (hash_password g new_password) (\<lambda>password_hash.
           io_bind (auth_now g) (\<lambda>now.
             auth_write (\<lambda>st. save_user st (user\<lparr> u_password_hash := Some password_hash, u_updated_at := now \<rparr>))))))"

definition login :: "'x auth_env \<Rightarrow> string \<Rightarrow> string \<Rightarrow> ('x, auth_response) auth_handler" where
  "login g email password =
     io_bind (auth_read (\<lambda>st. get_user_by_email st email)) (\<lambda>found.
     io_bind (in_api (io_lift (ok_or found (unauthorized ''invalid credentials'')))) (\<lambda>user.
     io_bind (in_api (io_lift (ok_or (u_password_hash user) (unauthorized ''this account uses github login'')))) (\<lambda>password_hash.
     io_bind (verify_password g password password_hash) (\<lambda>valid.
       if \<not> valid then answer (unauthorized ''invalid credentials'') else auth_answer g user False))))"

section \<open>GitHub accounts\<close>

definition get_user_by_github_id :: "store \<Rightarrow> i64 \<Rightarrow> user option" where
  "get_user_by_github_id st github_id = select_row u_github_id (Some github_id) (st_users st)"

definition link_github :: "user \<Rightarrow> user option \<Rightarrow> i64 \<Rightarrow> string \<Rightarrow> string \<Rightarrow> api_error + user" where
  "link_github user current_owner github_id github_login encrypted_token =
     (if is_some_and current_owner (\<lambda>owner. u_id owner \<noteq> u_id user)
      then Inl (conflict ''this GitHub account is already linked to another containr account'')
      else Inr (user\<lparr> u_github_id := Some github_id, u_github_username := Some github_login,
                      u_github_access_token := Some encrypted_token \<rparr>))"

definition unlink_github :: "user \<Rightarrow> api_error + user" where
  "unlink_github user =
     (if u_github_id user = None \<and> u_github_access_token user = None then Inl (bad_request ''no GitHub account is linked'')
      else if u_password_hash user = None
      then Inl (conflict (''set a password before unlinking GitHub, or you won'' @ [CHR 0x27] @ ''t be able to sign in''))
      else Inr (user\<lparr> u_github_id := None, u_github_username := None, u_github_access_token := None \<rparr>))"

definition generate_oauth_state :: "'x auth_env \<Rightarrow> ('x, string) auth_handler" where
  "generate_oauth_state g = io_bind (auth_random g 32) (\<lambda>bytes. io_return (g_base64 g bytes))"

definition unix_now :: "timestamp \<Rightarrow> i64" where
  "unix_now now = word_of_int (timestamp_secs now)"

definition github_authorize_url :: "'x auth_env \<Rightarrow> oauth_purpose \<Rightarrow> ('x, string) auth_handler" where
  "github_authorize_url g purpose =
     io_bind (generate_oauth_state g) (\<lambda>state_value.
     io_bind (auth_now g) (\<lambda>now.
     io_bind (io_read (\<lambda>s. (g_instant g (a_world (au_api s)), au_oauth s))) (\<lambda>(instant, states).
       case cleanup_expired_oauth_states instant (unix_now now) states of
         None \<Rightarrow> io_fail Panicked
       | Some states \<Rightarrow>
           io_then (io_modify (\<lambda>s. insert_oauth_state state_value (unix_now now + 600) instant purpose (s\<lparr> au_oauth := states \<rparr>)))
             (io_return (g_authorize_url g (g_client_id g) state_value ''repo'')))))"

text \<open>The redirect's target.\<close>

definition github_start :: "'x auth_env \<Rightarrow> ('x, string) auth_handler" where
  "github_start g =
     (if \<not> github_oauth_configured g then io_return ''/login'' else github_authorize_url g PurposeLogin)"

definition github_link_start :: "'x auth_env \<Rightarrow> string option \<Rightarrow> ('x, string) auth_handler" where
  "github_link_start g auth_header =
     io_bind (require_authenticated_user g auth_header) (\<lambda>user.
       if \<not> github_oauth_configured g
       then answer (bad_request (''github isn'' @ [CHR 0x27] @
              ''t configured on this server: set [github] client_id and client_secret in containr.toml''))
       else github_authorize_url g (PurposeLink (u_id user)))"

definition github_unlink :: "'x auth_env \<Rightarrow> string option \<Rightarrow> ('x, user_response) auth_handler" where
  "github_unlink g auth_header =
     io_bind (require_authenticated_user g auth_header) (\<lambda>user.
     io_bind (in_api (io_lift (unlink_github user))) (\<lambda>user.
     io_bind (auth_now g) (\<lambda>now.
     let user = user\<lparr> u_updated_at := now \<rparr> in
     io_then (auth_write (\<lambda>st. save_user st user)) (io_return (user_response user)))))"

definition exchange_code_for_token :: "'x auth_env \<Rightarrow> string \<Rightarrow> ('x world, oauth_token_response) io" where
  "exchange_code_for_token g code =
     io_map_err (\<lambda>e. ''github error: '' @ e)
       (io_bind (io_map_err (\<lambda>e. ''failed to exchange code: '' @ e)
           (g_post_form g ''https://github.com/login/oauth/access_token''
              [(''client_id'', g_client_id g), (''client_secret'', g_client_secret g), (''code'', code)])) (\<lambda>reply.
         if \<not> http_success reply then io_fail (''github oauth failed: '' @ hr_status_text reply)
         else io_lift (map_sum (\<lambda>e. ''failed to parse token response: '' @ e) id (g_parse_token g (hr_body reply)))))"

definition get_github_user :: "'x auth_env \<Rightarrow> string \<Rightarrow> ('x world, github_user) io" where
  "get_github_user g access_token =
     io_map_err (\<lambda>e. ''github error: '' @ e)
       (io_bind (io_map_err (\<lambda>e. ''failed to get user: '' @ e)
           (gh_get (e_github (g_api g)) ''https://api.github.com/user'' access_token)) (\<lambda>reply.
         if \<not> http_success reply then io_fail (''github api failed: '' @ hr_status_text reply)
         else io_lift (map_sum (\<lambda>e. ''failed to parse user: '' @ e) id (g_parse_user g (hr_body reply)))))"

text \<open>The user the account of GitHub signs in as, or is linked to (\<open>linking_user\<close>).\<close>

definition github_account ::
  "'x auth_env \<Rightarrow> user option \<Rightarrow> github_user \<Rightarrow> string \<Rightarrow> ('x, user) auth_handler" where
  "github_account g linking_user github_user token_to_store =
     io_bind (auth_read (\<lambda>st. get_user_by_github_id st (gu_id github_user))) (\<lambda>current_owner.
       case linking_user of
         Some user \<Rightarrow>
           io_bind (in_api (io_lift (link_github user current_owner (gu_id github_user) (gu_login github_user) token_to_store))) (\<lambda>user.
           io_bind (auth_now g) (\<lambda>now.
           let user = user\<lparr> u_updated_at := now \<rparr> in
           io_then (auth_write (\<lambda>st. save_user st user)) (io_return user)))
       | None \<Rightarrow>
           (case current_owner of
              Some user \<Rightarrow>
                io_bind (auth_read has_admin_user) (\<lambda>has_admin.
                let user = user\<lparr> u_is_admin := (u_is_admin user \<or> \<not> has_admin),
                      u_github_access_token := Some token_to_store, u_github_username := Some (gu_login github_user) \<rparr> in
                io_then (auth_write (\<lambda>st. save_user st user)) (io_return user))
            | None \<Rightarrow>
                io_bind (auth_read (\<lambda>st. length (list_users st))) (\<lambda>existing_users.
                  if 0 < existing_users
                  then answer (forbidden ''github signups are closed; ask the admin to provision your account'')
                  else
                    io_bind (in_api (api_uuid (g_api g))) (\<lambda>i.
                    io_bind (auth_now g) (\<lambda>now.
                    let email = unwrap_or (gu_email github_user) (gu_login github_user @ ''@github.local'');
                        user = (user_new_with_github i now email (gu_id github_user) (gu_login github_user))\<lparr>
                          u_is_admin := True, u_github_access_token := Some token_to_store \<rparr> in
                    io_then (auth_write (\<lambda>st. save_user st user)) (io_return user))))))"

text \<open>A link must finish in the session that started it.\<close>

definition linking_user :: "'x auth_env \<Rightarrow> string option \<Rightarrow> oauth_purpose \<Rightarrow> ('x, user option) auth_handler" where
  "linking_user g auth_header purpose =
     (case purpose of
        PurposeLogin \<Rightarrow> io_return None
      | PurposeLink user_id \<Rightarrow>
          io_bind (require_authenticated_user g auth_header) (\<lambda>user.
            if u_id user \<noteq> user_id then answer (forbidden ''this GitHub link was started by another account'')
            else io_return (Some user)))"

text \<open>The callback once its state was found valid.\<close>

definition finish_callback :: "'x auth_env \<Rightarrow> string option \<Rightarrow> string \<Rightarrow> oauth_purpose \<Rightarrow> ('x, auth_response) auth_handler" where
  "finish_callback g auth_header code purpose =
     io_bind (linking_user g auth_header purpose) (\<lambda>linking.
     io_bind (in_api (in_world (io_map_err bad_request (exchange_code_for_token g code)))) (\<lambda>token_response.
     io_bind (in_api (in_world (io_map_err bad_request (get_github_user g (ot_access_token token_response))))) (\<lambda>github_user.
     io_bind (auth_random g 12) (\<lambda>nonce.
     io_bind (in_api (io_lift (map_sum (\<lambda>e. (500, ''token encryption failed: '' @ e)) id
         (encrypt_value (h_crypto (e_host (g_api g))) nonce (env_secret (g_api g)) (ot_access_token token_response))))) (\<lambda>token_to_store.
     io_bind (github_account g linking github_user token_to_store) (\<lambda>user.
       auth_answer g user (linking \<noteq> None)))))))"

definition github_callback :: "'x auth_env \<Rightarrow> string option \<Rightarrow> string \<Rightarrow> string \<Rightarrow> ('x, auth_response) auth_handler" where
  "github_callback g auth_header code state =
     io_bind (auth_now g) (\<lambda>now.
     io_bind (\<lambda>s. case take_oauth_state state s of (taken, s') \<Rightarrow> (Inr taken, s')) (\<lambda>taken.
       case taken of
         Some (expires_at, purpose) \<Rightarrow>
           if word_sle (unix_now now) expires_at then finish_callback g auth_header code purpose
           else answer (bad_request ''invalid oauth state'')
       | None \<Rightarrow> answer (bad_request ''invalid oauth state'')))"

end
