(* ===== verification/Session_Safety.thy ===== *)
theory Session_Safety
  imports Sessions Deployment_Queue
begin

text \<open>
  What the tokens and the sign-in handlers of \<open>Sessions\<close> promise: a token is good for its purpose, its user and its
  time only, an OAuth state works once, and who can create accounts. Also the arithmetic of the cleanup of
  expired OAuth states, which panics on an expired one.
\<close>

section \<open>Tokens\<close>

text \<open>What the code relies on of the crates: a signed payload verifies under its secret, and a UUID is read as it is written.\<close>

definition crate_laws :: "jwt_crate \<Rightarrow> bool" where
  "crate_laws j \<longleftrightarrow>
     (\<forall>secret ob token. jw_encode j secret ob = Inr token \<longrightarrow> jw_verify j secret token = Inr ob) \<and>
     (\<forall>u. jw_parse_uuid j (jw_show_uuid j u) = Some u)"

text \<open>A token does not verify under another secret.\<close>

definition secrets_apart :: "jwt_crate \<Rightarrow> bool" where
  "secrets_apart j \<longleftrightarrow>
     (\<forall>secret secret' ob token. jw_encode j secret ob = Inr token \<longrightarrow> secret' \<noteq> secret \<longrightarrow> isl (jw_verify j secret' token))"

lemma decode_encoded:
  assumes "crate_laws j" and "jw_encode j secret ob = Inr token"
  shows "jwt_decode_as j parse secret leeway now token =
    (case parse ob of None \<Rightarrow> Inl (jw_malformed j) | Some c \<Rightarrow> if token_live leeway now ob then Inr c else Inl (jw_expired j))"
  using assms by (auto simp: jwt_decode_as_def crate_laws_def split: option.splits)

lemma decode_other_secret:
  assumes "secrets_apart j" and "jw_encode j secret ob = Inr token" and "secret' \<noteq> secret"
  shows "isl (jwt_decode_as j parse secret' leeway now token)"
proof -
  have "isl (jw_verify j secret' token)" using assms unfolding secrets_apart_def by blast
  then show ?thesis by (auto simp: jwt_decode_as_def isl_def)
qed

lemmas field_defs = str_field_def int_field_def uuid_field_def token_live_def

text \<open>Each kind of claims reads back what was written, and none of the other two kinds.\<close>

lemma session_json:
  assumes "crate_laws j"
  shows "session_from_json j (session_to_json j c) = Some c" "exec_from_json j (session_to_json j c) = None"
    "gate_from_json j (session_to_json j c) = None" "token_live l now (session_to_json j c) \<longleftrightarrow> 0 \<le> sc_exp c \<and> now - l \<le> sc_exp c"
  using assms
  by (simp_all add: crate_laws_def session_to_json_def session_from_json_def exec_from_json_def gate_from_json_def field_defs)

lemma exec_json:
  assumes "crate_laws j"
  shows "exec_from_json j (exec_to_json j c) = Some c" "session_from_json j (exec_to_json j c) = None"
    "gate_from_json j (exec_to_json j c) = None" "token_live l now (exec_to_json j c) \<longleftrightarrow> 0 \<le> xc_exp c \<and> now - l \<le> xc_exp c"
  using assms
  by (simp_all add: crate_laws_def exec_to_json_def session_from_json_def exec_from_json_def gate_from_json_def field_defs)

lemma gate_json:
  assumes "crate_laws j"
  shows "gate_from_json j (gate_to_json j c) = Some c" "session_from_json j (gate_to_json j c) = None"
    "exec_from_json j (gate_to_json j c) = None" "token_live l now (gate_to_json j c) \<longleftrightarrow> 0 \<le> gc_exp c \<and> now - l \<le> gc_exp c"
  using assms
  by (simp_all add: crate_laws_def gate_to_json_def session_from_json_def exec_from_json_def gate_from_json_def field_defs)

lemma create_tokenE:
  assumes "create_token j t0 user email secret hours = Some (Inr token)"
  shows "jw_encode j secret (session_to_json j \<lparr> sc_sub = user, sc_email = email,
      sc_exp = timestamp_secs t0 + sint hours * 3600, sc_iat = timestamp_secs t0 \<rparr>) = Inr token"
  using assms
  by (auto simp: create_token_def create_claims_token_def plus_secs_def timestamp_secs_add_seconds split: if_splits)

lemma create_exec_tokenE:
  assumes "create_exec_token j t0 user cid secret n = Some (Inr (token, e))"
  shows "e = timestamp_secs t0 + sint n \<and>
    jw_encode j secret (exec_to_json j \<lparr> xc_sub = user, xc_container_id = cid, xc_kind = EXEC_KIND,
      xc_exp = e, xc_iat = timestamp_secs t0 \<rparr>) = Inr token"
  using assms by (auto simp: create_exec_token_def plus_secs_def timestamp_secs_add_seconds split: if_splits)

lemma gate_jwt_encodeE:
  "jwt_encode (gate_jwt j) secret c = Some token \<Longrightarrow> jw_encode j secret (gate_to_json j c) = Inr token"
  by (auto simp: gate_jwt_def result_ok_def split: sum.splits)

text \<open>
  C20. The three kinds of token signed with the instance's secret cannot stand in for one another: a session is
  neither a pass or session of the login gate nor a permission to enter a container, and the other way round, whatever
  the time, the host and the container asked for.
\<close>

theorem token_kinds_separate:
  assumes laws: "crate_laws j"
  shows "(create_token j t0 user email secret hours = Some (Inr token) \<longrightarrow>
      isl (validate_exec_token j t token cid secret) \<and> verify_gate_token (gate_jwt j) t secret token host kind = None) \<and>
   (create_exec_token j t0 user cid' secret n = Some (Inr (token, e)) \<longrightarrow>
      isl (validate_token j t token secret) \<and> verify_gate_token (gate_jwt j) t secret token host kind = None) \<and>
   (issue_gate_token (gate_jwt j) t0 secret user host' kind' = Some token \<longrightarrow>
      isl (validate_token j t token secret) \<and> isl (validate_exec_token j t token cid secret))"
proof (intro conjI impI)
  note json = session_json [OF laws] exec_json [OF laws] gate_json [OF laws]
  note defs = validate_exec_token_def validate_token_def verify_gate_token_def gate_jwt_def result_ok_def
  {
    assume c: "create_token j t0 user email secret hours = Some (Inr token)"
    note enc = decode_encoded [OF laws create_tokenE [OF c]]
    show "isl (validate_exec_token j t token cid secret)" "verify_gate_token (gate_jwt j) t secret token host kind = None"
      by (simp_all add: defs enc json)
  }
  {
    assume c: "create_exec_token j t0 user cid' secret n = Some (Inr (token, e))"
    note enc = decode_encoded [OF laws create_exec_tokenE [OF c, THEN conjunct2]]
    show "isl (validate_token j t token secret)" "verify_gate_token (gate_jwt j) t secret token host kind = None"
      by (simp_all add: defs enc json)
  }
  assume c: "issue_gate_token (gate_jwt j) t0 secret user host' kind' = Some token"
  note enc = decode_encoded [OF laws gate_jwt_encodeE [OF c [unfolded issue_gate_token_def]]]
  show "isl (validate_token j t token secret)" "isl (validate_exec_token j t token cid secret)"
    by (simp_all add: defs enc json)
qed

text \<open>
  A permission to enter a container is good for that container and that user, under the secret it was made with,
  until its time (90 seconds when the dashboard asks for one) and the leeway of a minute are over.
\<close>

lemma exec_token_bound_to_container:
  assumes laws: "crate_laws j" "secrets_apart j"
    and "create_exec_token j t0 user cid secret n = Some (Inr (token, e))" and "0 \<le> e"
  shows "e = timestamp_secs t0 + sint n \<and>
    (case validate_exec_token j t token cid' secret' of
       Inr c \<Rightarrow> xc_sub c = user \<and> cid' = cid \<and> secret' = secret \<and> timestamp_secs t \<le> e + 60
     | Inl _ \<Rightarrow> \<not> (cid' = cid \<and> secret' = secret \<and> timestamp_secs t \<le> e + 60))"
proof -
  note e = create_exec_tokenE [OF assms(3)]
  note enc = decode_encoded [OF laws(1) e [THEN conjunct2]]
  have other: "isl (validate_exec_token j t token cid' secret')" if "secret' \<noteq> secret"
    using decode_other_secret [OF laws(2) e [THEN conjunct2] that, of "exec_from_json j" DEFAULT_LEEWAY "timestamp_secs t"]
    by (auto simp: validate_exec_token_def isl_def)
  show ?thesis
    using e assms(4) other
    by (cases "secret' = secret")
      (auto simp: validate_exec_token_def enc exec_json [OF laws(1)] DEFAULT_LEEWAY_def isl_def split: sum.splits)
qed

section \<open>Sessions\<close>

definition auth_time :: "'x auth_env \<Rightarrow> 'x auth \<Rightarrow> timestamp" where
  "auth_time g s = h_now (e_host (g_api g)) (a_world (au_api s))"

lemma auth_apply [io_defs]:
  "auth_read f s = (Inr (f (auth_store s)), s)" "auth_now g s = (Inr (auth_time g s), s)" "answer e s = (Inl (Answer e), s)"
  "in_api (io_lift r) s = (map_sum Answer id r, s)"
  by (simp_all add: auth_read_def auth_now_def in_api_def api_read_def api_now_def answer_def auth_store_def auth_time_def io_apply)

lemma get_user_id_Inr:
  "get_user_id j now header secret = Inr i \<longleftrightarrow>
     (\<exists>token claims. header = Some (''Bearer '' @ token) \<and> validate_token j now token secret = Inr claims \<and> i = sc_sub claims)"
  by (auto simp: get_user_id_def extract_bearer_token_def strip_prefix_eq_Some)

lemma require_authenticated_user_apply [io_defs]:
  "require_authenticated_user g header s =
     (and_then (map_sum Answer id (get_user_id (g_jwt g) (auth_time g s) header (g_jwt_secret g)))
        (\<lambda>i. map_sum Answer id (ok_or (get_user (auth_store s) i) (unauthorized ''user not found''))), s)"
  by (simp add: require_authenticated_user_def io_defs and_then_def split: sum.splits)

lemma auth_random_Inr: "\<exists>bs s'. auth_random g n s = (Inr bs, s') \<and> au_oauth s' = au_oauth s"
  by (cases "g_random g n (a_world (au_api s))") (simp add: auth_random_def in_api_def in_world_def)

text \<open>Whether a token is still accepted: the expiry of the session with the leeway.\<close>

definition session_open :: "'x auth_env \<Rightarrow> timestamp \<Rightarrow> timestamp \<Rightarrow> bool" where
  "session_open g t0 t \<longleftrightarrow> timestamp_secs t \<le> timestamp_secs t0 + sint (g_jwt_expiry_hours g) * 3600 + 60"

lemma session_tokenE:
  assumes "session_token g user s = (Inr token, s')"
  shows "s' = s \<and> create_token (g_jwt g) (auth_time g s) (u_id user) (u_email user) (g_jwt_secret g) (g_jwt_expiry_hours g) = Some (Inr token)"
  using assms by (auto simp: session_token_def io_defs split: option.splits sum.splits)

lemma session_token_accepted:
  assumes "crate_laws (g_jwt g)" and "session_token g user s = (Inr token, s')"
    and "0 \<le> timestamp_secs (auth_time g s) + sint (g_jwt_expiry_hours g) * 3600"
  shows "case get_user_id (g_jwt g) t (Some (''Bearer '' @ token)) (g_jwt_secret g) of
      Inr i \<Rightarrow> session_open g (auth_time g s) t \<and> i = u_id user
    | Inl e \<Rightarrow> \<not> session_open g (auth_time g s) t \<and> fst e = 401"
proof -
  note enc = decode_encoded [OF assms(1) create_tokenE [OF session_tokenE [OF assms(2), THEN conjunct2]]]
  have "strip_prefix ''Bearer '' (''Bearer '' @ token) = Some token" by (simp add: strip_prefix_eq_Some)
  then show ?thesis
    using assms(3)
    by (auto simp: get_user_id_def extract_bearer_token_def validate_token_def enc session_json [OF assms(1)] DEFAULT_LEEWAY_def
        session_open_def unauthorized_def split: if_splits)
qed

text \<open>
  C19. Logging in opens a session of the user with that email, and only with the password: the answer's token
  makes later requests act as this user until the configured number of hours and a minute have passed, if the
  user still exists then, and is refused with status 401 afterwards. Logging in changes nothing else.
\<close>

theorem login_opens_session:
  assumes "crate_laws (g_jwt g)" and "login g email password s = (Inr r, s')"
    and "0 \<le> timestamp_secs (auth_time g s) + sint (g_jwt_expiry_hours g) * 3600"
  shows "s' = s \<and> (\<exists>user hash. get_user_by_email (auth_store s) email = Some user \<and> u_password_hash user = Some hash \<and>
    g_verify g password hash = Inr True \<and> ar_user r = user_response user \<and>
    (\<forall>s2. case require_authenticated_user g (Some (''Bearer '' @ ar_token r)) s2 of
        (Inr u, _) \<Rightarrow> session_open g (auth_time g s) (auth_time g s2) \<and> get_user (auth_store s2) (u_id user) = Some u
      | (Inl e, _) \<Rightarrow> (\<exists>message. e = Answer (401, message)) \<and>
          \<not> (session_open g (auth_time g s) (auth_time g s2) \<and> get_user (auth_store s2) (u_id user) \<noteq> None)))"
proof -
  obtain user hash token where u: "get_user_by_email (auth_store s) email = Some user" "u_password_hash user = Some hash"
      "g_verify g password hash = Inr True" and t: "session_token g user s = (Inr token, s')"
      and r: "r = \<lparr> ar_token = token, ar_user = user_response user, ar_linked = False \<rparr>"
    using assms(2)
    by (auto simp: login_def io_defs verify_password_def auth_answer_def split: sum.splits if_splits)
       (metis (no_types, lifting) prod.collapse)+
  note accepted = session_token_accepted [OF assms(1) t assms(3)]
  have "case require_authenticated_user g (Some (''Bearer '' @ ar_token r)) s2 of
        (Inr u, _) \<Rightarrow> session_open g (auth_time g s) (auth_time g s2) \<and> get_user (auth_store s2) (u_id user) = Some u
      | (Inl e, _) \<Rightarrow> (\<exists>message. e = Answer (401, message)) \<and>
          \<not> (session_open g (auth_time g s) (auth_time g s2) \<and> get_user (auth_store s2) (u_id user) \<noteq> None)" for s2
    using accepted [of "auth_time g s2"]
    by (auto simp: r io_defs unauthorized_def ok_or_def split: sum.splits option.splits)
  then show ?thesis
    using u session_tokenE [OF t] by (auto simp: r)
qed

section \<open>OAuth states\<close>

text \<open>Nothing but the start of a sign-in and the callback's first step touches the OAuth states.\<close>

lemma keeps_oauth_in_api: "io_keeps (same au_oauth) (in_api m)"
  by (simp add: io_keeps_def same_def in_api_def)

lemma keeps_answer: "io_keeps (same f) (answer e)"
  by (simp add: answer_def same.keeps_fail)

lemma keeps_purpose:
  "io_keeps R m \<Longrightarrow> (\<And>i. io_keeps R (f i)) \<Longrightarrow> io_keeps R (case purpose of PurposeLogin \<Rightarrow> m | PurposeLink i \<Rightarrow> f i)"
  by (cases purpose) auto

lemmas keeps_oauth_intros = same.keeps_intros keeps_oauth_in_api keeps_answer keeps_purpose

lemma keeps_oauth_finish_callback: "io_keeps (same au_oauth) (finish_callback g header code purpose)"
  unfolding finish_callback_def github_account_def Let_def auth_answer_def session_token_def linking_user_def
    require_authenticated_user_def auth_read_def auth_write_def auth_now_def auth_random_def
  by (intro keeps_oauth_intros)

lemma callback_oauth: "au_oauth (snd (github_callback g header code state s)) = AList.delete state (au_oauth s)"
  using io_keepsD [OF keeps_oauth_finish_callback [of g header code]]
  by (auto simp: github_callback_def io_bind_apply auth_apply take_oauth_state_def same_def split: option.splits)

text \<open>
  C21. The state of a GitHub sign-in works once: whatever came of a callback, a second callback with the same state is
  refused as invalid and changes nothing, whoever sends it and with whatever code.
\<close>

theorem oauth_state_single_use:
  "github_callback g header' code' state (snd (github_callback g header code state s)) =
     (Inl (Answer (bad_request ''invalid oauth state'')), snd (github_callback g header code state s))"
proof -
  let ?s = "snd (github_callback g header code state s)"
  have gone: "state \<notin> fst ` set (au_oauth ?s)" by (auto simp: callback_oauth AList.delete_eq)
  then have "map_of (au_oauth ?s) state = None" "AList.delete state (au_oauth ?s) = au_oauth ?s"
    by (simp_all add: map_of_eq_None_iff)
  then show ?thesis
    by (simp add: github_callback_def io_bind_apply auth_apply take_oauth_state_def)
qed

section \<open>The cleanup of OAuth states\<close>

lemma uint_diff_secs:
  fixes a b :: i64
  assumes "a = word_of_int x" "b = word_of_int y"
  shows "uint (a - b) = (x - y) mod 2 ^ 64"
  using assms by (simp add: uint_word_ariths uint_word_of_int mod_diff_eq)

text \<open>A state made at the time \<open>t\<close>: it is to expire ten minutes later.\<close>

definition started_at :: "int \<Rightarrow> int \<Rightarrow> oauth_purpose \<Rightarrow> oauth_state" where
  "started_at t instant purpose = \<lparr> os_expires_at = word_of_int (t + 600), os_created_at = instant, os_purpose = purpose \<rparr>"

lemma cleanup_deadline_started:
  assumes "0 \<le> instant" "instant div 1000000000 + 600 < 2 ^ 63" and "0 \<le> age" "age < 2 ^ 63"
  shows "cleanup_deadline (word_of_int (t + age)) (started_at t instant purpose) =
    (if age \<le> 600 then Some (instant + seconds (600 - age)) else None)"
proof -
  let ?left = "(600 - age) mod 2 ^ 64"
  have "uint ((word_of_int (t + 600) :: i64) - word_of_int (t + age)) = ?left"
    by (subst uint_diff_secs [OF refl refl]) simp
  then have d: "cleanup_deadline (word_of_int (t + age)) (started_at t instant purpose) =
      (if instant div 1000000000 + ?left < 2 ^ 63 then Some (instant + seconds ?left) else None)"
    unfolding cleanup_deadline_def started_at_def instant_plus_def oauth_state.simps by (simp only:)
  show ?thesis
  proof (cases "age \<le> 600")
    case True
    then have "?left = 600 - age" using assms(3) by simp
    then show ?thesis using assms(2,3) True unfolding d by simp
  next
    case False
    have "?left = 600 - age + 2 ^ 64"
      using False assms(4) by (subst mod_add_self2 [symmetric]) (rule mod_pos_pos_trivial, simp_all)
    then show ?thesis
      using False assms(1,4) pos_imp_zdiv_nonneg_iff [of 1000000000 instant] unfolding d by simp
  qed
qed

text \<open>
  C22. The cleanup of OAuth states works with the remaining seconds cast to an unsigned number. While a state is
  valid, this removes it once half of its ten minutes are over, so that a sign-in that takes longer fails if someone else
  starts one meanwhile. Once a state has expired the number wraps around and the deadline overflows: the cleanup
  panics, and with it every later attempt to start a sign-in with GitHub or to link an account, since the cleanup comes first and
  never removes the state.
\<close>

theorem expired_oauth_state_breaks_github_login:
  assumes "0 \<le> instant" "instant div 1000000000 + 600 < 2 ^ 63" and "0 \<le> age" "age < 2 ^ 63"
    and "(k, started_at t instant purpose) \<in> set (au_oauth s)"
    and "timestamp_secs (auth_time g (snd (generate_oauth_state g s))) = t + age"
  shows "(age \<le> 600 \<longrightarrow> (\<forall>states. cleanup_expired_oauth_states (instant + seconds age) (word_of_int (t + age)) (au_oauth s) = Some states \<longrightarrow>
        ((k, started_at t instant purpose) \<in> set states \<longleftrightarrow> age \<le> 300))) \<and>
    (age > 600 \<longrightarrow> cleanup_expired_oauth_states (instant + seconds age) (word_of_int (t + age)) (au_oauth s) = None) \<and>
    (age > 600 \<and> github_oauth_configured g \<longrightarrow>
       fst (github_start g s) = Inl Panicked \<and> au_oauth (snd (github_start g s)) = au_oauth s)"
proof -
  define n :: i64 where "n = word_of_int (t + age)"
  note d = cleanup_deadline_started [OF assms(1-4), of t purpose, folded n_def]
  have panic: "cleanup_expired_oauth_states i n (au_oauth s) = None" if "age > 600" for i
    using that d assms(5) by (auto simp: cleanup_expired_oauth_states_def list_ex_iff)
  have half: "(k, started_at t instant purpose) \<in> set states \<longleftrightarrow> age \<le> 300"
    if "age \<le> 600" "cleanup_expired_oauth_states (instant + seconds age) n (au_oauth s) = Some states" for states
  proof -
    have "states = filter (\<lambda>(_, v). \<not> is_some_and (cleanup_deadline n v) (\<lambda>d. d < instant + seconds age)) (au_oauth s)"
      using that(2) by (simp add: cleanup_expired_oauth_states_def split: if_splits)
    then show ?thesis using assms(5) that(1) by (auto simp: d is_some_and_iff seconds_def)
  qed
  obtain v s1 where v: "generate_oauth_state g s = (Inr v, s1)" "au_oauth s1 = au_oauth s"
    using auth_random_Inr [of g 32 s] by (auto simp: generate_oauth_state_def io_defs)
  then have "github_start g s = (Inl Panicked, s1)" if "age > 600" "github_oauth_configured g"
    using that assms(6) panic by (simp add: github_start_def github_authorize_url_def io_defs v unix_now_def n_def)
  then show ?thesis
    unfolding n_def [symmetric] using panic half v(2) by auto
qed

section \<open>Who changes which account\<close>

text \<open>
  No other task writes to the database while a handler hashes a password, draws random bytes or an id, or waits for
  GitHub, and a new id is not in use.
\<close>

definition auth_quiet :: "'x auth_env \<Rightarrow> bool" where
  "auth_quiet g \<longleftrightarrow>
     (\<forall>password. io_keeps (same w_store) (g_hash g password)) \<and>
     (\<forall>n w. w_store (snd (g_random g n w)) = w_store w) \<and>
     (\<forall>url form. io_keeps (same w_store) (g_post_form g url form)) \<and>
     (\<forall>url token. io_keeps (same w_store) (gh_get (e_github (g_api g)) url token)) \<and>
     io_keeps (same w_store) (h_new_uuid (e_host (g_api g))) \<and>
     fresh_uuids (g_api g) (\<lambda>st. u_id ` set (st_users st))"

text \<open>A handler that leaves the database alone or saves one user that \<open>P\<close> admits.\<close>

definition saves :: "(store \<Rightarrow> user \<Rightarrow> bool) \<Rightarrow> ('x, 'a) auth_handler \<Rightarrow> 'x auth \<Rightarrow> bool" where
  "saves P m s \<longleftrightarrow>
     auth_store (snd (m s)) = auth_store s \<or>
     (\<exists>u. P (auth_store s) u \<and> save_user (auth_store s) u = Inr (auth_store (snd (m s))))"

lemma saves_quiet: "io_keeps (same auth_store) m \<Longrightarrow> saves P m s"
  by (simp add: saves_def io_keeps_def same_def)

lemma quiet_store: "io_keeps (same auth_store) m \<Longrightarrow> auth_store (snd (m s)) = auth_store s"
  by (simp add: io_keeps_def same_def)

lemma saves_bind:
  assumes "io_keeps (same auth_store) m"
    and "\<And>x s'. m s = (Inr x, s') \<Longrightarrow> auth_store s' = auth_store s \<Longrightarrow> saves P (f x) s'"
  shows "saves P (io_bind m f) s"
proof -
  have "auth_store (snd (m s)) = auth_store s" using assms(1) by (simp add: io_keeps_def same_def)
  then show ?thesis
    using assms(2) by (cases "m s"; cases "fst (m s)") (auto simp: saves_def io_bind_apply)
qed

lemma saves_bind_quiet:
  assumes "saves P m s" and "\<And>x. io_keeps (same auth_store) (f x)"
  shows "saves P (io_bind m f) s"
  using assms by (cases "m s"; cases "fst (m s)") (auto simp: saves_def io_bind_apply io_keeps_def same_def)

lemma saves_mono: "saves P m s \<Longrightarrow> (\<And>u. P (auth_store s) u \<Longrightarrow> Q (auth_store s) u) \<Longrightarrow> saves Q m s"
  by (auto simp: saves_def)

lemma saves_write:
  assumes "P (auth_store s) u"
  shows "saves P (auth_write (\<lambda>st. save_user st u)) s"
  using assms
  by (auto simp: saves_def auth_write_def in_api_def api_write_def auth_store_def a_store_def put_store_def split: sum.splits)

lemma saves_save:
  assumes "P (auth_store s) u"
  shows "saves P (io_then (auth_write (\<lambda>st. save_user st u)) (io_return x)) s"
  unfolding io_then_def by (intro saves_bind_quiet saves_write [of P, OF assms] same.keeps_return)

lemma saves_answer: "saves P (answer e) s"
  by (intro saves_quiet keeps_answer)

lemma saves_if: "(b \<Longrightarrow> saves P m s) \<Longrightarrow> (\<not> b \<Longrightarrow> saves P n s) \<Longrightarrow> saves P (if b then m else n) s"
  by simp

lemma saves_option:
  "(v = None \<Longrightarrow> saves P m s) \<Longrightarrow> (\<And>x. v = Some x \<Longrightarrow> saves P (f x) s) \<Longrightarrow> saves P (case v of None \<Rightarrow> m | Some x \<Rightarrow> f x) s"
  by (cases v) auto

lemmas saves_intros = saves_bind saves_if saves_option saves_answer

subsection \<open>What leaves the database alone\<close>

lemma keeps_store_in_world: "io_keeps (same w_store) m \<Longrightarrow> io_keeps (same auth_store) (in_api (in_world m))"
  by (simp add: io_keeps_def same_def in_api_def in_world_def auth_store_def a_store_def)

lemma keeps_store_basic:
  "io_keeps (same auth_store) (auth_read f)" "io_keeps (same auth_store) (auth_now g)" "io_keeps (same auth_store) (in_api (io_lift r))"
  "io_keeps (same auth_store) (require_authenticated_user g header)" "io_keeps (same auth_store) (session_token g user)"
  "io_keeps (same auth_store) (verify_password g pw hash)" "io_keeps (same auth_store) (auth_answer g user linked)"
  "io_keeps (same auth_store) (require_admin_user g header)" "io_keeps (same auth_store) (linking_user g header purpose)"
proof -
  show basic: "io_keeps (same auth_store) (auth_read f)" "io_keeps (same auth_store) (auth_now g)"
    "io_keeps (same auth_store) (in_api (io_lift r))" "io_keeps (same auth_store) (require_authenticated_user g header)" for f r
    by (simp_all add: io_keeps_def same_def io_defs)
  show token: "io_keeps (same auth_store) (session_token g user)"
    unfolding session_token_def by (intro same.keeps_intros basic)
  show "io_keeps (same auth_store) (auth_answer g user linked)"
    unfolding auth_answer_def by (intro same.keeps_intros token)
  show "io_keeps (same auth_store) (verify_password g pw hash)" unfolding verify_password_def by (rule basic(3))
  show "io_keeps (same auth_store) (require_admin_user g header)" "io_keeps (same auth_store) (linking_user g header purpose)"
    unfolding require_admin_user_def linking_user_def by (intro same.keeps_intros basic keeps_answer keeps_purpose)+
qed

lemma keeps_store_quiet:
  assumes "auth_quiet g"
  shows "io_keeps (same auth_store) (hash_password g password)" "io_keeps (same auth_store) (in_api (api_uuid (g_api g)))"
    "io_keeps (same auth_store) (auth_random g n)"
    "io_keeps (same auth_store) (in_api (in_world (io_map_err k (exchange_code_for_token g code))))"
    "io_keeps (same auth_store) (in_api (in_world (io_map_err k (get_github_user g token))))"
proof -
  have get: "io_keeps (same w_store) (gh_get (e_github (g_api g)) url tk)" and post: "io_keeps (same w_store) (g_post_form g url form)"
    for url tk form
    using assms by (simp_all add: auth_quiet_def)
  show "io_keeps (same auth_store) (hash_password g password)" "io_keeps (same auth_store) (in_api (api_uuid (g_api g)))"
    unfolding hash_password_def api_uuid_def using assms
    by (intro keeps_store_in_world same.keeps_map_err; simp add: auth_quiet_def)+
  show "io_keeps (same auth_store) (auth_random g n)"
    unfolding auth_random_def using assms
    by (intro keeps_store_in_world) (auto simp: auth_quiet_def io_keeps_def same_def case_prod_beta)
  show "io_keeps (same auth_store) (in_api (in_world (io_map_err k (exchange_code_for_token g code))))"
    "io_keeps (same auth_store) (in_api (in_world (io_map_err k (get_github_user g token))))"
    unfolding exchange_code_for_token_def get_github_user_def by (intro keeps_store_in_world same.keeps_intros get post)+
qed

lemma api_uuid_fresh:
  assumes "auth_quiet g" and "in_api (api_uuid (g_api g)) s = (Inr i, s')"
  shows "i \<notin> u_id ` set (st_users (auth_store s))"
proof -
  obtain w where "h_new_uuid (e_host (g_api g)) (a_world (au_api s)) = (Inr i, w)"
    using assms(2) by (cases "h_new_uuid (e_host (g_api g)) (a_world (au_api s))")
      (auto simp: in_api_def api_uuid_def in_world_def io_map_err_def)
  then show ?thesis using assms(1) by (auto simp: auth_quiet_def fresh_uuids_def auth_store_def a_store_def)
qed

subsection \<open>The changes of each handler\<close>

definition caller :: "'x auth_env \<Rightarrow> string option \<Rightarrow> 'x auth \<Rightarrow> user option" where
  "caller g header s = result_ok (fst (require_authenticated_user g header s))"

text \<open>A new account for an email nobody has, that signs in with the password asked for.\<close>

definition password_account :: "'x auth_env \<Rightarrow> string \<Rightarrow> string \<Rightarrow> store \<Rightarrow> user \<Rightarrow> bool" where
  "password_account g email password st u \<longleftrightarrow>
     u_id u \<notin> u_id ` set (st_users st) \<and> get_user_by_email st email = None \<and> u_email u = email \<and> u_github_id u = None \<and>
     8 \<le> str_len password \<and> (\<exists>w hash. fst (g_hash g password w) = Inr hash \<and> u_password_hash u = Some hash)"

text \<open>
  The caller's account with another password: the current one was given, if there is one, and nothing else of the account changes
  but the time of the change.
\<close>

definition password_change :: "'x auth_env \<Rightarrow> string option \<Rightarrow> string \<Rightarrow> user option \<Rightarrow> user \<Rightarrow> bool" where
  "password_change g current_password new_password who u \<longleftrightarrow>
     (\<exists>v hash now. who = Some v \<and> u = v\<lparr> u_password_hash := Some hash, u_updated_at := now \<rparr> \<and>
        (\<forall>old. u_password_hash v = Some old \<longrightarrow> g_verify g (unwrap_or current_password []) old = Inr True) \<and>
        8 \<le> str_len new_password \<and> (\<exists>w. fst (g_hash g new_password w) = Inr hash))"

text \<open>The caller's account without its GitHub account; it can still sign in with a password.\<close>

definition github_unlinked :: "user option \<Rightarrow> user \<Rightarrow> bool" where
  "github_unlinked who u \<longleftrightarrow>
     (\<exists>v now. who = Some v \<and> u_password_hash v \<noteq> None \<and>
        u = v\<lparr> u_github_id := None, u_github_username := None, u_github_access_token := None, u_updated_at := now \<rparr>)"

text \<open>What GitHub answered for a code.\<close>

definition github_says :: "'x auth_env \<Rightarrow> string \<Rightarrow> github_user \<Rightarrow> bool" where
  "github_says g code gu \<longleftrightarrow>
     (\<exists>w w' t. fst (exchange_code_for_token g code w) = Inr t \<and> fst (get_github_user g (ot_access_token t) w') = Inr gu)"

text \<open>The caller's account with a GitHub account that belongs to nobody else.\<close>

definition github_linked :: "user option \<Rightarrow> store \<Rightarrow> github_user \<Rightarrow> user \<Rightarrow> bool" where
  "github_linked who st gu u \<longleftrightarrow>
     (\<exists>v token now. who = Some v \<and>
        u = v\<lparr> u_github_id := Some (gu_id gu), u_github_username := Some (gu_login gu), u_github_access_token := Some token,
               u_updated_at := now \<rparr> \<and>
        (\<forall>w. get_user_by_github_id st (gu_id gu) = Some w \<longrightarrow> u_id w = u_id v))"

text \<open>
  The account a GitHub account signs in to: the one it belongs to, whose login and token are refreshed (an instance without an
  administrator makes it one), or the first account of the instance.
\<close>

definition github_signed_in :: "store \<Rightarrow> github_user \<Rightarrow> user \<Rightarrow> bool" where
  "github_signed_in st gu u \<longleftrightarrow>
     (\<exists>v token. get_user_by_github_id st (gu_id gu) = Some v \<and>
        u = v\<lparr> u_is_admin := (u_is_admin v \<or> \<not> has_admin_user st), u_github_access_token := Some token,
               u_github_username := Some (gu_login gu) \<rparr>) \<or>
     st_users st = [] \<and> u_is_admin u \<and> u_github_id u = Some (gu_id gu) \<and> u_password_hash u = None"

lemma caller_quiet: "auth_store s' = auth_store s \<Longrightarrow> auth_time g s' = auth_time g s \<Longrightarrow> caller g header s' = caller g header s"
  by (simp add: caller_def require_authenticated_user_apply)

lemma require_authenticated_user_caller:
  "require_authenticated_user g header s = (Inr u, s') \<Longrightarrow> s' = s \<and> caller g header s = Some u \<and> u \<in> set (st_users (auth_store s))"
  by (simp add: caller_def result_ok_def, simp add: require_authenticated_user_apply)
    (auto simp: get_user_def select_row_def find_Some_iff)

lemma require_admin_user_caller:
  "require_admin_user g header s = (Inr u, s') \<Longrightarrow> s' = s \<and> caller g header s = Some u \<and> u_is_admin u"
  using require_authenticated_user_caller [of g header s]
  by (auto simp: require_admin_user_def io_bind_apply io_apply answer_def split: sum.splits if_splits)
     (metis prod.collapse)+

lemma auth_read_eq: "auth_read f s = (Inr x, s') \<longleftrightarrow> x = f (auth_store s) \<and> s' = s"
  by (auto simp: auth_apply)

lemma list_users_empty: "list_users st = [] \<longleftrightarrow> st_users st = []"
  by (simp add: list_users_def) (metis length_0_conv length_sort)

lemma in_world_Inr:
  assumes "in_api (in_world (io_map_err f m)) s = (Inr x, s')"
  shows "\<exists>w. fst (m w) = Inr x"
proof (rule exI)
  show "fst (m (a_world (au_api s))) = Inr x"
    using assms by (cases "m (a_world (au_api s))"; cases "fst (m (a_world (au_api s)))") (auto simp: in_api_def in_world_def io_defs)
qed

lemma hash_password_Inr:
  "hash_password g password s = (Inr hash, s') \<Longrightarrow> \<exists>w. fst (g_hash g password w) = Inr hash"
  unfolding hash_password_def by (rule in_world_Inr)

lemma verify_password_Inr: "verify_password g password hash s = (Inr valid, s') \<Longrightarrow> g_verify g password hash = Inr valid"
  by (cases "g_verify g password hash") (auto simp: verify_password_def auth_apply)

lemma new_password_user_saves:
  assumes quiet: "auth_quiet g"
    and P: "\<And>u. password_account g email password (auth_store s) u \<Longrightarrow> u_is_admin u = is_admin \<Longrightarrow> P (auth_store s) u"
  shows "saves P (new_password_user g email password is_admin) s"
  unfolding new_password_user_def Let_def
proof (intro saves_bind saves_if saves_answer keeps_store_basic keeps_store_quiet [OF quiet], goal_cases)
  case (1 existing s1 hash s2 i s3 now s4)
  have "i \<notin> u_id ` set (st_users (auth_store s))"
    using api_uuid_fresh [OF quiet \<open>in_api (api_uuid (g_api g)) s2 = (Inr i, s3)\<close>] 1 by simp
  moreover have "\<exists>w. fst (g_hash g password w) = Inr hash"
    using \<open>hash_password g password s1 = (Inr hash, s2)\<close> by (rule hash_password_Inr)
  ultimately show ?case
    using 1 by (intro saves_save)
      (auto intro!: P simp: user_new_with_password_def password_account_def auth_read_eq)
qed

lemma register_saves:
  assumes "auth_quiet g"
  shows "saves (\<lambda>st u. st_users st = [] \<and> u_is_admin u \<and> password_account g email password st u) (register g email password) s"
  unfolding register_def
proof (intro saves_bind keeps_store_basic, goal_cases)
  case (1 n s1)
  then have "saves (\<lambda>st u. st_users st = [] \<and> u_is_admin u \<and> password_account g email password st u)
      (new_password_user g email password True) s1" if "n = 0"
    using that by (intro new_password_user_saves [OF assms]) (simp add: auth_read_eq list_users_empty)
  then show ?case by (auto intro!: saves_answer saves_bind_quiet keeps_store_basic)
qed

lemma create_user_saves:
  assumes "auth_quiet g"
  shows "saves (\<lambda>st u. (\<exists>admin. caller g header s = Some admin \<and> u_is_admin admin) \<and> \<not> u_is_admin u \<and>
      password_account g email password st u) (create_user g header email password) s"
  unfolding create_user_def io_then_def
proof (rule saves_bind [OF keeps_store_basic(8)], goal_cases)
  case (1 admin s1)
  note a = require_admin_user_caller [OF 1(1)]
  then show ?case
    by (intro saves_bind_quiet same.keeps_return new_password_user_saves [OF assms]) auto
qed

lemma change_password_saves:
  assumes quiet: "auth_quiet g"
  shows "saves (\<lambda>st. password_change g current new (caller g header s)) (change_password g header current new) s"
  unfolding change_password_def
proof (intro saves_intros same.keeps_option same.keeps_return keeps_store_basic keeps_store_quiet [OF quiet], goal_cases)
  case (1 user s1 valid s2 hash s3 now s4)
  have "g_verify g (unwrap_or current []) old = Inr True" if "u_password_hash user = Some old" for old
    using 1 that verify_password_Inr [of g "unwrap_or current []" old s1 valid s2] by simp
  then show ?case
    using require_authenticated_user_caller [OF 1(1)] hash_password_Inr 1
    by (intro saves_write) (fastforce simp: password_change_def not_less)
qed

lemma github_unlink_saves:
  "saves (\<lambda>st. github_unlinked (caller g header s)) (github_unlink g header) s"
  unfolding github_unlink_def Let_def
proof (intro saves_intros keeps_store_basic, goal_cases)
  case (1 user s1 u s2 now s3)
  then show ?case
    using require_authenticated_user_caller [OF 1(1)]
    by (intro saves_save) (auto simp: github_unlinked_def unlink_github_def auth_apply split: if_splits)
qed

lemma github_account_saves:
  assumes quiet: "auth_quiet g"
  shows "saves (\<lambda>st u. if linking = None then github_signed_in st gu u else github_linked linking st gu u)
    (github_account g linking gu token) s"
  unfolding github_account_def Let_def
proof (intro saves_intros keeps_store_basic keeps_store_quiet [OF quiet], goal_cases)
  case (1 owner s1 n s2 i s3 now s4)
  then have "linking = None" "st_users (auth_store s) = []" "auth_store s4 = auth_store s"
    by (simp_all add: auth_read_eq list_users_empty)
  then show ?case
    by (intro saves_save, unfold github_signed_in_def, simp only: if_True)
      (rule disjI2, simp add: user_new_with_github_def)
next
  case (2 owner s1 user has_admin s2)
  then have "get_user_by_github_id (auth_store s2) (gu_id gu) = Some user" "has_admin = has_admin_user (auth_store s2)" "linking = None"
    by (auto simp: auth_read_eq)
  then show ?case
    by (intro saves_save, unfold github_signed_in_def, simp only: if_True) (rule disjI1, intro exI conjI, assumption, rule refl)
next
  case (3 owner s1 user linked s2 now s3)
  then have l: "linking = Some user" "owner = get_user_by_github_id (auth_store s3) (gu_id gu)"
      "link_github user owner (gu_id gu) (gu_login gu) token = Inr linked"
    by (auto simp: auth_apply)
  have other: "\<not> is_some_and owner (\<lambda>owner. u_id owner \<noteq> u_id user)"
    using l(3) unfolding link_github_def by (rule contrapos_pn) (simp only: if_True sum.distinct simp_thms)
  have linked: "user\<lparr> u_github_id := Some (gu_id gu), u_github_username := Some (gu_login gu), u_github_access_token := Some token \<rparr> = linked"
    using l(3) unfolding link_github_def if_not_P [OF other] by (simp only: sum.inject)
  have mine: "\<forall>w. get_user_by_github_id (auth_store s3) (gu_id gu) = Some w \<longrightarrow> u_id w = u_id user"
  proof (intro allI impI)
    fix w assume "get_user_by_github_id (auth_store s3) (gu_id gu) = Some w"
    with l(2) have "owner = Some w" by (rule trans)
    then show "u_id w = u_id user" using other by (simp only: is_some_and_iff option.inject) blast
  qed
  have "github_linked linking (auth_store s3) gu (linked\<lparr> u_updated_at := now \<rparr>)"
    unfolding github_linked_def l(1) linked [symmetric]
    by (intro exI [of _ user] exI [of _ token] exI [of _ now] conjI) (rule refl mine)+
  then show ?case using l(1) by (intro saves_save) simp
qed

lemma linking_user_Inr:
  assumes "linking_user g header purpose s = (Inr linking, s')"
  shows "s' = s \<and> (case purpose of PurposeLogin \<Rightarrow> linking = None
    | PurposeLink i \<Rightarrow> (\<exists>v. linking = Some v \<and> caller g header s = Some v \<and> u_id v = i))"
  using assms require_authenticated_user_caller [of g header s]
  by (auto simp: linking_user_def io_apply io_bind_Inr answer_def split: oauth_purpose.splits if_splits)

text \<open>
  What a callback may change: the purpose of its state says whether a GitHub account signs in or is linked, and a link is only
  completed by the user who started it.
\<close>

definition callback_change :: "'x auth_env \<Rightarrow> string \<Rightarrow> oauth_purpose \<Rightarrow> user option \<Rightarrow> store \<Rightarrow> user \<Rightarrow> bool" where
  "callback_change g code purpose who st u \<longleftrightarrow>
     (\<exists>gu. github_says g code gu \<and>
        (case purpose of
           PurposeLogin \<Rightarrow> github_signed_in st gu u
         | PurposeLink i \<Rightarrow> map_option u_id who = Some i \<and> github_linked who st gu u))"

lemma finish_callback_saves:
  assumes quiet: "auth_quiet g"
  shows "saves (callback_change g code purpose (caller g header s)) (finish_callback g header code purpose) s"
  unfolding finish_callback_def
proof (rule saves_bind [OF keeps_store_basic(9)], goal_cases)
  case (1 linking s1)
  note linking = linking_user_Inr [OF 1(1)]
  show ?case
  proof (intro saves_bind [OF keeps_store_quiet(4) [OF quiet]] saves_bind [OF keeps_store_quiet(5) [OF quiet]]
        saves_bind [OF keeps_store_quiet(3) [OF quiet]] saves_bind [OF keeps_store_basic(3)] saves_bind_quiet keeps_store_basic(7))
    fix t s2 gu s3 s4 token
    assume "in_api (in_world (io_map_err bad_request (exchange_code_for_token g code))) s1 = (Inr t, s2)"
      and "in_api (in_world (io_map_err bad_request (get_github_user g (ot_access_token t)))) s2 = (Inr gu, s3)"
    then have says: "github_says g code gu"
      unfolding github_says_def by (blast dest: in_world_Inr)
    show "saves (callback_change g code purpose (caller g header s)) (github_account g linking gu token) s4"
      by (rule saves_mono [OF github_account_saves [OF quiet]])
        (use linking says in \<open>auto simp: callback_change_def split: oauth_purpose.splits\<close>)
  qed
qed

lemma github_callback_saves:
  assumes quiet: "auth_quiet g"
  shows "saves (\<lambda>st u. \<exists>v. map_of (au_oauth s) state = Some v \<and> word_sle (unix_now (auth_time g s)) (os_expires_at v) \<and>
      callback_change g code (os_purpose v) (caller g header s) st u) (github_callback g header code state) s"
proof -
  let ?s = "s\<lparr> au_oauth := AList.delete state (au_oauth s) \<rparr>"
  have "auth_store ?s = auth_store s" "auth_time g ?s = auth_time g s" by (simp_all add: auth_store_def auth_time_def)
  then have "caller g header ?s = caller g header s" by (rule caller_quiet)
  then show ?thesis
    using finish_callback_saves [OF quiet, of code _ header ?s] \<open>auth_store ?s = auth_store s\<close>
    by (cases "map_of (au_oauth s) state")
      (simp_all add: saves_def github_callback_def io_bind_apply auth_apply take_oauth_state_def)
qed

lemma keeps_store_authorize_url:
  assumes "auth_quiet g"
  shows "io_keeps (same auth_store) (github_authorize_url g purpose)"
proof -
  have insert: "io_keeps (same auth_store) (io_modify (\<lambda>s. insert_oauth_state v e i p (s\<lparr> au_oauth := states \<rparr>)))" for v e i p states
    by (simp add: io_keeps_def same_def io_apply insert_oauth_state_def auth_store_def)
  show ?thesis
    unfolding github_authorize_url_def generate_oauth_state_def
    by (intro same.keeps_intros keeps_split keeps_store_basic keeps_store_quiet [OF assms] insert)
qed

subsection \<open>Requests\<close>

text \<open>The requests of \<open>handlers/auth.rs\<close> (deleting a user is with the deletion of services).\<close>

datatype auth_request =
  StatusRequest
| RegisterRequest string string
| LoginRequest string string
| MeRequest "string option"
| ListUsersRequest "string option"
| CreateUserRequest "string option" string string
| ChangePasswordRequest "string option" "string option" string
| GithubStartRequest
| GithubLinkRequest "string option"
| GithubUnlinkRequest "string option"
| GithubCallbackRequest "string option" string string

fun serve_auth :: "'x auth_env \<Rightarrow> auth_request \<Rightarrow> 'x auth \<Rightarrow> 'x auth" where
  "serve_auth g StatusRequest s = snd (status g s)"
| "serve_auth g (RegisterRequest email password) s = snd (register g email password s)"
| "serve_auth g (LoginRequest email password) s = snd (login g email password s)"
| "serve_auth g (MeRequest header) s = snd (me g header s)"
| "serve_auth g (ListUsersRequest header) s = snd (list_users_handler g header s)"
| "serve_auth g (CreateUserRequest header email password) s = snd (create_user g header email password s)"
| "serve_auth g (ChangePasswordRequest header current new) s = snd (change_password g header current new s)"
| "serve_auth g GithubStartRequest s = snd (github_start g s)"
| "serve_auth g (GithubLinkRequest header) s = snd (github_link_start g header s)"
| "serve_auth g (GithubUnlinkRequest header) s = snd (github_unlink g header s)"
| "serve_auth g (GithubCallbackRequest header code state) s = snd (github_callback g header code state s)"

text \<open>The change of an account that a request may make.\<close>

fun permitted :: "'x auth_env \<Rightarrow> auth_request \<Rightarrow> 'x auth \<Rightarrow> user \<Rightarrow> bool" where
  "permitted g (RegisterRequest email password) s u \<longleftrightarrow>
     st_users (auth_store s) = [] \<and> u_is_admin u \<and> password_account g email password (auth_store s) u"
| "permitted g (CreateUserRequest header email password) s u \<longleftrightarrow>
     (\<exists>admin. caller g header s = Some admin \<and> u_is_admin admin) \<and> \<not> u_is_admin u \<and>
     password_account g email password (auth_store s) u"
| "permitted g (ChangePasswordRequest header current new) s u \<longleftrightarrow> password_change g current new (caller g header s) u"
| "permitted g (GithubUnlinkRequest header) s u \<longleftrightarrow> github_unlinked (caller g header s) u"
| "permitted g (GithubCallbackRequest header code state) s u \<longleftrightarrow>
     (\<exists>v. map_of (au_oauth s) state = Some v \<and> word_sle (unix_now (auth_time g s)) (os_expires_at v) \<and>
        callback_change g code (os_purpose v) (caller g header s) (auth_store s) u)"
| "permitted g _ s u \<longleftrightarrow> False"

text \<open>
  C18. Every request to the sign-in API changes the database in at most one account, and only as far as the caller may: the
  first visitor registers and becomes the administrator, an administrator creates an account without rights, each for an
  email that is free and with a password that is long enough; a caller with a valid session changes the own password if the
  current one is right (or there is none), and unlinks GitHub if a password is left; a callback with a state that was
  handed out and has not expired refreshes the account that the GitHub account answered for the code belongs to, creates
  the first one, or, if the state was handed out for linking, links the GitHub account to the caller, who must be the
  user that started the link, if it is nobody else's. Rights never change, except that a sign-in to an instance without an
  administrator makes one. All other requests change nothing.
\<close>

theorem account_changes_authorized:
  assumes "auth_quiet g"
  shows "auth_store (serve_auth g request s) = auth_store s \<or>
    (\<exists>u. permitted g request s u \<and> save_user (auth_store s) u = Inr (auth_store (serve_auth g request s)))"
proof -
  note url = keeps_store_authorize_url [OF assms]
  show ?thesis
  proof (cases request)
    case (LoginRequest email password)
    have "io_keeps (same auth_store) (login g email password)"
      unfolding login_def by (intro same.keeps_intros keeps_store_basic keeps_answer)
    then show ?thesis using quiet_store by (simp add: LoginRequest)
  next
    case GithubStartRequest
    have "io_keeps (same auth_store) (github_start g)" unfolding github_start_def by (intro same.keeps_intros url)
    then show ?thesis using quiet_store by (simp add: GithubStartRequest)
  next
    case (GithubLinkRequest header)
    have "io_keeps (same auth_store) (github_link_start g header)"
      unfolding github_link_start_def by (intro same.keeps_intros url keeps_store_basic keeps_answer)
    then show ?thesis using quiet_store by (simp add: GithubLinkRequest)
  next
    case (ListUsersRequest header)
    have "io_keeps (same auth_store) (list_users_handler g header)"
      unfolding list_users_handler_def by (intro same.keeps_intros keeps_store_basic)
    then show ?thesis using quiet_store by (simp add: ListUsersRequest)
  next
    case (MeRequest header)
    have "io_keeps (same auth_store) (me g header)" unfolding me_def by (intro same.keeps_intros keeps_store_basic)
    then show ?thesis using quiet_store by (simp add: MeRequest)
  next
    case StatusRequest
    have "io_keeps (same auth_store) (status g)" unfolding status_def by (intro same.keeps_intros keeps_store_basic)
    then show ?thesis using quiet_store by (simp add: StatusRequest)
  qed (use register_saves [OF assms] create_user_saves [OF assms] change_password_saves [OF assms] github_unlink_saves
      github_callback_saves [OF assms] in \<open>simp_all add: saves_def\<close>)
qed


section \<open>An instance\<close>

text \<open>A signer that knows one payload and one secret, and UUIDs in unary.\<close>

definition demo_crate :: "json_object \<Rightarrow> jwt_crate" where
  "demo_crate ob =
     \<lparr> jw_encode = \<lambda>secret p. if secret = ''k'' \<and> p = ob then Inr ''t'' else Inl ''unsupported'',
       jw_verify = \<lambda>secret token. if secret = ''k'' \<and> token = ''t'' then Inr ob else Inl ''signature'',
       jw_malformed = ''malformed'', jw_expired = ''expired'',
       jw_show_uuid = \<lambda>u. replicate (unat u) CHR ''x'', jw_parse_uuid = \<lambda>s. Some (of_nat (length s)) \<rparr>"

lemma demo_crate_laws: "crate_laws (demo_crate ob)" "secrets_apart (demo_crate ob)"
  by (simp_all add: crate_laws_def secrets_apart_def demo_crate_def)

definition demo_session :: json_object where
  "demo_session = [(''sub'', JString ''xxxxxxx''), (''email'', JString ''a@b''), (''exp'', JNumber 86400), (''iat'', JNumber 0)]"

definition demo_account :: user where
  "demo_account = user_new_with_password 7 0 ''a@b'' ''hash''"

text \<open>A host whose only new id is 77.\<close>

definition demo_auth_host :: "(string list \<times> int) host" where
  "demo_auth_host = demo_host\<lparr> h_new_uuid := \<lambda>w. (if 77 \<in> u_id ` set (st_users (w_store w)) then Inl ''no id'' else Inr 77, w) \<rparr>"

definition demo_auth_env :: "(string list \<times> int) auth_env" where
  "demo_auth_env =
     \<lparr> g_api = demo_env\<lparr> e_host := demo_auth_host \<rparr>, g_jwt_secret = ''k'', g_jwt_expiry_hours = 24, g_client_id = ''id'',
       g_client_secret = ''sec'', g_jwt = demo_crate demo_session, g_hash = \<lambda>_. io_return ''hash'',
       g_verify = \<lambda>pw hash. Inr (pw = ''secret'' \<and> hash = ''hash''),
       g_instant = \<lambda>_. seconds 2000, g_random = \<lambda>n w. (replicate n 0, w), g_base64 = \<lambda>_. ''state'',
       g_authorize_url = \<lambda>_ _ _. ''url'', g_post_form = \<lambda>_ _. io_fail ''down'', g_parse_token = Inl, g_parse_user = Inl \<rparr>"

definition demo_auth :: "user list \<Rightarrow> (string \<times> oauth_state) list \<Rightarrow> (string list \<times> int) auth" where
  "demo_auth users states = \<lparr> au_api = demo_api (empty_store\<lparr> st_users := users \<rparr>), au_oauth = states \<rparr>"

lemma demo_auth_simps [simp]:
  "auth_store (demo_auth users states) = empty_store\<lparr> st_users := users \<rparr>" "au_oauth (demo_auth users states) = states"
  "auth_time demo_auth_env (demo_auth users states) = 100"
  "g_jwt demo_auth_env = demo_crate demo_session" "g_jwt_secret demo_auth_env = ''k''" "g_jwt_expiry_hours demo_auth_env = 24"
  by (simp_all add: auth_store_def auth_time_def demo_auth_def demo_auth_env_def demo_env_def demo_auth_host_def demo_host_def
      demo_api_def demo_world_def a_store_def)

lemma demo_account_simps [simp]:
  "u_id demo_account = 7" "u_email demo_account = ''a@b''" "u_password_hash demo_account = Some ''hash''"
  by (simp_all add: demo_account_def user_new_with_password_def)

lemma demo_token: "create_token (demo_crate demo_session) 100 7 ''a@b'' ''k'' 24 = Some (Inr ''t'')"
  by code_simp

theorem token_kinds_separate_witness:
  "create_token (demo_crate demo_session) 100 7 ''a@b'' ''k'' 24 = Some (Inr ''t'') \<and>
   isl (validate_exec_token (demo_crate demo_session) 100 ''t'' ''c'' ''k'') \<and>
   verify_gate_token (gate_jwt (demo_crate demo_session)) 100 ''k'' ''t'' ''h'' Session = None"
  using token_kinds_separate [OF demo_crate_laws(1) [of demo_session]] demo_token by blast

lemma demo_login:
  "login demo_auth_env ''a@b'' ''secret'' (demo_auth [demo_account] []) =
     (Inr \<lparr> ar_token = ''t'', ar_user = user_response demo_account, ar_linked = False \<rparr>, demo_auth [demo_account] [])"
proof -
  have "verify_password demo_auth_env ''secret'' ''hash'' = io_return True"
    by (simp add: verify_password_def demo_auth_env_def fun_eq_iff io_defs)
  then show ?thesis
    using demo_token
    by (simp add: login_def io_defs auth_answer_def session_token_def get_user_by_email_def select_row_def)
qed

theorem login_opens_session_witness:
  "require_authenticated_user demo_auth_env (Some (''Bearer '' @ ''t'')) (demo_auth [demo_account] []) =
     (Inr demo_account, demo_auth [demo_account] [])"
proof -
  let ?s = "demo_auth [demo_account] []"
  have laws: "crate_laws (g_jwt demo_auth_env)" by (simp add: demo_crate_laws)
  have time: "0 \<le> timestamp_secs (auth_time demo_auth_env ?s) + sint (g_jwt_expiry_hours demo_auth_env) * 3600"
    by (simp add: timestamp_secs_def)
  have found: "get_user (auth_store ?s) 7 = Some demo_account" "get_user_by_email (auth_store ?s) ''a@b'' = Some demo_account"
    by (simp_all add: get_user_def get_user_by_email_def select_row_def)
  obtain r where r: "require_authenticated_user demo_auth_env (Some (''Bearer '' @ ''t'')) ?s = (r, ?s)"
    by (simp add: require_authenticated_user_apply)
  have "session_open demo_auth_env 100 100" by (simp add: session_open_def timestamp_secs_def)
  then have "r = Inr demo_account"
    using login_opens_session [OF laws demo_login time, THEN conjunct2] r found(1) unfolding found(2)
    by (elim exE conjE) (drule spec [of _ ?s], cases r, auto)
  then show ?thesis using r by simp
qed

theorem expired_oauth_state_breaks_github_login_witness:
  "fst (github_start demo_auth_env (demo_auth [demo_account] [(''old'', started_at (- 1000) (seconds 1000) PurposeLogin)])) = Inl Panicked"
proof -
  let ?s = "demo_auth [demo_account] [(''old'', started_at (- 1000) (seconds 1000) PurposeLogin)]"
  have "generate_oauth_state demo_auth_env ?s = (Inr ''state'', ?s)"
    by (simp add: generate_oauth_state_def io_defs auth_random_def in_api_def in_world_def demo_auth_env_def demo_auth_def demo_api_def)
  then have "timestamp_secs (auth_time demo_auth_env (snd (generate_oauth_state demo_auth_env ?s))) = - 1000 + 1000"
    by (simp add: timestamp_secs_def)
  moreover have "trim ''id'' = ''id''" "trim ''sec'' = ''sec''" by code_simp+
  then have "github_oauth_configured demo_auth_env" by (simp add: github_oauth_configured_def demo_auth_env_def)
  ultimately show ?thesis
    using expired_oauth_state_breaks_github_login [of "seconds 1000" 1000 "''old''" "- 1000" PurposeLogin ?s demo_auth_env]
    by (simp add: seconds_def)
qed

lemma demo_auth_quiet: "auth_quiet demo_auth_env"
  by (auto simp: auth_quiet_def demo_auth_env_def demo_auth_host_def demo_env_def demo_github_def fresh_uuids_def io_keeps_def
      same_def io_apply split: if_splits)

lemma demo_register:
  "st_users (auth_store (serve_auth demo_auth_env (RegisterRequest ''a@b'' ''longenough'') (demo_auth [] []))) \<noteq> []"
proof -
  have len: "\<not> str_len ''longenough'' < 8" by code_simp
  have hash: "hash_password demo_auth_env ''longenough'' (demo_auth [] []) = (Inr ''hash'', demo_auth [] [])"
    by (simp add: hash_password_def in_api_def in_world_def demo_auth_env_def io_defs demo_auth_def demo_api_def)
  have uuid: "in_api (api_uuid (g_api demo_auth_env)) (demo_auth [] []) = (Inr 77, demo_auth [] [])"
    by (simp add: api_uuid_def in_api_def in_world_def demo_auth_env_def demo_auth_host_def io_defs demo_auth_def demo_api_def empty_store_def)
  obtain u s' where "new_password_user demo_auth_env ''a@b'' ''longenough'' True (demo_auth [] []) = (Inr u, s')" "st_users (auth_store s') \<noteq> []"
    by (simp add: new_password_user_def io_defs len hash uuid get_user_by_email_def select_row_def Let_def)
      (simp add: auth_write_def in_api_def api_write_def save_user_def auth_store_def a_store_def put_store_def demo_auth_def demo_api_def
        upsert_def empty_store_def io_apply)
  then show ?thesis
    by (simp add: register_def io_bind_apply auth_apply list_users_def quiet_store [OF keeps_store_basic(7)])
qed

theorem account_changes_authorized_witness:
  "\<exists>u. st_users empty_store = [] \<and> u_is_admin u \<and> password_account demo_auth_env ''a@b'' ''longenough'' empty_store u \<and>
     save_user empty_store u = Inr (auth_store (serve_auth demo_auth_env (RegisterRequest ''a@b'' ''longenough'') (demo_auth [] [])))"
proof -
  have empty: "auth_store (demo_auth [] []) = empty_store" by (simp add: empty_store_def)
  then show ?thesis
    using account_changes_authorized [OF demo_auth_quiet, of "RegisterRequest ''a@b'' ''longenough''" "demo_auth [] []"] demo_register
    by (auto simp: empty_store_def)
qed

end
