(* ===== verification/Cron_Scheduler.thy ===== *)
theory Cron_Scheduler
  imports Worker_Safety
begin

text \<open>
  The cron scheduler, \<open>containr-runtime/src/cron_scheduler.rs\<close>: every ten seconds it removes finished runs, launches
  the cron jobs that are due, and drops what belongs to no service any more. Its state is the next run of every job and
  the runs in progress, each by project and service. The cron parser, the container's state and the texts of times are
  parameters; a hash map is an association list, and \<open>k_order\<close> is the order in which it is iterated.
\<close>

type_synonym cron_key = "uuid \<times> uuid"

record cron_schedule_state =
  cs_schedule :: string
  cs_deployment_id :: uuid
  cs_next_run_at :: timestamp

record running_cron_job =
  rj_container_name :: string
  rj_deployment_id :: uuid
  rj_service_name :: string

record cron_container_state =
  kc_status :: string
  kc_finished_at :: "string option"

text \<open>\<open>k_next\<close> parses a schedule and gives its first occurrence after a time.\<close>

record 'x cron_env =
  k_host :: "'x host"
  k_work_dir :: string
  k_encryption_secret :: "string option"
  k_next :: "string \<Rightarrow> timestamp \<Rightarrow> string + timestamp"
  k_inspect_running :: "string \<Rightarrow> ('x world, bool) io"
  k_get_state :: "string \<Rightarrow> ('x world, cron_container_state) io"
  k_stamp :: "timestamp \<Rightarrow> string"
  k_order :: "cron_key list \<Rightarrow> cron_key list"

text \<open>\<open>cr_active\<close> holds the \<open>active_keys\<close> of a pass.\<close>

record 'x cron =
  cr_world :: "'x world"
  cr_schedules :: "(cron_key \<times> cron_schedule_state) list"
  cr_running :: "(cron_key \<times> running_cron_job) list"
  cr_active :: "cron_key list"

definition in_cron :: "('x world, 'a) io \<Rightarrow> ('x cron, 'a) io" where
  "in_cron m s = (fst (m (cr_world s)), s\<lparr> cr_world := snd (m (cr_world s)) \<rparr>)"

definition cron_now :: "'x cron_env \<Rightarrow> 'x cron \<Rightarrow> timestamp" where
  "cron_now k s = h_now (k_host k) (cr_world s)"

section \<open>Names\<close>

definition sanitize_name :: "string \<Rightarrow> string" where
  "sanitize_name value =
     (let sanitized = map (\<lambda>ch. if is_ascii_alphanumeric ch \<or> ch = CHR ''-'' \<or> ch = CHR ''_'' then ch else CHR ''-'') value
      in if sanitized = [] then ''job'' else sanitized)"

definition truncate_name :: "string \<Rightarrow> nat \<Rightarrow> string" where
  "truncate_name value max_len = (if str_len value \<le> max_len then value else take max_len value)"

definition cron_container_name :: "'x cron_env \<Rightarrow> project \<Rightarrow> container_service \<Rightarrow> timestamp \<Rightarrow> string" where
  "cron_container_name k app service now =
     ''containr-cron-'' @ split_first CHR ''-'' (h_show_uuid (k_host k) (p_id app)) @ ''-''
       @ truncate_name (sanitize_name (s_name service)) 12 @ ''-'' @ k_stamp k now"

section \<open>One run\<close>

text \<open>\<open>DockerContainerManager::is_running\<close>: a container that cannot be inspected is not running.\<close>

definition is_running :: "'x cron_env \<Rightarrow> string \<Rightarrow> ('x world, bool) io" where
  "is_running k i = io_match (k_inspect_running k i) (\<lambda>_. io_return False) io_return"

definition resolve_running_deployment :: "store \<Rightarrow> uuid \<Rightarrow> deployment option" where
  "resolve_running_deployment st app_id = find (\<lambda>d. d_status d = Running) (list_deployments_by_app st app_id)"

definition next_schedule_state :: "'x cron_env \<Rightarrow> string \<Rightarrow> uuid \<Rightarrow> timestamp \<Rightarrow> string + cron_schedule_state" where
  "next_schedule_state k schedule deployment_id from =
     and_then (k_next k schedule from) (\<lambda>next_run_at.
       Inr \<lparr> cs_schedule = schedule, cs_deployment_id = deployment_id, cs_next_run_at = next_run_at \<rparr>)"

definition build_shared_env_vars :: "project \<Rightarrow> (string \<times> string) list" where
  "build_shared_env_vars app = foldl (\<lambda>env e. AList.update (ev_key e) (ev_value e) env) [] (p_env_vars app)"

definition resolve_cron_image :: "container_service \<Rightarrow> deployment \<Rightarrow> string + string" where
  "resolve_cron_image service deployment =
     (case List.map_filter (\<lambda>sd. if sd_service_id sd = s_id service then sd_image_id sd else None) (d_service_deployments deployment) of
        img # _ \<Rightarrow> Inr img
      | [] \<Rightarrow>
          if trim (s_image service) \<noteq> [] then Inr (s_image service)
          else ok_or (d_image_id deployment) (''no deployed image found for cron job '' @ s_name service))"

definition cron_env_vars :: "(string \<times> string) list \<Rightarrow> container_service \<Rightarrow> (string \<times> string) list" where
  "cron_env_vars shared_env_vars service =
     foldl (\<lambda>env e. AList.update (ev_key e) (ev_value e) env)
       (AList.update ''CRON_SCHEDULE'' (unwrap_or (s_schedule service) [])
          (AList.update ''SERVICE_NAME'' (s_name service) shared_env_vars)) (s_env_vars service)"

definition cron_config ::
  "project \<Rightarrow> container_service \<Rightarrow> string \<Rightarrow> string \<Rightarrow> string \<Rightarrow> (string \<times> string) list \<Rightarrow> docker_bind_mount list \<Rightarrow> docker_container_config" where
  "cron_config app service img container_name network shared_env_vars mounts =
     \<lparr> dc_id = container_name, dc_image = img, dc_env_vars = cron_env_vars shared_env_vars service, dc_port = 0,
       dc_additional_ports = [], dc_port_mappings = [], dc_command = s_command service, dc_entrypoint = s_entrypoint service,
       dc_working_dir = s_working_dir service, dc_memory_limit = s_memory_limit service, dc_cpu_limit = s_cpu_limit service,
       dc_network = Some \<lparr> na_name = network, na_aliases = [s_name service @ ''-cron''] \<rparr>, dc_mounts = mounts,
       dc_additional_networks = [], dc_health_check = None, dc_restart_policy = ''no'' \<rparr>"

definition launch_cron_job ::
  "'x cron_env \<Rightarrow> project \<Rightarrow> deployment \<Rightarrow> container_service \<Rightarrow> string \<Rightarrow> (string \<times> string) list \<Rightarrow> ('x world, string) io" where
  "launch_cron_job k app deployment service img shared_env_vars =
     (let h = k_host k; network = network_name (h_show_uuid h) app in
      io_then (if should_pull_service_image service img
               then io_bind (io_bind (db_read (\<lambda>st. resolve_registry_credentials (h_crypto h) (Some st) (p_owner_id app) service
                        (s_image service) (k_encryption_secret k))) io_lift) (h_pull_image h img)
               else io_return ())
     (io_bind (io_read (h_now h)) (\<lambda>now.
      let container_name = cron_container_name k app service now in
      io_then (create_network (h_docker h) False network)
     (io_bind (build_service_mounts (h_show_uuid h) (h_fs h) (k_work_dir k) (p_id app) service) (\<lambda>mounts.
      io_then (log_deployment h (d_id deployment) (''starting cron job '' @ s_name service))
     (io_match (create_container (h_docker h) False (cron_config app service img container_name network shared_env_vars mounts))
        (\<lambda>error. io_then (io_ignore (remove_container (h_docker h) False container_name)) (io_fail error))
        (\<lambda>_. io_then (log_deployment h (d_id deployment)
                  (''cron job '' @ s_name service @ '' started in container '' @ container_name))
               (io_return container_name))))))))"

section \<open>A pass\<close>

text \<open>One run of \<open>reconcile_running_jobs\<close>: whether it is over, after its log line was written and its container removed.\<close>

definition finish_job :: "'x cron_env \<Rightarrow> running_cron_job \<Rightarrow> ('x world, bool) io" where
  "finish_job k job =
     io_bind (is_running k (rj_container_name job)) (\<lambda>running.
       if running then io_return False
       else
         io_bind (io_match (k_get_state k (rj_container_name job)) (\<lambda>_. io_return None) (\<lambda>st. io_return (Some st))) (\<lambda>state.
         io_bind (io_read (h_now (k_host k))) (\<lambda>now.
         let finished_at = unwrap_or (Option.bind state kc_finished_at) (h_show_time (k_host k) now);
             final_status = unwrap_or (map_option kc_status state) ''finished'' in
         io_then (log_deployment (k_host k) (rj_deployment_id job)
             (''cron job '' @ rj_service_name job @ '' finished with status '' @ final_status @ '' at '' @ finished_at))
         (io_then (io_ignore (remove_container (h_docker (k_host k)) False (rj_container_name job)))
           (io_return True)))))"

fun finished_keys :: "'x cron_env \<Rightarrow> (cron_key \<times> running_cron_job) list \<Rightarrow> cron_key list \<Rightarrow> ('x world, cron_key list) io" where
  "finished_keys k running [] = io_return []"
| "finished_keys k running (key # keys) =
     (case map_of running key of
        None \<Rightarrow> finished_keys k running keys
      | Some job \<Rightarrow>
          io_bind (finish_job k job) (\<lambda>over.
          io_bind (finished_keys k running keys) (\<lambda>finished.
            io_return (if over then key # finished else finished))))"

definition reconcile_running_jobs :: "'x cron_env \<Rightarrow> ('x cron, unit) io" where
  "reconcile_running_jobs k =
     io_bind (io_read cr_running) (\<lambda>running.
     io_bind (in_cron (finished_keys k running (k_order k (map fst running)))) (\<lambda>finished.
       io_modify (\<lambda>s. s\<lparr> cr_running := foldl (\<lambda>jobs key. AList.delete key jobs) (cr_running s) finished \<rparr>)))"

text \<open>The schedule of a job, computed anew if it or the running deployment changed; \<open>None\<close> if it is not valid.\<close>

definition ensure_schedule_state ::
  "'x cron_env \<Rightarrow> cron_key \<Rightarrow> string \<Rightarrow> uuid \<Rightarrow> ('x cron, cron_schedule_state option) io" where
  "ensure_schedule_state k key schedule deployment_id s =
     (case map_of (cr_schedules s) key of
        Some state \<Rightarrow>
          if cs_schedule state \<noteq> schedule \<or> cs_deployment_id state \<noteq> deployment_id
          then (case next_schedule_state k schedule deployment_id (cron_now k s) of
                  Inr state \<Rightarrow> (Inr (Some state), s\<lparr> cr_schedules := AList.update key state (cr_schedules s) \<rparr>)
                | Inl _ \<Rightarrow> (Inr None, s\<lparr> cr_schedules := AList.delete key (cr_schedules s) \<rparr>))
          else (Inr (Some state), s)
      | None \<Rightarrow>
          (case next_schedule_state k schedule deployment_id (cron_now k s) of
             Inr state \<Rightarrow> (Inr (Some state), s\<lparr> cr_schedules := AList.update key state (cr_schedules s) \<rparr>)
           | Inl _ \<Rightarrow> (Inr None, s\<lparr> cr_schedules := AList.delete key (cr_schedules s) \<rparr>)))"

text \<open>A job that is due: its next run is fixed first, then it is launched.\<close>

definition run_due_job ::
  "'x cron_env \<Rightarrow> project \<Rightarrow> deployment \<Rightarrow> (string \<times> string) list \<Rightarrow> container_service \<Rightarrow> string \<Rightarrow> ('x cron, unit) io" where
  "run_due_job k app deployment shared_env_vars service schedule =
     (let key = (p_id app, s_id service) in
      io_bind (io_read (cron_now k)) (\<lambda>now.
      case next_schedule_state k schedule (d_id deployment) now of
        Inl _ \<Rightarrow> io_modify (\<lambda>s. s\<lparr> cr_schedules := AList.delete key (cr_schedules s) \<rparr>)
      | Inr next_state \<Rightarrow>
          io_then (io_modify (\<lambda>s. s\<lparr> cr_schedules := AList.update key next_state (cr_schedules s) \<rparr>))
          (io_match (in_cron (io_bind (io_lift (resolve_cron_image service deployment)) (\<lambda>img.
                       launch_cron_job k app deployment service img shared_env_vars)))
             (\<lambda>error. in_cron (log_deployment (k_host k) (d_id deployment)
                        (''cron job '' @ s_name service @ '' failed to start: '' @ error)))
             (\<lambda>container_name. io_modify (\<lambda>s. s\<lparr> cr_running := AList.update key
                 \<lparr> rj_container_name = container_name, rj_deployment_id = d_id deployment, rj_service_name = s_name service \<rparr>
                 (cr_running s) \<rparr>)))))"

definition poll_service ::
  "'x cron_env \<Rightarrow> project \<Rightarrow> deployment \<Rightarrow> (string \<times> string) list \<Rightarrow> container_service \<Rightarrow> ('x cron, unit) io" where
  "poll_service k app deployment shared_env_vars service =
     (case s_schedule service of
        None \<Rightarrow> io_return ()
      | Some schedule \<Rightarrow>
          let key = (p_id app, s_id service) in
          io_then (io_modify (\<lambda>s. s\<lparr> cr_active := push_new (cr_active s) key \<rparr>))
          (io_bind (ensure_schedule_state k key schedule (d_id deployment)) (\<lambda>found.
           case found of
             None \<Rightarrow> io_return ()
           | Some state \<Rightarrow>
               io_bind (io_read (\<lambda>s. (map_of (cr_running s) key \<noteq> None, cron_now k s))) (\<lambda>(running, now).
                 if running then io_return ()
                 else if now < cs_next_run_at state then io_return ()
                 else run_due_job k app deployment shared_env_vars service schedule))))"

definition poll_app :: "'x cron_env \<Rightarrow> project \<Rightarrow> ('x cron, unit) io" where
  "poll_app k app =
     io_bind (io_read (\<lambda>s. resolve_running_deployment (w_store (cr_world s)) (p_id app))) (\<lambda>found.
       case found of
         None \<Rightarrow> io_return ()
       | Some deployment \<Rightarrow>
           io_for (filter is_cron_job (p_services app)) (poll_service k app deployment (build_shared_env_vars app)))"

definition remove_orphan :: "'x cron_env \<Rightarrow> cron_key \<Rightarrow> ('x cron, unit) io" where
  "remove_orphan k key =
     io_bind (io_read (\<lambda>s. map_of (cr_running s) key)) (\<lambda>job.
       case job of
         None \<Rightarrow> io_return ()
       | Some job \<Rightarrow>
           io_then (io_modify (\<lambda>s. s\<lparr> cr_running := AList.delete key (cr_running s) \<rparr>))
             (io_ignore (in_cron (remove_container (h_docker (k_host k)) False (rj_container_name job)))))"

definition poll_once :: "'x cron_env \<Rightarrow> ('x cron, unit) io" where
  "poll_once k =
     io_then (reconcile_running_jobs k)
    (io_bind (in_cron (db_read list_apps)) (\<lambda>apps.
     io_then (io_modify (\<lambda>s. s\<lparr> cr_active := [] \<rparr>))
    (io_then (io_for apps (poll_app k))
    (io_then (io_modify (\<lambda>s. s\<lparr> cr_schedules := filter (\<lambda>(key, _). key \<in> set (cr_active s)) (cr_schedules s) \<rparr>))
    (io_bind (io_read (\<lambda>s. filter (\<lambda>key. key \<notin> set (cr_active s)) (k_order k (map fst (cr_running s))))) (\<lambda>orphaned.
       io_for orphaned (remove_orphan k)))))))"

end
