(* ===== verification/Cron_Safety.thy ===== *)
theory Cron_Safety
  imports Cron_Scheduler
begin

text \<open>
  What the cron scheduler guarantees: a job is launched only when its time has come and only if its previous run is
  over, every slot is used at most once, and a pass keeps nothing of services that are gone. And where it goes wrong:
  runs of two jobs can get the same container name.
\<close>

section \<open>When a job is launched\<close>

definition cron_laws :: "'x cron_env \<Rightarrow> bool" where
  "cron_laws k \<longleftrightarrow> (\<forall>schedule t n. k_next k schedule t = Inr n \<longrightarrow> t < n) \<and> (\<forall>keys. set (k_order k keys) = set keys)"

lemma in_cron_apply [io_defs]: "in_cron m s = (fst (m (cr_world s)), s\<lparr> cr_world := snd (m (cr_world s)) \<rparr>)"
  by (simp add: in_cron_def)

lemma log_deployment_Inr [simp]: "fst (log_deployment h i line w) = Inr ()"
  by (simp add: log_deployment_def io_apply)

lemma next_schedule_state_later:
  "cron_laws k \<Longrightarrow> next_schedule_state k schedule d t = Inr st \<Longrightarrow> t < cs_next_run_at st \<and> cs_schedule st = schedule \<and> cs_deployment_id st = d"
  by (auto simp: next_schedule_state_def cron_laws_def)

lemma run_due_job_result:
  fixes app service
  defines "key \<equiv> (p_id app, s_id service)"
  assumes "run_due_job k app d env service schedule s = (r, s')"
  shows "r = Inr () \<and> (\<forall>other. other \<noteq> key \<longrightarrow> map_of (cr_running s') other = map_of (cr_running s) other \<and>
      map_of (cr_schedules s') other = map_of (cr_schedules s) other) \<and> cr_active s' = cr_active s \<and>
    (map_of (cr_running s') key \<noteq> map_of (cr_running s) key \<longrightarrow>
       (\<exists>st. map_of (cr_schedules s') key = Some st \<and> next_schedule_state k schedule (d_id d) (cron_now k s) = Inr st))"
  using assms(2) unfolding key_def
  by (auto simp: run_due_job_def io_defs update_conv' delete_conv' Let_def split: sum.splits)

lemma ensure_schedule_state_result:
  assumes laws: "cron_laws k" and "ensure_schedule_state k key schedule d s = (r, s')"
  shows "\<exists>found. r = Inr found \<and> cr_world s' = cr_world s \<and> cr_running s' = cr_running s \<and> cr_active s' = cr_active s \<and>
    (\<forall>other. other \<noteq> key \<longrightarrow> map_of (cr_schedules s') other = map_of (cr_schedules s) other) \<and>
    (\<forall>st. found = Some st \<longrightarrow> cs_schedule st = schedule \<and> cs_deployment_id st = d \<and> map_of (cr_schedules s') key = Some st \<and>
       (cs_next_run_at st \<le> cron_now k s \<longrightarrow> map_of (cr_schedules s) key = Some st))"
  using assms(2) next_schedule_state_later [OF laws]
  by (fastforce simp: ensure_schedule_state_def update_conv' delete_conv' split: option.splits sum.splits if_splits)

lemma poll_service_result:
  fixes app service
  defines "key \<equiv> (p_id app, s_id service)"
  assumes laws: "cron_laws k" and run: "poll_service k app d env service s = (r, s')"
  shows "r = Inr ()"
    and "set (cr_active s') = set (cr_active s) \<union> (if s_schedule service = None then {} else {key})"
    and "\<And>other. other \<noteq> key \<Longrightarrow> map_of (cr_running s') other = map_of (cr_running s) other \<and>
       map_of (cr_schedules s') other = map_of (cr_schedules s) other"
    and "map_of (cr_running s) key \<noteq> None \<Longrightarrow> map_of (cr_running s') key = map_of (cr_running s) key \<and> cr_world s' = cr_world s"
    and "map_of (cr_running s') key \<noteq> map_of (cr_running s) key \<Longrightarrow>
       (\<exists>st st'. map_of (cr_schedules s) key = Some st \<and> s_schedule service = Some (cs_schedule st) \<and> cs_deployment_id st = d_id d \<and>
          cs_next_run_at st \<le> cron_now k s \<and> map_of (cr_schedules s') key = Some st' \<and> cron_now k s < cs_next_run_at st')"
proof -
  let ?claim = "r = Inr () \<and>
    set (cr_active s') = set (cr_active s) \<union> (if s_schedule service = None then {} else {key}) \<and>
    (\<forall>other. other \<noteq> key \<longrightarrow> map_of (cr_running s') other = map_of (cr_running s) other \<and>
       map_of (cr_schedules s') other = map_of (cr_schedules s) other) \<and>
    (map_of (cr_running s) key \<noteq> None \<longrightarrow> map_of (cr_running s') key = map_of (cr_running s) key \<and> cr_world s' = cr_world s) \<and>
    (map_of (cr_running s') key \<noteq> map_of (cr_running s) key \<longrightarrow>
       (\<exists>st st'. map_of (cr_schedules s) key = Some st \<and> s_schedule service = Some (cs_schedule st) \<and> cs_deployment_id st = d_id d \<and>
          cs_next_run_at st \<le> cron_now k s \<and> map_of (cr_schedules s') key = Some st' \<and> cron_now k s < cs_next_run_at st'))"
  have ?claim
  proof (cases "s_schedule service")
    case None
    then show ?thesis using run by (auto simp: poll_service_def io_apply)
  next
    case (Some schedule)
    let ?s1 = "s\<lparr> cr_active := push_new (cr_active s) key \<rparr>"
    obtain r2 s2 where ensure: "ensure_schedule_state k key schedule (d_id d) ?s1 = (r2, s2)" by fastforce
    note e = ensure_schedule_state_result [OF laws ensure]
    then obtain found where found: "r2 = Inr found" by blast
    have now: "cron_now k ?s1 = cron_now k s" "cron_now k s2 = cron_now k s" using e by (auto simp: cron_now_def)
    show ?thesis
    proof (cases "\<exists>st. found = Some st \<and> map_of (cr_running s) key = None \<and> cs_next_run_at st \<le> cron_now k s")
      case True
      then obtain st where st: "found = Some st" "map_of (cr_running s) key = None" "cs_next_run_at st \<le> cron_now k s" by blast
      have due: "run_due_job k app d env service schedule s2 = (r, s')"
        using run e found st now ensure by (simp add: poll_service_def Some key_def Let_def io_defs)
      show ?thesis
        using run_due_job_result [OF due, folded key_def] e found st now Some next_schedule_state_later [OF laws]
        by (auto simp: cron_now_def)
    next
      case False
      then have "r = Inr () \<and> s' = s2"
        using run e found now ensure
        by (auto simp: poll_service_def Some key_def Let_def io_defs split: option.splits if_splits)
      then show ?thesis using e Some by auto
    qed
  qed
  then show "r = Inr ()" "set (cr_active s') = set (cr_active s) \<union> (if s_schedule service = None then {} else {key})"
    "\<And>other. other \<noteq> key \<Longrightarrow> map_of (cr_running s') other = map_of (cr_running s) other \<and>
       map_of (cr_schedules s') other = map_of (cr_schedules s) other"
    "map_of (cr_running s) key \<noteq> None \<Longrightarrow> map_of (cr_running s') key = map_of (cr_running s) key \<and> cr_world s' = cr_world s"
    "map_of (cr_running s') key \<noteq> map_of (cr_running s) key \<Longrightarrow>
       (\<exists>st st'. map_of (cr_schedules s) key = Some st \<and> s_schedule service = Some (cs_schedule st) \<and> cs_deployment_id st = d_id d \<and>
          cs_next_run_at st \<le> cron_now k s \<and> map_of (cr_schedules s') key = Some st' \<and> cron_now k s < cs_next_run_at st')"
    by blast+
qed

text \<open>
  C23. A run of a cron job is recorded only when it is due: a pass over one service enters a run among those in progress only
  if none is in progress and the time fixed for it, under this schedule and this deployment, in an earlier pass has come;
  the next run is then fixed to a later time, so that a slot gives at most one recorded run. A job whose schedule is seen
  for the first time waits for its next slot too. The pass leaves other jobs alone. A run is recorded when its container
  was started; attempts to start one that fail are not recorded, and the statement does not speak of them.
\<close>

theorem cron_job_runs_when_due:
  fixes app service
  defines "key \<equiv> (p_id app, s_id service)"
  assumes laws: "cron_laws k" and run: "poll_service k app d env service s = (r, s')"
  shows "r = Inr () \<and>
    (\<forall>other. other \<noteq> key \<longrightarrow> map_of (cr_running s') other = map_of (cr_running s) other \<and>
       map_of (cr_schedules s') other = map_of (cr_schedules s) other) \<and>
    (map_of (cr_running s) key \<noteq> None \<longrightarrow> map_of (cr_running s') key = map_of (cr_running s) key \<and> cr_world s' = cr_world s) \<and>
    (map_of (cr_running s') key \<noteq> map_of (cr_running s) key \<longrightarrow>
       (\<exists>st st'. map_of (cr_schedules s) key = Some st \<and> s_schedule service = Some (cs_schedule st) \<and> cs_deployment_id st = d_id d \<and>
          cs_next_run_at st \<le> cron_now k s \<and> map_of (cr_schedules s') key = Some st' \<and> cron_now k s < cs_next_run_at st'))"
  using poll_service_result [OF laws run] unfolding key_def by blast

section \<open>A pass\<close>

definition cron_view :: "'x world \<Rightarrow> project list \<times> container_service list \<times> deployment list" where
  "cron_view w = (st_apps (w_store w), st_services (w_store w), st_deployments (w_store w))"

text \<open>Nobody else changes projects, services or deployments during a pass.\<close>

definition cron_quiet :: "'x cron_env \<Rightarrow> bool" where
  "cron_quiet k \<longleftrightarrow>
     host_ops_keep (same cron_view) (k_host k) \<and> docker_keeps (same cron_view) (h_docker (k_host k)) \<and>
     (\<forall>c. io_keeps (same cron_view) (k_inspect_running k c)) \<and> (\<forall>c. io_keeps (same cron_view) (k_get_state k c))"

text \<open>The jobs the scheduler is responsible for: cron jobs with a schedule of projects with a running deployment.\<close>

definition cron_job_of :: "store \<Rightarrow> cron_key \<Rightarrow> bool" where
  "cron_job_of st key \<longleftrightarrow>
     (\<exists>app \<in> set (list_apps st). \<exists>service \<in> set (p_services app). key = (p_id app, s_id service) \<and> is_cron_job service \<and>
        s_schedule service \<noteq> None \<and> (\<exists>d \<in> set (st_deployments st). d_app_id d = p_id app \<and> d_status d = Running))"

lemma resolve_running_deployment_None:
  "resolve_running_deployment st i = None \<longleftrightarrow> \<not> (\<exists>d \<in> set (st_deployments st). d_app_id d = i \<and> d_status d = Running)"
  by (auto simp: resolve_running_deployment_def find_None_iff list_deployments_by_app_def load_deployment_def)

lemma cron_quiet_notes:
  assumes "cron_quiet k"
  shows "host_notes (same cron_view) (k_host k)"
proof -
  have "io_keeps (same cron_view) (db_write (k_host k) (\<lambda>st. append_deployment_log st i l))"
    "io_keeps (same cron_view) (db_write (k_host k) (\<lambda>st. save_service_deployment st sd))" for i l sd
    by (auto simp: io_keeps_def same_def db_write_def cron_view_def append_deployment_log_def save_service_deployment_def
        upsert_service_deployment_def split: if_splits)
  then show ?thesis using assms by (simp add: host_notes_def cron_quiet_def same.io_relation_axioms)
qed

lemma keeps_view_job:
  assumes quiet: "cron_quiet k"
  shows "io_keeps (same cron_view) (finish_job k job)" "io_keeps (same cron_view) (launch_cron_job k app d service img env)"
    "io_keeps (same cron_view) (remove_container (h_docker (k_host k)) False c)" "io_keeps (same cron_view) (log_deployment (k_host k) i l)"
proof -
  note h = cron_quiet_notes [OF quiet]
  have d: "docker_keeps (same cron_view) (h_docker (k_host k))" using quiet by (simp add: cron_quiet_def)
  note docker = docker_keeps_containers [OF same.io_relation_axioms d]
  have ops: "io_keeps (same cron_view) (k_inspect_running k c)" "io_keeps (same cron_view) (k_get_state k c)" for c
    using quiet by (simp_all add: cron_quiet_def)
  show "io_keeps (same cron_view) (finish_job k job)"
    unfolding finish_job_def is_running_def Let_def by (intro same.keeps_intros ops docker host_notes_rules(6) [OF h])
  show "io_keeps (same cron_view) (launch_cron_job k app d service img env)"
    unfolding launch_cron_job_def Let_def
    by (intro same.keeps_intros docker host_notes_rules(5,6) [OF h] host_notes_mounts [OF h] host_notesD(12) [OF h])
  show "io_keeps (same cron_view) (remove_container (h_docker (k_host k)) False c)" "io_keeps (same cron_view) (log_deployment (k_host k) i l)"
    by (intro docker host_notes_rules(6) [OF h])+
qed


definition on_cron :: "('x world \<Rightarrow> 'x world \<Rightarrow> bool) \<Rightarrow> 'x cron \<Rightarrow> 'x cron \<Rightarrow> bool" where
  "on_cron R s s' \<longleftrightarrow> R (cr_world s) (cr_world s')"

abbreviation view_kept :: "'x cron \<Rightarrow> 'x cron \<Rightarrow> bool" where
  "view_kept \<equiv> on_cron (same cron_view)"

interpretation view_kept: io_relation view_kept
  by unfold_locales (simp_all add: on_cron_def same_def)

lemma view_kept_basic:
  "io_keeps (same cron_view) m \<Longrightarrow> io_keeps view_kept (in_cron m)" "io_keeps view_kept (io_modify (\<lambda>s. s\<lparr> cr_schedules := f s \<rparr>))"
  "io_keeps view_kept (io_modify (\<lambda>s. s\<lparr> cr_running := g s \<rparr>))" "io_keeps view_kept (io_modify (\<lambda>s. s\<lparr> cr_active := h s \<rparr>))"
  "io_keeps view_kept (ensure_schedule_state k key schedule d)"
  by (auto simp: io_keeps_def on_cron_def same_def io_defs ensure_schedule_state_def split: option.splits sum.splits if_splits)

lemma view_kept_poll_service:
  assumes quiet: "cron_quiet k"
  shows "io_keeps view_kept (poll_service k app d env service)"
proof -
  have split: "io_keeps view_kept (case x of Inl e \<Rightarrow> f e | Inr y \<Rightarrow> g y)" if "\<And>e. io_keeps view_kept (f e)" "\<And>y. io_keeps view_kept (g y)"
    for x :: "string + cron_schedule_state" and f g
    using that by (cases x) auto
  have "io_keeps (same cron_view) (io_bind (io_lift (resolve_cron_image service d)) (\<lambda>img. launch_cron_job k app d service img env))"
    by (intro same.keeps_intros keeps_view_job [OF quiet])
  then have "io_keeps view_kept (run_due_job k app d env service schedule)" for schedule
    unfolding run_due_job_def Let_def by (intro view_kept.keeps_intros view_kept_basic keeps_view_job [OF quiet] split)
  then show ?thesis
    unfolding poll_service_def Let_def by (intro view_kept.keeps_intros view_kept_basic keeps_prod)
qed

text \<open>What a part of the pass does to the runs in progress: it keeps them and may add runs of active jobs.\<close>

definition runs_grow :: "cron_key set \<Rightarrow> 'x cron \<Rightarrow> 'x cron \<Rightarrow> bool" where
  "runs_grow new s s' \<longleftrightarrow>
     set (cr_active s') = set (cr_active s) \<union> new \<and>
     (\<forall>key. map_of (cr_running s) key \<noteq> None \<longrightarrow> map_of (cr_running s') key = map_of (cr_running s) key) \<and>
     (\<forall>key. map_of (cr_running s') key \<noteq> None \<longrightarrow> map_of (cr_running s) key \<noteq> None \<or> key \<in> new) \<and>
     view_kept s s'"

lemma runs_grow_trans: "runs_grow a s t \<Longrightarrow> runs_grow b t u \<Longrightarrow> runs_grow (a \<union> b) s u"
  unfolding runs_grow_def
  by (intro conjI allI impI) (auto simp: on_cron_def same_def, (metis option.distinct(1))+)

lemma runs_grow_refl: "runs_grow {} s s"
  by (simp add: runs_grow_def view_kept.R_refl)

lemma runs_grow_for:
  assumes "\<And>x s r s'. x \<in> set xs \<Longrightarrow> Q s \<Longrightarrow> f x s = (r, s') \<Longrightarrow> r = Inr () \<and> runs_grow (new x) s s' \<and> Q s'"
    and "io_for xs f s = (r, s')" and "Q s"
  shows "r = Inr () \<and> runs_grow (\<Union>x \<in> set xs. new x) s s'"
  using assms
proof (induction xs arbitrary: s)
  case (Cons x xs)
  obtain r1 s1 where f: "f x s = (r1, s1)" by fastforce
  then have 1: "r1 = Inr ()" "runs_grow (new x) s s1" "Q s1" using Cons.prems(1,3) by auto
  then have rest: "io_for xs f s1 = (r, s')" using Cons.prems(2) f by (simp add: io_defs)
  have "r = Inr () \<and> runs_grow (\<Union>x \<in> set xs. new x) s1 s'"
    by (rule Cons.IH [OF _ rest 1(3)], rule Cons.prems(1)) simp_all
  then show ?case using runs_grow_trans [OF 1(2)] by simp
qed (simp add: io_apply runs_grow_refl)

definition app_jobs :: "project \<Rightarrow> cron_key set" where
  "app_jobs app = {(p_id app, s_id service) | service. service \<in> set (p_services app) \<and> is_cron_job service \<and> s_schedule service \<noteq> None}"

lemma poll_service_grows:
  assumes "cron_laws k" "cron_quiet k" and "poll_service k app d env service s = (r, s')"
  shows "r = Inr () \<and> runs_grow (if s_schedule service = None then {} else {(p_id app, s_id service)}) s s'"
proof -
  have "view_kept s s'" using io_keepsD [OF view_kept_poll_service [OF assms(2)], of s app d env service] assms(3) by simp
  then show ?thesis
    using poll_service_result [OF assms(1,3)] by (auto simp: runs_grow_def) (metis option.distinct(1) prod.exhaust)+
qed


lemma poll_app_grows:
  assumes "cron_laws k" "cron_quiet k" and "poll_app k app s = (r, s')"
  shows "r = Inr () \<and>
    runs_grow (if \<exists>d \<in> set (st_deployments (w_store (cr_world s))). d_app_id d = p_id app \<and> d_status d = Running then app_jobs app else {}) s s'"
proof (cases "resolve_running_deployment (w_store (cr_world s)) (p_id app)")
  case None
  then show ?thesis
    using assms(3) resolve_running_deployment_None [of "w_store (cr_world s)" "p_id app"]
    by (auto simp: poll_app_def io_defs runs_grow_refl)
next
  case (Some d)
  let ?new = "\<lambda>service. if s_schedule service = None then {} else {(p_id app, s_id service)}"
  have loop: "io_for (filter is_cron_job (p_services app)) (poll_service k app d (build_shared_env_vars app)) s = (r, s')"
    using assms(3) Some by (simp add: poll_app_def io_defs)
  have "r = Inr () \<and> runs_grow (\<Union>x \<in> set (filter is_cron_job (p_services app)). ?new x) s s'"
    by (rule runs_grow_for [OF _ loop, where Q = "\<lambda>_. True"]) (use poll_service_grows [OF assms(1,2)] in auto)
  moreover have "(\<Union>x \<in> set (filter is_cron_job (p_services app)). ?new x) = app_jobs app"
    by (auto simp: app_jobs_def split: if_splits)
  moreover have "\<exists>d \<in> set (st_deployments (w_store (cr_world s))). d_app_id d = p_id app \<and> d_status d = Running"
    using Some resolve_running_deployment_None [of "w_store (cr_world s)" "p_id app"] by force
  ultimately show ?thesis by simp
qed

lemma poll_apps_grow:
  assumes "cron_laws k" "cron_quiet k" and "io_for (list_apps (w_store (cr_world s))) (poll_app k) s = (r, s')"
  shows "r = Inr () \<and> runs_grow {key. cron_job_of (w_store (cr_world s)) key} s s'"
proof -
  let ?st = "w_store (cr_world s)"
  let ?new = "\<lambda>app. if \<exists>d \<in> set (st_deployments ?st). d_app_id d = p_id app \<and> d_status d = Running then app_jobs app else {}"
  have "r = Inr () \<and> runs_grow (\<Union>x \<in> set (list_apps ?st). ?new x) s s'"
  proof (rule runs_grow_for [OF _ assms(3), where Q = "view_kept s"])
    fix app t r t'
    assume "view_kept s t" and run: "poll_app k app t = (r, t')"
    then have same: "st_deployments (w_store (cr_world t)) = st_deployments ?st" by (simp add: on_cron_def same_def cron_view_def)
    note g = poll_app_grows [OF assms(1,2) run, unfolded same]
    then have "view_kept t t'" by (simp add: runs_grow_def split: if_splits)
    then show "r = Inr () \<and> runs_grow (?new app) t t' \<and> view_kept s t'"
      using g \<open>view_kept s t\<close> view_kept.R_trans by blast
  qed (rule view_kept.R_refl)
  moreover have "(\<Union>x \<in> set (list_apps ?st). ?new x) = {key. cron_job_of ?st key}"
    by (auto simp: app_jobs_def cron_job_of_def split: if_splits)
  ultimately show ?thesis by simp
qed

lemma finish_job_Inr: "\<exists>over. fst (finish_job k job w) = Inr over"
  by (auto simp: finish_job_def is_running_def io_defs split: sum.splits)

lemma finished_keys_Inr: "\<exists>finished. fst (finished_keys k running keys w) = Inr finished"
proof (induction keys arbitrary: w)
  case (Cons key keys)
  show ?case
  proof (cases "map_of running key")
    case (Some job)
    obtain over where "fst (finish_job k job w) = Inr over" using finish_job_Inr by blast
    moreover obtain f where "fst (finished_keys k running keys (snd (finish_job k job w))) = Inr f" using Cons by blast
    ultimately show ?thesis using Some by (simp add: io_defs)
  qed (use Cons in simp)
qed (simp add: io_apply)

lemma keeps_finished_keys: "cron_quiet k \<Longrightarrow> io_keeps (same cron_view) (finished_keys k running keys)"
  by (induction keys) (auto intro!: same.keeps_intros keeps_view_job(1) split: option.splits)

lemma map_of_delete_all: "map_of (foldl (\<lambda>jobs key. AList.delete key jobs) jobs keys) key = (if key \<in> set keys then None else map_of jobs key)"
  by (induction keys arbitrary: jobs) (simp_all add: delete_conv')

lemma remove_orphans_result:
  assumes "io_for keys (remove_orphan k) s = (r, s')"
  shows "r = Inr () \<and> cr_schedules s' = cr_schedules s \<and>
    (\<forall>key. map_of (cr_running s') key = (if key \<in> set keys then None else map_of (cr_running s) key))"
  using assms
proof (induction keys arbitrary: s)
  case (Cons x keys)
  obtain r1 s1 where x: "remove_orphan k x s = (r1, s1)" by fastforce
  then have 1: "r1 = Inr () \<and> cr_schedules s1 = cr_schedules s \<and>
      (\<forall>key. map_of (cr_running s1) key = (if key = x then None else map_of (cr_running s) key))"
    by (auto simp: remove_orphan_def io_defs delete_conv' split: option.splits)
  then have "io_for keys (remove_orphan k) s1 = (r, s')" using Cons.prems x by (simp add: io_defs)
  from Cons.IH [OF this] 1 show ?case by (cases x) auto
qed (simp add: io_apply)

text \<open>The runs that the start of a pass found to be over.\<close>

definition runs_over :: "'x cron_env \<Rightarrow> 'x cron \<Rightarrow> cron_key list" where
  "runs_over k s = (case fst (finished_keys k (cr_running s) (k_order k (map fst (cr_running s))) (cr_world s)) of Inr f \<Rightarrow> f | Inl _ \<Rightarrow> [])"

lemma reconcile_result:
  assumes "cron_quiet k" and "reconcile_running_jobs k s = (r, s')"
  shows "r = Inr () \<and> view_kept s s' \<and> cr_schedules s' = cr_schedules s \<and>
    (\<forall>key. map_of (cr_running s') key = (if key \<in> set (runs_over k s) then None else map_of (cr_running s) key))"
proof -
  obtain f where f: "fst (finished_keys k (cr_running s) (k_order k (map fst (cr_running s))) (cr_world s)) = Inr f"
    using finished_keys_Inr by blast
  have "view_kept s s'"
    using io_keepsD [OF keeps_finished_keys [OF assms(1)], of "cr_world s" "cr_running s" "k_order k (map fst (cr_running s))"] assms(2) f
    by (auto simp: reconcile_running_jobs_def io_defs on_cron_def same_def)
  then show ?thesis
    using assms(2) f by (auto simp: reconcile_running_jobs_def runs_over_def io_defs map_of_delete_all)
qed

text \<open>
  \<open>running\<close> are the containers that run: an inspection that succeeds tells whether a container does; stopping or
  removing one container stops no other and starts none; and nothing else the scheduler does while it looks for finished
  runs changes which containers run. This leaves out that a container ends by itself in the middle of that.
\<close>

definition running_ok :: "'x cron_env \<Rightarrow> ('x world \<Rightarrow> string set) \<Rightarrow> bool" where
  "running_ok k running \<longleftrightarrow>
     (\<forall>c w b. fst (k_inspect_running k c w) = Inr b \<longrightarrow> b = (c \<in> running w)) \<and>
     (\<forall>c w. running (snd (k_inspect_running k c w)) = running w) \<and> (\<forall>c w. running (snd (k_get_state k c w)) = running w) \<and>
     (\<forall>c w. running w - {c} \<subseteq> running (snd (dk_stop_container (h_docker (k_host k)) c w)) \<and>
        running (snd (dk_stop_container (h_docker (k_host k)) c w)) \<subseteq> running w) \<and>
     (\<forall>c w. running w - {c} \<subseteq> running (snd (dk_remove_container (h_docker (k_host k)) c w)) \<and>
        running (snd (dk_remove_container (h_docker (k_host k)) c w)) \<subseteq> running w) \<and>
     (\<forall>w st. running (w\<lparr> w_store := st \<rparr>) = running w)"

text \<open>\<open>is_running\<close> takes a container that cannot be inspected for one that does not run.\<close>

definition inspectable :: "'x cron_env \<Rightarrow> string \<Rightarrow> bool" where
  "inspectable k c \<longleftrightarrow> (\<forall>w. \<not> isl (fst (k_inspect_running k c w)))"

lemma running_log:
  assumes "running_ok k running"
  shows "running (snd (log_deployment (k_host k) i l w)) = running w"
proof -
  have "running (w\<lparr> w_store := st \<rparr>) = running w" for st using assms by (simp add: running_ok_def)
  then show ?thesis by (simp add: log_deployment_def io_apply db_write_def split: sum.splits)
qed

lemma running_remove:
  assumes "running_ok k running"
  shows "running w - {c} \<subseteq> running (snd (remove_container (h_docker (k_host k)) False c w))"
    and "running (snd (remove_container (h_docker (k_host k)) False c w)) \<subseteq> running w"
proof -
  let ?u = "snd (dk_stop_container (h_docker (k_host k)) c w)"
  have "running w - {c} \<subseteq> running ?u" "running ?u \<subseteq> running w"
    "running ?u - {c} \<subseteq> running (snd (dk_remove_container (h_docker (k_host k)) c ?u))"
    "running (snd (dk_remove_container (h_docker (k_host k)) c ?u)) \<subseteq> running ?u"
    using assms by (simp_all add: running_ok_def)
  moreover have "snd (remove_container (h_docker (k_host k)) False c w) = snd (dk_remove_container (h_docker (k_host k)) c ?u)"
    by (simp add: remove_container_def stop_container_def io_defs)
  ultimately show "running w - {c} \<subseteq> running (snd (remove_container (h_docker (k_host k)) False c w))"
    and "running (snd (remove_container (h_docker (k_host k)) False c w)) \<subseteq> running w" by auto
qed

lemma finish_job_cases:
  "fst (k_inspect_running k (rj_container_name job) w) = Inr True \<Longrightarrow>
     finish_job k job w = (Inr False, snd (k_inspect_running k (rj_container_name job) w))"
  "fst (k_inspect_running k (rj_container_name job) w) \<noteq> Inr True \<Longrightarrow> \<exists>line. finish_job k job w =
     (Inr True, snd (remove_container (h_docker (k_host k)) False (rj_container_name job)
        (snd (log_deployment (k_host k) (rj_deployment_id job) line
           (snd (k_get_state k (rj_container_name job) (snd (k_inspect_running k (rj_container_name job) w))))))))"
proof -
  let ?u = "snd (k_inspect_running k (rj_container_name job) w)"
  have is_run: "is_running k (rj_container_name job) w = (Inr (fst (k_inspect_running k (rj_container_name job) w) = Inr True), ?u)"
    by (auto simp: is_running_def io_defs split: sum.splits)
  show "finish_job k job w = (Inr False, ?u)" if "fst (k_inspect_running k (rj_container_name job) w) = Inr True"
    using that is_run by (simp add: finish_job_def io_bind_apply io_apply)
  show "\<exists>line. finish_job k job w =
     (Inr True, snd (remove_container (h_docker (k_host k)) False (rj_container_name job)
        (snd (log_deployment (k_host k) (rj_deployment_id job) line
           (snd (k_get_state k (rj_container_name job) ?u))))))"
    if "fst (k_inspect_running k (rj_container_name job) w) \<noteq> Inr True"
    using that is_run unfolding finish_job_def
    by (cases "fst (k_get_state k (rj_container_name job) ?u)")
      (simp_all add: io_bind_apply io_apply Let_def, (rule exI, rule refl)+)
qed

text \<open>What one look at a run does: a run goes on if its container is seen running, and is over otherwise.\<close>

lemma finish_job_running:
  assumes ok: "running_ok k running"
  shows "rj_container_name job \<in> running w \<Longrightarrow> inspectable k (rj_container_name job) \<Longrightarrow>
      fst (finish_job k job w) = Inr False \<and> running (snd (finish_job k job w)) = running w"
    and "rj_container_name job \<notin> running w \<Longrightarrow> fst (finish_job k job w) = Inr True"
    and "running w - {rj_container_name job} \<subseteq> running (snd (finish_job k job w))"
    and "running (snd (finish_job k job w)) \<subseteq> running w"
proof -
  let ?c = "rj_container_name job" let ?u = "snd (k_inspect_running k ?c w)"
  have seen: "b = (?c \<in> running w)" if "fst (k_inspect_running k ?c w) = Inr b" for b
  proof -
    have "\<forall>c w b. fst (k_inspect_running k c w) = Inr b \<longrightarrow> b = (c \<in> running w)" 
      using ok unfolding running_ok_def by (rule conjunct1)
    from this [rule_format, OF that] show ?thesis .
  qed
  have u: "running ?u = running w" and g: "running (snd (k_get_state k c v)) = running v" for c v
    using ok by (simp_all add: running_ok_def)
  note goes_on = finish_job_cases(1) [of k job w]
  have over: "fst (finish_job k job w) = Inr True \<and> running ?u - {?c} \<subseteq> running (snd (finish_job k job w)) \<and>
      running (snd (finish_job k job w)) \<subseteq> running ?u" if ended: "fst (k_inspect_running k ?c w) \<noteq> Inr True"
  proof -
    let ?v = "snd (k_get_state k ?c ?u)"
    obtain line where "finish_job k job w =
        (Inr True, snd (remove_container (h_docker (k_host k)) False ?c (snd (log_deployment (k_host k) (rj_deployment_id job) line ?v))))"
      using finish_job_cases(2) [OF ended] by blast
    then show ?thesis
      using running_remove [OF ok, where c = ?c and w = "snd (log_deployment (k_host k) (rj_deployment_id job) line ?v)"]
        running_log [OF ok, of "rj_deployment_id job" line ?v] g by simp
  qed
  show "fst (finish_job k job w) = Inr False \<and> running (snd (finish_job k job w)) = running w"
    if "?c \<in> running w" "inspectable k ?c"
  proof -
    have "\<not> isl (fst (k_inspect_running k ?c w))" using that(2) by (simp add: inspectable_def)
    then obtain b where "fst (k_inspect_running k ?c w) = Inr b" by (cases "fst (k_inspect_running k ?c w)") auto
    then show ?thesis using goes_on seen that(1) u by simp
  qed
  show "fst (finish_job k job w) = Inr True" if "?c \<notin> running w"
    using that over seen by blast
  show "running w - {?c} \<subseteq> running (snd (finish_job k job w))" "running (snd (finish_job k job w)) \<subseteq> running w"
  proof -
    have "running w - {?c} \<subseteq> running (snd (finish_job k job w)) \<and> running (snd (finish_job k job w)) \<subseteq> running w"
    proof (cases "fst (k_inspect_running k ?c w) = Inr True")
      case True
      then show ?thesis using goes_on u by auto
    next
      case False
      then show ?thesis using over u by simp
    qed
    then show "running w - {?c} \<subseteq> running (snd (finish_job k job w))" "running (snd (finish_job k job w)) \<subseteq> running w" by blast+
  qed
qed

lemma finished_keys_running:
  assumes ok: "running_ok k running"
  shows "c \<in> running w \<Longrightarrow> inspectable k c \<Longrightarrow>
      c \<in> running (snd (finished_keys k jobs keys w)) \<and>
      (\<forall>finished key job. fst (finished_keys k jobs keys w) = Inr finished \<longrightarrow> map_of jobs key = Some job \<longrightarrow>
         rj_container_name job = c \<longrightarrow> key \<notin> set finished)"
    and "c \<notin> running w \<Longrightarrow> fst (finished_keys k jobs keys w) = Inr finished \<Longrightarrow> map_of jobs key = Some job \<Longrightarrow>
      rj_container_name job = c \<Longrightarrow> key \<in> set keys \<Longrightarrow> key \<in> set finished"
proof -
  show "c \<in> running (snd (finished_keys k jobs keys w)) \<and>
      (\<forall>finished key job. fst (finished_keys k jobs keys w) = Inr finished \<longrightarrow> map_of jobs key = Some job \<longrightarrow>
         rj_container_name job = c \<longrightarrow> key \<notin> set finished)" if "c \<in> running w" "inspectable k c"
    using that(1)
  proof (induction keys arbitrary: w)
    case (Cons x keys)
    show ?case
    proof (cases "map_of jobs x")
      case (Some j)
      let ?w = "snd (finish_job k j w)"
      have in': "c \<in> running ?w"
        using finish_job_running(1,3) [OF ok, where job = j and w = w] Cons.prems that(2) by (cases "rj_container_name j = c") auto
      have going: "fst (finish_job k j w) = Inr False" if "rj_container_name j = c"
        using finish_job_running(1) [OF ok, where job = j and w = w] Cons.prems \<open>inspectable k c\<close> that by simp
      obtain over where over: "fst (finish_job k j w) = Inr over" using finish_job_Inr by blast
      obtain f where f: "fst (finished_keys k jobs keys ?w) = Inr f" using finished_keys_Inr by blast
      have "finished_keys k jobs (x # keys) w = (Inr (if over then x # f else f), snd (finished_keys k jobs keys ?w))"
        using Some over f by (simp add: io_defs)
      then show ?thesis using Cons.IH [OF in'] f over going Some by auto
    qed (use Cons in simp)
  qed (simp add: io_apply)
  show "key \<in> set finished" if "c \<notin> running w" "fst (finished_keys k jobs keys w) = Inr finished" "map_of jobs key = Some job"
      "rj_container_name job = c" "key \<in> set keys"
    using that
  proof (induction keys arbitrary: w finished)
    case (Cons x keys)
    show ?case
    proof (cases "map_of jobs x")
      case None
      then show ?thesis using Cons by auto
    next
      case (Some j)
      let ?w = "snd (finish_job k j w)"
      have notin: "c \<notin> running ?w" using finish_job_running(4) [OF ok, where job = j and w = w] Cons.prems(1) by blast
      obtain over where over: "fst (finish_job k j w) = Inr over" using finish_job_Inr by blast
      obtain f where f: "fst (finished_keys k jobs keys ?w) = Inr f" using finished_keys_Inr by blast
      have fin: "finished = (if over then x # f else f)" using Some over f Cons.prems(2) by (simp add: io_defs)
      show ?thesis
      proof (cases "x = key")
        case True
        then show ?thesis
          using finish_job_running(2) [OF ok, where job = job and w = w] Cons.prems Some over fin by simp
      next
        case False
        then show ?thesis using Cons.IH [OF notin f] Cons.prems fin by simp
      qed
    qed
  qed simp
qed

lemma runs_over_running:
  assumes ok: "running_ok k running" and laws: "cron_laws k" and job: "map_of (cr_running s) key = Some job"
  shows "rj_container_name job \<in> running (cr_world s) \<Longrightarrow> inspectable k (rj_container_name job) \<Longrightarrow>
      key \<notin> set (runs_over k s) \<and> rj_container_name job \<in> running (cr_world (snd (reconcile_running_jobs k s)))"
    and "rj_container_name job \<notin> running (cr_world s) \<Longrightarrow> key \<in> set (runs_over k s)"
proof -
  let ?keys = "k_order k (map fst (cr_running s))"
  obtain f where f: "fst (finished_keys k (cr_running s) ?keys (cr_world s)) = Inr f"
    using finished_keys_Inr by blast
  have over: "runs_over k s = f" by (simp add: runs_over_def f)
  have w: "cr_world (snd (reconcile_running_jobs k s)) = snd (finished_keys k (cr_running s) ?keys (cr_world s))"
    by (simp add: reconcile_running_jobs_def io_defs f)
  have "key \<in> set (map fst (cr_running s))" using job by (cases key) (force dest: map_of_SomeD)
  then have keys: "key \<in> set ?keys" using laws by (simp add: cron_laws_def)
  show "key \<notin> set (runs_over k s) \<and> rj_container_name job \<in> running (cr_world (snd (reconcile_running_jobs k s)))"
    if "rj_container_name job \<in> running (cr_world s)" "inspectable k (rj_container_name job)"
    using finished_keys_running(1) [OF ok that, of "cr_running s" ?keys] f job unfolding over w by blast
  show "key \<in> set (runs_over k s)" if "rj_container_name job \<notin> running (cr_world s)"
    using finished_keys_running(2) [OF ok that f job refl keys] unfolding over .
qed

text \<open>
  A daemon that cannot answer an inspection cuts a run off: the caller in the scheduler means to leave the run alone then,
  but \<open>is_running\<close> has turned the error into \<open>false\<close>, so the run counts as finished and its container is
  removed by force, running or not.
\<close>

theorem inspection_error_cuts_run_off:
  assumes ok: "containers_ok (k_host k) conts" and "isl (fst (k_inspect_running k (rj_container_name job) w))"
    and "rj_container_name job \<notin> refused (h_docker (k_host k)) conts"
  shows "fst (finish_job k job w) = Inr True \<and> rj_container_name job \<notin> conts (snd (finish_job k job w))"
proof -
  let ?c = "rj_container_name job"
  obtain v where "finish_job k job w = (Inr True, snd (remove_container (h_docker (k_host k)) False ?c v))"
    using finish_job_cases(2) [of k job w] assms(2) by (auto simp: isl_def)
  then show ?thesis using names_remove_container(3) [OF containers_okD(1) [OF ok] assms(3)] by simp
qed

text \<open>
  C24. A pass of the cron scheduler never fails and never starts a second run of a job whose run is still going on: a run
  whose container runs when the pass begins is not taken for finished and its container goes on running while finished runs
  are looked for; the run stays the recorded one if its service is still a cron job with a schedule in a project with a
  running deployment, and is dropped otherwise. A run whose container does not run any more is taken off. Every run in
  progress and every schedule afterwards belongs to a current job. A container that the daemon fails to inspect is taken
  for one that has ended (\<open>inspection_error_cuts_run_off\<close>), so the first part is for containers that can be inspected.
\<close>

theorem cron_pass_keeps_runs_apart:
  assumes laws: "cron_laws k" and quiet: "cron_quiet k" and ok: "running_ok k running" and run: "poll_once k s = (r, s')"
  shows "r = Inr () \<and>
    (\<forall>key job. map_of (cr_running s) key = Some job \<and> rj_container_name job \<in> running (cr_world s) \<and>
       inspectable k (rj_container_name job) \<longrightarrow>
       rj_container_name job \<in> running (cr_world (snd (reconcile_running_jobs k s))) \<and>
       map_of (cr_running s') key = (if cron_job_of (w_store (cr_world s)) key then Some job else None)) \<and>
    (\<forall>key job. map_of (cr_running s) key = Some job \<and> rj_container_name job \<notin> running (cr_world s) \<longrightarrow>
       map_of (cr_running (snd (reconcile_running_jobs k s))) key = None) \<and>
    (\<forall>key. map_of (cr_running s') key \<noteq> None \<or> map_of (cr_schedules s') key \<noteq> None \<longrightarrow> cron_job_of (w_store (cr_world s)) key)"
proof -
  obtain r1 s1 where 1: "reconcile_running_jobs k s = (r1, s1)" by fastforce
  note rec = reconcile_result [OF quiet 1]
  let ?s2 = "s1\<lparr> cr_active := [] \<rparr>"
  let ?apps = "list_apps (w_store (cr_world s1))"
  have apps: "w_store (cr_world ?s2) = w_store (cr_world s1)" by simp
  obtain r3 s3 where 3: "io_for ?apps (poll_app k) ?s2 = (r3, s3)" by fastforce
  note grow = poll_apps_grow [OF laws quiet 3 [folded apps], unfolded apps]
  have jobs: "cron_job_of (w_store (cr_world s1)) key = cron_job_of (w_store (cr_world s)) key" for key
    using rec by (simp add: cron_job_of_def on_cron_def same_def cron_view_def list_apps_def load_app_def list_services_by_app_def)
  have active: "set (cr_active s3) = {key. cron_job_of (w_store (cr_world s)) key}" using grow by (simp add: runs_grow_def jobs)
  let ?s4 = "s3\<lparr> cr_schedules := filter (\<lambda>(key, _). key \<in> set (cr_active s3)) (cr_schedules s3) \<rparr>"
  let ?orphaned = "filter (\<lambda>key. key \<notin> set (cr_active s3)) (k_order k (map fst (cr_running s3)))"
  have "io_for ?orphaned (remove_orphan k) ?s4 = (r, s')"
    using run 1 rec 3 grow by (simp add: poll_once_def io_defs db_read_def)
  note orphans = remove_orphans_result [OF this]
  have running_after: "map_of (cr_running s') key = (if cron_job_of (w_store (cr_world s)) key then map_of (cr_running s3) key else None)" for key
  proof -
    have "key \<in> set ?orphaned \<longleftrightarrow> \<not> cron_job_of (w_store (cr_world s)) key \<and> map_of (cr_running s3) key \<noteq> None"
      using laws active by (auto simp: cron_laws_def map_of_eq_None_iff)
    moreover have "map_of (cr_running s') key = (if key \<in> set ?orphaned then None else map_of (cr_running ?s4) key)"
      using orphans by blast
    ultimately show ?thesis by (cases "map_of (cr_running s3) key") auto
  qed
  have schedules: "cron_job_of (w_store (cr_world s)) key" if "map_of (cr_schedules s') key \<noteq> None" for key
    using that orphans active by (auto simp: map_of_eq_None_iff)
  have kept: "map_of (cr_running s3) key = Some job" if "map_of (cr_running s) key = Some job" "key \<notin> set (runs_over k s)" for key job
  proof -
    have "map_of (cr_running ?s2) key = Some job" using that rec by (cases key) simp
    then show ?thesis using grow by (cases key) (simp add: runs_grow_def)
  qed
  show ?thesis
  proof (intro conjI allI impI)
    show "r = Inr ()" using orphans by blast
  next
    fix key job
    assume a: "map_of (cr_running s) key = Some job \<and> rj_container_name job \<in> running (cr_world s) \<and>
      inspectable k (rj_container_name job)"
    then have over: "key \<notin> set (runs_over k s) \<and> rj_container_name job \<in> running (cr_world (snd (reconcile_running_jobs k s)))"
      using runs_over_running(1) [OF ok laws] by blast
    then show "rj_container_name job \<in> running (cr_world (snd (reconcile_running_jobs k s)))" by blast
    show "map_of (cr_running s') key = (if cron_job_of (w_store (cr_world s)) key then Some job else None)"
      using running_after [of key] kept [of key job] a over by simp
  next
    show "map_of (cr_running (snd (reconcile_running_jobs k s))) key = None"
      if "map_of (cr_running s) key = Some job \<and> rj_container_name job \<notin> running (cr_world s)" for key job
    proof -
      have "key \<in> set (runs_over k s)" using runs_over_running(2) [OF ok laws] that by blast
      moreover have "\<forall>key. map_of (cr_running s1) key = (if key \<in> set (runs_over k s) then None else map_of (cr_running s) key)"
        using rec by blast
      ultimately show ?thesis by (metis 1 snd_conv)
    qed
  next
    show "cron_job_of (w_store (cr_world s)) key" if "map_of (cr_running s') key \<noteq> None \<or> map_of (cr_schedules s') key \<noteq> None" for key
      using running_after [of key] schedules [of key] that by (auto split: if_splits)
  qed
qed


section \<open>Container names\<close>

lemma cron_name_depends_on_prefix:
  assumes "truncate_name (sanitize_name (s_name a)) 12 = truncate_name (sanitize_name (s_name b)) 12" and "k_stamp k t = k_stamp k t'"
  shows "cron_container_name k app a t = cron_container_name k app b t'"
  using assms by (simp add: cron_container_name_def)

lemma create_container_taken:
  assumes "docker_ok api conts" and "\<And>n b w. n \<in> conts w \<Longrightarrow> isl (fst (dk_create_container api n b w))" and "dc_id c \<in> conts w"
  shows "isl (fst (create_container api False c w))"
proof -
  let ?seeds = "io_for (filter bm_seed_from_image (dc_mounts c)) (seed_bind_mount api (dc_id c) (dc_image c))"
  have "fst (io_for ms (seed_bind_mount api i img) w) = Inr ()" for ms i img w
    by (induction ms arbitrary: w) (simp_all add: io_defs seed_bind_mount_def)
  moreover have "dc_id c \<in> conts (snd (?seeds w))" using assms(1,3) by (simp add: names_seeds)
  then have "isl (fst (dk_create_container api (dc_id c) (container_body_of c) (snd (?seeds w))))" by (rule assms(2))
  ultimately show ?thesis by (auto simp: create_container_def io_defs isl_def)
qed

text \<open>
  C25. The container of a run is named after the project, the first twelve characters of the service's name and the second
  in which it starts. So two cron jobs whose names begin alike cannot start in the same second: creating the second
  container fails because the name is taken, and the cleanup of the failed start then removes the container of the first
  job, whose run is cut off (unless the daemon refuses the removal).
\<close>

theorem cron_jobs_with_similar_names_collide:
  assumes ok: "containers_ok (k_host k) conts" and taken: "\<And>n b w. n \<in> conts w \<Longrightarrow> isl (fst (dk_create_container (h_docker (k_host k)) n b w))"
    and similar: "truncate_name (sanitize_name (s_name a)) 12 = truncate_name (sanitize_name (s_name b)) 12"
    and second: "k_stamp k (h_now (k_host k) w) = k_stamp k t" and running: "cron_container_name k app a t \<in> conts w"
    and nopull: "\<not> should_pull_service_image b img" and kept: "cron_container_name k app a t \<notin> refused (h_docker (k_host k)) conts"
    and net: "\<And>w. fst (create_network (h_docker (k_host k)) False (network_name (h_show_uuid (k_host k)) app) w) = Inr ()"
    and mounts: "\<And>w. \<not> isl (fst (build_service_mounts (h_show_uuid (k_host k)) (h_fs (k_host k)) (k_work_dir k) (p_id app) b w))"
  shows "isl (fst (launch_cron_job k app d b img env w)) \<and> cron_container_name k app a t \<notin> conts (snd (launch_cron_job k app d b img env w))"
proof -
  let ?h = "k_host k" let ?n = "cron_container_name k app a t" let ?net = "network_name (h_show_uuid (k_host k)) app"
  have n: "cron_container_name k app b (h_now ?h w) = ?n"
    using cron_name_depends_on_prefix [of b a] similar second by metis
  note docker = containers_okD(1) [OF ok] and hn = host_keepsD(1) [OF containers_okD(2) [OF ok]]
  define w1 where "w1 = snd (create_network (h_docker ?h) False ?net w)"
  obtain ms w2 where m: "build_service_mounts (h_show_uuid ?h) (h_fs ?h) (k_work_dir k) (p_id app) b w1 = (Inr ms, w2)"
    using mounts [of w1] by (metis prod.collapse sum.collapse(2))
  define w3 where "w3 = snd (log_deployment ?h (d_id d) (''starting cron job '' @ s_name b) w2)"
  have "conts w1 = conts w" by (simp add: w1_def names_create_network [OF docker])
  moreover have "conts w2 = conts w1"
    using keeps_names [OF host_notes_mounts [OF hn, of "h_show_uuid ?h" "k_work_dir k" "p_id app" b], of w1] m by simp
  moreover have "conts w3 = conts w2" by (simp add: w3_def keeps_names host_notes_rules(6) [OF hn])
  ultimately have in3: "?n \<in> conts w3" using running by simp
  let ?c = "cron_config app b img ?n ?net env ms"
  obtain e w4 where c: "create_container (h_docker ?h) False ?c w3 = (Inl e, w4)"
    using create_container_taken [OF docker taken, of ?c w3] in3 by (auto simp: cron_config_def isl_def prod_eq_iff)
  have "launch_cron_job k app d b img env w = (Inl e, snd (remove_container (h_docker ?h) False ?n w4))"
    using nopull net c [unfolded w3_def] m
    by (simp add: launch_cron_job_def Let_def io_defs n w1_def [symmetric])
  then show ?thesis using names_remove_container(3) [OF docker kept] by simp
qed


section \<open>An instance\<close>

definition demo_cron :: "(string list \<times> int) cron_env" where
  "demo_cron =
     \<lparr> k_host = demo_host, k_work_dir = ''/w'', k_encryption_secret = None,
       k_next = \<lambda>schedule t. if schedule = ''* * * * *'' then Inr (t + seconds 60) else Inl ''invalid'',
       k_inspect_running = (\<lambda>c w. (Inr (c \<in> set (fst (w_ext w))), w)), k_get_state = \<lambda>_. io_fail ''gone'', k_stamp = \<lambda>_. ''20250101000000'', k_order = id \<rparr>"

lemma demo_cron_laws: "cron_laws demo_cron" "cron_quiet demo_cron"
  by (auto simp: cron_laws_def cron_quiet_def demo_cron_def seconds_def io_keeps_def io_apply same_def cron_view_def
      intro!: demo_ops demo_docker_keeps split: if_splits)

definition demo_cron_job :: running_cron_job where
  "demo_cron_job = \<lparr> rj_container_name = ''containr-cron-1'', rj_deployment_id = 3, rj_service_name = ''web'' \<rparr>"

definition demo_cron_state :: "(string list \<times> int) cron" where
  "demo_cron_state =
     \<lparr> cr_world = demo_world\<lparr> w_store := empty_store \<rparr>, cr_schedules = [], cr_running = [((1, 2), demo_cron_job)], cr_active = [] \<rparr>"

theorem cron_job_runs_when_due_witness:
  "\<exists>s'. poll_service demo_cron demo_app demo_deployment [] (demo_web\<lparr> s_schedule := Some ''* * * * *'' \<rparr>) demo_cron_state = (Inr (), s') \<and>
     map_of (cr_running s') (1, 2) = Some demo_cron_job"
proof -
  let ?service = "demo_web\<lparr> s_schedule := Some ''* * * * *'' \<rparr>"
  obtain r s' where run: "poll_service demo_cron demo_app demo_deployment [] ?service demo_cron_state = (r, s')" by fastforce
  have "map_of (cr_running demo_cron_state) (p_id demo_app, s_id ?service) = Some demo_cron_job"
    by (simp add: demo_cron_state_def)
  then have "r = Inr () \<and> map_of (cr_running s') (p_id demo_app, s_id ?service) = Some demo_cron_job"
    using cron_job_runs_when_due [OF demo_cron_laws(1) run] by (metis option.distinct(1))
  then show ?thesis using run by simp
qed

text \<open>
  Two runs in progress: one of the job \<open>(1, 2)\<close>, whose container runs, and one of a service that is gone, whose
  container has ended.
\<close>

definition demo_running_containers :: "(string list \<times> int) world \<Rightarrow> string set" where
  "demo_running_containers w = set (fst (w_ext w))"

lemma demo_running_ok: "running_ok demo_cron demo_running_containers"
  by (auto simp: running_ok_def demo_cron_def demo_running_containers_def io_apply lift_docker_def lift_ext_def demo_docker_def case_prod_beta)

definition demo_cron_store :: store where
  "demo_cron_store =
     demo_store1\<lparr> st_services := [demo_web\<lparr> s_service_type := CronJob, s_schedule := Some ''* * * * *'' \<rparr>],
       st_deployments := [demo_deployment\<lparr> d_status := Running \<rparr>] \<rparr>"

definition demo_two_runs :: "(string list \<times> int) cron" where
  "demo_two_runs =
     \<lparr> cr_world = demo_world\<lparr> w_store := demo_cron_store, w_ext := ([''containr-cron-1''], 100) \<rparr>, cr_schedules = [],
       cr_running = [((1, 2), demo_cron_job), ((1, 9), demo_cron_job\<lparr> rj_container_name := ''containr-cron-9'' \<rparr>)], cr_active = [] \<rparr>"

theorem cron_pass_keeps_runs_apart_witness:
  "\<exists>s'. poll_once demo_cron demo_two_runs = (Inr (), s') \<and> map_of (cr_running s') (1, 2) = Some demo_cron_job \<and>
     map_of (cr_running (snd (reconcile_running_jobs demo_cron demo_two_runs))) (1, 9) = None"
proof -
  obtain r s' where run: "poll_once demo_cron demo_two_runs = (r, s')" by fastforce
  note pass = cron_pass_keeps_runs_apart [OF demo_cron_laws demo_running_ok run]
  have "\<exists>app \<in> set (list_apps demo_cron_store). p_id app = 1 \<and>
      p_services app = [demo_web\<lparr> s_service_type := CronJob, s_schedule := Some ''* * * * *'' \<rparr>]"
    by (simp add: list_apps_def load_app_def list_services_by_app_def demo_cron_store_def demo_store1_def app_row_def
        demo_app_def project_new_def demo_web_def container_service_new_def)
  moreover have "\<exists>d \<in> set (st_deployments demo_cron_store). d_app_id d = 1 \<and> d_status d = Running"
    by (simp add: demo_cron_store_def demo_deployment_def deployment_new_def)
  ultimately have "cron_job_of demo_cron_store (1, 2)"
    unfolding cron_job_of_def by (force simp: is_cron_job_def)
  then have job: "cron_job_of (w_store (cr_world demo_two_runs)) (1, 2)" by (simp add: demo_two_runs_def)
  have "map_of (cr_running demo_two_runs) (1, 2) = Some demo_cron_job \<and>
      rj_container_name demo_cron_job \<in> demo_running_containers (cr_world demo_two_runs) \<and>
      inspectable demo_cron (rj_container_name demo_cron_job)"
    by (simp add: demo_two_runs_def demo_cron_job_def demo_running_containers_def inspectable_def demo_cron_def io_apply)
  then have "map_of (cr_running s') (1, 2) = Some demo_cron_job" using pass job by metis
  moreover have "map_of (cr_running demo_two_runs) (1, 9) = Some (demo_cron_job\<lparr> rj_container_name := ''containr-cron-9'' \<rparr>) \<and>
      rj_container_name (demo_cron_job\<lparr> rj_container_name := ''containr-cron-9'' \<rparr>) \<notin> demo_running_containers (cr_world demo_two_runs)"
    by (simp add: demo_two_runs_def demo_cron_job_def demo_running_containers_def)
  then have "map_of (cr_running (snd (reconcile_running_jobs demo_cron demo_two_runs))) (1, 9) = None" using pass by metis
  ultimately show ?thesis using run pass by blast
qed

theorem cron_jobs_with_similar_names_collide_witness:
  "\<exists>name w. name \<in> demo_conts w \<and> cron_container_name demo_cron demo_app (demo_web\<lparr> s_name := ''database-backup-a'' \<rparr>) 100 = name \<and>
     name \<notin> demo_conts (snd (launch_cron_job demo_cron demo_app demo_deployment (demo_web\<lparr> s_name := ''database-backup-b'' \<rparr>) ''other'' [] w))"
proof -
  let ?a = "demo_web\<lparr> s_name := ''database-backup-a'' \<rparr>" and ?b = "demo_web\<lparr> s_name := ''database-backup-b'' \<rparr>"
  let ?name = "cron_container_name demo_cron demo_app ?a 100"
  let ?w = "demo_world\<lparr> w_ext := ([?name], 100) \<rparr>"
  have k: "k_host demo_cron = demo_host" "k_work_dir demo_cron = ''/w''" by (simp_all add: demo_cron_def)
  have "last ?name = CHR ''0''" by (simp add: cron_container_name_def demo_cron_def)
  then have "\<not> seed_helper ?name" by (auto simp: seed_helper_def ends_with_iff)
  then have run: "?name \<in> demo_conts ?w" by (simp add: demo_conts_def)
  have ok: "containers_ok (k_host demo_cron) demo_conts" by (simp add: k demo_containers_ok)
  have similar: "truncate_name (sanitize_name (s_name ?a)) 12 = truncate_name (sanitize_name (s_name ?b)) 12"
    by (simp, code_simp)
  have kept: "?name \<notin> refused (h_docker (k_host demo_cron)) demo_conts"
    by (auto simp: refused_def k lift_docker_def lift_ext_def demo_docker_def demo_conts_def case_prod_beta)
  have nopull: "\<not> should_pull_service_image ?b ''other''"
    by (simp add: should_pull_service_image_def trim_def trim_start_def trim_end_def is_whitespace_def scalar_def)
  have "?name \<notin> demo_conts (snd (launch_cron_job demo_cron demo_app demo_deployment ?b ''other'' [] ?w))"
  proof (rule conjunct2 [OF cron_jobs_with_similar_names_collide [OF ok _ similar _ run nopull kept]])
    show "k_stamp demo_cron (h_now (k_host demo_cron) ?w) = k_stamp demo_cron 100" by (simp add: demo_cron_def)
    show "isl (fst (dk_create_container (h_docker (k_host demo_cron)) n b w))" if "n \<in> demo_conts w" for n b w
      using that by (simp add: k lift_docker_def lift_ext_def demo_docker_def demo_conts_def case_prod_beta)
    show "fst (create_network (h_docker (k_host demo_cron)) False (network_name (h_show_uuid (k_host demo_cron)) demo_app) w) = Inr ()" for w
      by (simp add: k create_network_def create_bridge_network_def lift_docker_def lift_ext_def demo_docker_def io_defs)
    show "\<not> isl (fst (build_service_mounts (h_show_uuid (k_host demo_cron)) (h_fs (k_host demo_cron)) (k_work_dir demo_cron) (p_id demo_app) ?b w))" for w
      by (simp add: k build_service_mounts_def write_config_files_def demo_host_def demo_fs_def io_defs)
  qed
  with run show ?thesis by blast
qed

end
