(* ===== verification/Spec2Isabelle.thy ===== *)
theory Spec2Isabelle
  imports Rust_Prelude Effects Models Managed_Services Routes Access_Gate Proxy Toposort Deploy_Pause Store Store_Logs Store_Rows Service_Inventory
    Docker Service_Support Worker_Images Worker Worker_Safety Worker_Switch Service_Requests Service_Rules Service_Updates
    Api_State Deployments_Api Deployment_Queue Webhooks Service_Conflicts Service_Creation Creation_Safety
    Sessions Session_Safety Cron_Scheduler Cron_Safety
begin

text \<open>
  \<^bold>\<open>Verification of containr\<close>, a platform-as-a-service in one binary: users describe projects of
  container services, a worker builds and rolls them out with Docker, a reverse proxy routes requests to
  the running containers, and an HTTP API with a SQLite database ties the parts together. The Rust code is
  under \<open>src/crates\<close>; the development models its core logic as HOL functions and proves what makes it correct.

  \<^bold>\<open>How code is modelled.\<close> Structs are records, enums are datatypes, integers keep their width as words,
  Unix times are integers, and \<open>Result\<close> is a sum with \<open>Inl\<close> for the error. A \<open>str\<close> is the list of its
  scalar values up to U+00FF. Effects are state passing (\<open>Effects\<close>): an \<open>async fn\<close> is a function from the world to a
  result and the next world. Crates and the outside (argon2, JWT signing, ciphers, base64, the cron parser, DNS, Docker's
  socket, git, the file system, clocks and random numbers) are arguments of the definitions, mostly
  collected in records (\<open>proxy_api\<close>, \<open>docker_api\<close>, \<open>fs_api\<close>, \<open>host\<close>, \<open>crypto\<close>, \<open>build_env\<close>); what a theorem needs
  of them is a named hypothesis (\<open>jwt_laws\<close>, \<open>docker_ok\<close>, \<open>clock_ok\<close>, \<open>crypto_ok\<close>, \<open>host_ops_keep\<close>,
  \<open>quiet\<close>) with a concrete instance in the theorem's witness.

  \<^bold>\<open>The theories.\<close>
  \<^item> \<open>Rust_Prelude\<close>: strings, paths, \<open>Option\<close>, \<open>Result\<close> and loops of the standard library, with the lemmas that the
    components share. \<open>Effects\<close>: the state-passing combinators and the locale \<open>io_relation\<close>, which carries a
    relation between states through them.
  \<^item> \<open>Models\<close> (\<open>containr-common/src/models.rs\<close>): services, projects, deployments, certificates, registries, repository
    addresses and generated domains.
  \<^item> \<open>Routes\<close> (\<open>containr-proxy/src/routes.rs\<close>): the route table with its reference-counted routes as an explicit
    heap, the load balancers and the basic auth cache. The table refines a map; in-flight counters equal the open
    requests of every reachable state; round robin is fair; the cache answers as the check without it.
  \<^item> \<open>Access_Gate\<close> (\<open>access_gate.rs\<close>, \<open>handlers/gate.rs\<close>): login gate tokens and passes. \<open>Proxy\<close>
    (\<open>pingora_proxy.rs\<close>): the path of a request. Exactly the authorized requests are forwarded, the gate cookie
    stays in the proxy, and a request's life is a sequence of traffic steps of \<open>Routes\<close>.
  \<^item> \<open>Store\<close>, \<open>Store_Logs\<close> (\<open>db.rs\<close>): the tables and the statements on them, with unique keys, foreign keys and
    cascades. Reachable databases are consistent, saving and loading round-trips, logs keep the latest lines in order.
  \<^item> \<open>Toposort\<close> (\<open>worker.rs\<close>, \<open>topological_sort_services\<close>): Kahn's algorithm; it ends, it is correct, and it
    fails exactly on cyclic dependencies (for distinct names).
  \<^item> \<open>Deploy_Pause\<close> (\<open>worker.rs\<close>, \<open>handlers/updates.rs\<close>): the flags by which a self-update and the job loop avoid
    each other, as interleaved steps over sequentially consistent atomics.
  \<^item> \<open>Docker\<close> (\<open>docker.rs\<close>), \<open>Service_Support\<close> (\<open>service_support.rs\<close>, \<open>encryption.rs\<close>, \<open>image.rs\<close>): containers,
    health checks, mounts, config files, credentials and image references.
  \<^item> \<open>Worker_Images\<close>, \<open>Worker\<close> (\<open>worker.rs\<close>): a deployment job from its row to running containers.
    \<open>Worker_Safety\<close>: a failed rollout leaves the containers that ran before it, a successful one switches to the new
    ones, and a job keeps the database consistent whatever fails. \<open>Worker_Switch\<close>: which deployment is the running one,
    failed and superseded jobs.
  \<^item> \<open>Service_Requests\<close> (\<open>containr-api/src/domain/services/mod.rs\<close>, \<open>security.rs\<close>): the bodies of the service API,
    the check of every field, \<open>build_services\<close> and the masked answers. \<open>Service_Rules\<close>: the contract of a
    field as the locale \<open>field_rule\<close>, its interpretations, and the well-formedness of what is accepted.
    \<open>Service_Updates\<close>: resubmission, updates of one service, host paths, secrets.
  \<^item> \<open>Managed_Services\<close> (\<open>managed_services.rs\<close>): databases, queues and buckets. \<open>Service_Inventory\<close>
    (\<open>service_inventory.rs\<close>, \<open>db.rs\<close>): the list of everything a user owns, with the status of each service.
    \<open>Store_Rows\<close>: facts on rows of deployments that the worker and the API share.
  \<^item> \<open>Api_State\<close> (\<open>state.rs\<close>, \<open>github.rs\<close>, \<open>deployment_source.rs\<close>): the state of the API (the world and the queue of
    jobs), ownership of services, the GitHub client and where the source of a deployment comes from. \<open>Deployments_Api\<close>
    (\<open>handlers/deployments.rs\<close>, \<open>domain/services/mod.rs\<close>): the handlers for deployments. \<open>Deployment_Queue\<close>: a
    deployment is saved and queued or neither, what is superseded, which rollbacks are accepted. \<open>Webhooks\<close>
    (\<open>handlers/webhooks.rs\<close>): signed pushes and deploy hooks.

  \<^bold>\<open>Loops and bounds.\<close> Loops are structural recursion on the data they run over. Kahn's loop is a
  \<open>partial_function\<close> that is proved to return. The health check polls every two seconds until its timeout: its fuel
  is half the timeout in seconds, rounded up, which \<open>wait_for_healthy_ends\<close> shows to be enough when the clock
  advances by the time slept. Pages of GitHub are read with fuel, and running out of it is an error of its own. Word arithmetic wraps as the release build does (\<open>memory_limit_mb * 1024 * 1024\<close>,
  in-flight counters).

  \<^bold>\<open>Not modelled.\<close> The command line client, the web frontend, process start, logging, static files and the OpenAPI
  document; the transport (Pingora, TLS, Axum extractors, WebSockets, SQL text, JSON); Docker's log, statistics and
  exec streams; building and pulling images; ACME and S3 clients. These are input and output around libraries
  outside the repository. Sessions and their handlers, the managers of databases and queues, the cron scheduler and the
  update check are not modelled yet.
\<close>

end
